(* ===== verification/Prelude.thy ===== *)
theory Prelude
  imports Main "HOL-Library.AList" "HOL-Library.Char_ord" "HOL-Library.List_Lexorder"
begin

text \<open>
  Shared vocabulary of the development: results with an error value, keyed tables with the
  behaviour of a SQL table under its primary key, and the string primitives of ECMAScript the
  program uses (decimal digits, trimming, splitting, joining, case folding).

  Strings are lists of characters; the program's strings are sequences of UTF-16 code units, and
  the two agree on ASCII text, which is all the program inspects character by character.
  A text containing an em dash or an ellipsis holds its UTF-8 bytes.
\<close>

named_theorems res_simps \<open>rewriting of results with an error value\<close>
named_theorems tbl_simps \<open>rewriting of keyed tables\<close>
named_theorems inv_intros \<open>preservation of the invariants\<close>

section \<open>Results with an error value\<close>

text \<open>
  \<open>Inl\<close> is a thrown error, \<open>Inr\<close> a returned value; \<open>bindE\<close> is sequencing: what follows a
  throwing expression does not run.
\<close>

definition bindE :: "'e + 'a \<Rightarrow> ('a \<Rightarrow> 'e + 'b) \<Rightarrow> 'e + 'b" where
  "bindE m f = (case m of Inl e \<Rightarrow> Inl e | Inr x \<Rightarrow> f x)"

lemma bindE_Inl [simp, res_simps]: "bindE (Inl e) f = Inl e"
  by (simp add: bindE_def)

lemma bindE_Inr [simp, res_simps]: "bindE (Inr x) f = f x"
  by (simp add: bindE_def)

lemma bindE_eq_Inr [res_simps]: "bindE m f = Inr y \<longleftrightarrow> (\<exists>x. m = Inr x \<and> f x = Inr y)"
  by (cases m) auto

lemma bindE_eq_Inl [res_simps]:
  "bindE m f = Inl e \<longleftrightarrow> m = Inl e \<or> (\<exists>x. m = Inr x \<and> f x = Inl e)"
  by (cases m) auto

lemma bindE_InrE:
  assumes "bindE m f = Inr y"
  obtains x where "m = Inr x" and "f x = Inr y"
  using assms by (auto simp: bindE_eq_Inr)

lemma bindE_assoc: "bindE (bindE m f) g = bindE m (\<lambda>x. bindE (f x) g)"
  by (cases m) auto

definition is_ok :: "'e + 'a \<Rightarrow> bool" where
  "is_ok r = (case r of Inl _ \<Rightarrow> False | Inr _ \<Rightarrow> True)"

lemma is_ok_simps [simp, res_simps]: "is_ok (Inr x)" "\<not> is_ok (Inl e)"
  by (simp_all add: is_ok_def)

text \<open>A loop over a list that stops at the first throw.\<close>

fun foldE :: "('a \<Rightarrow> 's \<Rightarrow> 'e + 's) \<Rightarrow> 'a list \<Rightarrow> 's \<Rightarrow> 'e + 's" where
  "foldE f [] s = Inr s"
| "foldE f (x # xs) s = bindE (f x s) (foldE f xs)"

lemma foldE_append: "foldE f (xs @ ys) s = bindE (foldE f xs s) (foldE f ys)"
proof (induction xs arbitrary: s)
  case (Cons x xs)
  then show ?case by (cases "f x s") auto
qed simp

lemma foldE_invariant:
  assumes "foldE f xs s = Inr s'" and "I s"
    and "\<And>x s s'. x \<in> set xs \<Longrightarrow> I s \<Longrightarrow> f x s = Inr s' \<Longrightarrow> I s'"
  shows "I s'"
  using assms
proof (induction xs arbitrary: s)
  case Nil
  then show ?case by simp
next
  case (Cons x xs)
  from Cons.prems(1) obtain t where t: "f x s = Inr t" and r: "foldE f xs t = Inr s'"
    by (auto simp: bindE_eq_Inr)
  have "I t" using Cons.prems(2,3) t by (meson list.set_intros(1))
  with r show ?case
    by (rule Cons.IH) (use Cons.prems(3) in \<open>meson list.set_intros(2)\<close>)
qed

lemma foldE_simulation:
  assumes "foldE f xs s = Inr s'" and "R s t"
    and "\<And>x s s' t. x \<in> set xs \<Longrightarrow> R s t \<Longrightarrow> f x s = Inr s' \<Longrightarrow>
           \<exists>t'. g x t = Inr t' \<and> R s' t'"
  shows "\<exists>t'. foldE g xs t = Inr t' \<and> R s' t'"
  using assms
proof (induction xs arbitrary: s t)
  case Nil
  then show ?case by simp
next
  case (Cons x xs)
  from Cons.prems(1) obtain u where u: "f x s = Inr u" and r: "foldE f xs u = Inr s'"
    by (auto simp: bindE_eq_Inr)
  obtain v where v: "g x t = Inr v" "R u v"
    using Cons.prems(2,3) u by (meson list.set_intros(1))
  have "\<exists>t'. foldE g xs v = Inr t' \<and> R s' t'"
    using r v(2) by (rule Cons.IH) (use Cons.prems(3) in \<open>meson list.set_intros(2)\<close>)
  with v(1) show ?case by simp
qed

section \<open>Keyed tables\<close>

text \<open>
  A table with a primary key is an association list in insertion order: \<open>tget\<close> is a lookup by
  key, \<open>tput\<close> an \<open>INSERT ... ON CONFLICT DO UPDATE\<close> of the whole row, \<open>tmod\<close> an \<open>UPDATE\<close> of
  the row with the key, which changes nothing when there is none, and \<open>tdel\<close> a \<open>DELETE\<close>.
\<close>

type_synonym ('k, 'r) tbl = "('k \<times> 'r) list"

definition tget :: "('k, 'r) tbl \<Rightarrow> 'k \<Rightarrow> 'r option" where
  "tget t k = map_of t k"

definition tput :: "'k \<Rightarrow> 'r \<Rightarrow> ('k, 'r) tbl \<Rightarrow> ('k, 'r) tbl" where
  "tput k r t = AList.update k r t"

definition tmod :: "'k \<Rightarrow> ('r \<Rightarrow> 'r) \<Rightarrow> ('k, 'r) tbl \<Rightarrow> ('k, 'r) tbl" where
  "tmod k f t = AList.map_entry k f t"

definition tdel :: "'k \<Rightarrow> ('k, 'r) tbl \<Rightarrow> ('k, 'r) tbl" where
  "tdel k t = AList.delete k t"

definition trows :: "('k, 'r) tbl \<Rightarrow> 'r list" where
  "trows t = map snd t"

definition tkeys :: "('k, 'r) tbl \<Rightarrow> 'k list" where
  "tkeys t = map fst t"

definition tuniq :: "('k, 'r) tbl \<Rightarrow> bool" where
  "tuniq t = distinct (map fst t)"

lemma tget_Nil [simp, tbl_simps]: "tget [] k = None"
  by (simp add: tget_def)

lemma tget_tput [simp, tbl_simps]:
  "tget (tput k r t) k' = (if k' = k then Some r else tget t k')"
  by (simp add: tget_def tput_def update_conv')

lemma tget_tmod [simp, tbl_simps]:
  "tget (tmod k f t) k' = (if k' = k then map_option f (tget t k) else tget t k')"
  unfolding tget_def tmod_def by (induction t) auto

lemma tget_tdel [simp, tbl_simps]:
  "tget (tdel k t) k' = (if k' = k then None else tget t k')"
  by (simp add: tget_def tdel_def delete_conv')

lemma tuniq_Nil [simp, tbl_simps]: "tuniq []"
  by (simp add: tuniq_def)

lemma tuniq_tput [simp, tbl_simps]: "tuniq t \<Longrightarrow> tuniq (tput k r t)"
  by (simp add: tuniq_def tput_def distinct_update)

lemma map_fst_map_entry: "map fst (AList.map_entry k f t) = map fst t"
  by (induction t) auto

lemma tuniq_tmod [simp, tbl_simps]: "tuniq (tmod k f t) = tuniq t"
  by (simp add: tuniq_def tmod_def map_fst_map_entry)

lemma tuniq_tdel [simp, tbl_simps]: "tuniq t \<Longrightarrow> tuniq (tdel k t)"
  by (simp add: tuniq_def tdel_def distinct_delete)

lemma tget_in_keys: "tget t k = None \<longleftrightarrow> k \<notin> set (tkeys t)"
  by (simp add: tget_def tkeys_def map_of_eq_None_iff)

lemma tkeys_tmod [simp, tbl_simps]: "tkeys (tmod k f t) = tkeys t"
  by (simp add: tkeys_def tmod_def map_fst_map_entry)

lemma tmod_absent [simp, tbl_simps]: "tget t k = None \<Longrightarrow> tmod k f t = t"
  unfolding tget_def tmod_def by (induction t) (auto split: if_splits)

lemma tput_same [simp, tbl_simps]: "tget t k = Some r \<Longrightarrow> tput k r t = t"
  unfolding tget_def tput_def by (induction t) (auto split: if_splits)

lemma tput_fresh: "tget t k = None \<Longrightarrow> tput k r t = t @ [(k, r)]"
  unfolding tget_def tput_def by (induction t) (auto split: if_splits)

lemma tget_in_rows: "tget t k = Some r \<Longrightarrow> r \<in> set (trows t)"
  unfolding tget_def trows_def by (force dest: map_of_SomeD)

lemma trows_simps [simp, tbl_simps]: "trows [] = []" "trows ((k, r) # t) = r # trows t"
  by (simp_all add: trows_def)

text \<open>What a \<open>SELECT sum(...)\<close> over a table becomes when one row is inserted or changed.\<close>

definition tsum :: "('r \<Rightarrow> int) \<Rightarrow> ('k, 'r) tbl \<Rightarrow> int" where
  "tsum f t = sum_list (map f (trows t))"

lemma tsum_Nil [simp, tbl_simps]: "tsum f [] = 0"
  by (simp add: tsum_def)

lemma tsum_tput_fresh [tbl_simps]: "tget t k = None \<Longrightarrow> tsum f (tput k r t) = tsum f t + f r"
  by (simp add: tput_fresh tsum_def trows_def)

lemma tsum_tput:
  assumes "tget t k = Some r0"
  shows "tsum f (tput k r t) = tsum f t - f r0 + f r"
  using assms unfolding tget_def tput_def tsum_def trows_def
  by (induction t) (auto split: if_splits)

lemma tsum_tmod:
  assumes "tget t k = Some r0"
  shows "tsum f (tmod k g t) = tsum f t - f r0 + f (g r0)"
  using assms unfolding tget_def tmod_def tsum_def trows_def
  by (induction t) (auto split: if_splits)

lemma tsum_tmod_same:
  assumes "\<And>r. f (g r) = f r"
  shows "tsum f (tmod k g t) = tsum f t"
  unfolding tmod_def tsum_def trows_def by (induction t) (auto simp: assms)

lemma tsum_tdel:
  assumes "tuniq t" and "tget t k = Some r"
  shows "tsum f (tdel k t) = tsum f t - f r"
proof -
  have absent: "AList.delete k u = u" if "k \<notin> fst ` set u" for u :: "('a \<times> 'b) list"
    using that by (force simp: AList.delete_eq filter_id_conv)
  show ?thesis
    using assms unfolding tuniq_def tget_def tdel_def tsum_def trows_def
    by (induction t) (auto simp: absent split: if_splits)
qed

lemma member_le_sum_list_int: "(\<And>y. y \<in> set ys \<Longrightarrow> (0 :: int) \<le> y) \<Longrightarrow> x \<in> set ys \<Longrightarrow> x \<le> sum_list ys"
proof (induction ys)
  case (Cons y ys)
  then have "0 \<le> y" and "0 \<le> sum_list ys" by (auto intro: sum_list_nonneg)
  with Cons show ?case by force
qed simp

lemma tsum_ge_row:
  assumes "\<And>r. 0 \<le> f r" and "tget t k = Some r"
  shows "f r \<le> tsum f t"
  unfolding tsum_def using tget_in_rows [OF assms(2)] assms(1) by (intro member_le_sum_list_int) auto

lemma length_tput: "length (tput k r t) = (if tget t k = None then length t + 1 else length t)"
  unfolding tput_def tget_def by (induction t) auto

lemma length_tdel_le: "length (tdel k t) \<le> length t"
  by (simp add: tdel_def length_delete_le)

definition tall :: "('r \<Rightarrow> bool) \<Rightarrow> ('k, 'r) tbl \<Rightarrow> bool" where
  "tall P t = list_all P (trows t)"

lemma tall_Nil [simp, tbl_simps]: "tall P []"
  by (simp add: tall_def)

lemma tall_tput [simp, tbl_simps]: "tall P t \<Longrightarrow> P r \<Longrightarrow> tall P (tput k r t)"
  unfolding tall_def tput_def trows_def by (induction t) auto

lemma tall_tmod:
  "tall P t \<Longrightarrow> (\<And>r. tget t k = Some r \<Longrightarrow> P r \<Longrightarrow> P (g r)) \<Longrightarrow> tall P (tmod k g t)"
  unfolding tall_def tmod_def trows_def tget_def
  by (induction t) (auto split: if_splits)

lemma tall_tget: "tall P t \<Longrightarrow> tget t k = Some r \<Longrightarrow> P r"
  by (auto simp: tall_def list_all_iff dest: tget_in_rows)

text \<open>
  The contract of a keyed table, as its clients use it: an insert is seen by the lookup of its
  key and by no other, an update reaches exactly the row of its key, keys stay unique.
\<close>

locale keyed_table =
  fixes get :: "'t \<Rightarrow> 'k \<Rightarrow> 'r option"
    and put :: "'k \<Rightarrow> 'r \<Rightarrow> 't \<Rightarrow> 't"
    and upd :: "'k \<Rightarrow> ('r \<Rightarrow> 'r) \<Rightarrow> 't \<Rightarrow> 't"
    and uniq :: "'t \<Rightarrow> bool"
  assumes get_put: "get (put k r t) k' = (if k' = k then Some r else get t k')"
    and get_upd: "get (upd k f t) k' = (if k' = k then map_option f (get t k) else get t k')"
    and uniq_put: "uniq t \<Longrightarrow> uniq (put k r t)"
    and uniq_upd: "uniq t \<Longrightarrow> uniq (upd k f t)"
begin

text \<open>\<open>INSERT ... ON CONFLICT (key) DO UPDATE SET\<close>: insert a row or rewrite the one there.\<close>

definition upsert :: "'k \<Rightarrow> 'r \<Rightarrow> ('r \<Rightarrow> 'r) \<Rightarrow> 't \<Rightarrow> 't" where
  "upsert k r f t = (case get t k of None \<Rightarrow> put k r t | Some _ \<Rightarrow> upd k f t)"

lemma get_upsert:
  "get (upsert k r f t) k' =
     (if k' = k then Some (case get t k of None \<Rightarrow> r | Some r0 \<Rightarrow> f r0) else get t k')"
  by (auto simp: upsert_def get_put get_upd split: option.splits)

lemma uniq_upsert: "uniq t \<Longrightarrow> uniq (upsert k r f t)"
  by (auto simp: upsert_def uniq_put uniq_upd split: option.splits)

lemma upsert_twice:
  assumes "f r = r" and "\<And>x. f (f x) = f x"
  shows "get (upsert k r f (upsert k r f t)) k' = get (upsert k r f t) k'"
  by (auto simp: get_upsert assms split: option.splits)

end

interpretation tb: keyed_table tget tput tmod tuniq
  by unfold_locales auto

definition tupsert :: "'k \<Rightarrow> 'r \<Rightarrow> ('r \<Rightarrow> 'r) \<Rightarrow> ('k, 'r) tbl \<Rightarrow> ('k, 'r) tbl" where
  "tupsert k r f t = (case tget t k of None \<Rightarrow> tput k r t | Some _ \<Rightarrow> tmod k f t)"

lemma tupsert_is_upsert: "tupsert = tb.upsert"
  by (intro ext) (simp add: tupsert_def tb.upsert_def)

lemmas tget_tupsert [simp, tbl_simps] = tb.get_upsert [folded tupsert_is_upsert]
lemmas tuniq_tupsert [simp, tbl_simps] = tb.uniq_upsert [folded tupsert_is_upsert]

lemma tsum_tupsert:
  "tsum g (tupsert k r f t) =
     (case tget t k of None \<Rightarrow> tsum g t + g r | Some r0 \<Rightarrow> tsum g t - g r0 + g (f r0))"
  by (auto simp: tupsert_def tsum_tput_fresh tsum_tmod split: option.splits)

lemma tall_tupsert:
  "tall P t \<Longrightarrow> P r \<Longrightarrow> (\<And>x. tget t k = Some x \<Longrightarrow> P x \<Longrightarrow> P (f x)) \<Longrightarrow> tall P (tupsert k r f t)"
  by (auto simp: tupsert_def intro: tall_tmod split: option.splits)

section \<open>Strings\<close>

definition is_digit :: "char \<Rightarrow> bool" where
  "is_digit c = (48 \<le> (of_char c :: nat) \<and> (of_char c :: nat) \<le> 57)"

definition digit_val :: "char \<Rightarrow> nat" where
  "digit_val c = of_char c - 48"

definition digit_char :: "nat \<Rightarrow> char" where
  "digit_char n = char_of (48 + n)"

text \<open>The test \<open>/^[0-9]+$/\<close>.\<close>

definition all_digits :: "string \<Rightarrow> bool" where
  "all_digits s = (s \<noteq> [] \<and> list_all is_digit s)"

definition digits_val :: "string \<Rightarrow> nat" where
  "digits_val s = foldl (\<lambda>n c. 10 * n + digit_val c) 0 s"

fun show_nat :: "nat \<Rightarrow> string" where
  "show_nat n = (if n < 10 then [digit_char n] else show_nat (n div 10) @ [digit_char (n mod 10)])"

declare show_nat.simps [simp del]

definition show_int :: "int \<Rightarrow> string" where
  "show_int i = (if i < 0 then CHR ''-'' # show_nat (nat (- i)) else show_nat (nat i))"

lemma of_char_digit_char: "n < 10 \<Longrightarrow> (of_char (digit_char n) :: nat) = 48 + n"
  by (simp add: digit_char_def)

lemma digit_val_digit_char [simp]: "n < 10 \<Longrightarrow> digit_val (digit_char n) = n"
  by (simp add: digit_val_def of_char_digit_char)

lemma is_digit_digit_char [simp]: "n < 10 \<Longrightarrow> is_digit (digit_char n)"
  by (simp add: is_digit_def of_char_digit_char)

lemma digits_val_snoc: "digits_val (s @ [c]) = 10 * digits_val s + digit_val c"
  by (simp add: digits_val_def)

lemma all_digits_show_nat [simp]: "all_digits (show_nat n)"
proof (induction n rule: show_nat.induct)
  case (1 n)
  show ?case
  proof (cases "n < 10")
    case True
    then show ?thesis by (subst show_nat.simps) (simp add: all_digits_def)
  next
    case False
    with "1.IH" show ?thesis by (subst show_nat.simps) (simp add: all_digits_def)
  qed
qed

lemma digits_val_show_nat [simp]: "digits_val (show_nat n) = n"
proof (induction n rule: show_nat.induct)
  case (1 n)
  show ?case
  proof (cases "n < 10")
    case True
    then show ?thesis by (subst show_nat.simps) (simp add: digits_val_def)
  next
    case False
    with "1.IH" show ?thesis by (subst show_nat.simps) (simp add: digits_val_snoc)
  qed
qed

lemma show_nat_inject [simp]: "show_nat m = show_nat n \<longleftrightarrow> m = n"
  by (metis digits_val_show_nat)

text \<open>White space of \<open>String.prototype.trim\<close>, ASCII part.\<close>

definition is_ws :: "char \<Rightarrow> bool" where
  "is_ws c = ((of_char c :: nat) = 32 \<or> (9 \<le> (of_char c :: nat) \<and> (of_char c :: nat) \<le> 13))"

definition js_trim :: "string \<Rightarrow> string" where
  "js_trim s = rev (dropWhile is_ws (rev (dropWhile is_ws s)))"

fun js_split :: "char \<Rightarrow> string \<Rightarrow> string list" where
  "js_split d [] = [[]]"
| "js_split d (c # cs) =
     (if c = d then [] # js_split d cs
      else case js_split d cs of [] \<Rightarrow> [[c]] | w # ws \<Rightarrow> (c # w) # ws)"

fun js_join :: "string \<Rightarrow> string list \<Rightarrow> string" where
  "js_join sep [] = []"
| "js_join sep [w] = w"
| "js_join sep (w # v # ws) = w @ sep @ js_join sep (v # ws)"

definition js_startsWith :: "string \<Rightarrow> string \<Rightarrow> bool" where
  "js_startsWith s p = (take (length p) s = p)"

definition to_lower_char :: "char \<Rightarrow> char" where
  "to_lower_char c = (let n = of_char c :: nat in if 65 \<le> n \<and> n \<le> 90 then char_of (n + 32) else c)"

definition to_upper_char :: "char \<Rightarrow> char" where
  "to_upper_char c = (let n = of_char c :: nat in if 97 \<le> n \<and> n \<le> 122 then char_of (n - 32) else c)"

definition js_toLowerCase :: "string \<Rightarrow> string" where
  "js_toLowerCase s = map to_lower_char s"

definition js_toUpperCase :: "string \<Rightarrow> string" where
  "js_toUpperCase s = map to_upper_char s"

lemma js_split_not_Nil [simp]: "js_split d s \<noteq> []"
  by (cases s) (auto split: list.splits)

lemma js_join_split: "js_join [d] (js_split d s) = s"
proof (induction s)
  case Nil
  then show ?case by simp
next
  case (Cons c s)
  obtain w ws where s: "js_split d s = w # ws" by (cases "js_split d s") auto
  with Cons show ?case by (cases ws) auto
qed

lemma js_split_no_sep: "d \<notin> set s \<Longrightarrow> js_split d s = [s]"
  by (induction s) auto

lemma js_split_append_sep: "d \<notin> set w \<Longrightarrow> js_split d (w @ d # s) = w # js_split d s"
  by (induction w) auto

lemma js_split_pieces_no_sep: "w \<in> set (js_split d s) \<Longrightarrow> d \<notin> set w"
  by (induction s arbitrary: w) (auto split: list.splits if_splits)

text \<open>The em dash and the ellipsis of the program's messages, in UTF-8.\<close>

definition em_dash :: string where
  "em_dash = [CHR 0xE2, CHR 0x80, CHR 0x94]"

definition ellipsis :: string where
  "ellipsis = [CHR 0xE2, CHR 0x80, CHR 0xA6]"

definition dquote :: string where
  "dquote = [CHR 0x22]"

end
