(* ===== verification/JsValue.thy ===== *)
theory JsValue
  imports Prelude
begin

text \<open>
  The values of ECMAScript the program handles as \<open>unknown\<close>, the conversions \<open>String(v)\<close>,
  \<open>Number(v)\<close> and \<open>JSON.stringify(v)\<close>, property lookup on object literals, and the errors
  the program throws.
\<close>

section \<open>Numbers and values\<close>

text \<open>
  A number is an integer that prints as plain decimal digits, another finite number
  \<open>NDec m e t\<close> of value \<open>m * 10 ^ e\<close> together with its printed text (fractions, and magnitudes
  from \<open>1e21\<close> on), \<open>NaN\<close> or an infinity (\<open>NInf True\<close> is the negative one).
  Decimal text is read exactly: the rounding of integers above \<open>2^53\<close> to the nearest double is
  not computed. Every such integer is out of the range of the columns it is sent to.
\<close>

datatype jsnum = NInt int | NDec int int string | NNaN | NInf bool

datatype jsval =
    JUndefined
  | JNull
  | JBool bool
  | JNum jsnum
  | JStr string
  | JArr "jsval list"
  | JObj "(string \<times> jsval) list"

definition isFinite :: "jsnum \<Rightarrow> bool" where
  "isFinite n = (case n of NInt _ \<Rightarrow> True | NDec _ _ _ \<Rightarrow> True | NNaN \<Rightarrow> False | NInf _ \<Rightarrow> False)"

definition isInteger :: "jsnum \<Rightarrow> bool" where
  "isInteger n = (case n of NInt _ \<Rightarrow> True | NDec m e _ \<Rightarrow> 0 \<le> e \<or> 10 ^ nat (- e) dvd m
     | NNaN \<Rightarrow> False | NInf _ \<Rightarrow> False)"

definition isSafeInteger :: "jsnum \<Rightarrow> bool" where
  "isSafeInteger n = (case n of NInt i \<Rightarrow> \<bar>i\<bar> \<le> 2 ^ 53 - 1 | _ \<Rightarrow> False)"

definition num_String :: "jsnum \<Rightarrow> string" where
  "num_String n = (case n of NInt i \<Rightarrow> show_int i | NDec _ _ s \<Rightarrow> s | NNaN \<Rightarrow> ''NaN''
     | NInf neg \<Rightarrow> (if neg then ''-Infinity'' else ''Infinity''))"

text \<open>\<open>v == null\<close>.\<close>

definition is_nullish :: "jsval \<Rightarrow> bool" where
  "is_nullish v = (v = JUndefined \<or> v = JNull)"

section \<open>String(v)\<close>

fun js_String :: "jsval \<Rightarrow> string" where
  "js_String JUndefined = ''undefined''"
| "js_String JNull = ''null''"
| "js_String (JBool b) = (if b then ''true'' else ''false'')"
| "js_String (JNum n) = num_String n"
| "js_String (JStr s) = s"
| "js_String (JArr vs) =
     js_join '','' (map (\<lambda>v. if is_nullish v then [] else js_String v) vs)"
| "js_String (JObj _) = ''[object Object]''"

section \<open>Number(v)\<close>

text \<open>
  An unsigned decimal literal, as mantissa and exponent: digits with an optional point, then an
  optional exponent part.
\<close>

definition parse_exponent :: "string \<Rightarrow> int option" where
  "parse_exponent s =
     (case s of
        [] \<Rightarrow> Some 0
      | c # r \<Rightarrow>
          if c = CHR ''e'' \<or> c = CHR ''E'' then
            (case r of
               CHR ''-'' # ds \<Rightarrow> if all_digits ds then Some (- int (digits_val ds)) else None
             | CHR ''+'' # ds \<Rightarrow> if all_digits ds then Some (int (digits_val ds)) else None
             | ds \<Rightarrow> if all_digits ds then Some (int (digits_val ds)) else None)
          else None)"

definition parse_decimal :: "string \<Rightarrow> (nat \<times> int) option" where
  "parse_decimal s =
     (let ip = takeWhile is_digit s; rest = dropWhile is_digit s;
          fp = (case rest of CHR ''.'' # r \<Rightarrow> takeWhile is_digit r | _ \<Rightarrow> []);
          tail = (case rest of CHR ''.'' # r \<Rightarrow> dropWhile is_digit r | _ \<Rightarrow> rest)
      in if ip @ fp = [] then None
         else map_option (\<lambda>e. (digits_val (ip @ fp), e - int (length fp))) (parse_exponent tail))"

definition max_double :: int where
  "max_double = 2 ^ 1024 - 2 ^ 970"

definition decimal_num :: "bool \<Rightarrow> string \<Rightarrow> nat \<times> int \<Rightarrow> jsnum" where
  "decimal_num neg t me =
     (let m = int (fst me); e = snd me; sg = (\<lambda>i. if neg then - i else i) in
      if m = 0 then NInt 0
      else if 0 \<le> e then
        (let i = m * 10 ^ nat e in
         if max_double \<le> i then NInf neg
         else if i < 10 ^ 21 then NInt (sg i) else NDec (sg m) e t)
      else (let d = 10 ^ nat (- e) in
         if d dvd m then (if max_double \<le> m div d then NInf neg
                          else if m div d < 10 ^ 21 then NInt (sg (m div d)) else NDec (sg m) e t)
         else NDec (sg m) e t))"

fun hex_val :: "char \<Rightarrow> nat option" where
  "hex_val c = (let n = of_char c :: nat in
     if is_digit c then Some (n - 48)
     else if 97 \<le> n \<and> n \<le> 102 then Some (n - 87)
     else if 65 \<le> n \<and> n \<le> 70 then Some (n - 55) else None)"

fun radix_val :: "nat \<Rightarrow> nat \<Rightarrow> string \<Rightarrow> nat option" where
  "radix_val b acc [] = Some acc"
| "radix_val b acc (c # cs) =
     (case hex_val c of
        Some d \<Rightarrow> if d < b then radix_val b (acc * b + d) cs else None
      | None \<Rightarrow> None)"

definition radix_num :: "nat \<Rightarrow> string \<Rightarrow> string \<Rightarrow> jsnum" where
  "radix_num b t ds =
     (if ds = [] then NNaN
      else case radix_val b 0 ds of
             None \<Rightarrow> NNaN
           | Some n \<Rightarrow> if int n < 10 ^ 21 then NInt (int n) else NDec (int n) 0 t)"

definition unsigned_num :: "bool \<Rightarrow> string \<Rightarrow> string \<Rightarrow> jsnum" where
  "unsigned_num neg t s =
     (if s = ''Infinity'' then NInf neg
      else case parse_decimal s of None \<Rightarrow> NNaN | Some me \<Rightarrow> decimal_num neg t me)"

definition str_Number :: "string \<Rightarrow> jsnum" where
  "str_Number s =
     (let t = js_trim s in
      case t of
        [] \<Rightarrow> NInt 0
      | CHR ''-'' # r \<Rightarrow> unsigned_num True t r
      | CHR ''+'' # r \<Rightarrow> unsigned_num False t r
      | CHR ''0'' # c # ds \<Rightarrow>
          if c = CHR ''x'' \<or> c = CHR ''X'' then radix_num 16 t ds
          else if c = CHR ''o'' \<or> c = CHR ''O'' then radix_num 8 t ds
          else if c = CHR ''b'' \<or> c = CHR ''B'' then radix_num 2 t ds
          else unsigned_num False t t
      | _ \<Rightarrow> unsigned_num False t t)"

definition js_Number :: "jsval \<Rightarrow> jsnum" where
  "js_Number v =
     (case v of
        JUndefined \<Rightarrow> NNaN
      | JNull \<Rightarrow> NInt 0
      | JBool b \<Rightarrow> NInt (if b then 1 else 0)
      | JNum n \<Rightarrow> n
      | JStr s \<Rightarrow> str_Number s
      | JArr vs \<Rightarrow> str_Number (js_String (JArr vs))
      | JObj _ \<Rightarrow> NNaN)"

section \<open>JSON.stringify(v)\<close>

definition hex_digit :: "nat \<Rightarrow> char" where
  "hex_digit n = (if n < 10 then char_of (48 + n) else char_of (87 + n))"

lemma hex_val_hex_digit: "d < 16 \<Longrightarrow> hex_val (hex_digit d) = Some d"
  by (auto simp: hex_digit_def is_digit_def Let_def)

definition json_escape :: "char \<Rightarrow> string" where
  "json_escape c = (let n = of_char c :: nat in
     if n = 34 then [CHR 0x5C, CHR 0x22]
     else if n = 92 then [CHR 0x5C, CHR 0x5C]
     else if n = 8 then [CHR 0x5C, CHR ''b'']
     else if n = 12 then [CHR 0x5C, CHR ''f'']
     else if n = 10 then [CHR 0x5C, CHR ''n'']
     else if n = 13 then [CHR 0x5C, CHR ''r'']
     else if n = 9 then [CHR 0x5C, CHR ''t'']
     else if n < 32 then [CHR 0x5C, CHR ''u'', CHR ''0'', CHR ''0'', hex_digit (n div 16), hex_digit (n mod 16)]
     else [c])"

definition json_quote :: "string \<Rightarrow> string" where
  "json_quote s = dquote @ concat (map json_escape s) @ dquote"

fun json_text :: "jsval \<Rightarrow> string" where
  "json_text JUndefined = ''null''"
| "json_text JNull = ''null''"
| "json_text (JBool b) = (if b then ''true'' else ''false'')"
| "json_text (JNum n) = (if isFinite n then num_String n else ''null'')"
| "json_text (JStr s) = json_quote s"
| "json_text (JArr vs) = ''['' @ js_join '','' (map json_text vs) @ '']''"
| "json_text (JObj kvs) =
     ''{'' @ js_join '','' (concat (map (\<lambda>kv. if snd kv = JUndefined then []
                                  else [json_quote (fst kv) @ '':'' @ json_text (snd kv)]) kvs)) @ ''}''"

text \<open>
  The text of \<open>${JSON.stringify(v)}\<close> in a message: \<open>JSON.stringify(undefined)\<close> is \<open>undefined\<close>,
  while an undefined array element prints as \<open>null\<close>.
\<close>

definition JSON_stringify :: "jsval \<Rightarrow> string" where
  "JSON_stringify v = (if v = JUndefined then ''undefined'' else json_text v)"

text \<open>
  What a value becomes when it is stored in a \<open>JSONB\<close> column and read back: undefined elements
  and non-finite numbers are null, undefined properties are gone. (The column also reorders
  the keys of an object; nothing the program does with a stored value depends on their order.)
\<close>

fun jsonb :: "jsval \<Rightarrow> jsval" where
  "jsonb JUndefined = JNull"
| "jsonb (JNum n) = (if isFinite n then JNum n else JNull)"
| "jsonb (JArr vs) = JArr (map jsonb vs)"
| "jsonb (JObj kvs) =
     JObj (concat (map (\<lambda>kv. if snd kv = JUndefined then [] else [(fst kv, jsonb (snd kv))]) kvs))"
| "jsonb v = v"

section \<open>Property lookup on object literals\<close>

text \<open>
  \<open>o[k]\<close> on an object literal finds an own property first and then one inherited from
  \<open>Object.prototype\<close>.
\<close>

definition object_prototype_names :: "string list" where
  "object_prototype_names =
     [''constructor'', ''__defineGetter__'', ''__defineSetter__'', ''hasOwnProperty'',
      ''__lookupGetter__'', ''__lookupSetter__'', ''isPrototypeOf'', ''propertyIsEnumerable'',
      ''toString'', ''valueOf'', ''__proto__'', ''toLocaleString'']"

datatype 'a slot = Own 'a | Inherited string | Missing

definition obj_get :: "(string \<times> 'a) list \<Rightarrow> string \<Rightarrow> 'a slot" where
  "obj_get ob k =
     (case map_of ob k of
        Some x \<Rightarrow> Own x
      | None \<Rightarrow> if k \<in> set object_prototype_names then Inherited k else Missing)"

section \<open>Errors\<close>

datatype exn =
    FieldValidationError string
  | JsTypeError string
  | PgError string string \<comment> \<open>SQLSTATE and message\<close>
  | ReorgDetectedError string
  | ReorgHaltedError string
  | ReplayLockError string
  | ReindexLockError string
  | NonceStoreCapacityError string
  | PlainError string

fun error_message :: "exn \<Rightarrow> string" where
  "error_message (FieldValidationError m) = m"
| "error_message (JsTypeError m) = m"
| "error_message (PgError _ m) = m"
| "error_message (ReorgDetectedError m) = m"
| "error_message (ReorgHaltedError m) = m"
| "error_message (ReplayLockError m) = m"
| "error_message (ReindexLockError m) = m"
| "error_message (NonceStoreCapacityError m) = m"
| "error_message (PlainError m) = m"

definition is_reorg :: "exn \<Rightarrow> bool" where
  "is_reorg e = (case e of ReorgDetectedError _ \<Rightarrow> True | _ \<Rightarrow> False)"

lemma is_reorg_simps [simp]:
  "is_reorg (ReorgDetectedError m)" "\<not> is_reorg (FieldValidationError m)"
  "\<not> is_reorg (JsTypeError m)" "\<not> is_reorg (PgError c m)" "\<not> is_reorg (PlainError m)"
  "\<not> is_reorg (ReplayLockError m)" "\<not> is_reorg (ReindexLockError m)"
  "\<not> is_reorg (ReorgHaltedError m)" "\<not> is_reorg (NonceStoreCapacityError m)"
  by (simp_all add: is_reorg_def)

end
