(* ===== verification/Events.thy ===== *)
theory Events
  imports JsValue
begin

text \<open>
  The event catalog and decoder of \<open>src/stellar/events.ts\<close>: the topic-symbol to field-name
  catalog, the conversion of native values to JSON-safe ones, the naming of a positional data
  tuple and the decoding of one \<open>getEvents\<close> entry. \<open>scValToNative\<close> of the Stellar SDK is a
  parameter: a function from the wire value to an error message or a native value.
\<close>

section \<open>The catalog\<close>

definition EVENT_FIELDS :: "(string \<times> string list) list" where
  "EVENT_FIELDS =
    [(''joined'', [''member'', ''fee'']),
     (''exited'', [''member'', ''share'']),
     (''claimed'', [''member'', ''pending'']),
     (''loan_req'', [''id'', ''borrower'', ''amount'', ''total_repayment'']),
     (''loan_edit'', [''proposal_id'', ''borrower'', ''new_amount'', ''total_repayment'']),
     (''loan_vote'', [''proposal_id'', ''voter'', ''support'', ''weight'']),
     (''loan_wait'', [''id'', ''amount'']),
     (''loan_rej'', [''id'', ''for_votes'', ''against_votes'']),
     (''loan_appr'', [''id'', ''borrower'', ''amount'', ''due_time'']),
     (''loan_rpy'', [''loan_id'', ''borrower'', ''outstanding'']),
     (''loan_dflt'', [''loan_id'', ''borrower'', ''penalty'']),
     (''loan_exp'', [''proposal_id'', ''borrower'']),
     (''interest'', [''interest'', ''active'']),
     (''tre_prop'', [''id'', ''amount'', ''destination'', ''private'']),
     (''tre_vote'', [''id'', ''voter'', ''support'', ''weight'']),
     (''tre_wait'', [''id'', ''amount'']),
     (''tre_rej'', [''id'', ''for_votes'', ''against_votes'']),
     (''tre_exec'', [''id'', ''amount'', ''destination'']),
     (''staked'', [''member'', ''amount'', ''new_stake'']),
     (''unstaked'', [''member'', ''amount'', ''new_stake'']),
     (''name_reg'', [''name'', ''owner'']),
     (''committed'', [''proposal_id'', ''voter'']),
     (''revealed'', [''proposal_id'', ''voter'', ''support'', ''weight'']),
     (''doc_attn'', [''kind'', ''proposal_id'', ''caller'']),
     (''init'', [''admins'', ''consensus_threshold'', ''membership_fee'', ''token'']),
     (''admin_add'', [''admin'']),
     (''admin_rem'', [''admin'']),
     (''threshold'', [''threshold'']),
     (''policy'', []),
     (''paused'', []),
     (''unpaused'', [])]"

definition LOAN_TIMELINE_SYMBOLS :: "string list" where
  "LOAN_TIMELINE_SYMBOLS =
    [''loan_req'', ''loan_edit'', ''loan_vote'', ''loan_wait'', ''loan_rej'', ''loan_appr'',
     ''loan_rpy'', ''loan_dflt'', ''loan_exp'']"

definition TREASURY_TIMELINE_SYMBOLS :: "string list" where
  "TREASURY_TIMELINE_SYMBOLS =
    [''tre_prop'', ''tre_vote'', ''committed'', ''revealed'', ''tre_wait'', ''tre_rej'',
     ''tre_exec'']"

definition MEMBER_ACTIVITY_SYMBOLS :: "string list" where
  "MEMBER_ACTIVITY_SYMBOLS =
    [''joined'', ''exited'', ''claimed'', ''staked'', ''unstaked'', ''name_reg'', ''loan_req'',
     ''loan_edit'', ''loan_vote'', ''loan_appr'', ''loan_rpy'', ''loan_dflt'', ''loan_exp'',
     ''tre_vote'', ''committed'', ''revealed'']"

definition ADMIN_EVENT_SYMBOLS :: "string list" where
  "ADMIN_EVENT_SYMBOLS =
    [''init'', ''admin_add'', ''admin_rem'', ''threshold'', ''policy'', ''paused'', ''unpaused'']"

section \<open>Decoded events\<close>

type_synonym fields = "(string \<times> jsval) list"

record decoded_event =
  ev_id :: string
  ev_ledger :: nat
  ev_closedAt :: int \<comment> \<open>an instant, in milliseconds since the epoch\<close>
  ev_contractId :: string
  ev_txHash :: "string option"
  ev_symbol :: string
  ev_topics :: "jsval list"
  ev_data :: "jsval list"
  ev_fields :: fields
  ev_decodeError :: "string option"

text \<open>\<open>ev.fields[name]\<close>.\<close>

definition field :: "decoded_event \<Rightarrow> string \<Rightarrow> jsval" where
  "field ev name = (case map_of (ev_fields ev) name of Some v \<Rightarrow> v | None \<Rightarrow> JUndefined)"

text \<open>A native value, as \<open>scValToNative\<close> returns it: JSON values and big integers.\<close>

datatype native =
    VUndefined
  | VNull
  | VBool bool
  | VNum jsnum
  | VBigInt int
  | VStr string
  | VArr "native list"
  | VObj "(string \<times> native) list"

fun toJsonSafe :: "native \<Rightarrow> jsval" where
  "toJsonSafe (VBigInt i) = JStr (show_int i)"
| "toJsonSafe (VArr vs) = JArr (map toJsonSafe vs)"
| "toJsonSafe (VObj kvs) = JObj (map (\<lambda>kv. (fst kv, toJsonSafe (snd kv))) kvs)"
| "toJsonSafe VUndefined = JUndefined"
| "toJsonSafe VNull = JNull"
| "toJsonSafe (VBool b) = JBool b"
| "toJsonSafe (VNum n) = JNum n"
| "toJsonSafe (VStr s) = JStr s"

definition safeNative :: "('scv \<Rightarrow> string + native) \<Rightarrow> 'scv \<Rightarrow> jsval \<times> string option" where
  "safeNative scValToNative scv =
     (case scValToNative scv of
        Inr v \<Rightarrow> (toJsonSafe v, None)
      | Inl msg \<Rightarrow> (JNull, Some msg))"

text \<open>\<open>data[i] ?? null\<close>.\<close>

definition data_at :: "jsval list \<Rightarrow> nat \<Rightarrow> jsval" where
  "data_at data i =
     (if i < length data then (if is_nullish (data ! i) then JNull else data ! i) else JNull)"

definition namedFields :: "string \<Rightarrow> jsval list \<Rightarrow> exn + fields" where
  "namedFields symbol data =
     (case obj_get EVENT_FIELDS symbol of
        Own names \<Rightarrow> Inr (map (\<lambda>i. (names ! i, data_at data i)) [0..<length names])
      | Inherited _ \<Rightarrow> Inl (JsTypeError ''names.forEach is not a function'')
      | Missing \<Rightarrow> Inr [])"

definition isKnownSymbol :: "string \<Rightarrow> bool" where
  "isKnownSymbol symbol = (map_of EVENT_FIELDS symbol \<noteq> None)"

text \<open>
  The once-per-process warning: the set of symbols already warned about, and the line logged,
  if any.
\<close>

definition warnUnknownSymbol :: "string list \<Rightarrow> decoded_event \<Rightarrow> string list \<times> string option" where
  "warnUnknownSymbol seen ev =
     (if ev_symbol ev \<in> set seen then (seen, None)
      else (ev_symbol ev # seen,
        Some (''[events] unknown event symbol '' @ dquote @ ev_symbol ev @ dquote @ '' '' @ em_dash @
          '' not in the EVENT_FIELDS catalog (first seen at ledger '' @ show_nat (ev_ledger ev) @
          '', event '' @ ev_id ev @ ''). The raw event is stored but no derived table was updated. '' @
          ''Add its topic-symbol '' @ [CHR 0xE2, CHR 0x86, CHR 0x92] @
          '' data-tuple mapping to src/stellar/events.ts.'')))"

section \<open>Decoding one entry of getEvents\<close>

record 'scv event_response =
  re_id :: string
  re_ledger :: nat
  re_ledgerClosedAt :: int
  re_contractId :: "string option"
  re_txHash :: "string option"
  re_topic :: "'scv list"
  re_value :: 'scv

definition first_error :: "string option list \<Rightarrow> string option" where
  "first_error es = (case filter (\<lambda>e. e \<noteq> None \<and> e \<noteq> Some []) es of [] \<Rightarrow> None | e # _ \<Rightarrow> e)"

definition topic_symbol :: "jsval list \<Rightarrow> string" where
  "topic_symbol topics =
     (case topics of
        [] \<Rightarrow> []
      | t # _ \<Rightarrow> (case t of
                    JStr s \<Rightarrow> s
                  | _ \<Rightarrow> if is_nullish t then [] else js_String t))"

definition decodeEvent ::
  "('scv \<Rightarrow> string + native) \<Rightarrow> 'scv event_response \<Rightarrow> exn + decoded_event" where
  "decodeEvent scValToNative ev =
     (let ts = map (safeNative scValToNative) (re_topic ev);
          topics = map fst ts;
          symbol = topic_symbol topics;
          dataRes = safeNative scValToNative (re_value ev);
          data = (case fst dataRes of JArr vs \<Rightarrow> vs | v \<Rightarrow> [v]);
          decodeError = first_error (map snd ts @ [snd dataRes])
      in bindE (namedFields symbol data) (\<lambda>fs.
         Inr \<lparr> ev_id = re_id ev, ev_ledger = re_ledger ev, ev_closedAt = re_ledgerClosedAt ev,
               ev_contractId = (case re_contractId ev of Some c \<Rightarrow> c | None \<Rightarrow> []),
               ev_txHash = re_txHash ev, ev_symbol = symbol, ev_topics = topics, ev_data = data,
               ev_fields = fs, ev_decodeError = decodeError \<rparr>))"

section \<open>Facts about the catalog and the decoder\<close>

lemma distinct_catalog_symbols: "distinct (map fst EVENT_FIELDS)"
  by (simp add: EVENT_FIELDS_def)

lemma distinct_catalog_fields: "(s, names) \<in> set EVENT_FIELDS \<Longrightarrow> distinct names"
  by (auto simp: EVENT_FIELDS_def)

lemma obj_get_Own: "obj_get ob k = Own x \<longleftrightarrow> map_of ob k = Some x"
  by (auto simp: obj_get_def split: option.splits if_splits)

lemma map_of_named:
  assumes "distinct names"
  shows "map_of (map (\<lambda>i. (names ! i, f i)) [0..<length names]) n =
    (if n \<in> set names then Some (f (THE i. i < length names \<and> names ! i = n)) else None)"
proof (cases "n \<in> set names")
  case True
  then obtain i where i: "i < length names" "names ! i = n" by (auto simp: in_set_conv_nth)
  have the: "(THE i. i < length names \<and> names ! i = n) = i"
    using assms i by (auto simp: nth_eq_iff_index_eq)
  have d: "distinct (map fst (map (\<lambda>i. (names ! i, f i)) [0..<length names]))"
    using assms by (simp add: comp_def map_nth)
  have "(n, f i) \<in> set (map (\<lambda>i. (names ! i, f i)) [0..<length names])"
    using i by auto
  with d have "map_of (map (\<lambda>i. (names ! i, f i)) [0..<length names]) n = Some (f i)"
    by (rule map_of_is_SomeI)
  with True the show ?thesis by simp
next
  case False
  then have "n \<notin> fst ` set (map (\<lambda>i. (names ! i, f i)) [0..<length names])"
    by auto
  then show ?thesis using False by (simp add: map_of_eq_None_iff)
qed

text \<open>Every named field of a catalogued symbol is the entry of the tuple at its position.\<close>

lemma namedFields_nth:
  assumes "map_of EVENT_FIELDS symbol = Some names" and "i < length names"
    and "namedFields symbol data = Inr fs"
  shows "map_of fs (names ! i) = Some (data_at data i)"
proof -
  have d: "distinct names"
    using assms(1) distinct_catalog_fields by (meson map_of_SomeD)
  have fs: "fs = map (\<lambda>i. (names ! i, data_at data i)) [0..<length names]"
    using assms by (simp add: namedFields_def obj_get_def)
  have "(THE j. j < length names \<and> names ! j = names ! i) = i"
    using d assms(2) by (auto simp: nth_eq_iff_index_eq)
  then show ?thesis using d assms(2) by (simp add: fs map_of_named)
qed

lemma namedFields_length:
  "map_of EVENT_FIELDS symbol = Some names \<Longrightarrow> namedFields symbol data = Inr fs \<Longrightarrow> map fst fs = names"
  by (auto simp: namedFields_def obj_get_def map_nth comp_def)

lemma namedFields_missing:
  "\<not> isKnownSymbol symbol \<Longrightarrow> symbol \<notin> set object_prototype_names \<Longrightarrow> namedFields symbol data = Inr []"
  by (simp add: namedFields_def obj_get_def isKnownSymbol_def)

lemma namedFields_inherited:
  assumes "symbol \<in> set object_prototype_names"
  shows "namedFields symbol data = Inl (JsTypeError ''names.forEach is not a function'')"
proof -
  have "list_all (\<lambda>k. map_of EVENT_FIELDS k = None) object_prototype_names"
    by code_simp
  then have "map_of EVENT_FIELDS symbol = None"
    using assms by (simp add: list_all_iff)
  with assms show ?thesis by (simp add: namedFields_def obj_get_def)
qed

lemma namedFields_known_ok: "isKnownSymbol symbol \<Longrightarrow> is_ok (namedFields symbol data)"
  by (auto simp: namedFields_def obj_get_def isKnownSymbol_def split: option.splits)

text \<open>Missing trailing entries read as null, so a shorter tuple padded with nulls names alike.\<close>

lemma namedFields_pad: "namedFields symbol (data @ replicate n JNull) = namedFields symbol data"
proof -
  have "data_at (data @ replicate n JNull) i = data_at data i" for i
    by (auto simp: data_at_def nth_append is_nullish_def)
  then show ?thesis by (simp add: namedFields_def split: slot.split)
qed

lemma data_at_jsonb:
  assumes "list_all (\<lambda>v. jsonb v = v) data"
  shows "data_at (map jsonb data) i = data_at data i"
  using assms by (auto simp: data_at_def list_all_length)

lemma decodeEvent_ok_ids:
  assumes "decodeEvent scv r = Inr ev"
  shows "ev_id ev = re_id r" "ev_ledger ev = re_ledger r" "namedFields (ev_symbol ev) (ev_data ev) = Inr (ev_fields ev)"
  using assms by (auto simp: decodeEvent_def Let_def bindE_eq_Inr)

end
