(* ===== verification/Schema.thy ===== *)
theory Schema
  imports Events
begin

text \<open>
  The read model: the row types of \<open>src/types.ts\<close> with the columns of \<open>src/db/schema.sql\<close>, the
  tables derived from the event log (\<open>src/indexer/derived-tables.ts\<close>), and the range checks
  Postgres makes when a value is bound to or stored in a column.

  Keyed tables hold their rows under the primary key; \<open>NUMERIC(40,0)\<close> and \<open>INTEGER\<close> columns
  are integers that carry their range as an error on assignment; nullable columns are options.
  A table with a \<open>BIGSERIAL\<close> key whose rows are never deleted one by one is the list of its rows
  in the order of their ids, the row at position \<open>i\<close> having id \<open>i + 1\<close>; gaps that a sequence
  can leave after a rollback or a conflict are not modelled. The times \<open>created_at\<close> and
  \<open>attached_at\<close> of such rows are kept apart, in \<open>Stamps\<close>. The \<open>updated_at\<close> stamps of the derived
  rows and the NUL character, which Postgres refuses in text, are left out.
\<close>

section \<open>Rows\<close>

datatype loan_proposal_status =
    LP_pending | LP_approved | LP_rejected | LP_cancelled | LP_approved_pending_disbursement

datatype loan_status = LN_active | LN_repaid | LN_defaulted

datatype treasury_proposal_status =
    TP_pending | TP_executed | TP_rejected | TP_approved_pending_disbursement

datatype notification_type = N_success | N_error | N_warning | N_info

datatype proposal_kind = K_loan | K_treasury

record member_row =
  m_joined_ledger :: "nat option"
  m_contribution :: int
  m_exited :: bool
  m_exit_share :: "int option"
  m_exited_ledger :: "nat option"
  m_pending_claimed :: int
  m_stake :: int
  m_has_active_loan :: bool
  m_name :: "string option"
  m_defaults_count :: int

record loan_proposal_row =
  lp_borrower :: string
  lp_amount :: int
  lp_total_repayment :: int
  lp_status :: loan_proposal_status
  lp_votes_for :: int
  lp_votes_against :: int
  lp_voter_count :: int
  lp_created_ledger :: "nat option"

record loan_row =
  ln_borrower :: string
  ln_amount :: int
  ln_outstanding :: int
  ln_total_repayment :: int
  ln_status :: loan_status
  ln_approved_ledger :: "nat option"
  ln_due_time :: "int option"
  ln_repaid_ledger :: "nat option"
  ln_defaulted_ledger :: "nat option"

record treasury_proposal_row =
  tp_amount :: int
  tp_destination :: string
  tp_private :: bool
  tp_status :: treasury_proposal_status
  tp_votes_for :: int
  tp_votes_against :: int
  tp_voter_count :: int
  tp_created_ledger :: "nat option"
  tp_executed_ledger :: "nat option"

record notification_row =
  nt_address :: string
  nt_type :: notification_type
  nt_title :: string
  nt_message :: string
  nt_ledger :: nat
  nt_tx_hash :: "string option"
  nt_read :: bool
  nt_event_id :: string

record interest_distribution_row =
  idr_event_id :: string
  idr_ledger :: nat
  idr_amount :: int
  idr_active_members :: "int option"
  idr_tx_hash :: "string option"

record daily_loan_stats_row =
  dl_loans_originated :: int
  dl_principal_lent :: int
  dl_principal_repaid :: int
  dl_defaults_count :: int
  dl_value_defaulted :: int

record document_row =
  doc_event_id :: string
  doc_proposal_id :: int
  doc_kind :: proposal_kind
  doc_caller :: string
  doc_ledger :: nat
  doc_tx_hash :: "string option"

record dao_totals_row =
  dt_interest_collected :: int
  dt_principal_lent :: int
  dt_principal_repaid :: int
  dt_value_defaulted :: int

section \<open>The derived tables\<close>

record derived =
  members :: "(string, member_row) tbl"
  loan_proposals :: "(int, loan_proposal_row) tbl"
  loans :: "(int, loan_row) tbl"
  treasury_proposals :: "(int, treasury_proposal_row) tbl"
  notifications :: "notification_row list"
  interest_distributions :: "interest_distribution_row list"
  daily_loan_stats :: "(int, daily_loan_stats_row) tbl"
  documents :: "document_row list"
  dao_totals :: dao_totals_row

text \<open>\<open>TRUNCATE\<close> of every table of \<open>DERIVED_TABLES\<close>, the totals row left as it is.\<close>

definition truncate_derived :: "derived \<Rightarrow> derived" where
  "truncate_derived d =
     d\<lparr>members := [], loan_proposals := [], loans := [], treasury_proposals := [],
       notifications := [], interest_distributions := [], daily_loan_stats := [],
       documents := []\<rparr>"

definition zero_totals :: dao_totals_row where
  "zero_totals = \<lparr>dt_interest_collected = 0, dt_principal_lent = 0, dt_principal_repaid = 0,
     dt_value_defaulted = 0\<rparr>"

definition resetDaoTotals :: "derived \<Rightarrow> derived" where
  "resetDaoTotals d = d\<lparr>dao_totals := zero_totals\<rparr>"

definition empty_derived :: derived where
  "empty_derived = \<lparr>members = [], loan_proposals = [], loans = [], treasury_proposals = [],
     notifications = [], interest_distributions = [], daily_loan_stats = [], documents = [],
     dao_totals = zero_totals\<rparr>"

lemma reset_truncate_derived [simp]: "resetDaoTotals (truncate_derived d) = empty_derived"
  by (simp add: resetDaoTotals_def truncate_derived_def empty_derived_def)

section \<open>Column ranges\<close>

definition numeric_max :: int where
  "numeric_max = 10 ^ 40"

definition int4_max :: int where
  "int4_max = 2 ^ 31"

text \<open>Assignment to a \<open>NUMERIC(40,0)\<close> column.\<close>

definition pg_numeric :: "int \<Rightarrow> exn + int" where
  "pg_numeric i =
     (if \<bar>i\<bar> < numeric_max then Inr i else Inl (PgError ''22003'' ''numeric field overflow''))"

text \<open>Assignment to an \<open>INTEGER\<close> column.\<close>

definition pg_integer :: "int \<Rightarrow> exn + int" where
  "pg_integer i =
     (if - int4_max \<le> i \<and> i < int4_max then Inr i
      else Inl (PgError ''22003'' ''integer out of range''))"

text \<open>A JavaScript number bound to an \<open>INTEGER\<close> parameter travels as its printed text.\<close>

definition pg_int4_param :: "jsnum \<Rightarrow> exn + int" where
  "pg_int4_param n =
     (case n of
        NInt i \<Rightarrow>
          if - int4_max \<le> i \<and> i < int4_max then Inr i
          else Inl (PgError ''22003'' (''value '' @ dquote @ show_int i @ dquote @
                 '' is out of range for type integer''))
      | _ \<Rightarrow> Inl (PgError ''22P02'' (''invalid input syntax for type integer: '' @ dquote @
                 num_String n @ dquote)))"

text \<open>
  A string of digits bound to a numeric parameter. The program binds only strings it has matched
  against \<open>/^\d+$/\<close>.
\<close>

definition numeric_of :: "string \<Rightarrow> int" where
  "numeric_of s = int (digits_val s)"

lemma numeric_of_nonneg [simp]: "0 \<le> numeric_of s"
  by (simp add: numeric_of_def)

text \<open>
  \<open>new Date(Number(v) * 1000)\<close> bound to a \<open>TIMESTAMPTZ\<close> parameter, in milliseconds. A date
  outside the range of \<open>Date\<close> is invalid and prints as text Postgres does not read.
\<close>

definition invalid_date :: exn where
  "invalid_date = PgError ''22007'' (''invalid input syntax for type timestamp with time zone: '' @
     dquote @ ''0NaN-NaN-NaNTNaN:NaN:NaN.NaN+NaN:NaN'' @ dquote)"

definition trunc_quot :: "int \<Rightarrow> int \<Rightarrow> int" where
  "trunc_quot a b = (if a < 0 then - (- a div b) else a div b)"

definition date_ms :: "int \<Rightarrow> exn + int" where
  "date_ms ms = (if \<bar>ms\<bar> \<le> 8640000000000000 then Inr ms else Inl invalid_date)"

definition unix_seconds_date :: "jsnum \<Rightarrow> exn + int" where
  "unix_seconds_date n =
     (case n of
        NInt i \<Rightarrow> date_ms (i * 1000)
      | NDec m e _ \<Rightarrow> date_ms (if 0 \<le> e + 3 then m * 10 ^ nat (e + 3)
                                else trunc_quot m (10 ^ nat (- (e + 3))))
      | NNaN \<Rightarrow> Inl invalid_date
      | NInf _ \<Rightarrow> Inl invalid_date)"

definition numeric_ok :: "int \<Rightarrow> bool" where
  "numeric_ok i = (0 \<le> i \<and> i < numeric_max)"

lemma pg_numeric_Inr: "pg_numeric i = Inr j \<longleftrightarrow> j = i \<and> \<bar>i\<bar> < numeric_max"
  by (auto simp: pg_numeric_def)

lemma pg_integer_Inr: "pg_integer i = Inr j \<longleftrightarrow> j = i \<and> - int4_max \<le> i \<and> i < int4_max"
  by (auto simp: pg_integer_def)

lemma numeric_ok_pg_numeric: "pg_numeric i = Inr j \<Longrightarrow> 0 \<le> i \<Longrightarrow> numeric_ok j"
  by (auto simp: pg_numeric_Inr numeric_ok_def)

lemma numeric_max_pos [simp]: "0 < numeric_max"
  by (simp add: numeric_max_def)

end
