(* ===== verification/Handlers.thy ===== *)
theory Handlers
  imports Schema
begin

text \<open>
  The event handlers of \<open>src/indexer/handlers.ts\<close>: field validation, one function per handler
  from a decoded event and the derived tables to an error or the new tables, the dispatch
  \<open>applyEvent\<close> and the map from event symbols to stream channels. A handler that throws leaves
  nothing behind, because its callers roll its transaction back.

  The invalidation of the history cache after a change of the daily statistics is an effect on
  Redis and is not part of the tables; the tracing span around a handler has no effect on them.
\<close>

section \<open>Field validation\<close>

definition str :: "jsval \<Rightarrow> string" where
  "str v = (if is_nullish v then ''0'' else js_String v)"

definition num :: "jsval \<Rightarrow> jsnum option" where
  "num v = (let n = js_Number v in if isFinite n then Some n else None)"

definition addr :: "jsval \<Rightarrow> string" where
  "addr v = (case v of JStr s \<Rightarrow> s | _ \<Rightarrow> if is_nullish v then [] else js_String v)"

definition fieldValidationError :: "decoded_event \<Rightarrow> string \<Rightarrow> string \<Rightarrow> exn" where
  "fieldValidationError ev fld reason =
     FieldValidationError (''event '' @ ev_id ev @ '' ('' @ ev_symbol ev @ ''): field '' @
       dquote @ fld @ dquote @ '' '' @ reason)"

definition requireAddr :: "decoded_event \<Rightarrow> string \<Rightarrow> exn + string" where
  "requireAddr ev fld =
     (case field ev fld of
        JStr s \<Rightarrow> if s = [] then Inl (fieldValidationError ev fld
                    (''must be a non-empty address string, got '' @ JSON_stringify (JStr s)))
                  else Inr s
      | v \<Rightarrow> Inl (fieldValidationError ev fld
                    (''must be a non-empty address string, got '' @ JSON_stringify v)))"

definition isIntLike :: "jsval \<Rightarrow> bool" where
  "isIntLike v = (case v of JNum n \<Rightarrow> isInteger n | JStr s \<Rightarrow> all_digits s | _ \<Rightarrow> False)"

definition requireId :: "decoded_event \<Rightarrow> string \<Rightarrow> exn + jsnum" where
  "requireId ev fld =
     (let v = field ev fld in
      if isIntLike v then Inr (js_Number v)
      else Inl (fieldValidationError ev fld
             (''must be a finite integer id, got '' @ JSON_stringify v)))"

text \<open>The digits of an amount, shared by \<open>requireAmount\<close> and \<open>weightOf\<close>.\<close>

definition amount_text :: "jsval \<Rightarrow> string option" where
  "amount_text v =
     (case v of
        JNum n \<Rightarrow> if isFinite n \<and> all_digits (num_String n) then Some (num_String n) else None
      | JStr s \<Rightarrow> if all_digits s then Some s else None
      | _ \<Rightarrow> None)"

definition requireAmount :: "decoded_event \<Rightarrow> string \<Rightarrow> exn + string" where
  "requireAmount ev fld =
     (let v = field ev fld in
      case amount_text v of
        Some s \<Rightarrow> Inr s
      | None \<Rightarrow> Inl (fieldValidationError ev fld
          (''must be a non-negative decimal-integer amount, got '' @ JSON_stringify v)))"

definition requireBool :: "decoded_event \<Rightarrow> string \<Rightarrow> exn + bool" where
  "requireBool ev fld =
     (case field ev fld of
        JBool b \<Rightarrow> Inr b
      | v \<Rightarrow> Inl (fieldValidationError ev fld (''must be a boolean, got '' @ JSON_stringify v)))"

definition normalizeProposalKind :: "jsval \<Rightarrow> proposal_kind option" where
  "normalizeProposalKind v =
     (let tag = (case v of
                   JArr vs \<Rightarrow> (case vs of [] \<Rightarrow> JUndefined | x # _ \<Rightarrow> x)
                 | JObj kvs \<Rightarrow> (case map_of kvs ''tag'' of Some x \<Rightarrow> x | None \<Rightarrow> v)
                 | _ \<Rightarrow> v)
      in case tag of
           JStr s \<Rightarrow> (let lower = js_toLowerCase s in
                      if lower = ''loan'' then Some K_loan
                      else if lower = ''treasury'' then Some K_treasury else None)
         | _ \<Rightarrow> None)"

definition requireProposalKind :: "decoded_event \<Rightarrow> string \<Rightarrow> exn + proposal_kind" where
  "requireProposalKind ev fld =
     (case normalizeProposalKind (field ev fld) of
        Some k \<Rightarrow> Inr k
      | None \<Rightarrow> Inl (fieldValidationError ev fld (''must be a ProposalKind ('' @ dquote @ ''Loan'' @
          dquote @ ''/'' @ dquote @ ''Treasury'' @ dquote @ ''), got '' @ JSON_stringify (field ev fld))))"

definition weightOf :: "decoded_event \<Rightarrow> exn + string" where
  "weightOf ev =
     (let v = field ev ''weight'' in
      if is_nullish v then Inr ''1''
      else case amount_text v of
        Some s \<Rightarrow> Inr s
      | None \<Rightarrow> Inl (fieldValidationError ev ''weight''
          (''must be a non-negative decimal-integer amount, got '' @ JSON_stringify v)))"

section \<open>Statements shared by the handlers\<close>

definition notify ::
  "decoded_event \<Rightarrow> string \<Rightarrow> notification_type \<Rightarrow> string \<Rightarrow> string \<Rightarrow> derived \<Rightarrow> derived" where
  "notify ev address ty title message d =
     (if address = [] then d
      else if \<exists>n \<in> set (notifications d). nt_event_id n = ev_id ev \<and> nt_address n = address then d
      else d\<lparr>notifications := notifications d @
        [\<lparr>nt_address = address, nt_type = ty, nt_title = title, nt_message = message,
          nt_ledger = ev_ledger ev, nt_tx_hash = ev_txHash ev, nt_read = False,
          nt_event_id = ev_id ev\<rparr>]\<rparr>)"

text \<open>\<open>($1::timestamptz AT TIME ZONE 'UTC')::date\<close>, as the number of days since the epoch.\<close>

definition utc_day :: "int \<Rightarrow> int" where
  "utc_day ms = ms div 86400000"

definition incrementDailyLoanStats :: "decoded_event \<Rightarrow> daily_loan_stats_row \<Rightarrow> derived \<Rightarrow> exn + derived" where
  "incrementDailyLoanStats ev deltas d =
     (let day = utc_day (ev_closedAt ev);
          old = (case tget (daily_loan_stats d) day of
                   Some r \<Rightarrow> r
                 | None \<Rightarrow> \<lparr>dl_loans_originated = 0, dl_principal_lent = 0, dl_principal_repaid = 0,
                            dl_defaults_count = 0, dl_value_defaulted = 0\<rparr>) in
      bindE (pg_integer (dl_loans_originated deltas)) (\<lambda>_.
      bindE (pg_numeric (dl_principal_lent deltas)) (\<lambda>_.
      bindE (pg_numeric (dl_principal_repaid deltas)) (\<lambda>_.
      bindE (pg_integer (dl_defaults_count deltas)) (\<lambda>_.
      bindE (pg_numeric (dl_value_defaulted deltas)) (\<lambda>_.
      bindE (pg_integer (dl_loans_originated old + dl_loans_originated deltas)) (\<lambda>lo.
      bindE (pg_numeric (dl_principal_lent old + dl_principal_lent deltas)) (\<lambda>pl.
      bindE (pg_numeric (dl_principal_repaid old + dl_principal_repaid deltas)) (\<lambda>pr.
      bindE (pg_integer (dl_defaults_count old + dl_defaults_count deltas)) (\<lambda>dc.
      bindE (pg_numeric (dl_value_defaulted old + dl_value_defaulted deltas)) (\<lambda>vd.
      Inr (d\<lparr>daily_loan_stats := tput day \<lparr>dl_loans_originated = lo, dl_principal_lent = pl,
             dl_principal_repaid = pr, dl_defaults_count = dc, dl_value_defaulted = vd\<rparr>
             (daily_loan_stats d)\<rparr>))))))))))))"

definition no_deltas :: daily_loan_stats_row where
  "no_deltas = \<lparr>dl_loans_originated = 0, dl_principal_lent = 0, dl_principal_repaid = 0,
     dl_defaults_count = 0, dl_value_defaulted = 0\<rparr>"

text \<open>\<open>UPDATE members SET ... WHERE address = $1\<close>, for settings that can fail on a range.\<close>

definition update_member ::
  "string \<Rightarrow> (member_row \<Rightarrow> exn + member_row) \<Rightarrow> derived \<Rightarrow> exn + derived" where
  "update_member address f d =
     (case tget (members d) address of
        None \<Rightarrow> Inr d
      | Some m \<Rightarrow> bindE (f m) (\<lambda>m'. Inr (d\<lparr>members := tput address m' (members d)\<rparr>)))"

definition update_loan_proposal ::
  "int \<Rightarrow> (loan_proposal_row \<Rightarrow> exn + loan_proposal_row) \<Rightarrow> derived \<Rightarrow> exn + derived" where
  "update_loan_proposal i f d =
     (case tget (loan_proposals d) i of
        None \<Rightarrow> Inr d
      | Some p \<Rightarrow> bindE (f p) (\<lambda>p'. Inr (d\<lparr>loan_proposals := tput i p' (loan_proposals d)\<rparr>)))"

definition update_treasury_proposal ::
  "int \<Rightarrow> (treasury_proposal_row \<Rightarrow> exn + treasury_proposal_row) \<Rightarrow> derived \<Rightarrow> exn + derived" where
  "update_treasury_proposal i f d =
     (case tget (treasury_proposals d) i of
        None \<Rightarrow> Inr d
      | Some p \<Rightarrow> bindE (f p) (\<lambda>p'. Inr (d\<lparr>treasury_proposals := tput i p' (treasury_proposals d)\<rparr>)))"

section \<open>Membership handlers\<close>

definition h_joined :: "decoded_event \<Rightarrow> derived \<Rightarrow> exn + derived" where
  "h_joined ev d =
     bindE (requireAddr ev ''member'') (\<lambda>member.
     bindE (requireAmount ev ''fee'') (\<lambda>fee.
     bindE (pg_numeric (numeric_of fee)) (\<lambda>contribution.
     let d1 = d\<lparr>members := tupsert member
            \<lparr>m_joined_ledger = Some (ev_ledger ev), m_contribution = contribution, m_exited = False,
             m_exit_share = None, m_exited_ledger = None, m_pending_claimed = 0, m_stake = 0,
             m_has_active_loan = False, m_name = None, m_defaults_count = 0\<rparr>
            (\<lambda>m. m\<lparr>m_joined_ledger := Some (ev_ledger ev), m_contribution := contribution,
                   m_exited := False, m_exit_share := None, m_exited_ledger := None,
                   m_has_active_loan := False\<rparr>)
            (members d)\<rparr>
     in Inr (notify ev member N_success ''Welcome to OurDAO'' ''Your membership is active.'' d1))))"

definition h_exited :: "decoded_event \<Rightarrow> derived \<Rightarrow> exn + derived" where
  "h_exited ev d =
     bindE (requireAddr ev ''member'') (\<lambda>member.
     bindE (requireAmount ev ''share'') (\<lambda>share.
     bindE (update_member member (\<lambda>m.
              bindE (pg_numeric (numeric_of share)) (\<lambda>s.
              Inr (m\<lparr>m_exited := True, m_exit_share := Some s, m_exited_ledger := Some (ev_ledger ev),
                     m_stake := 0, m_has_active_loan := False\<rparr>))) d) (\<lambda>d1.
     Inr (notify ev member N_info ''Membership ended''
            (''You withdrew your share of '' @ share @ ''.'') d1))))"

definition h_claimed :: "decoded_event \<Rightarrow> derived \<Rightarrow> exn + derived" where
  "h_claimed ev d =
     bindE (requireAddr ev ''member'') (\<lambda>member.
     bindE (requireAmount ev ''pending'') (\<lambda>pending.
     bindE (update_member member (\<lambda>m.
              bindE (pg_numeric (m_pending_claimed m + numeric_of pending)) (\<lambda>p.
              Inr (m\<lparr>m_pending_claimed := p\<rparr>))) d) (\<lambda>d1.
     Inr (notify ev member N_success ''Yield claimed''
            (''You claimed '' @ pending @ '' in rewards.'') d1))))"

definition h_staked :: "decoded_event \<Rightarrow> derived \<Rightarrow> exn + derived" where
  "h_staked ev d =
     bindE (requireAddr ev ''member'') (\<lambda>member.
     bindE (requireAmount ev ''new_stake'') (\<lambda>newStake.
     update_member member (\<lambda>m.
       bindE (pg_numeric (numeric_of newStake)) (\<lambda>s. Inr (m\<lparr>m_stake := s\<rparr>))) d))"

definition h_unstaked :: "decoded_event \<Rightarrow> derived \<Rightarrow> exn + derived" where
  "h_unstaked ev d =
     bindE (requireAddr ev ''member'') (\<lambda>member.
     bindE (requireAmount ev ''new_stake'') (\<lambda>newStake.
     update_member member (\<lambda>m.
       bindE (pg_numeric (numeric_of newStake)) (\<lambda>s. Inr (m\<lparr>m_stake := s\<rparr>))) d))"

definition h_name_reg :: "decoded_event \<Rightarrow> derived \<Rightarrow> exn + derived" where
  "h_name_reg ev d =
     bindE (requireAddr ev ''owner'') (\<lambda>ow.
     update_member ow (\<lambda>m. Inr (m\<lparr>m_name := Some (addr (field ev ''name''))\<rparr>)) d)"

section \<open>Loan handlers\<close>

definition h_loan_req :: "decoded_event \<Rightarrow> derived \<Rightarrow> exn + derived" where
  "h_loan_req ev d =
     bindE (requireId ev ''id'') (\<lambda>idn.
     bindE (requireAddr ev ''borrower'') (\<lambda>borrower.
     bindE (requireAmount ev ''amount'') (\<lambda>amount.
     bindE (requireAmount ev ''total_repayment'') (\<lambda>totalRepayment.
     bindE (pg_int4_param idn) (\<lambda>i.
     bindE (pg_numeric (numeric_of amount)) (\<lambda>a.
     bindE (pg_numeric (numeric_of totalRepayment)) (\<lambda>tr.
     let d1 = d\<lparr>loan_proposals := tupsert i
            \<lparr>lp_borrower = borrower, lp_amount = a, lp_total_repayment = tr, lp_status = LP_pending,
             lp_votes_for = 0, lp_votes_against = 0, lp_voter_count = 0,
             lp_created_ledger = Some (ev_ledger ev)\<rparr>
            (\<lambda>p. p\<lparr>lp_amount := a, lp_total_repayment := tr\<rparr>)
            (loan_proposals d)\<rparr>
     in Inr (notify ev borrower N_info ''Loan requested''
               (''Proposal #'' @ show_int i @ '' is open for voting.'') d1))))))))"

definition h_loan_edit :: "decoded_event \<Rightarrow> derived \<Rightarrow> exn + derived" where
  "h_loan_edit ev d =
     bindE (requireId ev ''proposal_id'') (\<lambda>idn.
     bindE (requireAmount ev ''new_amount'') (\<lambda>newAmount.
     bindE (requireAmount ev ''total_repayment'') (\<lambda>totalRepayment.
     bindE (pg_int4_param idn) (\<lambda>i.
     update_loan_proposal i (\<lambda>p.
       bindE (pg_numeric (numeric_of newAmount)) (\<lambda>a.
       bindE (pg_numeric (numeric_of totalRepayment)) (\<lambda>tr.
       Inr (p\<lparr>lp_amount := a, lp_total_repayment := tr\<rparr>)))) d))))"

definition h_loan_vote :: "decoded_event \<Rightarrow> derived \<Rightarrow> exn + derived" where
  "h_loan_vote ev d =
     bindE (requireId ev ''proposal_id'') (\<lambda>idn.
     bindE (requireBool ev ''support'') (\<lambda>support.
     bindE (weightOf ev) (\<lambda>weight.
     bindE (pg_int4_param idn) (\<lambda>i.
     update_loan_proposal i (\<lambda>p.
       bindE (pg_numeric ((if support then lp_votes_for p else lp_votes_against p) + numeric_of weight)) (\<lambda>v.
       bindE (pg_integer (lp_voter_count p + 1)) (\<lambda>c.
       Inr (if support then p\<lparr>lp_votes_for := v, lp_voter_count := c\<rparr>
            else p\<lparr>lp_votes_against := v, lp_voter_count := c\<rparr>)))) d))))"

text \<open>
  \<open>UPDATE loan_proposals SET status = s WHERE id = i AND status = 'pending' RETURNING borrower\<close>:
  the borrower of the row changed, if any.
\<close>

definition leave_pending_loan ::
  "int \<Rightarrow> loan_proposal_status \<Rightarrow> derived \<Rightarrow> derived \<times> string option" where
  "leave_pending_loan i s d =
     (case tget (loan_proposals d) i of
        Some p \<Rightarrow> if lp_status p = LP_pending
                  then (d\<lparr>loan_proposals := tput i (p\<lparr>lp_status := s\<rparr>) (loan_proposals d)\<rparr>,
                        Some (lp_borrower p))
                  else (d, None)
      | None \<Rightarrow> (d, None))"

definition h_loan_wait :: "decoded_event \<Rightarrow> derived \<Rightarrow> exn + derived" where
  "h_loan_wait ev d =
     bindE (requireId ev ''id'') (\<lambda>idn.
     bindE (pg_int4_param idn) (\<lambda>i.
     case leave_pending_loan i LP_approved_pending_disbursement d of
       (d1, Some borrower) \<Rightarrow>
         Inr (notify ev borrower N_info ''Loan approved, awaiting funds''
           (''Proposal #'' @ show_int i @ '' reached quorum but the treasury can't cover it yet '' @
            em_dash @ '' it will be disbursed once funds are available.'') d1)
     | (d1, None) \<Rightarrow> Inr d1))"

definition h_loan_rej :: "decoded_event \<Rightarrow> derived \<Rightarrow> exn + derived" where
  "h_loan_rej ev d =
     bindE (requireId ev ''id'') (\<lambda>idn.
     bindE (pg_int4_param idn) (\<lambda>i.
     case leave_pending_loan i LP_rejected d of
       (d1, Some borrower) \<Rightarrow>
         Inr (notify ev borrower N_warning ''Loan proposal rejected''
           (''Proposal #'' @ show_int i @ '' could no longer reach quorum and was rejected.'') d1)
     | (d1, None) \<Rightarrow> Inr d1))"

definition due_time_of :: "jsval \<Rightarrow> exn + int option" where
  "due_time_of v =
     (if is_nullish v then Inr None
      else bindE (unix_seconds_date (js_Number v)) (\<lambda>ms. Inr (Some ms)))"

definition add_principal_lent :: "int \<Rightarrow> derived \<Rightarrow> exn + derived" where
  "add_principal_lent a d =
     bindE (pg_numeric (dt_principal_lent (dao_totals d) + a)) (\<lambda>v.
     Inr (d\<lparr>dao_totals := (dao_totals d)\<lparr>dt_principal_lent := v\<rparr>\<rparr>))"

definition add_principal_repaid :: "int \<Rightarrow> derived \<Rightarrow> exn + derived" where
  "add_principal_repaid a d =
     bindE (pg_numeric (dt_principal_repaid (dao_totals d) + a)) (\<lambda>v.
     Inr (d\<lparr>dao_totals := (dao_totals d)\<lparr>dt_principal_repaid := v\<rparr>\<rparr>))"

definition add_value_defaulted :: "int \<Rightarrow> derived \<Rightarrow> exn + derived" where
  "add_value_defaulted a d =
     bindE (pg_numeric (dt_value_defaulted (dao_totals d) + a)) (\<lambda>v.
     Inr (d\<lparr>dao_totals := (dao_totals d)\<lparr>dt_value_defaulted := v\<rparr>\<rparr>))"

definition add_interest_collected :: "int \<Rightarrow> derived \<Rightarrow> exn + derived" where
  "add_interest_collected a d =
     bindE (pg_numeric (dt_interest_collected (dao_totals d) + a)) (\<lambda>v.
     Inr (d\<lparr>dao_totals := (dao_totals d)\<lparr>dt_interest_collected := v\<rparr>\<rparr>))"

definition set_has_active_loan :: "string \<Rightarrow> bool \<Rightarrow> derived \<Rightarrow> derived" where
  "set_has_active_loan address b d =
     d\<lparr>members := tmod address (\<lambda>m. m\<lparr>m_has_active_loan := b\<rparr>) (members d)\<rparr>"

text \<open>
  The loans part of \<open>loan_appr\<close>: insert the loan or reactivate the row there, and count the
  principal only for a fresh row.
\<close>

definition open_loan ::
  "decoded_event \<Rightarrow> int \<Rightarrow> string \<Rightarrow> int \<Rightarrow> int \<Rightarrow> int option \<Rightarrow> derived \<Rightarrow> exn + derived" where
  "open_loan ev i borrower a totalRepayment dueTime d =
     (case tget (loans d) i of
        Some l \<Rightarrow>
          Inr (d\<lparr>loans := tput i (l\<lparr>ln_status := LN_active, ln_approved_ledger := Some (ev_ledger ev)\<rparr>)
                 (loans d)\<rparr>)
      | None \<Rightarrow>
          (let d1 = d\<lparr>loans := tput i
                 \<lparr>ln_borrower = borrower, ln_amount = a, ln_outstanding = totalRepayment,
                  ln_total_repayment = totalRepayment, ln_status = LN_active,
                  ln_approved_ledger = Some (ev_ledger ev), ln_due_time = dueTime,
                  ln_repaid_ledger = None, ln_defaulted_ledger = None\<rparr> (loans d)\<rparr>
           in bindE (add_principal_lent a d1)
                (incrementDailyLoanStats ev (no_deltas\<lparr>dl_loans_originated := 1, dl_principal_lent := a\<rparr>))))"

definition h_loan_appr :: "decoded_event \<Rightarrow> derived \<Rightarrow> exn + derived" where
  "h_loan_appr ev d =
     bindE (requireId ev ''id'') (\<lambda>idn.
     bindE (requireAddr ev ''borrower'') (\<lambda>borrower.
     bindE (requireAmount ev ''amount'') (\<lambda>amount.
     bindE (pg_int4_param idn) (\<lambda>i.
     let d1 = d\<lparr>loan_proposals := tmod i (\<lambda>p. p\<lparr>lp_status := LP_approved\<rparr>) (loan_proposals d)\<rparr>;
         totalRepayment = (case tget (loan_proposals d1) i of
                             Some p \<Rightarrow> lp_total_repayment p
                           | None \<Rightarrow> numeric_of amount)
     in
     bindE (due_time_of (field ev ''due_time'')) (\<lambda>dueTime.
     bindE (pg_numeric (numeric_of amount)) (\<lambda>a.
     bindE (pg_numeric totalRepayment) (\<lambda>tr.
     bindE (open_loan ev i borrower a tr dueTime d1) (\<lambda>d2.
     Inr (notify ev borrower N_success ''Loan approved''
            (''Loan #'' @ show_int i @ '' of '' @ amount @ '' was approved.'')
            (set_has_active_loan borrower True d2))))))))))"

text \<open>
  The loans part of \<open>loan_rpy\<close>: the update of the loan and, when it is the repayment that clears
  the loan, the principal counted once.
\<close>

definition repay_loan ::
  "decoded_event \<Rightarrow> int \<Rightarrow> int \<Rightarrow> loan_status \<Rightarrow> derived \<Rightarrow> exn + derived" where
  "repay_loan ev i outstanding status d =
     (case tget (loans d) i of
        None \<Rightarrow> Inr d
      | Some prev \<Rightarrow>
          bindE (pg_numeric outstanding) (\<lambda>o'.
          let d1 = d\<lparr>loans := tput i (prev\<lparr>ln_outstanding := o', ln_status := status,
                 ln_repaid_ledger := (if status = LN_repaid then Some (ev_ledger ev)
                                      else ln_repaid_ledger prev)\<rparr>) (loans d)\<rparr>
          in if status = LN_repaid \<and> ln_status prev \<noteq> LN_repaid
             then bindE (add_principal_repaid (ln_amount prev) d1)
                    (incrementDailyLoanStats ev (no_deltas\<lparr>dl_principal_repaid := ln_amount prev\<rparr>))
             else Inr d1))"

definition h_loan_rpy :: "decoded_event \<Rightarrow> derived \<Rightarrow> exn + derived" where
  "h_loan_rpy ev d =
     bindE (requireId ev ''loan_id'') (\<lambda>idn.
     bindE (requireAddr ev ''borrower'') (\<lambda>borrower.
     bindE (requireAmount ev ''outstanding'') (\<lambda>outstanding.
     let status = (if outstanding = ''0'' then LN_repaid else LN_active) in
     bindE (pg_int4_param idn) (\<lambda>i.
     bindE (repay_loan ev i (numeric_of outstanding) status d) (\<lambda>d1.
     let d2 = (if status = LN_repaid then set_has_active_loan borrower False d1 else d1)
     in Inr (notify ev borrower (if status = LN_repaid then N_success else N_info) ''Loan repayment''
          (if status = LN_repaid then ''Loan #'' @ show_int i @ '' is fully repaid.''
           else ''Repayment received; '' @ outstanding @ '' remaining.'') d2))))))"

definition h_loan_dflt :: "decoded_event \<Rightarrow> derived \<Rightarrow> exn + derived" where
  "h_loan_dflt ev d =
     bindE (requireId ev ''loan_id'') (\<lambda>idn.
     bindE (requireAddr ev ''borrower'') (\<lambda>borrower.
     bindE (requireAmount ev ''penalty'') (\<lambda>penalty.
     bindE (pg_int4_param idn) (\<lambda>i.
     case tget (loans d) i of
       None \<Rightarrow> Inr d
     | Some l \<Rightarrow>
         if ln_status l = LN_defaulted then Inr d
         else
           let d1 = d\<lparr>loans := tput i (l\<lparr>ln_status := LN_defaulted,
                        ln_defaulted_ledger := Some (ev_ledger ev)\<rparr>) (loans d)\<rparr>
           in
           bindE (add_value_defaulted (ln_outstanding l) d1) (\<lambda>d2.
           bindE (incrementDailyLoanStats ev
                    (no_deltas\<lparr>dl_defaults_count := 1, dl_value_defaulted := ln_outstanding l\<rparr>) d2) (\<lambda>d3.
           bindE (update_member borrower (\<lambda>m.
                    bindE (pg_numeric (max (m_contribution m - numeric_of penalty) 0)) (\<lambda>c.
                    bindE (pg_integer (m_defaults_count m + 1)) (\<lambda>n.
                    Inr (m\<lparr>m_contribution := c, m_has_active_loan := False, m_defaults_count := n\<rparr>)))) d3) (\<lambda>d4.
           Inr (notify ev borrower N_error ''Loan defaulted''
             (''Loan #'' @ show_int i @ '' was marked defaulted; a penalty of '' @ penalty @
              '' was applied to your contribution.'') d4)))))))) "

definition h_loan_exp :: "decoded_event \<Rightarrow> derived \<Rightarrow> exn + derived" where
  "h_loan_exp ev d =
     bindE (requireId ev ''proposal_id'') (\<lambda>idn.
     bindE (requireAddr ev ''borrower'') (\<lambda>borrower.
     bindE (pg_int4_param idn) (\<lambda>i.
     case leave_pending_loan i LP_rejected d of
       (d1, Some _) \<Rightarrow>
         Inr (notify ev borrower N_warning ''Loan proposal expired''
           (''Proposal #'' @ show_int i @ '' expired without reaching quorum.'') d1)
     | (d1, None) \<Rightarrow> Inr d1)))"

definition h_interest :: "decoded_event \<Rightarrow> derived \<Rightarrow> exn + derived" where
  "h_interest ev d =
     bindE (requireAmount ev ''interest'') (\<lambda>amount.
     bindE (case num (field ev ''active'') of
              None \<Rightarrow> Inr None
            | Some n \<Rightarrow> bindE (pg_int4_param n) (\<lambda>k. Inr (Some k))) (\<lambda>active.
     bindE (pg_numeric (numeric_of amount)) (\<lambda>a.
     if \<exists>r \<in> set (interest_distributions d). idr_event_id r = ev_id ev then Inr d
     else add_interest_collected a
       (d\<lparr>interest_distributions := interest_distributions d @
         [\<lparr>idr_event_id = ev_id ev, idr_ledger = ev_ledger ev, idr_amount = a,
           idr_active_members = active, idr_tx_hash = ev_txHash ev\<rparr>]\<rparr>))))"

section \<open>Treasury handlers\<close>

definition h_tre_prop :: "decoded_event \<Rightarrow> derived \<Rightarrow> exn + derived" where
  "h_tre_prop ev d =
     bindE (requireId ev ''id'') (\<lambda>idn.
     bindE (requireAmount ev ''amount'') (\<lambda>amount.
     bindE (requireAddr ev ''destination'') (\<lambda>destination.
     bindE (pg_int4_param idn) (\<lambda>i.
     bindE (pg_numeric (numeric_of amount)) (\<lambda>a.
     let priv = (field ev ''private'' = JBool True) in
     Inr (d\<lparr>treasury_proposals := tupsert i
            \<lparr>tp_amount = a, tp_destination = destination, tp_private = priv, tp_status = TP_pending,
             tp_votes_for = 0, tp_votes_against = 0, tp_voter_count = 0,
             tp_created_ledger = Some (ev_ledger ev), tp_executed_ledger = None\<rparr>
            (\<lambda>p. p\<lparr>tp_amount := a, tp_destination := destination, tp_private := priv\<rparr>)
            (treasury_proposals d)\<rparr>))))))"

text \<open>The tally update of \<open>tre_vote\<close> and \<open>revealed\<close>.\<close>

definition tally_treasury :: "int \<Rightarrow> bool \<Rightarrow> string \<Rightarrow> derived \<Rightarrow> exn + derived" where
  "tally_treasury i support weight d =
     update_treasury_proposal i (\<lambda>p.
       bindE (pg_numeric ((if support then tp_votes_for p else tp_votes_against p) + numeric_of weight)) (\<lambda>v.
       bindE (pg_integer (tp_voter_count p + 1)) (\<lambda>c.
       Inr (if support then p\<lparr>tp_votes_for := v, tp_voter_count := c\<rparr>
            else p\<lparr>tp_votes_against := v, tp_voter_count := c\<rparr>)))) d"

definition h_tre_vote :: "decoded_event \<Rightarrow> derived \<Rightarrow> exn + derived" where
  "h_tre_vote ev d =
     bindE (requireId ev ''id'') (\<lambda>idn.
     bindE (requireBool ev ''support'') (\<lambda>support.
     bindE (weightOf ev) (\<lambda>weight.
     bindE (pg_int4_param idn) (\<lambda>i. tally_treasury i support weight d))))"

definition h_revealed :: "decoded_event \<Rightarrow> derived \<Rightarrow> exn + derived" where
  "h_revealed ev d =
     bindE (requireId ev ''proposal_id'') (\<lambda>idn.
     bindE (requireBool ev ''support'') (\<lambda>support.
     bindE (weightOf ev) (\<lambda>weight.
     bindE (pg_int4_param idn) (\<lambda>i. tally_treasury i support weight d))))"

definition leave_pending_treasury ::
  "int \<Rightarrow> treasury_proposal_status \<Rightarrow> derived \<Rightarrow> derived \<times> string option" where
  "leave_pending_treasury i s d =
     (case tget (treasury_proposals d) i of
        Some p \<Rightarrow> if tp_status p = TP_pending
                  then (d\<lparr>treasury_proposals := tput i (p\<lparr>tp_status := s\<rparr>) (treasury_proposals d)\<rparr>,
                        Some (tp_destination p))
                  else (d, None)
      | None \<Rightarrow> (d, None))"

definition h_tre_wait :: "decoded_event \<Rightarrow> derived \<Rightarrow> exn + derived" where
  "h_tre_wait ev d =
     bindE (requireId ev ''id'') (\<lambda>idn.
     bindE (pg_int4_param idn) (\<lambda>i.
     case leave_pending_treasury i TP_approved_pending_disbursement d of
       (d1, Some destination) \<Rightarrow>
         Inr (notify ev destination N_info ''Treasury withdrawal approved, awaiting funds''
           (''Proposal #'' @ show_int i @ '' reached quorum but the treasury can't cover it yet '' @
            em_dash @ '' it will execute once funds are available.'') d1)
     | (d1, None) \<Rightarrow> Inr d1))"

definition h_tre_rej :: "decoded_event \<Rightarrow> derived \<Rightarrow> exn + derived" where
  "h_tre_rej ev d =
     bindE (requireId ev ''id'') (\<lambda>idn.
     bindE (pg_int4_param idn) (\<lambda>i.
     case leave_pending_treasury i TP_rejected d of
       (d1, Some destination) \<Rightarrow>
         Inr (notify ev destination N_warning ''Treasury proposal rejected''
           (''Proposal #'' @ show_int i @ '' could no longer reach quorum and was rejected.'') d1)
     | (d1, None) \<Rightarrow> Inr d1))"

definition h_tre_exec :: "decoded_event \<Rightarrow> derived \<Rightarrow> exn + derived" where
  "h_tre_exec ev d =
     bindE (requireId ev ''id'') (\<lambda>idn.
     bindE (requireAddr ev ''destination'') (\<lambda>destination.
     bindE (pg_int4_param idn) (\<lambda>i.
     let d1 = d\<lparr>treasury_proposals := tmod i (\<lambda>p. p\<lparr>tp_status := TP_executed,
            tp_executed_ledger := Some (ev_ledger ev)\<rparr>) (treasury_proposals d)\<rparr>
     in Inr (notify ev destination N_success ''Treasury withdrawal executed''
          (str (field ev ''amount'') @ '' was sent to your address.'') d1))))"

definition h_committed :: "decoded_event \<Rightarrow> derived \<Rightarrow> exn + derived" where
  "h_committed ev d =
     Inr (notify ev (addr (field ev ''voter'')) N_info ''Private vote committed''
       (''Your commitment for proposal #'' @ str (field ev ''proposal_id'') @ '' was recorded.'') d)"

definition h_doc_attn :: "decoded_event \<Rightarrow> derived \<Rightarrow> exn + derived" where
  "h_doc_attn ev d =
     bindE (requireId ev ''proposal_id'') (\<lambda>idn.
     bindE (requireAddr ev ''caller'') (\<lambda>caller.
     bindE (requireProposalKind ev ''kind'') (\<lambda>kind.
     bindE (pg_int4_param idn) (\<lambda>i.
     if \<exists>r \<in> set (documents d). doc_event_id r = ev_id ev then Inr d
     else Inr (d\<lparr>documents := documents d @
       [\<lparr>doc_event_id = ev_id ev, doc_proposal_id = i, doc_kind = kind, doc_caller = caller,
         doc_ledger = ev_ledger ev, doc_tx_hash = ev_txHash ev\<rparr>]\<rparr>)))))"

section \<open>Dispatch\<close>

type_synonym handler = "decoded_event \<Rightarrow> derived \<Rightarrow> exn + derived"

definition handlers :: "(string \<times> handler) list" where
  "handlers =
    [(''joined'', h_joined), (''exited'', h_exited), (''claimed'', h_claimed),
     (''loan_req'', h_loan_req), (''loan_edit'', h_loan_edit), (''loan_vote'', h_loan_vote),
     (''loan_wait'', h_loan_wait), (''loan_rej'', h_loan_rej), (''loan_appr'', h_loan_appr),
     (''loan_rpy'', h_loan_rpy), (''loan_dflt'', h_loan_dflt), (''loan_exp'', h_loan_exp),
     (''interest'', h_interest), (''tre_prop'', h_tre_prop), (''tre_vote'', h_tre_vote),
     (''tre_wait'', h_tre_wait), (''tre_rej'', h_tre_rej), (''tre_exec'', h_tre_exec),
     (''staked'', h_staked), (''unstaked'', h_unstaked), (''name_reg'', h_name_reg),
     (''committed'', h_committed), (''doc_attn'', h_doc_attn), (''revealed'', h_revealed)]"

text \<open>\<open>STREAM_CHANNELS\<close> of \<open>src/api/stream.ts\<close>, in the order of \<open>Object.values\<close>.\<close>

definition STREAM_CHANNELS :: "(string \<times> string) list" where
  "STREAM_CHANNELS =
    [(''members'', ''members_changed''), (''loan_proposals'', ''loan_proposals_changed''),
     (''loans'', ''loans_changed''), (''treasury_proposals'', ''treasury_proposals_changed''),
     (''interest'', ''interest_changed'')]"

definition channel :: "string \<Rightarrow> string" where
  "channel k = (case map_of STREAM_CHANNELS k of Some c \<Rightarrow> c | None \<Rightarrow> [])"

definition channelMap :: "(string \<times> string list) list" where
  "channelMap =
    (let members = [channel ''members'']; proposals = [channel ''loan_proposals''];
         lns = [channel ''loans'']; treasury = [channel ''treasury_proposals''] in
    [(''joined'', members), (''exited'', members), (''staked'', members), (''unstaked'', members),
     (''claimed'', members), (''name_reg'', members),
     (''loan_req'', proposals), (''loan_edit'', proposals), (''loan_vote'', proposals),
     (''loan_wait'', proposals), (''loan_rej'', proposals), (''loan_appr'', proposals @ lns),
     (''loan_exp'', proposals), (''loan_reject'', proposals), (''loan_disburse'', lns),
     (''loan_rpy'', lns), (''loan_dflt'', lns),
     (''tre_prop'', treasury), (''tre_vote'', treasury), (''committed'', treasury),
     (''revealed'', treasury), (''tre_exec'', treasury), (''tre_wait'', treasury),
     (''tre_rej'', treasury), (''interest'', [channel ''interest''])])"

text \<open>
  The handler found under a symbol. A symbol that names a property of \<open>Object.prototype\<close> finds
  the inherited function: \<open>Object\<close> and \<open>toString\<close> return, the others throw when called without
  a receiver. \<open>namedFields\<close> throws on such a symbol before any caller of \<open>applyEvent\<close> gets here.
\<close>

definition run_handler :: "string \<Rightarrow> handler" where
  "run_handler symbol ev d =
     (case obj_get handlers symbol of
        Own h \<Rightarrow> h ev d
      | Missing \<Rightarrow> Inr d
      | Inherited k \<Rightarrow> if k = ''constructor'' \<or> k = ''toString'' then Inr d
                       else Inl (JsTypeError ''Cannot convert undefined or null to object''))"

definition channels_of :: "string \<Rightarrow> string list" where
  "channels_of symbol = (case map_of channelMap symbol of Some cs \<Rightarrow> cs | None \<Rightarrow> [])"

definition applyEvent :: "decoded_event \<Rightarrow> derived \<Rightarrow> exn + derived \<times> string list" where
  "applyEvent ev d =
     bindE (run_handler (ev_symbol ev) ev d) (\<lambda>d'. Inr (d', channels_of (ev_symbol ev)))"

end
