(* ===== verification/Handlers_Inv.thy ===== *)
theory Handlers_Inv
  imports Handlers
begin

text \<open>
  Invariants of the derived tables under every handler: keys are unique, every amount lies in
  the range of its column and is not negative, every counter is a non-negative 32-bit value, and
  the lifetime totals agree with the tables they summarise.
\<close>

section \<open>Well-formed tables\<close>

definition int4_ok :: "int \<Rightarrow> bool" where
  "int4_ok i = (0 \<le> i \<and> i < int4_max)"

definition member_ok :: "member_row \<Rightarrow> bool" where
  "member_ok m = (numeric_ok (m_contribution m) \<and> numeric_ok (m_pending_claimed m) \<and>
     numeric_ok (m_stake m) \<and> (case m_exit_share m of None \<Rightarrow> True | Some s \<Rightarrow> numeric_ok s) \<and>
     int4_ok (m_defaults_count m))"

definition loan_proposal_ok :: "loan_proposal_row \<Rightarrow> bool" where
  "loan_proposal_ok p = (numeric_ok (lp_amount p) \<and> numeric_ok (lp_total_repayment p) \<and>
     numeric_ok (lp_votes_for p) \<and> numeric_ok (lp_votes_against p) \<and> int4_ok (lp_voter_count p))"

definition loan_ok :: "loan_row \<Rightarrow> bool" where
  "loan_ok l = (numeric_ok (ln_amount l) \<and> numeric_ok (ln_outstanding l) \<and>
     numeric_ok (ln_total_repayment l))"

definition treasury_proposal_ok :: "treasury_proposal_row \<Rightarrow> bool" where
  "treasury_proposal_ok p = (numeric_ok (tp_amount p) \<and> numeric_ok (tp_votes_for p) \<and>
     numeric_ok (tp_votes_against p) \<and> int4_ok (tp_voter_count p))"

definition daily_ok :: "daily_loan_stats_row \<Rightarrow> bool" where
  "daily_ok r = (int4_ok (dl_loans_originated r) \<and> numeric_ok (dl_principal_lent r) \<and>
     numeric_ok (dl_principal_repaid r) \<and> int4_ok (dl_defaults_count r) \<and>
     numeric_ok (dl_value_defaulted r))"

definition totals_ok :: "dao_totals_row \<Rightarrow> bool" where
  "totals_ok t = (numeric_ok (dt_interest_collected t) \<and> numeric_ok (dt_principal_lent t) \<and>
     numeric_ok (dt_principal_repaid t) \<and> numeric_ok (dt_value_defaulted t))"

definition notification_key :: "notification_row \<Rightarrow> string \<times> string" where
  "notification_key n = (nt_event_id n, nt_address n)"

definition wf_members :: "derived \<Rightarrow> bool" where
  "wf_members d = (tuniq (members d) \<and> tall member_ok (members d))"

definition wf_loan_proposals :: "derived \<Rightarrow> bool" where
  "wf_loan_proposals d = (tuniq (loan_proposals d) \<and> tall loan_proposal_ok (loan_proposals d))"

definition wf_loans :: "derived \<Rightarrow> bool" where
  "wf_loans d = (tuniq (loans d) \<and> tall loan_ok (loans d))"

definition wf_treasury :: "derived \<Rightarrow> bool" where
  "wf_treasury d = (tuniq (treasury_proposals d) \<and> tall treasury_proposal_ok (treasury_proposals d))"

definition wf_lists :: "derived \<Rightarrow> bool" where
  "wf_lists d = (distinct (map notification_key (notifications d)) \<and>
     list_all (\<lambda>n. nt_address n \<noteq> []) (notifications d) \<and>
     distinct (map idr_event_id (interest_distributions d)) \<and>
     list_all (\<lambda>r. numeric_ok (idr_amount r)) (interest_distributions d) \<and>
     distinct (map doc_event_id (documents d)))"

definition wf_daily :: "derived \<Rightarrow> bool" where
  "wf_daily d = (tuniq (daily_loan_stats d) \<and> tall daily_ok (daily_loan_stats d))"

definition wf_derived :: "derived \<Rightarrow> bool" where
  "wf_derived d = (wf_members d \<and> wf_loan_proposals d \<and> wf_loans d \<and> wf_treasury d \<and>
     wf_lists d \<and> wf_daily d \<and> totals_ok (dao_totals d))"

text \<open>
  The lifetime totals agree with the rows they summarise: the loans, the daily statistics and
  the interest distributions.
\<close>

definition totals_agree :: "derived \<Rightarrow> bool" where
  "totals_agree d =
     (dt_principal_lent (dao_totals d) = tsum ln_amount (loans d) \<and>
      dt_principal_lent (dao_totals d) = tsum dl_principal_lent (daily_loan_stats d) \<and>
      dt_principal_repaid (dao_totals d) = tsum dl_principal_repaid (daily_loan_stats d) \<and>
      dt_value_defaulted (dao_totals d) = tsum dl_value_defaulted (daily_loan_stats d) \<and>
      tsum dl_loans_originated (daily_loan_stats d) = int (length (loans d)) \<and>
      dt_interest_collected (dao_totals d) = sum_list (map idr_amount (interest_distributions d)))"

lemmas wf_parts_defs = wf_members_def wf_loan_proposals_def wf_loans_def wf_treasury_def
  wf_lists_def wf_daily_def

lemma numeric_ok_0 [simp]: "numeric_ok 0"
  by (simp add: numeric_ok_def)

lemma int4_ok_0 [simp]: "int4_ok 0"
  by (simp add: int4_ok_def int4_max_def)

lemma wf_empty_derived: "wf_derived empty_derived"
  by (simp add: wf_derived_def wf_parts_defs empty_derived_def zero_totals_def totals_ok_def)

lemma totals_agree_empty: "totals_agree empty_derived"
  by (simp add: totals_agree_def empty_derived_def zero_totals_def)

section \<open>The statements the handlers share\<close>

lemma notify_only_notifications:
  "\<exists>ns. notify ev a ty ti ms d = d\<lparr>notifications := ns\<rparr>"
  unfolding notify_def by (metis derived.unfold_congs(5) derived.surjective derived.update_convs(5))

lemma notify_frame [simp]:
  "members (notify ev a ty ti ms d) = members d"
  "loan_proposals (notify ev a ty ti ms d) = loan_proposals d"
  "loans (notify ev a ty ti ms d) = loans d"
  "treasury_proposals (notify ev a ty ti ms d) = treasury_proposals d"
  "interest_distributions (notify ev a ty ti ms d) = interest_distributions d"
  "daily_loan_stats (notify ev a ty ti ms d) = daily_loan_stats d"
  "documents (notify ev a ty ti ms d) = documents d"
  "dao_totals (notify ev a ty ti ms d) = dao_totals d"
  by (simp_all add: notify_def)

lemma wf_notify [inv_intros]: "wf_derived d \<Longrightarrow> wf_derived (notify ev a ty ti ms d)"
  by (auto simp: wf_derived_def wf_parts_defs notify_def notification_key_def)

lemma agree_notify [inv_intros]: "totals_agree d \<Longrightarrow> totals_agree (notify ev a ty ti ms d)"
  by (simp add: totals_agree_def)

lemma wf_get:
  assumes "wf_derived d"
  shows "tget (members d) a = Some m \<Longrightarrow> member_ok m"
    and "tget (loan_proposals d) i = Some p \<Longrightarrow> loan_proposal_ok p"
    and "tget (loans d) i = Some l \<Longrightarrow> loan_ok l"
    and "tget (treasury_proposals d) i = Some q \<Longrightarrow> treasury_proposal_ok q"
    and "tget (daily_loan_stats d) i = Some r \<Longrightarrow> daily_ok r"
  using assms by (auto simp: wf_derived_def wf_parts_defs dest: tall_tget)

lemma wf_put [inv_intros]:
  assumes "wf_derived d"
  shows "member_ok m \<Longrightarrow> wf_derived (d\<lparr>members := tput a m (members d)\<rparr>)"
    and "loan_proposal_ok p \<Longrightarrow> wf_derived (d\<lparr>loan_proposals := tput i p (loan_proposals d)\<rparr>)"
    and "loan_ok l \<Longrightarrow> wf_derived (d\<lparr>loans := tput i l (loans d)\<rparr>)"
    and "treasury_proposal_ok q \<Longrightarrow> wf_derived (d\<lparr>treasury_proposals := tput i q (treasury_proposals d)\<rparr>)"
    and "daily_ok r \<Longrightarrow> wf_derived (d\<lparr>daily_loan_stats := tput i r (daily_loan_stats d)\<rparr>)"
    and "totals_ok t \<Longrightarrow> wf_derived (d\<lparr>dao_totals := t\<rparr>)"
  using assms by (simp_all add: wf_derived_def wf_parts_defs)

lemma agree_frame [inv_intros]:
  assumes "totals_agree d"
  shows "totals_agree (d\<lparr>members := ms\<rparr>)" and "totals_agree (d\<lparr>loan_proposals := ps\<rparr>)"
    and "totals_agree (d\<lparr>treasury_proposals := ts\<rparr>)" and "totals_agree (d\<lparr>documents := ds\<rparr>)"
  using assms by (simp_all add: totals_agree_def)

lemma wf_update_member:
  assumes "update_member a f d = Inr d'" and "wf_derived d"
    and "\<And>m m'. member_ok m \<Longrightarrow> f m = Inr m' \<Longrightarrow> member_ok m'"
  shows "wf_derived d'"
  using assms wf_get(1) [OF assms(2), of a]
  by (auto simp: update_member_def bindE_eq_Inr split: option.splits intro!: wf_put)

lemma agree_update_member:
  "update_member a f d = Inr d' \<Longrightarrow> totals_agree d \<Longrightarrow> totals_agree d'"
  by (auto simp: update_member_def bindE_eq_Inr split: option.splits intro: agree_frame)

lemma wf_update_loan_proposal:
  assumes "update_loan_proposal i f d = Inr d'" and "wf_derived d"
    and "\<And>p p'. loan_proposal_ok p \<Longrightarrow> f p = Inr p' \<Longrightarrow> loan_proposal_ok p'"
  shows "wf_derived d'"
  using assms wf_get(2) [OF assms(2), of i]
  by (auto simp: update_loan_proposal_def bindE_eq_Inr split: option.splits intro!: wf_put)

lemma agree_update_loan_proposal:
  "update_loan_proposal i f d = Inr d' \<Longrightarrow> totals_agree d \<Longrightarrow> totals_agree d'"
  by (auto simp: update_loan_proposal_def bindE_eq_Inr split: option.splits intro: agree_frame)

lemma wf_update_treasury_proposal:
  assumes "update_treasury_proposal i f d = Inr d'" and "wf_derived d"
    and "\<And>p p'. treasury_proposal_ok p \<Longrightarrow> f p = Inr p' \<Longrightarrow> treasury_proposal_ok p'"
  shows "wf_derived d'"
  using assms wf_get(4) [OF assms(2), of i]
  by (auto simp: update_treasury_proposal_def bindE_eq_Inr split: option.splits intro!: wf_put)

lemma agree_update_treasury_proposal:
  "update_treasury_proposal i f d = Inr d' \<Longrightarrow> totals_agree d \<Longrightarrow> totals_agree d'"
  by (auto simp: update_treasury_proposal_def bindE_eq_Inr split: option.splits intro: agree_frame)

lemma wf_set_has_active_loan [inv_intros]:
  "wf_derived d \<Longrightarrow> wf_derived (set_has_active_loan a b d)"
  by (auto simp: set_has_active_loan_def wf_derived_def wf_parts_defs member_ok_def intro!: tall_tmod)

lemma agree_set_has_active_loan [inv_intros]:
  "totals_agree d \<Longrightarrow> totals_agree (set_has_active_loan a b d)"
  by (simp add: set_has_active_loan_def agree_frame)

lemma wf_leave_pending_loan:
  assumes "leave_pending_loan i s d = (d', b)" and "wf_derived d"
  shows "wf_derived d'"
proof (cases "tget (loan_proposals d) i")
  case None
  with assms show ?thesis by (simp add: leave_pending_loan_def)
next
  case (Some p)
  then have "loan_proposal_ok (p\<lparr>lp_status := s\<rparr>)"
    using wf_get(2) [OF assms(2)] by (auto simp: loan_proposal_ok_def)
  with assms Some show ?thesis
    by (auto simp: leave_pending_loan_def split: if_splits intro: wf_put)
qed

lemma agree_leave_pending_loan:
  "leave_pending_loan i s d = (d', b) \<Longrightarrow> totals_agree d \<Longrightarrow> totals_agree d'"
  by (auto simp: leave_pending_loan_def split: option.splits if_splits intro: agree_frame)

lemma wf_leave_pending_treasury:
  assumes "leave_pending_treasury i s d = (d', b)" and "wf_derived d"
  shows "wf_derived d'"
proof (cases "tget (treasury_proposals d) i")
  case None
  with assms show ?thesis by (simp add: leave_pending_treasury_def)
next
  case (Some p)
  then have "treasury_proposal_ok (p\<lparr>tp_status := s\<rparr>)"
    using wf_get(4) [OF assms(2)] by (auto simp: treasury_proposal_ok_def)
  with assms Some show ?thesis
    by (auto simp: leave_pending_treasury_def split: if_splits intro: wf_put)
qed

lemma agree_leave_pending_treasury:
  "leave_pending_treasury i s d = (d', b) \<Longrightarrow> totals_agree d \<Longrightarrow> totals_agree d'"
  by (auto simp: leave_pending_treasury_def split: option.splits if_splits intro: agree_frame)

subsection \<open>Daily statistics and totals\<close>

lemma tput_sum:
  "tsum f (tput k r t) = (case tget t k of None \<Rightarrow> tsum f t + f r | Some r0 \<Rightarrow> tsum f t - f r0 + f r)"
  by (auto simp: tsum_tput_fresh tsum_tput split: option.splits)

lemma incrementDaily_sums:
  assumes "incrementDailyLoanStats ev \<delta> d = Inr d'"
  shows "tsum dl_loans_originated (daily_loan_stats d') = tsum dl_loans_originated (daily_loan_stats d) + dl_loans_originated \<delta>"
    and "tsum dl_principal_lent (daily_loan_stats d') = tsum dl_principal_lent (daily_loan_stats d) + dl_principal_lent \<delta>"
    and "tsum dl_principal_repaid (daily_loan_stats d') = tsum dl_principal_repaid (daily_loan_stats d) + dl_principal_repaid \<delta>"
    and "tsum dl_defaults_count (daily_loan_stats d') = tsum dl_defaults_count (daily_loan_stats d) + dl_defaults_count \<delta>"
    and "tsum dl_value_defaulted (daily_loan_stats d') = tsum dl_value_defaulted (daily_loan_stats d) + dl_value_defaulted \<delta>"
  using assms
  by (auto simp: incrementDailyLoanStats_def Let_def bindE_eq_Inr pg_integer_Inr pg_numeric_Inr
      tput_sum split: option.splits)

lemma incrementDaily_frame:
  assumes "incrementDailyLoanStats ev \<delta> d = Inr d'"
  shows "d' = d\<lparr>daily_loan_stats := daily_loan_stats d'\<rparr>"
  using assms by (auto simp: incrementDailyLoanStats_def Let_def bindE_eq_Inr)

lemma wf_incrementDaily:
  assumes "incrementDailyLoanStats ev \<delta> d = Inr d'" and "wf_derived d"
    and "0 \<le> dl_loans_originated \<delta>" "0 \<le> dl_principal_lent \<delta>" "0 \<le> dl_principal_repaid \<delta>"
      "0 \<le> dl_defaults_count \<delta>" "0 \<le> dl_value_defaulted \<delta>"
  shows "wf_derived d'"
proof -
  have old: "tget (daily_loan_stats d) k = Some r \<Longrightarrow> daily_ok r" for k r
    using assms(2) by (rule wf_get(5))
  show ?thesis
    using assms old [of "utc_day (ev_closedAt ev)"]
    by (auto simp: incrementDailyLoanStats_def Let_def bindE_eq_Inr pg_integer_Inr pg_numeric_Inr
        daily_ok_def numeric_ok_def int4_ok_def split: option.splits intro!: wf_put)
qed

lemma add_totals_frame:
  "add_principal_lent a d = Inr d' \<Longrightarrow> d' = d\<lparr>dao_totals := (dao_totals d)\<lparr>dt_principal_lent := dt_principal_lent (dao_totals d) + a\<rparr>\<rparr>"
  "add_principal_repaid a d = Inr d' \<Longrightarrow> d' = d\<lparr>dao_totals := (dao_totals d)\<lparr>dt_principal_repaid := dt_principal_repaid (dao_totals d) + a\<rparr>\<rparr>"
  "add_value_defaulted a d = Inr d' \<Longrightarrow> d' = d\<lparr>dao_totals := (dao_totals d)\<lparr>dt_value_defaulted := dt_value_defaulted (dao_totals d) + a\<rparr>\<rparr>"
  "add_interest_collected a d = Inr d' \<Longrightarrow> d' = d\<lparr>dao_totals := (dao_totals d)\<lparr>dt_interest_collected := dt_interest_collected (dao_totals d) + a\<rparr>\<rparr>"
  by (auto simp: add_principal_lent_def add_principal_repaid_def add_value_defaulted_def
      add_interest_collected_def bindE_eq_Inr pg_numeric_Inr)

lemma wf_add_totals:
  assumes "wf_derived d" and "0 \<le> a"
  shows "add_principal_lent a d = Inr d' \<Longrightarrow> wf_derived d'"
    and "add_principal_repaid a d = Inr d' \<Longrightarrow> wf_derived d'"
    and "add_value_defaulted a d = Inr d' \<Longrightarrow> wf_derived d'"
    and "add_interest_collected a d = Inr d' \<Longrightarrow> wf_derived d'"
proof -
  have "totals_ok (dao_totals d)" using assms(1) by (simp add: wf_derived_def)
  note facts = this assms
  show "add_principal_lent a d = Inr d' \<Longrightarrow> wf_derived d'"
    and "add_principal_repaid a d = Inr d' \<Longrightarrow> wf_derived d'"
    and "add_value_defaulted a d = Inr d' \<Longrightarrow> wf_derived d'"
    and "add_interest_collected a d = Inr d' \<Longrightarrow> wf_derived d'"
    using facts
    by (auto simp: add_principal_lent_def add_principal_repaid_def add_value_defaulted_def
        add_interest_collected_def bindE_eq_Inr pg_numeric_Inr totals_ok_def numeric_ok_def
        intro!: wf_put)
qed

lemma length_tput_fresh: "tget t k = None \<Longrightarrow> length (tput k r t) = Suc (length t)"
  by (simp add: tput_fresh)

lemma length_tput_present: "tget t k = Some r0 \<Longrightarrow> length (tput k r t) = length t"
  unfolding tget_def tput_def by (induction t) (auto split: if_splits)


section \<open>Every handler\<close>

text \<open>What the validators give: amounts are decimal digits, so never negative.\<close>

lemmas handler_bind = bindE_eq_Inr Let_def

lemma wf_tupsert_member:
  assumes "wf_derived d" "member_ok r" "\<And>m. member_ok m \<Longrightarrow> member_ok (f m)"
  shows "wf_derived (d\<lparr>members := tupsert k r f (members d)\<rparr>)"
  using assms by (auto simp: wf_derived_def wf_parts_defs intro!: tall_tupsert)

lemma wf_tupsert_loan_proposal:
  assumes "wf_derived d" "loan_proposal_ok r" "\<And>m. loan_proposal_ok m \<Longrightarrow> loan_proposal_ok (f m)"
  shows "wf_derived (d\<lparr>loan_proposals := tupsert k r f (loan_proposals d)\<rparr>)"
  using assms by (auto simp: wf_derived_def wf_parts_defs intro!: tall_tupsert)

lemma wf_tupsert_treasury:
  assumes "wf_derived d" "treasury_proposal_ok r" "\<And>m. treasury_proposal_ok m \<Longrightarrow> treasury_proposal_ok (f m)"
  shows "wf_derived (d\<lparr>treasury_proposals := tupsert k r f (treasury_proposals d)\<rparr>)"
  using assms by (auto simp: wf_derived_def wf_parts_defs intro!: tall_tupsert)

lemma wf_tmod_loan_proposal:
  assumes "wf_derived d" "\<And>m. loan_proposal_ok m \<Longrightarrow> loan_proposal_ok (f m)"
  shows "wf_derived (d\<lparr>loan_proposals := tmod k f (loan_proposals d)\<rparr>)"
  using assms by (auto simp: wf_derived_def wf_parts_defs intro!: tall_tmod)

lemma wf_tmod_treasury:
  assumes "wf_derived d" "\<And>m. treasury_proposal_ok m \<Longrightarrow> treasury_proposal_ok (f m)"
  shows "wf_derived (d\<lparr>treasury_proposals := tmod k f (treasury_proposals d)\<rparr>)"
  using assms by (auto simp: wf_derived_def wf_parts_defs intro!: tall_tmod)

lemma pg_numeric_of_ok: "pg_numeric (numeric_of s) = Inr x \<Longrightarrow> numeric_ok x"
  by (auto simp: pg_numeric_Inr numeric_ok_def)

lemmas row_oks = member_ok_def loan_proposal_ok_def loan_ok_def treasury_proposal_ok_def
  numeric_ok_def int4_ok_def pg_numeric_Inr pg_integer_Inr

lemma numeric_of_range: "\<bar>numeric_of s\<bar> < numeric_max \<longleftrightarrow> numeric_of s < numeric_max"
  by simp

definition keeps_wf :: "handler \<Rightarrow> bool" where
  "keeps_wf h \<longleftrightarrow> (\<forall>ev d d'. wf_derived d \<longrightarrow> h ev d = Inr d' \<longrightarrow> wf_derived d')"

definition keeps_agree :: "handler \<Rightarrow> bool" where
  "keeps_agree h \<longleftrightarrow> (\<forall>ev d d'. totals_agree d \<longrightarrow> h ev d = Inr d' \<longrightarrow> totals_agree d')"

lemma keeps_wf_membership:
  "keeps_wf h_joined" "keeps_wf h_exited" "keeps_wf h_claimed" "keeps_wf h_staked"
  "keeps_wf h_unstaked" "keeps_wf h_name_reg"
proof -
  show "keeps_wf h_joined"
    by (auto simp: keeps_wf_def h_joined_def handler_bind row_oks int4_max_def
        intro!: wf_notify wf_tupsert_member)
  show "keeps_wf h_exited" "keeps_wf h_claimed"
    by (auto simp: keeps_wf_def h_exited_def h_claimed_def handler_bind row_oks
        intro!: wf_notify elim!: wf_update_member)
  show "keeps_wf h_staked" "keeps_wf h_unstaked" "keeps_wf h_name_reg"
    by (auto simp: keeps_wf_def h_staked_def h_unstaked_def h_name_reg_def handler_bind row_oks
        elim!: wf_update_member)
qed

lemma keeps_agree_membership:
  "keeps_agree h_joined" "keeps_agree h_exited" "keeps_agree h_claimed" "keeps_agree h_staked"
  "keeps_agree h_unstaked" "keeps_agree h_name_reg"
  by (auto simp: keeps_agree_def h_joined_def h_exited_def h_claimed_def h_staked_def
      h_unstaked_def h_name_reg_def handler_bind
      intro!: agree_notify agree_frame elim!: agree_update_member)

lemma keeps_wf_proposals:
  "keeps_wf h_loan_req" "keeps_wf h_loan_edit" "keeps_wf h_loan_vote"
proof -
  show "keeps_wf h_loan_req"
    by (auto simp: keeps_wf_def h_loan_req_def handler_bind row_oks int4_max_def
        intro!: wf_notify wf_tupsert_loan_proposal)
  show "keeps_wf h_loan_edit" "keeps_wf h_loan_vote"
    by (auto simp: keeps_wf_def h_loan_edit_def h_loan_vote_def handler_bind row_oks
        split: if_splits elim!: wf_update_loan_proposal)
qed

lemma keeps_agree_proposals:
  "keeps_agree h_loan_req" "keeps_agree h_loan_edit" "keeps_agree h_loan_vote"
  by (auto simp: keeps_agree_def h_loan_req_def h_loan_edit_def h_loan_vote_def handler_bind
      intro!: agree_notify agree_frame elim!: agree_update_loan_proposal)

text \<open>The shape of the handlers that leave a pending status and notify the row's address.\<close>

lemma case_leave_Inr:
  "(case p of (d1, Some b) \<Rightarrow> Inr (f b d1) | (d1, None) \<Rightarrow> Inr d1) = Inr d' \<longleftrightarrow>
   (\<exists>d1 b. p = (d1, b) \<and> d' = (case b of None \<Rightarrow> d1 | Some x \<Rightarrow> f x d1))"
  by (auto split: prod.splits option.splits)

lemma keeps_wf_leave_loan:
  "keeps_wf h_loan_wait" "keeps_wf h_loan_rej" "keeps_wf h_loan_exp"
  by (auto simp: keeps_wf_def h_loan_wait_def h_loan_rej_def h_loan_exp_def handler_bind case_leave_Inr
      split: option.splits intro!: wf_notify intro: wf_leave_pending_loan)

lemma keeps_agree_leave_loan:
  "keeps_agree h_loan_wait" "keeps_agree h_loan_rej" "keeps_agree h_loan_exp"
  by (auto simp: keeps_agree_def h_loan_wait_def h_loan_rej_def h_loan_exp_def handler_bind case_leave_Inr
      split: option.splits intro!: agree_notify intro: agree_leave_pending_loan)

lemma keeps_wf_treasury:
  "keeps_wf h_tre_prop" "keeps_wf h_tre_vote" "keeps_wf h_revealed" "keeps_wf h_tre_exec"
proof -
  show "keeps_wf h_tre_prop"
    by (auto simp: keeps_wf_def h_tre_prop_def handler_bind row_oks int4_max_def
        intro!: wf_tupsert_treasury)
  show "keeps_wf h_tre_vote" "keeps_wf h_revealed"
    by (auto simp: keeps_wf_def h_tre_vote_def h_revealed_def tally_treasury_def handler_bind row_oks
        split: if_splits elim!: wf_update_treasury_proposal)
  show "keeps_wf h_tre_exec"
    by (auto simp: keeps_wf_def h_tre_exec_def handler_bind treasury_proposal_ok_def
        intro!: wf_notify wf_tmod_treasury)
qed

lemma keeps_agree_treasury:
  "keeps_agree h_tre_prop" "keeps_agree h_tre_vote" "keeps_agree h_revealed" "keeps_agree h_tre_exec"
  by (auto simp: keeps_agree_def h_tre_prop_def h_tre_vote_def h_revealed_def h_tre_exec_def
      tally_treasury_def handler_bind
      intro!: agree_notify agree_frame elim!: agree_update_treasury_proposal)

lemma keeps_wf_leave_treasury: "keeps_wf h_tre_wait" "keeps_wf h_tre_rej"
  by (auto simp: keeps_wf_def h_tre_wait_def h_tre_rej_def handler_bind case_leave_Inr
      split: option.splits intro!: wf_notify intro: wf_leave_pending_treasury)

lemma keeps_agree_leave_treasury: "keeps_agree h_tre_wait" "keeps_agree h_tre_rej"
  by (auto simp: keeps_agree_def h_tre_wait_def h_tre_rej_def handler_bind case_leave_Inr
      split: option.splits intro!: agree_notify intro: agree_leave_pending_treasury)

lemma keeps_wf_lists: "keeps_wf h_committed" "keeps_wf h_doc_attn"
proof -
  show "keeps_wf h_committed"
    by (auto simp: keeps_wf_def h_committed_def intro!: wf_notify)
  show "keeps_wf h_doc_attn"
    by (fastforce simp: keeps_wf_def h_doc_attn_def handler_bind wf_derived_def wf_parts_defs
        split: if_splits)
qed

lemma keeps_agree_lists: "keeps_agree h_committed" "keeps_agree h_doc_attn"
  by (auto simp: keeps_agree_def h_committed_def h_doc_attn_def handler_bind
      split: if_splits intro!: agree_notify agree_frame)


subsection \<open>Loans\<close>

lemma open_loan_cases:
  assumes "open_loan ev i b a tr due d = Inr d'"
  obtains l where "tget (loans d) i = Some l"
      "d' = d\<lparr>loans := tput i (l\<lparr>ln_status := LN_active, ln_approved_ledger := Some (ev_ledger ev)\<rparr>) (loans d)\<rparr>"
  | l d1 d2 where "tget (loans d) i = None" "d1 = d\<lparr>loans := tput i l (loans d)\<rparr>"
      "ln_amount l = a" "ln_outstanding l = tr" "ln_total_repayment l = tr"
      "add_principal_lent a d1 = Inr d2"
      "incrementDailyLoanStats ev (no_deltas\<lparr>dl_loans_originated := 1, dl_principal_lent := a\<rparr>) d2 = Inr d'"
      "ln_status l = LN_active" "ln_approved_ledger l = Some (ev_ledger ev)"
proof (cases "tget (loans d) i")
  case None
  let ?l = "\<lparr>ln_borrower = b, ln_amount = a, ln_outstanding = tr,
    ln_total_repayment = tr, ln_status = LN_active, ln_approved_ledger = Some (ev_ledger ev),
    ln_due_time = due, ln_repaid_ledger = None, ln_defaulted_ledger = None\<rparr>"
  obtain d2 where "add_principal_lent a (d\<lparr>loans := tput i ?l (loans d)\<rparr>) = Inr d2"
    "incrementDailyLoanStats ev (no_deltas\<lparr>dl_loans_originated := 1, dl_principal_lent := a\<rparr>) d2 = Inr d'"
    using assms None by (auto simp: open_loan_def handler_bind)
  from that(2) [OF None refl _ _ _ this] show ?thesis by simp
next
  case (Some l)
  with assms that(1) show ?thesis by (simp add: open_loan_def)
qed

lemma wf_open_loan:
  assumes "open_loan ev i b a tr due d = Inr d'" "wf_derived d" "numeric_ok a" "numeric_ok tr"
  shows "wf_derived d'"
  using assms(1)
proof (cases rule: open_loan_cases)
  case (1 l)
  with wf_get(3) [OF assms(2) 1(1)] assms(2) show ?thesis
    by (auto simp: loan_ok_def intro!: wf_put)
next
  case (2 l d1 d2)
  then have "wf_derived d1" using assms by (auto simp: loan_ok_def intro!: wf_put)
  then have "wf_derived d2" using assms(3) 2(6) by (auto intro: wf_add_totals simp: numeric_ok_def)
  from wf_incrementDaily [OF 2(7) this] show ?thesis
    using assms(3) by (simp add: no_deltas_def numeric_ok_def)
qed

lemma agree_open_loan:
  assumes "open_loan ev i b a tr due d = Inr d'" "totals_agree d"
  shows "totals_agree d'"
  using assms(1)
proof (cases rule: open_loan_cases)
  case (1 l)
  with assms show ?thesis by (auto simp: totals_agree_def tsum_tput length_tput_present)
next
  case (2 l d1 d2)
  have "loans d' = loans d2" "dao_totals d' = dao_totals d2"
    "interest_distributions d' = interest_distributions d2"
    by (subst incrementDaily_frame [OF 2(7)], simp)+
  with incrementDaily_sums [OF 2(7)] add_totals_frame(1) [OF 2(6)] 2 assms(2) show ?thesis
    by (simp add: totals_agree_def no_deltas_def tsum_tput_fresh length_tput_fresh)
qed

lemma wf_total_repayment:
  "wf_derived d \<Longrightarrow> tget (loan_proposals d) i = Some p \<Longrightarrow> 0 \<le> lp_total_repayment p"
  by (auto simp: loan_proposal_ok_def numeric_ok_def dest: wf_get(2))

lemma keeps_wf_loan_appr: "keeps_wf h_loan_appr"
  by (auto simp: keeps_wf_def h_loan_appr_def handler_bind loan_proposal_ok_def
      intro!: wf_notify wf_set_has_active_loan wf_tmod_loan_proposal
      elim!: wf_open_loan intro: pg_numeric_of_ok split: option.splits)
     (blast intro: pg_numeric_of_ok numeric_ok_pg_numeric wf_total_repayment)+

lemma keeps_agree_loan_appr: "keeps_agree h_loan_appr"
  by (auto simp: keeps_agree_def h_loan_appr_def handler_bind
      intro!: agree_notify agree_set_has_active_loan agree_frame elim!: agree_open_loan)

lemma repay_loan_cases:
  assumes "repay_loan ev i out st d = Inr d'"
  obtains "tget (loans d) i = None" "d' = d"
  | prev d1 where "tget (loans d) i = Some prev" "\<bar>out\<bar> < numeric_max"
      "d1 = d\<lparr>loans := tput i (prev\<lparr>ln_outstanding := out, ln_status := st,
           ln_repaid_ledger := (if st = LN_repaid then Some (ev_ledger ev) else ln_repaid_ledger prev)\<rparr>) (loans d)\<rparr>"
      "\<not> (st = LN_repaid \<and> ln_status prev \<noteq> LN_repaid)" "d' = d1"
  | prev d1 d2 where "tget (loans d) i = Some prev" "\<bar>out\<bar> < numeric_max"
      "d1 = d\<lparr>loans := tput i (prev\<lparr>ln_outstanding := out, ln_status := st,
           ln_repaid_ledger := (if st = LN_repaid then Some (ev_ledger ev) else ln_repaid_ledger prev)\<rparr>) (loans d)\<rparr>"
      "st = LN_repaid" "ln_status prev \<noteq> LN_repaid"
      "add_principal_repaid (ln_amount prev) d1 = Inr d2"
      "incrementDailyLoanStats ev (no_deltas\<lparr>dl_principal_repaid := ln_amount prev\<rparr>) d2 = Inr d'"
  using assms unfolding repay_loan_def
  by (auto simp: handler_bind pg_numeric_Inr split: option.splits if_splits)

lemma wf_repay_loan:
  assumes "repay_loan ev i out st d = Inr d'" "wf_derived d" "0 \<le> out"
  shows "wf_derived d'"
  using assms(1)
proof (cases rule: repay_loan_cases)
  case 1
  with assms show ?thesis by simp
next
  case (2 prev d1)
  with wf_get(3) [OF assms(2) 2(1)] assms show ?thesis
    by (auto simp: loan_ok_def numeric_ok_def intro!: wf_put)
next
  case (3 prev d1 d2)
  have prev: "loan_ok prev" using wf_get(3) [OF assms(2) 3(1)] .
  then have "wf_derived d1"
    using 3(2,3) assms by (auto simp: loan_ok_def numeric_ok_def intro!: wf_put)
  then have "wf_derived d2"
    using prev 3(6) by (auto simp: loan_ok_def numeric_ok_def intro: wf_add_totals)
  from wf_incrementDaily [OF 3(7) this] prev show ?thesis
    by (simp add: no_deltas_def loan_ok_def numeric_ok_def)
qed

lemma agree_repay_loan:
  assumes "repay_loan ev i out st d = Inr d'" "totals_agree d"
  shows "totals_agree d'"
  using assms(1)
proof (cases rule: repay_loan_cases)
  case 1
  with assms show ?thesis by simp
next
  case (2 prev d1)
  with assms show ?thesis by (simp add: totals_agree_def tsum_tput length_tput_present)
next
  case (3 prev d1 d2)
  have "loans d' = loans d2" "dao_totals d' = dao_totals d2"
    "interest_distributions d' = interest_distributions d2"
    by (subst incrementDaily_frame [OF 3(7)], simp)+
  with incrementDaily_sums [OF 3(7)] add_totals_frame(2) [OF 3(6)] 3 assms(2) show ?thesis
    by (simp add: totals_agree_def no_deltas_def tsum_tput length_tput_present)
qed

lemma keeps_wf_loan_rpy: "keeps_wf h_loan_rpy"
  by (auto simp: keeps_wf_def h_loan_rpy_def handler_bind
      intro!: wf_notify wf_set_has_active_loan elim!: wf_repay_loan)

lemma keeps_agree_loan_rpy: "keeps_agree h_loan_rpy"
  by (auto simp: keeps_agree_def h_loan_rpy_def handler_bind
      intro!: agree_notify agree_set_has_active_loan elim!: agree_repay_loan)


lemma loan_dflt_cases:
  assumes "h_loan_dflt ev d = Inr d'"
  obtains "d' = d"
  | i b q l d1 d2 d3 d4 ms where "requireId ev ''loan_id'' = Inr i" "requireAddr ev ''borrower'' = Inr b"
      "requireAmount ev ''penalty'' = Inr q" "tget (loans d) ms = Some l" "ln_status l \<noteq> LN_defaulted"
      "pg_int4_param i = Inr ms"
      "d1 = d\<lparr>loans := tput ms (l\<lparr>ln_status := LN_defaulted, ln_defaulted_ledger := Some (ev_ledger ev)\<rparr>) (loans d)\<rparr>"
      "add_value_defaulted (ln_outstanding l) d1 = Inr d2"
      "incrementDailyLoanStats ev (no_deltas\<lparr>dl_defaults_count := 1, dl_value_defaulted := ln_outstanding l\<rparr>) d2 = Inr d3"
      "update_member b (\<lambda>m. bindE (pg_numeric (max (m_contribution m - numeric_of q) 0)) (\<lambda>c.
         bindE (pg_integer (m_defaults_count m + 1)) (\<lambda>n.
         Inr (m\<lparr>m_contribution := c, m_has_active_loan := False, m_defaults_count := n\<rparr>)))) d3 = Inr d4"
      "d' = notify ev b N_error ''Loan defaulted'' (''Loan #'' @ show_int ms @
         '' was marked defaulted; a penalty of '' @ q @ '' was applied to your contribution.'') d4"
  using assms unfolding h_loan_dflt_def
  by (auto simp: bindE_eq_Inr Let_def split: option.splits if_splits)

lemma keeps_wf_loan_dflt: "keeps_wf h_loan_dflt"
  unfolding keeps_wf_def
proof (intro allI impI)
  fix ev d d'
  assume wf: "wf_derived d" and h: "h_loan_dflt ev d = Inr d'"
  from h show "wf_derived d'"
  proof (cases rule: loan_dflt_cases)
    case 1
    with wf show ?thesis by simp
  next
    case (2 i b q l d1 d2 d3 d4 k)
    have l: "loan_ok l" using wf_get(3) [OF wf 2(4)] .
    then have "wf_derived d1" using wf 2(7) by (auto simp: loan_ok_def intro!: wf_put)
    then have "wf_derived d2"
      using l 2(8) by (auto simp: loan_ok_def numeric_ok_def intro: wf_add_totals)
    from wf_incrementDaily [OF 2(9) this] have "wf_derived d3"
      using l by (simp add: no_deltas_def loan_ok_def numeric_ok_def)
    with 2(10) have "wf_derived d4"
      by (rule wf_update_member) (auto simp: handler_bind row_oks)
    then show ?thesis by (simp add: 2(11) wf_notify)
  qed
qed

lemma keeps_agree_loan_dflt: "keeps_agree h_loan_dflt"
  unfolding keeps_agree_def
proof (intro allI impI)
  fix ev d d'
  assume ag: "totals_agree d" and h: "h_loan_dflt ev d = Inr d'"
  from h show "totals_agree d'"
  proof (cases rule: loan_dflt_cases)
    case 1
    with ag show ?thesis by simp
  next
    case (2 i b q l d1 d2 d3 d4 k)
    have "loans d3 = loans d2" "dao_totals d3 = dao_totals d2"
      "interest_distributions d3 = interest_distributions d2"
      by (subst incrementDaily_frame [OF 2(9)], simp)+
    with incrementDaily_sums [OF 2(9)] add_totals_frame(3) [OF 2(8)] 2(4,7) ag have "totals_agree d3"
      by (simp add: totals_agree_def no_deltas_def tsum_tput length_tput_present)
    with agree_update_member [OF 2(10)] show ?thesis by (simp add: 2(11) agree_notify)
  qed
qed

lemma keeps_interest: "keeps_wf h_interest" "keeps_agree h_interest"
proof -
  show "keeps_wf h_interest"
    unfolding keeps_wf_def
  proof (intro allI impI)
    fix ev d d'
    assume wf: "wf_derived d" and h: "h_interest ev d = Inr d'"
    show "wf_derived d'"
      using h wf unfolding h_interest_def
      by (fastforce simp: handler_bind pg_numeric_Inr wf_derived_def wf_parts_defs numeric_ok_def
          add_interest_collected_def totals_ok_def split: if_splits)
  qed
  show "keeps_agree h_interest"
    by (auto simp: keeps_agree_def h_interest_def handler_bind totals_agree_def
        dest!: add_totals_frame(4) split: if_splits)
qed

lemmas keeps_wf_handlers = keeps_wf_membership keeps_wf_proposals keeps_wf_leave_loan
  keeps_wf_treasury keeps_wf_leave_treasury keeps_wf_lists keeps_wf_loan_appr keeps_wf_loan_rpy
  keeps_wf_loan_dflt keeps_interest(1)

lemmas keeps_agree_handlers = keeps_agree_membership keeps_agree_proposals keeps_agree_leave_loan
  keeps_agree_treasury keeps_agree_leave_treasury keeps_agree_lists keeps_agree_loan_appr
  keeps_agree_loan_rpy keeps_agree_loan_dflt keeps_interest(2)

lemma all_handlers_keep:
  "\<forall>h \<in> snd ` set handlers. keeps_wf h \<and> keeps_agree h"
  by (simp add: handlers_def keeps_wf_handlers keeps_agree_handlers)

lemma run_handler_cases:
  assumes "run_handler s ev d = Inr d'"
  obtains "d' = d" | h where "h \<in> snd ` set handlers" "h ev d = Inr d'" "map_of handlers s = Some h"
  using assms unfolding run_handler_def
  by (cases "obj_get handlers s")
     (force simp: obj_get_Own split: if_splits dest: map_of_SomeD)+

text \<open>Every event keeps the invariant of the derived tables.\<close>

lemma applyEvent_wf:
  assumes "applyEvent ev d = Inr (d', cs)" and "wf_derived d"
  shows "wf_derived d'"
proof -
  have "run_handler (ev_symbol ev) ev d = Inr d'"
    using assms(1) by (auto simp: applyEvent_def bindE_eq_Inr)
  then show ?thesis
    by (cases rule: run_handler_cases) (use assms(2) all_handlers_keep in \<open>auto simp: keeps_wf_def\<close>)
qed

lemma applyEvent_totals_agree:
  assumes "applyEvent ev d = Inr (d', cs)" and "totals_agree d"
  shows "totals_agree d'"
proof -
  have "run_handler (ev_symbol ev) ev d = Inr d'"
    using assms(1) by (auto simp: applyEvent_def bindE_eq_Inr)
  then show ?thesis
    by (cases rule: run_handler_cases) (use assms(2) all_handlers_keep in \<open>auto simp: keeps_agree_def\<close>)
qed

end
