(* ===== verification/Store.thy ===== *)
theory Store
  imports Handlers_Inv
begin

text \<open>
  The tables of \<open>src/db/schema.sql\<close> the indexer keeps beside the derived ones: the raw event log,
  the cursors, the quarantine records, the recorded halts and the audit log, with the statements
  on the event log that \<open>src/indexer/poller.ts\<close>, \<open>reindex.ts\<close> and \<open>replay.ts\<close> share.

  The instants of the rows are those the statement's \<open>now()\<close> returned, in milliseconds.
  Text is compared byte by byte, as under the C collation.
\<close>

section \<open>Rows\<close>

record event_row =
  er_ledger :: nat
  er_closed_at :: int
  er_contract_id :: string
  er_symbol :: string
  er_topics :: jsval
  er_data :: jsval
  er_tx_hash :: "string option"
  er_decode_error :: "string option"
  er_folded_at :: "int option"

record cursor_row =
  cu_paging_token :: "string option"
  cu_last_ledger :: "nat option"
  cu_last_ledger_hash :: "string option"
  cu_observed_tip_ledger :: "nat option"
  cu_updated_at :: int

datatype resolution = R_resolved | R_ignored

record failed_event_row =
  fe_symbol :: string
  fe_ledger :: nat
  fe_error :: string
  fe_created_at :: int
  fe_resolved_at :: "int option"
  fe_resolution :: "resolution option"
  fe_resolution_note :: "string option"

record quarantine_row =
  qr_page_key :: "string option"
  qr_error_message :: "string option"
  qr_failures :: nat
  qr_escalated_at :: "int option"

record reorg_halt_row =
  rh_contract_id :: string
  rh_last_ledger :: "nat option"
  rh_last_ledger_hash :: "string option"
  rh_detail :: string
  rh_detected_at :: int
  rh_cleared_at :: "int option"
  rh_cleared_by :: "string option"

record audit_row =
  au_admin_address :: string
  au_action :: string
  au_ip_address :: "string option"
  au_payload :: jsval

record db =
  db_derived :: derived
  db_events :: "(string, event_row) tbl"
  db_cursors :: "(string, cursor_row) tbl"
  db_failed :: "(string, failed_event_row) tbl"
  db_quarantine :: "(string, quarantine_row) tbl"
  db_halts :: "reorg_halt_row list"
  db_audit :: "audit_row list"

definition empty_db :: db where
  "empty_db = \<lparr>db_derived = empty_derived, db_events = [], db_cursors = [], db_failed = [],
     db_quarantine = [], db_halts = [], db_audit = []\<rparr>"

section \<open>The order of the log\<close>

text \<open>\<open>ORDER BY ledger ASC, id ASC\<close>.\<close>

datatype event_key = EventKey nat string

instantiation event_key :: linorder
begin

definition less_eq_event_key :: "event_key \<Rightarrow> event_key \<Rightarrow> bool" where
  "less_eq_event_key k k' =
     (case (k, k') of (EventKey l i, EventKey l' i') \<Rightarrow> l < l' \<or> l = l' \<and> i \<le> i')"

definition less_event_key :: "event_key \<Rightarrow> event_key \<Rightarrow> bool" where
  "less_event_key k k' =
     (case (k, k') of (EventKey l i, EventKey l' i') \<Rightarrow> l < l' \<or> l = l' \<and> i < i')"

instance
  by standard (auto simp: less_eq_event_key_def less_event_key_def split: event_key.splits)

end

definition row_key :: "string \<times> event_row \<Rightarrow> event_key" where
  "row_key ir = EventKey (er_ledger (snd ir)) (fst ir)"

lemma row_key_inj: "row_key a = row_key b \<Longrightarrow> fst a = fst b"
  by (simp add: row_key_def)

section \<open>Statements on the event log\<close>

definition raw_row :: "decoded_event \<Rightarrow> event_row" where
  "raw_row ev =
     \<lparr>er_ledger = ev_ledger ev, er_closed_at = ev_closedAt ev, er_contract_id = ev_contractId ev,
      er_symbol = ev_symbol ev, er_topics = jsonb (JArr (ev_topics ev)),
      er_data = jsonb (JArr (ev_data ev)), er_tx_hash = ev_txHash ev,
      er_decode_error = ev_decodeError ev, er_folded_at = None\<rparr>"

text \<open>The row is inserted unless its id is there; the answer is \<open>folded_at IS NULL\<close>.\<close>

definition insertRawEvent :: "decoded_event \<Rightarrow> db \<Rightarrow> db \<times> bool" where
  "insertRawEvent ev db =
     (case tget (db_events db) (ev_id ev) of
        Some r \<Rightarrow> (db, er_folded_at r = None)
      | None \<Rightarrow> (db\<lparr>db_events := tput (ev_id ev) (raw_row ev) (db_events db)\<rparr>, True))"

definition markFolded :: "int \<Rightarrow> string \<Rightarrow> db \<Rightarrow> db" where
  "markFolded now i db =
     db\<lparr>db_events := tmod i (\<lambda>r. r\<lparr>er_folded_at := Some now\<rparr>) (db_events db)\<rparr>"

text \<open>A stored row as an event to fold again.\<close>

definition toDecodedEvent :: "string \<Rightarrow> event_row \<Rightarrow> exn + decoded_event" where
  "toDecodedEvent i r =
     (let data = (case er_data r of JArr vs \<Rightarrow> vs | v \<Rightarrow> [v]);
          topics = (case er_topics r of JArr vs \<Rightarrow> vs | _ \<Rightarrow> [])
      in bindE (namedFields (er_symbol r) data) (\<lambda>fs.
         Inr \<lparr> ev_id = i, ev_ledger = er_ledger r, ev_closedAt = er_closed_at r,
               ev_contractId = er_contract_id r, ev_txHash = er_tx_hash r, ev_symbol = er_symbol r,
               ev_topics = topics, ev_data = data, ev_fields = fs, ev_decodeError = None \<rparr>))"

section \<open>What is folded\<close>

definition is_folded :: "db \<Rightarrow> string \<Rightarrow> bool" where
  "is_folded db i = (case tget (db_events db) i of Some r \<Rightarrow> er_folded_at r \<noteq> None | None \<Rightarrow> False)"

definition is_logged :: "db \<Rightarrow> string \<Rightarrow> bool" where
  "is_logged db i = (tget (db_events db) i \<noteq> None)"

lemma folded_logged: "is_folded db i \<Longrightarrow> is_logged db i"
  by (auto simp: is_folded_def is_logged_def split: option.splits)

lemma insertRawEvent_needsFold: "snd (insertRawEvent ev db) = (\<not> is_folded db (ev_id ev))"
  by (auto simp: insertRawEvent_def is_folded_def split: option.splits)

lemma insertRawEvent_frame [simp]:
  "db_derived (fst (insertRawEvent ev db)) = db_derived db"
  "db_cursors (fst (insertRawEvent ev db)) = db_cursors db"
  "db_failed (fst (insertRawEvent ev db)) = db_failed db"
  "db_quarantine (fst (insertRawEvent ev db)) = db_quarantine db"
  "db_halts (fst (insertRawEvent ev db)) = db_halts db"
  "db_audit (fst (insertRawEvent ev db)) = db_audit db"
  by (simp_all add: insertRawEvent_def split: option.splits)

lemma is_folded_insertRawEvent [simp]:
  "is_folded (fst (insertRawEvent ev db)) i = is_folded db i"
  by (auto simp: insertRawEvent_def is_folded_def raw_row_def split: option.splits)

lemma is_logged_insertRawEvent [simp]:
  "is_logged (fst (insertRawEvent ev db)) i = (i = ev_id ev \<or> is_logged db i)"
  by (auto simp: insertRawEvent_def is_logged_def split: option.splits)

lemma insertRawEvent_present: "is_logged db (ev_id ev) \<Longrightarrow> fst (insertRawEvent ev db) = db"
  by (auto simp: insertRawEvent_def is_logged_def split: option.splits)

lemma insertRawEvent_keeps_rows:
  "tget (db_events db) i = Some r \<Longrightarrow> tget (db_events (fst (insertRawEvent ev db))) i = Some r"
  by (auto simp: insertRawEvent_def split: option.splits)

lemma markFolded_frame [simp]:
  "db_derived (markFolded t i db) = db_derived db"
  "db_cursors (markFolded t i db) = db_cursors db"
  "db_failed (markFolded t i db) = db_failed db"
  "db_quarantine (markFolded t i db) = db_quarantine db"
  "db_halts (markFolded t i db) = db_halts db"
  "db_audit (markFolded t i db) = db_audit db"
  by (simp_all add: markFolded_def)

lemma is_logged_markFolded [simp]: "is_logged (markFolded t i db) j = is_logged db j"
  by (auto simp: markFolded_def is_logged_def)

lemma is_folded_markFolded [simp]:
  "is_folded (markFolded t i db) j = (is_folded db j \<or> j = i \<and> is_logged db i)"
  by (auto simp: markFolded_def is_folded_def is_logged_def split: option.splits)

text \<open>
  A native value that survives its way through the log: the conversions of the SDK produce no
  undefined value and no non-finite number.
\<close>

definition stable_data :: "decoded_event \<Rightarrow> bool" where
  "stable_data ev = list_all (\<lambda>v. jsonb v = v) (ev_data ev)"

lemma namedFields_data_at_cong:
  assumes "\<And>i. data_at d1 i = data_at d2 i"
  shows "namedFields s d1 = namedFields s d2"
  by (simp add: namedFields_def assms split: slot.split)

lemma toDecodedEvent_raw_row:
  assumes "namedFields (ev_symbol ev) (ev_data ev) = Inr (ev_fields ev)" and "stable_data ev"
  shows "toDecodedEvent (ev_id ev) (raw_row ev) =
    Inr (ev\<lparr>ev_topics := map jsonb (ev_topics ev), ev_decodeError := None\<rparr>)"
proof -
  have "map jsonb (ev_data ev) = ev_data ev"
    using assms(2) by (simp add: stable_data_def list_all_iff map_idI)
  with assms(1) show ?thesis
    by (simp add: toDecodedEvent_def raw_row_def)
qed

end
