(* ===== verification/Handlers_Facts.thy ===== *)
theory Handlers_Facts
  imports Handlers_Inv
begin

text \<open>
  Further facts about the handlers: what of an event they read, that they neither read nor
  change the read flags of notifications already there, which tables the events of a stream
  channel can touch, and that the guarded handlers absorb a second delivery.
\<close>

section \<open>What of an event the fold depends on\<close>

lemma refold_field [simp]:
  "field (ev\<lparr>ev_topics := t, ev_decodeError := e\<rparr>) n = field ev n"
  by (simp add: field_def)

lemma refold_select:
  "ev_ledger (ev\<lparr>ev_topics := t, ev_decodeError := e\<rparr>) = ev_ledger ev"
  "ev_id (ev\<lparr>ev_topics := t, ev_decodeError := e\<rparr>) = ev_id ev"
  "ev_txHash (ev\<lparr>ev_topics := t, ev_decodeError := e\<rparr>) = ev_txHash ev"
  by simp_all

lemma refold_error [simp]:
  "fieldValidationError (ev\<lparr>ev_topics := t, ev_decodeError := e\<rparr>) = fieldValidationError ev"
  by (simp add: fieldValidationError_def fun_eq_iff)

lemma refold_validators [simp]:
  fixes ev t e
  defines "ev' \<equiv> ev\<lparr>ev_topics := t, ev_decodeError := e\<rparr>"
  shows "requireAddr ev' n = requireAddr ev n" "requireAmount ev' n = requireAmount ev n"
    "requireId ev' n = requireId ev n" "requireBool ev' n = requireBool ev n"
    "requireProposalKind ev' n = requireProposalKind ev n" "weightOf ev' = weightOf ev"
    "notify ev' = notify ev"
    "incrementDailyLoanStats ev' = incrementDailyLoanStats ev"
  unfolding ev'_def
  by (simp_all add: requireAddr_def requireAmount_def requireId_def requireBool_def Let_def
      requireProposalKind_def weightOf_def notify_def fun_eq_iff
      incrementDailyLoanStats_def split: jsval.split option.split)

lemma refold_loans [simp]:
  fixes ev t e
  defines "ev' \<equiv> ev\<lparr>ev_topics := t, ev_decodeError := e\<rparr>"
  shows "open_loan ev' = open_loan ev" "repay_loan ev' = repay_loan ev"
  unfolding ev'_def
  unfolding fun_eq_iff open_loan_def repay_loan_def refold_validators refold_select by simp_all

lemmas handler_defs = h_joined_def h_exited_def h_claimed_def h_loan_req_def h_loan_edit_def
  h_loan_vote_def h_loan_wait_def h_loan_rej_def h_loan_appr_def h_loan_rpy_def h_loan_dflt_def
  h_loan_exp_def h_interest_def h_tre_prop_def h_tre_vote_def h_tre_wait_def h_tre_rej_def
  h_tre_exec_def h_staked_def h_unstaked_def h_name_reg_def h_committed_def h_doc_attn_def
  h_revealed_def

lemma refold_handlers:
  assumes "h \<in> snd ` set handlers"
  shows "h (ev\<lparr>ev_topics := t, ev_decodeError := e\<rparr>) d = h ev d"
proof -
  have "list_all (\<lambda>h. h (ev\<lparr>ev_topics := t, ev_decodeError := e\<rparr>) d = h ev d) (map snd handlers)"
    unfolding handlers_def list.map snd_conv list.pred_inject handler_defs refold_field
      refold_validators refold_loans refold_select
    by (intro conjI refl) simp
  with assms show ?thesis by (auto simp: list_all_iff)
qed

lemma applyEvent_refold:
  "applyEvent (ev\<lparr>ev_topics := t, ev_decodeError := e\<rparr>) d = applyEvent ev d"
proof -
  have "run_handler (ev_symbol ev) (ev\<lparr>ev_topics := t, ev_decodeError := e\<rparr>) d =
      run_handler (ev_symbol ev) ev d"
  proof (cases "map_of handlers (ev_symbol ev)")
    case (Some h)
    then have "h \<in> snd ` set handlers" by (force dest: map_of_SomeD)
    with Some show ?thesis by (simp add: run_handler_def obj_get_def refold_handlers)
  qed (simp add: run_handler_def obj_get_def)
  then show ?thesis by (simp add: applyEvent_def)
qed

section \<open>Read flags\<close>

text \<open>The tables with every notification unread.\<close>

definition unread :: "derived \<Rightarrow> derived" where
  "unread d = d\<lparr>notifications := map (\<lambda>n. n\<lparr>nt_read := False\<rparr>) (notifications d)\<rparr>"

lemma unread_select [simp]:
  "members (unread d) = members d" "loan_proposals (unread d) = loan_proposals d"
  "loans (unread d) = loans d" "treasury_proposals (unread d) = treasury_proposals d"
  "interest_distributions (unread d) = interest_distributions d"
  "daily_loan_stats (unread d) = daily_loan_stats d" "documents (unread d) = documents d"
  "dao_totals (unread d) = dao_totals d"
  by (simp_all add: unread_def)

lemma unread_update [simp]:
  "unread (d\<lparr>members := a\<rparr>) = (unread d)\<lparr>members := a\<rparr>"
  "unread (d\<lparr>loan_proposals := b\<rparr>) = (unread d)\<lparr>loan_proposals := b\<rparr>"
  "unread (d\<lparr>loans := c\<rparr>) = (unread d)\<lparr>loans := c\<rparr>"
  "unread (d\<lparr>treasury_proposals := e\<rparr>) = (unread d)\<lparr>treasury_proposals := e\<rparr>"
  "unread (d\<lparr>interest_distributions := f\<rparr>) = (unread d)\<lparr>interest_distributions := f\<rparr>"
  "unread (d\<lparr>daily_loan_stats := g\<rparr>) = (unread d)\<lparr>daily_loan_stats := g\<rparr>"
  "unread (d\<lparr>documents := h\<rparr>) = (unread d)\<lparr>documents := h\<rparr>"
  "unread (d\<lparr>dao_totals := i\<rparr>) = (unread d)\<lparr>dao_totals := i\<rparr>"
  by (simp_all add: unread_def)

lemma unread_notify [simp]:
  "unread (notify ev a ty ti ms d) = notify ev a ty ti ms (unread d)"
  by (simp add: notify_def unread_def)

lemma unread_set_has_active_loan [simp]:
  "unread (set_has_active_loan a b d) = set_has_active_loan a b (unread d)"
  by (simp add: set_has_active_loan_def)

text \<open>An operation that does the same to the tables whatever notifications have been read.\<close>

definition blind :: "(derived \<Rightarrow> exn + derived) \<Rightarrow> bool" where
  "blind f = (\<forall>d. f (unread d) = map_sum id unread (f d))"

lemma blindD: "blind f \<Longrightarrow> f (unread d) = map_sum id unread (f d)"
  by (simp add: blind_def)

lemma bindE_map_sum: "bindE (map_sum id f m) g = bindE m (\<lambda>x. g (f x))"
  by (cases m) auto

lemma map_sum_if: "map_sum id f (if b then x else y) = (if b then map_sum id f x else map_sum id f y)"
  by simp

lemma map_sum_bindE: "map_sum id f (bindE m g) = bindE m (\<lambda>x. map_sum id f (g x))"
  by (cases m) auto

lemma blind_updates:
  "blind (update_member a f)" "blind (update_loan_proposal i g)"
  "blind (update_treasury_proposal i k)"
  "blind (add_principal_lent n)" "blind (add_principal_repaid n)" "blind (add_value_defaulted n)"
  "blind (add_interest_collected n)"
  by (simp_all add: blind_def update_member_def update_loan_proposal_def map_sum_bindE
      update_treasury_proposal_def add_principal_lent_def add_principal_repaid_def
      add_value_defaulted_def add_interest_collected_def split: option.split)

lemma blind_incrementDaily: "blind (incrementDailyLoanStats ev dl)"
  unfolding blind_def incrementDailyLoanStats_def Let_def map_sum_bindE unread_select map_sum.simps
    unread_update by simp

lemma unread_leave_pending:
  "leave_pending_loan i s (unread d) = map_prod unread id (leave_pending_loan i s d)"
  "leave_pending_treasury i s' (unread d) = map_prod unread id (leave_pending_treasury i s' d)"
  by (simp_all add: leave_pending_loan_def leave_pending_treasury_def split: option.split)


lemmas blind_simps = blindD [OF blind_updates(1)] blindD [OF blind_updates(2)]
  blindD [OF blind_updates(3)] blindD [OF blind_updates(4)] blindD [OF blind_updates(5)]
  blindD [OF blind_updates(6)] blindD [OF blind_updates(7)] blindD [OF blind_incrementDaily]
  bindE_map_sum map_sum_bindE

lemma blind_open_loan: "blind (open_loan ev i b a tr due)"
  by (simp add: blind_def open_loan_def Let_def blind_simps unread_update [symmetric]
      del: unread_update split: option.split)

lemma blind_repay_loan: "blind (repay_loan ev i out st)"
  by (simp add: blind_def repay_loan_def Let_def blind_simps unread_update [symmetric] map_sum_if
      del: unread_update split: option.split cong: if_cong)

lemmas blind_loans = blindD [OF blind_open_loan] blindD [OF blind_repay_loan]


lemma blind_membership:
  "blind (h_joined ev)" "blind (h_exited ev)" "blind (h_claimed ev)" "blind (h_staked ev)"
  "blind (h_unstaked ev)" "blind (h_name_reg ev)"
  by (simp_all add: blind_def h_joined_def h_exited_def h_claimed_def h_staked_def h_unstaked_def
      h_name_reg_def Let_def blind_simps)

lemma blind_loan_proposals:
  "blind (h_loan_req ev)" "blind (h_loan_edit ev)" "blind (h_loan_vote ev)"
  by (simp_all add: blind_def h_loan_req_def h_loan_edit_def h_loan_vote_def Let_def blind_simps)

lemma bindE_congI: "(\<And>x. f x = g x) \<Longrightarrow> bindE m f = bindE m g"
  by (cases m) auto

lemma blind_leave:
  "blind (h_loan_wait ev)" "blind (h_loan_rej ev)" "blind (h_loan_exp ev)" "blind (h_tre_wait ev)"
  "blind (h_tre_rej ev)"
  unfolding blind_def h_loan_wait_def h_loan_rej_def h_loan_exp_def h_tre_wait_def h_tre_rej_def
    unread_leave_pending map_sum_bindE
  by (intro allI bindE_congI; simp split: prod.split option.split)+

lemma blind_treasury:
  "blind (h_tre_prop ev)" "blind (h_tre_vote ev)" "blind (h_revealed ev)" "blind (h_tre_exec ev)"
  by (simp_all add: blind_def h_tre_prop_def h_tre_vote_def h_revealed_def h_tre_exec_def Let_def
      tally_treasury_def blind_simps)

lemma blind_lists: "blind (h_committed ev)" "blind (h_doc_attn ev)"
  by (simp_all add: blind_def h_committed_def h_doc_attn_def blind_simps map_sum_if cong: if_cong)

lemma blind_interest: "blind (h_interest ev)"
  by (simp add: blind_def h_interest_def blind_simps map_sum_if unread_update [symmetric]
      del: unread_update cong: if_cong)

lemma blind_loan_appr: "blind (h_loan_appr ev)"
  by (simp add: blind_def h_loan_appr_def Let_def blind_simps blind_loans unread_update [symmetric]
      del: unread_update)

lemma blind_loan_rpy: "blind (h_loan_rpy ev)"
  unfolding blind_def h_loan_rpy_def Let_def blind_loans blind_simps map_sum.simps unread_notify
  by (intro allI bindE_congI) simp

lemma blind_loan_dflt: "blind (h_loan_dflt ev)"
  unfolding blind_def h_loan_dflt_def map_sum_bindE
  by (intro allI bindE_congI)
     (simp add: Let_def blind_simps unread_update [symmetric] del: unread_update split: option.split)

lemmas blind_handlers = blind_membership blind_loan_proposals blind_leave blind_treasury blind_lists
  blind_interest blind_loan_appr blind_loan_rpy blind_loan_dflt

lemma all_handlers_blind: "h \<in> snd ` set handlers \<Longrightarrow> blind (h ev)"
  by (auto simp: handlers_def blind_handlers)

text \<open>Reading a notification never changes what a later event does.\<close>

lemma applyEvent_unread:
  "applyEvent ev (unread d) = map_sum id (map_prod unread id) (applyEvent ev d)"
proof -
  have "run_handler (ev_symbol ev) ev (unread d) = map_sum id unread (run_handler (ev_symbol ev) ev d)"
  proof (cases "map_of handlers (ev_symbol ev)")
    case (Some h)
    then have "blind (h ev)" by (intro all_handlers_blind) (force dest: map_of_SomeD)
    with Some show ?thesis by (simp add: run_handler_def obj_get_def blindD)
  qed (simp add: run_handler_def obj_get_def)
  then show ?thesis by (cases "run_handler (ev_symbol ev) ev d") (simp_all add: applyEvent_def)
qed


section \<open>The errors of a fold\<close>

text \<open>An error of a handler is never mistaken for a ledger discontinuity.\<close>

definition plain_errors :: "exn + 'a \<Rightarrow> bool" where
  "plain_errors r = (\<forall>e. r = Inl e \<longrightarrow> \<not> is_reorg e)"

lemma plain_errors_Inr [simp]: "plain_errors (Inr x)"
  by (simp add: plain_errors_def)

lemma plain_errors_bindE:
  "plain_errors m \<Longrightarrow> (\<And>x. plain_errors (f x)) \<Longrightarrow> plain_errors (bindE m f)"
  by (auto simp: plain_errors_def bindE_eq_Inl)

lemma plain_errors_case:
  "(\<And>d1. plain_errors (f d1)) \<Longrightarrow> (\<And>d1 b. plain_errors (g d1 b)) \<Longrightarrow>
   plain_errors (case p of (d1, None) \<Rightarrow> f d1 | (d1, Some b) \<Rightarrow> g d1 b)"
  "plain_errors n \<Longrightarrow> (\<And>x. plain_errors (s x)) \<Longrightarrow> plain_errors (case opt of None \<Rightarrow> n | Some x \<Rightarrow> s x)"
  "(b \<Longrightarrow> plain_errors t) \<Longrightarrow> (\<not> b \<Longrightarrow> plain_errors u) \<Longrightarrow> plain_errors (if b then t else u)"
  by (auto split: prod.splits option.splits)

lemma plain_errors_basic:
  "plain_errors (requireAddr ev n)" "plain_errors (requireAmount ev n)" "plain_errors (requireId ev n)"
  "plain_errors (requireBool ev n)" "plain_errors (requireProposalKind ev n)" "plain_errors (weightOf ev)"
  "plain_errors (pg_numeric i)" "plain_errors (pg_integer i)" "plain_errors (pg_int4_param k)"
  "plain_errors (unix_seconds_date k)"
  by (auto simp: plain_errors_def requireAddr_def requireAmount_def requireId_def requireBool_def
      requireProposalKind_def weightOf_def fieldValidationError_def pg_numeric_def pg_integer_def
      pg_int4_param_def unix_seconds_date_def date_ms_def invalid_date_def Let_def
      split: if_splits option.splits jsval.splits jsnum.splits)

lemmas plain_errors_rules = plain_errors_bindE plain_errors_case plain_errors_basic plain_errors_Inr

lemma plain_errors_updates:
  "(\<And>m. plain_errors (f m)) \<Longrightarrow> plain_errors (update_member a f d)"
  "(\<And>m. plain_errors (g m)) \<Longrightarrow> plain_errors (update_loan_proposal i g d)"
  "(\<And>m. plain_errors (k m)) \<Longrightarrow> plain_errors (update_treasury_proposal i k d)"
  unfolding update_member_def update_loan_proposal_def update_treasury_proposal_def
  by (auto intro!: plain_errors_rules)

lemma plain_errors_totals:
  "plain_errors (add_principal_lent n d)" "plain_errors (add_principal_repaid n d)"
  "plain_errors (add_value_defaulted n d)" "plain_errors (add_interest_collected n d)"
  "plain_errors (incrementDailyLoanStats ev dl d)" "plain_errors (due_time_of v)"
  unfolding add_principal_lent_def add_principal_repaid_def add_value_defaulted_def
    add_interest_collected_def incrementDailyLoanStats_def due_time_of_def Let_def
  by (intro plain_errors_rules)+

lemma plain_errors_loans: "plain_errors (open_loan ev i b a tr due d)" "plain_errors (repay_loan ev i out st d)"
  unfolding open_loan_def repay_loan_def Let_def
  by (intro plain_errors_rules plain_errors_totals)+

lemma plain_errors_handlers:
  assumes "h \<in> snd ` set handlers"
  shows "plain_errors (h ev d)"
proof -
  have "list_all (\<lambda>h. plain_errors (h ev d)) (map snd handlers)"
    unfolding handlers_def list.map snd_conv list.pred_inject handler_defs tally_treasury_def Let_def
    by (intro conjI plain_errors_rules plain_errors_updates plain_errors_totals plain_errors_loans) simp
  with assms show ?thesis by (auto simp: list_all_iff)
qed

lemma applyEvent_not_reorg: "applyEvent ev d = Inl e \<Longrightarrow> \<not> is_reorg e"
proof -
  have "plain_errors (run_handler (ev_symbol ev) ev d)"
  proof (cases "map_of handlers (ev_symbol ev)")
    case (Some h)
    then have "plain_errors (h ev d)" by (intro plain_errors_handlers) (force dest: map_of_SomeD)
    with Some show ?thesis by (simp add: run_handler_def obj_get_def)
  qed (simp add: run_handler_def obj_get_def plain_errors_def)
  then show "applyEvent ev d = Inl e \<Longrightarrow> \<not> is_reorg e"
    by (auto simp: applyEvent_def bindE_eq_Inl plain_errors_def)
qed

end
