(* ===== verification/Ingest.thy ===== *)
theory Ingest
  imports Store Handlers_Facts
begin

text \<open>
  The ingestion of a page of events, \<open>src/indexer/poller.ts\<close>: the whole-page transaction, the
  per-event quarantine path with its persisted failure counter, and what is sent after a commit.

  A run of an operation is a pair of its outcome (an error or a value) and the state it leaves,
  because the quarantine path commits event by event: an error there does not undo what was
  committed before it. The environment \<open>env\<close> of a run says whether the advisory lock could be
  taken, what \<open>now()\<close> returned, and which statements the database failed.
\<close>

section \<open>Environment, effects and process state\<close>

type_synonym pg_fault = "(string \<times> string) option" \<comment> \<open>SQLSTATE and message\<close>

record env =
  en_lock_free :: bool
  en_now :: int
  en_insert_fault :: "string \<Rightarrow> pg_fault" \<comment> \<open>inserting the raw row of this event id\<close>
  en_fold_fault :: "string \<Rightarrow> pg_fault" \<comment> \<open>a statement of the fold of this event id\<close>
  en_record_fault :: "string \<Rightarrow> pg_fault" \<comment> \<open>recording this event id in \<open>failed_events\<close>\<close>
  en_state_readable :: bool \<comment> \<open>reads of \<open>quarantine_state\<close> succeed\<close>
  en_state_writable :: bool \<comment> \<open>writes of \<open>quarantine_state\<close> succeed\<close>

definition healthy :: "int \<Rightarrow> env" where
  "healthy now = \<lparr>en_lock_free = True, en_now = now, en_insert_fault = \<lambda>_. None,
     en_fold_fault = \<lambda>_. None, en_record_fault = \<lambda>_. None, en_state_readable = True,
     en_state_writable = True\<rparr>"

definition pg_check :: "pg_fault \<Rightarrow> exn + unit" where
  "pg_check f = (case f of None \<Rightarrow> Inr () | Some cm \<Rightarrow> Inl (PgError (fst cm) (snd cm)))"

text \<open>What leaves the process after a commit; the time stamps of the payloads are left out.\<close>

datatype effect =
    InvalidateMembersList
  | InvalidateMemberSummary string
  | NotifyStream string string "nat option" \<comment> \<open>channel, symbol, ledger\<close>
  | BroadcastResync nat
  | InvalidateHistory

record quarantine_state =
  qs_pageKey :: string
  qs_errorMessage :: string
  qs_failures :: nat

record cursor_write_failure =
  cw_error :: string
  cw_at :: int

record indexer =
  ix_db :: db
  ix_quarantineStates :: "(string, quarantine_state option) tbl"
  ix_quarantineStatesLoaded :: "string list"
  ix_cursorWriteFailures :: "(string, cursor_write_failure) tbl"
  ix_effects :: "effect list" \<comment> \<open>sent so far, oldest first\<close>

section \<open>After a commit\<close>

definition invalidateMemberCachesAfterCommit :: "string \<Rightarrow> decoded_event \<Rightarrow> effect list" where
  "invalidateMemberCachesAfterCommit ch ev =
     (if ch \<noteq> channel ''members'' then []
      else InvalidateMembersList #
        (case field ev ''member'' of
           JStr a \<Rightarrow> if a = [] then [] else [InvalidateMemberSummary a]
         | _ \<Rightarrow> []))"

definition after_commit :: "string \<times> decoded_event \<Rightarrow> effect list" where
  "after_commit ce =
     invalidateMemberCachesAfterCommit (fst ce) (snd ce) @
     [NotifyStream (fst ce) (ev_symbol (snd ce)) (Some (ev_ledger (snd ce)))]"

section \<open>One event\<close>

definition reorg_below :: "decoded_event \<Rightarrow> nat \<Rightarrow> exn" where
  "reorg_below ev lastLedger =
     ReorgDetectedError (''event '' @ ev_id ev @ '' is from ledger '' @ show_nat (ev_ledger ev) @
       '', below the last folded ledger '' @ show_nat lastLedger)"

text \<open>The fold and its \<open>folded_at\<close> mark, in one transaction.\<close>

definition fold_and_mark :: "env \<Rightarrow> decoded_event \<Rightarrow> db \<Rightarrow> exn + db \<times> string list" where
  "fold_and_mark en ev db =
     bindE (pg_check (en_fold_fault en (ev_id ev))) (\<lambda>_.
     bindE (applyEvent ev (db_derived db)) (\<lambda>(d, channels).
     Inr (markFolded (en_now en) (ev_id ev) (db\<lparr>db_derived := d\<rparr>), channels)))"

text \<open>The body of the loop of \<open>ingestPage\<close>, over the tables and the pending notifications.\<close>

definition ingest_event ::
  "('scv \<Rightarrow> string + native) \<Rightarrow> env \<Rightarrow> nat \<Rightarrow> 'scv event_response \<Rightarrow>
   db \<times> (string \<times> decoded_event) list \<Rightarrow> exn + db \<times> (string \<times> decoded_event) list" where
  "ingest_event scv en lastLedger raw dp =
     bindE (decodeEvent scv raw) (\<lambda>ev.
     if 0 < lastLedger \<and> ev_ledger ev < lastLedger then Inl (reorg_below ev lastLedger)
     else
       bindE (pg_check (en_insert_fault en (ev_id ev))) (\<lambda>_.
       let (db1, needsFold) = insertRawEvent ev (fst dp) in
       if needsFold then
         bindE (fold_and_mark en ev db1) (\<lambda>(db2, channels).
         Inr (db2, snd dp @ map (\<lambda>ch. (ch, ev)) channels))
       else Inr (db1, snd dp)))"

definition page_lock_error :: exn where
  "page_lock_error =
     PlainError ''Cannot ingest events: reindex is currently in progress (advisory lock held)''"

definition event_lock_error :: exn where
  "event_lock_error =
     PlainError ''Cannot fold quarantined event: reindex is currently in progress (advisory lock held)''"

section \<open>A page in one transaction\<close>

definition ingestPage ::
  "('scv \<Rightarrow> string + native) \<Rightarrow> env \<Rightarrow> 'scv event_response list \<Rightarrow> nat \<Rightarrow> db \<Rightarrow>
   (exn + effect list) \<times> db" where
  "ingestPage scv en events lastLedger db =
     (if events = [] then (Inr [], db)
      else if \<not> en_lock_free en then (Inl page_lock_error, db)
      else case foldE (ingest_event scv en lastLedger) events (db, []) of
             Inl e \<Rightarrow> (Inl e, db)
           | Inr (db', pending) \<Rightarrow> (Inr (concat (map after_commit pending)), db'))"

section \<open>One event in its own transaction\<close>

definition recordQuarantinedEvent :: "env \<Rightarrow> decoded_event \<Rightarrow> exn \<Rightarrow> db \<Rightarrow> exn + db" where
  "recordQuarantinedEvent en ev err db =
     (case en_record_fault en (ev_id ev) of
        Some cm \<Rightarrow> Inl (PlainError (''Failed to record quarantined event '' @ ev_id ev @
                     '' in failed_events: '' @ snd cm))
      | None \<Rightarrow> Inr (db\<lparr>db_failed := tupsert (ev_id ev)
          \<lparr>fe_symbol = ev_symbol ev, fe_ledger = ev_ledger ev, fe_error = error_message err,
           fe_created_at = en_now en, fe_resolved_at = None, fe_resolution = None,
           fe_resolution_note = None\<rparr>
          (\<lambda>r. r\<lparr>fe_error := error_message err, fe_created_at := en_now en, fe_resolved_at := None\<rparr>)
          (db_failed db)\<rparr>))"

definition ingestEventQuarantined ::
  "env \<Rightarrow> decoded_event \<Rightarrow> nat \<Rightarrow> db \<Rightarrow> (exn + effect list) \<times> db" where
  "ingestEventQuarantined en ev lastLedger db =
     (if 0 < lastLedger \<and> ev_ledger ev < lastLedger then (Inl (reorg_below ev lastLedger), db)
      else if \<not> en_lock_free en then (Inl event_lock_error, db)
      else case pg_check (en_insert_fault en (ev_id ev)) of
        Inl e \<Rightarrow> (Inl e, db)
      | Inr _ \<Rightarrow>
          let (db1, needsFold) = insertRawEvent ev db in
          if \<not> needsFold then (Inr [], db1)
          else case fold_and_mark en ev db1 of
            Inr (db2, channels) \<Rightarrow> (Inr (concat (map (\<lambda>ch. after_commit (ch, ev)) channels)), db2)
          | Inl err \<Rightarrow>
              (case recordQuarantinedEvent en ev err db1 of
                 Inr db2 \<Rightarrow> (Inr [], db2)
               | Inl _ \<Rightarrow> (Inr [], db1)))"

section \<open>The quarantine state\<close>

definition pageKeyFor :: "'scv event_response list \<Rightarrow> string" where
  "pageKeyFor events =
     (if events = [] then []
      else re_id (hd events) @ ''..'' @ re_id (last events) @ '':'' @ show_nat (length events))"

definition loadQuarantineState :: "env \<Rightarrow> string \<Rightarrow> db \<Rightarrow> quarantine_state option" where
  "loadQuarantineState en contractId db =
     (if \<not> en_state_readable en then None
      else case tget (db_quarantine db) contractId of
        None \<Rightarrow> None
      | Some r \<Rightarrow>
          (case (qr_page_key r, qr_error_message r) of
             (Some k, Some m) \<Rightarrow> if k = [] \<or> m = [] then None
               else Some \<lparr>qs_pageKey = k, qs_errorMessage = m, qs_failures = qr_failures r\<rparr>
           | _ \<Rightarrow> None))"

definition persistQuarantineState ::
  "env \<Rightarrow> string \<Rightarrow> quarantine_state option \<Rightarrow> bool \<Rightarrow> db \<Rightarrow> db" where
  "persistQuarantineState en contractId state escalating db =
     (if \<not> en_state_writable en then db
      else case state of
        None \<Rightarrow> db\<lparr>db_quarantine := tput contractId
          \<lparr>qr_page_key = None, qr_error_message = None, qr_failures = 1, qr_escalated_at = None\<rparr>
          (db_quarantine db)\<rparr>
      | Some s \<Rightarrow>
          let esc = (if escalating then Some (en_now en) else None) in
          db\<lparr>db_quarantine := tupsert contractId
            \<lparr>qr_page_key = Some (qs_pageKey s), qr_error_message = Some (qs_errorMessage s),
             qr_failures = qs_failures s, qr_escalated_at = esc\<rparr>
            (\<lambda>r. r\<lparr>qr_page_key := Some (qs_pageKey s), qr_error_message := Some (qs_errorMessage s),
                   qr_failures := qs_failures s,
                   qr_escalated_at := (case esc of Some t \<Rightarrow> Some t | None \<Rightarrow> qr_escalated_at r)\<rparr>)
            (db_quarantine db)\<rparr>)"

section \<open>A page, with the quarantine fallback\<close>

definition set_state :: "string \<Rightarrow> quarantine_state option \<Rightarrow> indexer \<Rightarrow> indexer" where
  "set_state contractId s ix =
     ix\<lparr>ix_quarantineStates := tput contractId s (ix_quarantineStates ix)\<rparr>"

definition persist_state :: "env \<Rightarrow> string \<Rightarrow> quarantine_state option \<Rightarrow> bool \<Rightarrow> indexer \<Rightarrow> indexer" where
  "persist_state en contractId s escalating ix =
     ix\<lparr>ix_db := persistQuarantineState en contractId s escalating (ix_db ix)\<rparr>"

definition emit :: "effect list \<Rightarrow> indexer \<Rightarrow> indexer" where
  "emit es ix = ix\<lparr>ix_effects := ix_effects ix @ es\<rparr>"

text \<open>The loop of the quarantine mode: one event after the other, stopping at the first throw.\<close>

fun quarantine_loop ::
  "('scv \<Rightarrow> string + native) \<Rightarrow> env \<Rightarrow> nat \<Rightarrow> 'scv event_response list \<Rightarrow> indexer \<Rightarrow>
   (exn + unit) \<times> indexer" where
  "quarantine_loop scv en lastLedger [] ix = (Inr (), ix)"
| "quarantine_loop scv en lastLedger (raw # raws) ix =
     (case decodeEvent scv raw of
        Inl e \<Rightarrow> (Inl e, ix)
      | Inr ev \<Rightarrow>
          (case ingestEventQuarantined en ev lastLedger (ix_db ix) of
             (Inl e, db) \<Rightarrow> (Inl e, ix\<lparr>ix_db := db\<rparr>)
           | (Inr es, db) \<Rightarrow> quarantine_loop scv en lastLedger raws (emit es (ix\<lparr>ix_db := db\<rparr>))))"

definition load_state :: "env \<Rightarrow> string \<Rightarrow> indexer \<Rightarrow> indexer" where
  "load_state en contractId ix =
     (if contractId \<in> set (ix_quarantineStatesLoaded ix) then ix
      else (set_state contractId (loadQuarantineState en contractId (ix_db ix)) ix)
             \<lparr>ix_quarantineStatesLoaded := contractId # ix_quarantineStatesLoaded ix\<rparr>)"

definition current_state :: "string \<Rightarrow> indexer \<Rightarrow> quarantine_state option" where
  "current_state contractId ix =
     (case tget (ix_quarantineStates ix) contractId of Some s \<Rightarrow> s | None \<Rightarrow> None)"

text \<open>The failure counter after one more failure of a page with an error.\<close>

definition count_failure ::
  "quarantine_state option \<Rightarrow> string \<Rightarrow> string \<Rightarrow> quarantine_state" where
  "count_failure state pageKey errorMessage =
     (case state of
        Some s \<Rightarrow>
          if qs_pageKey s = pageKey \<and> qs_errorMessage s = errorMessage
          then s\<lparr>qs_failures := qs_failures s + 1\<rparr>
          else \<lparr>qs_pageKey = pageKey, qs_errorMessage = errorMessage, qs_failures = 1\<rparr>
      | None \<Rightarrow> \<lparr>qs_pageKey = pageKey, qs_errorMessage = errorMessage, qs_failures = 1\<rparr>)"

definition ingestPageWithQuarantine ::
  "('scv \<Rightarrow> string + native) \<Rightarrow> nat \<Rightarrow> env \<Rightarrow> 'scv event_response list \<Rightarrow> nat \<Rightarrow> string \<Rightarrow> indexer \<Rightarrow>
   (exn + unit) \<times> indexer" where
  "ingestPageWithQuarantine scv quarantineAfterFailures en events lastLedger contractId ix0 =
     (let ix = load_state en contractId ix0;
          state = current_state contractId ix
      in case ingestPage scv en events lastLedger (ix_db ix) of
        (Inr es, db) \<Rightarrow>
          (Inr (), persist_state en contractId None False (set_state contractId None (emit es (ix\<lparr>ix_db := db\<rparr>))))
      | (Inl err, db) \<Rightarrow>
          if is_reorg err then (Inl err, ix\<lparr>ix_db := db\<rparr>)
          else
            let st = count_failure state (pageKeyFor events) (error_message err);
                ix1 = persist_state en contractId (Some st) False (set_state contractId (Some st) (ix\<lparr>ix_db := db\<rparr>))
            in if qs_failures st < quarantineAfterFailures then (Inl err, ix1)
               else
                 let ix2 = persist_state en contractId (Some st) True ix1 in
                 case quarantine_loop scv en lastLedger events ix2 of
                   (Inl e, ix3) \<Rightarrow> (Inl e, ix3)
                 | (Inr _, ix3) \<Rightarrow>
                     (Inr (), persist_state en contractId None False (set_state contractId None ix3)))"

end
