(* ===== verification/Ingest_Facts.thy ===== *)
theory Ingest_Facts
  imports Ingest
begin

text \<open>
  Ingestion against its specification. The specification of the indexer is the plain fold of the
  handlers over a sequence of events; a page is folded exactly once whatever is delivered again,
  an error leaves the tables as they were, and the quarantine path isolates the events that fail.
\<close>

section \<open>The specification: folding a sequence of events\<close>

definition fold_one :: "decoded_event \<Rightarrow> derived \<Rightarrow> exn + derived" where
  "fold_one ev d = map_sum id fst (applyEvent ev d)"

definition fold_events :: "decoded_event list \<Rightarrow> derived \<Rightarrow> exn + derived" where
  "fold_events evs = foldE fold_one evs"

text \<open>The events of a page that still need folding: not seen before, first occurrence.\<close>

fun fresh :: "(string \<Rightarrow> bool) \<Rightarrow> decoded_event list \<Rightarrow> decoded_event list" where
  "fresh seen [] = []"
| "fresh seen (ev # evs) =
     (if seen (ev_id ev) then fresh seen evs
      else ev # fresh (\<lambda>i. seen i \<or> i = ev_id ev) evs)"

fun decode_page ::
  "('scv \<Rightarrow> string + native) \<Rightarrow> 'scv event_response list \<Rightarrow> exn + decoded_event list" where
  "decode_page scv [] = Inr []"
| "decode_page scv (r # rs) =
     bindE (decodeEvent scv r) (\<lambda>ev. bindE (decode_page scv rs) (\<lambda>evs. Inr (ev # evs)))"

lemma fold_events_Nil [simp]: "fold_events [] d = Inr d"
  by (simp add: fold_events_def)

lemma fold_events_Cons [simp]: "fold_events (ev # evs) d = bindE (fold_one ev d) (fold_events evs)"
  by (simp add: fold_events_def)

lemma fold_events_append: "fold_events (a @ b) d = bindE (fold_events a d) (fold_events b)"
  by (simp add: fold_events_def foldE_append)

lemma fold_one_Inr: "fold_one ev d = Inr d' \<longleftrightarrow> (\<exists>cs. applyEvent ev d = Inr (d', cs))"
  by (cases "applyEvent ev d") (auto simp: fold_one_def)

lemma fold_one_channels: "fold_one ev d = Inr d' \<longleftrightarrow> applyEvent ev d = Inr (d', channels_of (ev_symbol ev))"
  by (auto simp: fold_one_Inr applyEvent_def bindE_eq_Inr)

lemma fold_one_unread: "fold_one ev (unread d) = map_sum id unread (fold_one ev d)"
  by (cases "applyEvent ev d") (auto simp: fold_one_def applyEvent_unread)

lemma fold_events_unread: "fold_events evs (unread d) = map_sum id unread (fold_events evs d)"
proof (induction evs arbitrary: d)
  case (Cons ev evs)
  then show ?case by (cases "fold_one ev d") (simp_all add: fold_one_unread)
qed simp

lemma fold_events_wf:
  assumes "fold_events evs d = Inr d'" and "wf_derived d"
  shows "wf_derived d'"
  using assms unfolding fold_events_def
  by (rule foldE_invariant) (auto simp: fold_one_Inr dest: applyEvent_wf)

lemma fold_events_totals_agree:
  assumes "fold_events evs d = Inr d'" and "totals_agree d"
  shows "totals_agree d'"
  using assms unfolding fold_events_def
  by (rule foldE_invariant) (auto simp: fold_one_Inr dest: applyEvent_totals_agree)

lemma fresh_cong: "(\<And>i. f i = g i) \<Longrightarrow> fresh f evs = fresh g evs"
  by (rule arg_cong2 [where f = fresh]) auto

lemma fresh_all_seen: "(\<And>ev. ev \<in> set evs \<Longrightarrow> seen (ev_id ev)) \<Longrightarrow> fresh seen evs = []"
  by (induction evs arbitrary: seen) auto

lemma fresh_ids: "ev_id ` set (fresh seen evs) = {i \<in> ev_id ` set evs. \<not> seen i}"
  by (induction evs arbitrary: seen) auto

lemma fresh_subset: "set (fresh seen evs) \<subseteq> set evs"
proof (induction evs arbitrary: seen)
  case (Cons ev evs)
  from Cons [of seen] Cons [of "\<lambda>i. seen i \<or> i = ev_id ev"] show ?case by auto
qed simp

lemma fresh_distinct: "distinct (map ev_id (fresh seen evs))"
proof (induction evs arbitrary: seen)
  case (Cons ev evs)
  then show ?case using fresh_ids [of "\<lambda>i. seen i \<or> i = ev_id ev" evs] by auto
qed simp

lemma fresh_append:
  "fresh seen (a @ b) = fresh seen a @ fresh (\<lambda>i. seen i \<or> i \<in> ev_id ` set a) b"
  by (induction a arbitrary: seen) (auto intro!: fresh_cong)

lemma decode_page_Inr_Cons:
  "decode_page scv (r # rs) = Inr evs \<longleftrightarrow>
   (\<exists>ev es. decodeEvent scv r = Inr ev \<and> decode_page scv rs = Inr es \<and> evs = ev # es)"
  by (auto simp: bindE_eq_Inr)

lemma decode_page_ids:
  "decode_page scv rs = Inr evs \<Longrightarrow> map ev_id evs = map re_id rs \<and> map ev_ledger evs = map re_ledger rs"
  by (induction rs arbitrary: evs) (auto simp: bindE_eq_Inr decodeEvent_ok_ids)

section \<open>One event of a page\<close>

lemma fold_and_mark_Inr:
  "fold_and_mark en ev db = Inr (db', cs) \<longleftrightarrow>
   en_fold_fault en (ev_id ev) = None \<and> cs = channels_of (ev_symbol ev) \<and>
   (\<exists>d. fold_one ev (db_derived db) = Inr d \<and>
        db' = markFolded (en_now en) (ev_id ev) (db\<lparr>db_derived := d\<rparr>))"
  by (auto simp: fold_and_mark_def bindE_eq_Inr pg_check_def fold_one_Inr applyEvent_def
      split: option.splits)

lemma fold_and_mark_not_reorg: "fold_and_mark en ev db = Inl e \<Longrightarrow> applyEvent ev (db_derived db) = Inl e \<or> \<not> is_reorg e"
  by (auto simp: fold_and_mark_def bindE_eq_Inl pg_check_def split: option.splits)

text \<open>
  What one iteration of the page loop does: it folds the event unless it was folded before, and
  afterwards the event is folded.
\<close>

lemma ingest_event_Inr:
  assumes "ingest_event scv en l raw (db, pend) = Inr (db', pend')"
  obtains ev where "decodeEvent scv raw = Inr ev"
    and "l = 0 \<or> l \<le> ev_ledger ev"
    and "fold_events (fresh (is_folded db) [ev]) (db_derived db) = Inr (db_derived db')"
    and "\<And>i. is_folded db' i = (is_folded db i \<or> i = ev_id ev)"
    and "\<And>i. is_logged db' i = (is_logged db i \<or> i = ev_id ev)"
    and "pend' = pend @ concat (map (\<lambda>ev. map (\<lambda>c. (c, ev)) (channels_of (ev_symbol ev))) (fresh (is_folded db) [ev]))"
proof -
  obtain ev where ev: "decodeEvent scv raw = Inr ev" "l = 0 \<or> l \<le> ev_ledger ev"
    and step: "(let (db1, needsFold) = insertRawEvent ev db in
       if needsFold then bindE (fold_and_mark en ev db1) (\<lambda>(db2, cs).
         Inr (db2, pend @ map (\<lambda>ch. (ch, ev)) cs)) else Inr (db1, pend)) = Inr (db', pend')"
    using assms unfolding ingest_event_def fst_conv snd_conv
    by (auto simp: bindE_eq_Inr linorder_not_less split: if_split_asm)
  obtain db1 nf where ins: "insertRawEvent ev db = (db1, nf)" by fastforce
  have nf: "nf = (\<not> is_folded db (ev_id ev))"
    using insertRawEvent_needsFold [of ev db] ins by simp
  have d1: "db_derived db1 = db_derived db" "\<And>i. is_folded db1 i = is_folded db i"
    "\<And>i. is_logged db1 i = (i = ev_id ev \<or> is_logged db i)"
    using insertRawEvent_frame(1) [of ev db] is_folded_insertRawEvent [of ev db]
      is_logged_insertRawEvent [of ev db] ins by auto
  show ?thesis
  proof (cases nf)
    case True
    then obtain d where d: "fold_one ev (db_derived db) = Inr d"
      "db' = markFolded (en_now en) (ev_id ev) (db1\<lparr>db_derived := d\<rparr>)"
      "pend' = pend @ map (\<lambda>c. (c, ev)) (channels_of (ev_symbol ev))"
      using step ins d1 by (auto simp: bindE_eq_Inr fold_and_mark_Inr)
    have keep: "is_folded (db1\<lparr>db_derived := d\<rparr>) i = is_folded db1 i"
      "is_logged (db1\<lparr>db_derived := d\<rparr>) i = is_logged db1 i" for i
      by (simp_all add: is_folded_def is_logged_def)
    show ?thesis
      by (rule that [OF ev]) (use True nf d d1 keep in \<open>auto\<close>)
  next
    case False
    then have "db' = db1" "pend' = pend" using step ins by auto
    with False nf d1 folded_logged show ?thesis
      by (intro that [OF ev]) auto
  qed
qed


section \<open>The page loop\<close>

definition pending_of :: "decoded_event list \<Rightarrow> (string \<times> decoded_event) list" where
  "pending_of evs = concat (map (\<lambda>ev. map (\<lambda>c. (c, ev)) (channels_of (ev_symbol ev))) evs)"

lemma pending_of_simps [simp]:
  "pending_of [] = []"
  "pending_of (ev # evs) = map (\<lambda>c. (c, ev)) (channels_of (ev_symbol ev)) @ pending_of evs"
  "pending_of (a @ b) = pending_of a @ pending_of b"
  by (simp_all add: pending_of_def)

lemma ingest_loop_Inr:
  assumes "foldE (ingest_event scv en l) raws (db, pend) = Inr (db', pend')"
  shows "\<exists>evs. decode_page scv raws = Inr evs \<and> (\<forall>ev \<in> set evs. l = 0 \<or> l \<le> ev_ledger ev) \<and>
    fold_events (fresh (is_folded db) evs) (db_derived db) = Inr (db_derived db') \<and>
    (\<forall>i. is_folded db' i = (is_folded db i \<or> i \<in> ev_id ` set evs)) \<and>
    pend' = pend @ pending_of (fresh (is_folded db) evs)"
  using assms
proof (induction raws arbitrary: db pend)
  case Nil
  then show ?case by simp
next
  case (Cons raw raws)
  from Cons.prems obtain db1 pend1 where
    one: "ingest_event scv en l raw (db, pend) = Inr (db1, pend1)"
    and rest: "foldE (ingest_event scv en l) raws (db1, pend1) = Inr (db', pend')"
    by (auto simp: bindE_eq_Inr)
  from one obtain ev where ev: "decodeEvent scv raw = Inr ev" "l = 0 \<or> l \<le> ev_ledger ev"
    "fold_events (fresh (is_folded db) [ev]) (db_derived db) = Inr (db_derived db1)"
    "\<And>i. is_folded db1 i = (is_folded db i \<or> i = ev_id ev)"
    "pend1 = pend @ pending_of (fresh (is_folded db) [ev])"
    by (rule ingest_event_Inr) (auto simp: pending_of_def)
  from Cons.IH [OF rest] obtain evs where evs: "decode_page scv raws = Inr evs"
    "\<forall>ev \<in> set evs. l = 0 \<or> l \<le> ev_ledger ev"
    "fold_events (fresh (is_folded db1) evs) (db_derived db1) = Inr (db_derived db')"
    "\<forall>i. is_folded db' i = (is_folded db1 i \<or> i \<in> ev_id ` set evs)"
    "pend' = pend1 @ pending_of (fresh (is_folded db1) evs)"
    by blast
  have "fresh (is_folded db) (ev # evs) = fresh (is_folded db) [ev] @ fresh (is_folded db1) evs"
    using ev(4) by (auto intro!: fresh_cong)
  then show ?case
    using ev evs by (intro exI [of _ "ev # evs"]) (auto simp: fold_events_append)
qed

text \<open>Conversely, the loop succeeds when nothing of what it does can fail.\<close>

lemma ingest_event_ok:
  assumes "decodeEvent scv raw = Inr ev" "l = 0 \<or> l \<le> ev_ledger ev"
    "en_insert_fault en (ev_id ev) = None" "en_fold_fault en (ev_id ev) = None"
    "is_folded db (ev_id ev) \<or> is_ok (fold_one ev (db_derived db))"
  shows "\<exists>db' pend'. ingest_event scv en l raw (db, pend) = Inr (db', pend')"
proof -
  obtain db1 nf where ins: "insertRawEvent ev db = (db1, nf)" by fastforce
  have nf: "nf = (\<not> is_folded db (ev_id ev))" "db_derived db1 = db_derived db"
    using insertRawEvent_needsFold [of ev db] insertRawEvent_frame(1) [of ev db] ins by auto
  show ?thesis
  proof (cases nf)
    case True
    with assms(5) nf obtain d where "fold_one ev (db_derived db1) = Inr d"
      by (cases "fold_one ev (db_derived db)") auto
    then obtain x where "fold_and_mark en ev db1 = Inr x"
      using fold_and_mark_Inr [of en ev db1] assms(4) by auto
    with assms ins True show ?thesis
      by (cases x) (auto simp: ingest_event_def pg_check_def)
  next
    case False
    with assms ins show ?thesis by (auto simp: ingest_event_def pg_check_def)
  qed
qed

lemma ingest_loop_ok:
  assumes "decode_page scv raws = Inr evs"
    and "\<forall>ev \<in> set evs. (l = 0 \<or> l \<le> ev_ledger ev) \<and> en_insert_fault en (ev_id ev) = None \<and>
           en_fold_fault en (ev_id ev) = None"
    and "is_ok (fold_events (fresh (is_folded db) evs) (db_derived db))"
  shows "\<exists>db' pend'. foldE (ingest_event scv en l) raws (db, pend) = Inr (db', pend')"
  using assms
proof (induction raws arbitrary: evs db pend)
  case Nil
  then show ?case by simp
next
  case (Cons raw raws)
  from Cons.prems(1) obtain ev es where ev: "decodeEvent scv raw = Inr ev" "decode_page scv raws = Inr es"
    "evs = ev # es" by (auto simp: bindE_eq_Inr)
  have "is_folded db (ev_id ev) \<or> is_ok (fold_one ev (db_derived db))"
    using Cons.prems(3) ev(3) by (cases "fold_one ev (db_derived db)") (auto split: if_splits)
  then obtain db1 pend1 where one: "ingest_event scv en l raw (db, pend) = Inr (db1, pend1)"
    using ingest_event_ok [OF ev(1), of l en db pend] Cons.prems(2) ev(3) by auto
  then have d1: "fold_events (fresh (is_folded db) [ev]) (db_derived db) = Inr (db_derived db1)"
    "\<And>i. is_folded db1 i = (is_folded db i \<or> i = ev_id ev)"
    by (rule ingest_event_Inr, use ev(1) in auto)+
  have "fresh (is_folded db) (ev # es) = fresh (is_folded db) [ev] @ fresh (is_folded db1) es"
    using d1(2) by (auto intro!: fresh_cong)
  with Cons.prems(3) ev(3) d1(1) have "is_ok (fold_events (fresh (is_folded db1) es) (db_derived db1))"
    by (simp add: fold_events_append del: fresh.simps)
  from Cons.IH [OF ev(2) _ this, of pend1] Cons.prems(2) ev(3) one show ?case by auto
qed

section \<open>The page transaction\<close>

lemma ingestPage_atomic: "ingestPage scv en raws l db = (Inl e, db') \<Longrightarrow> db' = db"
  by (auto simp: ingestPage_def split: if_splits sum.splits)

lemma ingestPage_success:
  assumes "ingestPage scv en raws l db = (Inr es, db')"
  obtains evs where "decode_page scv raws = Inr evs" "\<forall>ev \<in> set evs. l = 0 \<or> l \<le> ev_ledger ev"
    "fold_events (fresh (is_folded db) evs) (db_derived db) = Inr (db_derived db')"
    "\<forall>i. is_folded db' i = (is_folded db i \<or> i \<in> ev_id ` set evs)"
    "es = concat (map after_commit (pending_of (fresh (is_folded db) evs)))"
proof (cases "raws = []")
  case True
  with assms show ?thesis by (intro that [of "[]"]) (auto simp: ingestPage_def)
next
  case False
  with assms obtain pend where "foldE (ingest_event scv en l) raws (db, []) = Inr (db', pend)"
    and "es = concat (map after_commit pend)"
    by (auto simp: ingestPage_def split: if_splits sum.splits)
  with ingest_loop_Inr [of scv en l raws db "[]" db' pend] that show ?thesis by auto
qed

lemma ingestPage_redelivery:
  assumes "decode_page scv raws = Inr evs" and "\<forall>ev \<in> set evs. is_folded db (ev_id ev)"
    and "\<forall>ev \<in> set evs. (l = 0 \<or> l \<le> ev_ledger ev) \<and> en_insert_fault en (ev_id ev) = None"
    and "en_lock_free en"
  shows "ingestPage scv en raws l db = (Inr [], db)"
proof -
  have "foldE (ingest_event scv en l) raws (db, []) = Inr (db, [])"
    using assms(1-3)
  proof (induction raws arbitrary: evs)
    case (Cons raw raws)
    from Cons.prems(1) obtain ev es where ev: "decodeEvent scv raw = Inr ev"
      "decode_page scv raws = Inr es" "evs = ev # es" by (auto simp: bindE_eq_Inr)
    have f: "is_folded db (ev_id ev)" using Cons.prems(2) ev(3) by simp
    then have "insertRawEvent ev db = (db, False)"
      using insertRawEvent_present [OF folded_logged [OF f]] insertRawEvent_needsFold [of ev db]
      by (metis prod.collapse)
    then have "ingest_event scv en l raw (db, []) = Inr (db, [])"
      using ev Cons.prems(3) by (auto simp: ingest_event_def pg_check_def)
    with Cons.IH [OF ev(2)] Cons.prems ev(3) show ?case by simp
  qed simp
  with assms(4) show ?thesis by (simp add: ingestPage_def)
qed


section \<open>The quarantine path\<close>

definition unresolved :: "db \<Rightarrow> string \<Rightarrow> bool" where
  "unresolved db i = (case tget (db_failed db) i of Some r \<Rightarrow> fe_resolved_at r = None | None \<Rightarrow> False)"

lemma recordQuarantinedEvent_frame:
  assumes "recordQuarantinedEvent en ev err db = Inr db'"
  shows "db_derived db' = db_derived db" "db_events db' = db_events db"
    "\<And>i. unresolved db' i = (unresolved db i \<or> i = ev_id ev)"
  using assms by (auto simp: recordQuarantinedEvent_def unresolved_def split: option.splits if_splits)

lemma same_events_folded:
  "db_events a = db_events b \<Longrightarrow> is_folded a i = is_folded b i"
  "db_events a = db_events b \<Longrightarrow> is_logged a i = is_logged b i"
  by (simp_all add: is_folded_def is_logged_def)

text \<open>
  One event on the quarantine path: it ends up folded, or recorded as failed with the derived
  tables untouched; no other event is affected.
\<close>

lemma ingestEventQuarantined_Inr:
  assumes "ingestEventQuarantined en ev l db = (Inr es, db')"
  obtains (folded) "fold_events (fresh (is_folded db) [ev]) (db_derived db) = Inr (db_derived db')"
      "\<And>i. is_folded db' i = (is_folded db i \<or> i = ev_id ev)"
      "\<And>i. is_logged db' i = (is_logged db i \<or> i = ev_id ev)"
      "\<And>i. unresolved db' i = unresolved db i"
  | (failed) "db_derived db' = db_derived db" "\<not> is_folded db (ev_id ev)"
      "\<And>i. is_folded db' i = is_folded db i"
      "\<And>i. is_logged db' i = (is_logged db i \<or> i = ev_id ev)"
      "\<And>i. i \<noteq> ev_id ev \<Longrightarrow> unresolved db' i = unresolved db i"
      "en_record_fault en (ev_id ev) = None \<Longrightarrow> unresolved db' (ev_id ev)"
proof -
  obtain db1 nf where ins: "insertRawEvent ev db = (db1, nf)" by fastforce
  have db1: "nf = (\<not> is_folded db (ev_id ev))" "db_derived db1 = db_derived db"
    "\<And>i. is_folded db1 i = is_folded db i" "\<And>i. is_logged db1 i = (i = ev_id ev \<or> is_logged db i)"
    "\<And>i. unresolved db1 i = unresolved db i"
    using insertRawEvent_needsFold [of ev db] insertRawEvent_frame [of ev db]
      is_folded_insertRawEvent [of ev db] is_logged_insertRawEvent [of ev db] ins
    by (auto simp: unresolved_def)
  show ?thesis
  proof (cases nf)
    case False
    then have "db' = db1"
      using assms ins by (auto simp: ingestEventQuarantined_def split: if_splits sum.splits)
    with False db1 show ?thesis by (intro folded) auto
  next
    case True
    show ?thesis
    proof (cases "fold_and_mark en ev db1")
      case (Inr x)
      then obtain d where d: "fold_one ev (db_derived db) = Inr d"
        "fst x = markFolded (en_now en) (ev_id ev) (db1\<lparr>db_derived := d\<rparr>)"
        using db1(2) by (cases x) (auto simp: fold_and_mark_Inr)
      have "db' = fst x"
        using assms ins True Inr by (cases x) (auto simp: ingestEventQuarantined_def split: if_splits sum.splits)
      then have db': "db' = markFolded (en_now en) (ev_id ev) (db1\<lparr>db_derived := d\<rparr>)"
        using d(2) by simp
      have keep: "is_folded (db1\<lparr>db_derived := d\<rparr>) i = is_folded db1 i"
        "is_logged (db1\<lparr>db_derived := d\<rparr>) i = is_logged db1 i" for i
        by (simp_all add: is_folded_def is_logged_def)
      have "unresolved db' i = unresolved db i" for i
        using db1(5) [of i] by (simp add: db' unresolved_def)
      then show ?thesis
        using True db1 d(1) keep by (intro folded) (auto simp: db')
    next
      case (Inl err)
      with assms ins True have out: "recordQuarantinedEvent en ev err db1 = Inr db' \<or>
          (\<exists>e. recordQuarantinedEvent en ev err db1 = Inl e \<and> db' = db1)"
        by (auto simp: ingestEventQuarantined_def split: if_splits sum.splits)
      then have "db_derived db' = db_derived db1" "db_events db' = db_events db1"
        "\<And>i. i \<noteq> ev_id ev \<Longrightarrow> unresolved db' i = unresolved db1 i"
        by (auto simp: recordQuarantinedEvent_frame)
      moreover have "en_record_fault en (ev_id ev) = None \<Longrightarrow> unresolved db' (ev_id ev)"
        using out by (auto simp: recordQuarantinedEvent_frame)
          (simp add: recordQuarantinedEvent_def)
      ultimately show ?thesis
        using True db1 by (intro failed) (auto dest: same_events_folded)
    qed
  qed
qed

lemma ingestEventQuarantined_ok:
  assumes "l = 0 \<or> l \<le> ev_ledger ev" "en_lock_free en" "en_insert_fault en (ev_id ev) = None"
  shows "\<exists>es db'. ingestEventQuarantined en ev l db = (Inr es, db')"
  using assms by (auto simp: ingestEventQuarantined_def pg_check_def split: prod.splits sum.splits)

text \<open>The whole loop: every event of the page is folded or recorded, and what was folded is a fold.\<close>

lemma quarantine_loop_Inr:
  assumes "quarantine_loop scv en l raws ix = (Inr u, ix')"
    and "\<forall>raw \<in> set raws. en_record_fault en (re_id raw) = None"
  shows "\<exists>evs ok. decode_page scv raws = Inr evs \<and> set ok \<subseteq> set evs \<and>
    fold_events ok (db_derived (ix_db ix)) = Inr (db_derived (ix_db ix')) \<and>
    (\<forall>i. is_folded (ix_db ix') i = (is_folded (ix_db ix) i \<or> i \<in> ev_id ` set ok)) \<and>
    (\<forall>i. unresolved (ix_db ix) i \<longrightarrow> unresolved (ix_db ix') i) \<and>
    (\<forall>i. is_logged (ix_db ix) i \<longrightarrow> is_logged (ix_db ix') i) \<and>
    (\<forall>ev \<in> set evs. is_logged (ix_db ix') (ev_id ev) \<and>
       (is_folded (ix_db ix') (ev_id ev) \<or> unresolved (ix_db ix') (ev_id ev)))"
  using assms
proof (induction raws arbitrary: ix)
  case Nil
  then show ?case by (auto intro!: exI [of _ "[]"])
next
  case (Cons raw raws)
  from Cons.prems(1) obtain ev es db1 where ev: "decodeEvent scv raw = Inr ev"
    and one: "ingestEventQuarantined en ev l (ix_db ix) = (Inr es, db1)"
    and rest: "quarantine_loop scv en l raws (emit es (ix\<lparr>ix_db := db1\<rparr>)) = (Inr u, ix')"
    by (auto split: sum.splits prod.splits)
  have rf: "en_record_fault en (ev_id ev) = None"
    using Cons.prems(2) decodeEvent_ok_ids(1) [OF ev] by simp
  have "\<exists>ok1. set ok1 \<subseteq> {ev} \<and> fold_events ok1 (db_derived (ix_db ix)) = Inr (db_derived db1) \<and>
      (\<forall>i. is_folded db1 i = (is_folded (ix_db ix) i \<or> i \<in> ev_id ` set ok1)) \<and>
      (\<forall>i. unresolved (ix_db ix) i \<longrightarrow> unresolved db1 i) \<and> is_logged db1 (ev_id ev) \<and>
      (is_folded db1 (ev_id ev) \<or> unresolved db1 (ev_id ev)) \<and>
      (\<forall>i. is_logged (ix_db ix) i \<longrightarrow> is_logged db1 i)"
    using one
  proof (cases rule: ingestEventQuarantined_Inr)
    case folded
    then show ?thesis by (intro exI [of _ "fresh (is_folded (ix_db ix)) [ev]"]) auto
  next
    case failed
    then have "\<forall>i. unresolved (ix_db ix) i \<longrightarrow> unresolved db1 i" using rf by metis
    with failed rf show ?thesis by (intro exI [of _ "[]"]) auto
  qed
  then obtain ok1 where ok1: "set ok1 \<subseteq> {ev}"
      "fold_events ok1 (db_derived (ix_db ix)) = Inr (db_derived db1)"
      "\<forall>i. is_folded db1 i = (is_folded (ix_db ix) i \<or> i \<in> ev_id ` set ok1)"
      "\<forall>i. unresolved (ix_db ix) i \<longrightarrow> unresolved db1 i" "is_logged db1 (ev_id ev)"
      "is_folded db1 (ev_id ev) \<or> unresolved db1 (ev_id ev)"
      "\<forall>i. is_logged (ix_db ix) i \<longrightarrow> is_logged db1 i" by blast
  obtain evs ok where r: "decode_page scv raws = Inr evs" "set ok \<subseteq> set evs"
    "fold_events ok (db_derived db1) = Inr (db_derived (ix_db ix'))"
    "\<forall>i. is_folded (ix_db ix') i = (is_folded db1 i \<or> i \<in> ev_id ` set ok)"
    "\<forall>i. unresolved db1 i \<longrightarrow> unresolved (ix_db ix') i"
    "\<forall>i. is_logged db1 i \<longrightarrow> is_logged (ix_db ix') i"
    "\<forall>ev \<in> set evs. is_logged (ix_db ix') (ev_id ev) \<and>
       (is_folded (ix_db ix') (ev_id ev) \<or> unresolved (ix_db ix') (ev_id ev))"
    using Cons.IH [OF rest] Cons.prems(2) by (auto simp: emit_def)
  show ?case
  proof (rule exI [of _ "ev # evs"], rule exI [of _ "ok1 @ ok"], intro conjI)
    show "fold_events (ok1 @ ok) (db_derived (ix_db ix)) = Inr (db_derived (ix_db ix'))"
      using ok1(2) r(3) by (simp add: fold_events_append)
    show "\<forall>e \<in> set (ev # evs). is_logged (ix_db ix') (ev_id e) \<and>
       (is_folded (ix_db ix') (ev_id e) \<or> unresolved (ix_db ix') (ev_id e))"
      using ok1(4-7) r(4-7) by auto
  qed (use ev r ok1 in auto)
qed


lemma quarantine_loop_ok:
  assumes "decode_page scv raws = Inr evs" "en_lock_free en"
    and "\<forall>ev \<in> set evs. (l = 0 \<or> l \<le> ev_ledger ev) \<and> en_insert_fault en (ev_id ev) = None"
  shows "\<exists>ix'. quarantine_loop scv en l raws ix = (Inr (), ix')"
  using assms
proof (induction raws arbitrary: evs ix)
  case (Cons raw raws)
  from Cons.prems(1) obtain ev es where ev: "decodeEvent scv raw = Inr ev"
    "decode_page scv raws = Inr es" "evs = ev # es" by (auto simp: bindE_eq_Inr)
  obtain eff db1 where one: "ingestEventQuarantined en ev l (ix_db ix) = (Inr eff, db1)"
    using ingestEventQuarantined_ok [of l ev en "ix_db ix"] Cons.prems(2,3) ev(3) by auto
  from Cons.IH [OF ev(2) Cons.prems(2)] Cons.prems(3) ev(3) one ev(1) show ?case by simp
qed simp

section \<open>The persisted failure counter\<close>

text \<open>A counter written by one process is the counter the next process starts from.\<close>

lemma load_persisted_state:
  assumes "en_state_writable en" "en_state_readable en'" "qs_pageKey s \<noteq> []" "qs_errorMessage s \<noteq> []"
  shows "loadQuarantineState en' c (persistQuarantineState en c (Some s) esc db) = Some s"
  using assms
  by (cases "tget (db_quarantine db) c") (simp_all add: persistQuarantineState_def loadQuarantineState_def Let_def)

lemma load_cleared_state:
  "en_state_writable en \<Longrightarrow> loadQuarantineState en' c (persistQuarantineState en c None esc db) = None"
  by (simp add: persistQuarantineState_def loadQuarantineState_def)

lemma persist_other_contract:
  "c' \<noteq> c \<Longrightarrow> tget (db_quarantine (persistQuarantineState en c s esc db)) c' = tget (db_quarantine db) c'"
  by (simp add: persistQuarantineState_def Let_def split: option.split)

lemma persist_frame [simp]:
  "db_derived (persistQuarantineState en c s esc db) = db_derived db"
  "db_events (persistQuarantineState en c s esc db) = db_events db"
  "db_cursors (persistQuarantineState en c s esc db) = db_cursors db"
  "db_failed (persistQuarantineState en c s esc db) = db_failed db"
  "db_halts (persistQuarantineState en c s esc db) = db_halts db"
  "db_audit (persistQuarantineState en c s esc db) = db_audit db"
  by (simp_all add: persistQuarantineState_def Let_def split: option.split)

lemma persist_only_quarantine: "\<exists>q. persistQuarantineState en c s esc db = db\<lparr>db_quarantine := q\<rparr>"
  by (cases "en_state_writable en"; cases s)
     (force simp: persistQuarantineState_def Let_def intro: exI [of _ "db_quarantine db"])+

text \<open>The page transaction neither reads nor writes the quarantine state.\<close>

lemma insertRawEvent_quarantine:
  "insertRawEvent ev (db\<lparr>db_quarantine := q\<rparr>) = map_prod (\<lambda>d. d\<lparr>db_quarantine := q\<rparr>) id (insertRawEvent ev db)"
  by (simp add: insertRawEvent_def split: option.split)

lemma fold_and_mark_quarantine:
  "fold_and_mark en ev (db\<lparr>db_quarantine := q\<rparr>) =
   map_sum id (map_prod (\<lambda>d. d\<lparr>db_quarantine := q\<rparr>) id) (fold_and_mark en ev db)"
  by (cases "pg_check (en_fold_fault en (ev_id ev))"; cases "applyEvent ev (db_derived db)")
     (auto simp: fold_and_mark_def markFolded_def)

lemma ingest_event_quarantine:
  "ingest_event scv en l raw (db\<lparr>db_quarantine := q\<rparr>, p) =
   map_sum id (map_prod (\<lambda>d. d\<lparr>db_quarantine := q\<rparr>) id) (ingest_event scv en l raw (db, p))"
proof (cases "decodeEvent scv raw")
  case (Inr ev)
  obtain db1 nf where i: "insertRawEvent ev db = (db1, nf)" by fastforce
  show ?thesis
    by (cases "pg_check (en_insert_fault en (ev_id ev))"; cases "fold_and_mark en ev db1")
       (auto simp: ingest_event_def Inr insertRawEvent_quarantine i fold_and_mark_quarantine)
qed (simp add: ingest_event_def)

lemma ingest_loop_quarantine:
  "foldE (ingest_event scv en l) raws (db\<lparr>db_quarantine := q\<rparr>, p) =
   map_sum id (map_prod (\<lambda>d. d\<lparr>db_quarantine := q\<rparr>) id) (foldE (ingest_event scv en l) raws (db, p))"
proof (induction raws arbitrary: db p)
  case (Cons raw raws)
  show ?case
  proof (cases "ingest_event scv en l raw (db, p)")
    case (Inr x)
    with Cons show ?thesis by (cases x) (simp add: ingest_event_quarantine)
  qed (simp add: ingest_event_quarantine)
qed simp

lemma ingestPage_quarantine:
  "ingestPage scv en raws l (db\<lparr>db_quarantine := q\<rparr>) =
   map_prod id (\<lambda>d. d\<lparr>db_quarantine := q\<rparr>) (ingestPage scv en raws l db)"
  by (cases "foldE (ingest_event scv en l) raws (db, [])")
     (auto simp: ingestPage_def ingest_loop_quarantine)


section \<open>Retrying a page\<close>

text \<open>
  The poll loop fetches the same page again as long as the cursor has not moved; this is the
  sequence of at most \<open>n + 1\<close> attempts at one page, ending with the first that succeeds.
\<close>

primrec retry_page ::
  "('scv \<Rightarrow> string + native) \<Rightarrow> nat \<Rightarrow> env \<Rightarrow> 'scv event_response list \<Rightarrow> nat \<Rightarrow> string \<Rightarrow> nat \<Rightarrow>
   indexer \<Rightarrow> (exn + unit) \<times> indexer" where
  "retry_page scv q en raws l c 0 ix = ingestPageWithQuarantine scv q en raws l c ix"
| "retry_page scv q en raws l c (Suc n) ix =
     (case ingestPageWithQuarantine scv q en raws l c ix of
        (Inr u, ix') \<Rightarrow> (Inr u, ix')
      | (Inl e, ix') \<Rightarrow> retry_page scv q en raws l c n ix')"

lemma ingest_loop_not_reorg:
  assumes "decode_page scv raws = Inr evs" "\<forall>ev \<in> set evs. l = 0 \<or> l \<le> ev_ledger ev"
    and "foldE (ingest_event scv en l) raws dp = Inl e"
  shows "\<not> is_reorg e"
  using assms
proof (induction raws arbitrary: evs dp)
  case (Cons raw raws)
  from Cons.prems(1) obtain ev es where ev: "decodeEvent scv raw = Inr ev"
    "decode_page scv raws = Inr es" "evs = ev # es" by (auto simp: bindE_eq_Inr)
  have "ingest_event scv en l raw dp = Inl e \<Longrightarrow> \<not> is_reorg e"
    using ev Cons.prems(2)
    by (auto simp: ingest_event_def bindE_eq_Inl pg_check_def fold_and_mark_def
        dest: applyEvent_not_reorg split: if_splits option.splits prod.splits)
  with Cons.IH [OF ev(2)] Cons.prems ev(3) show ?case by (auto simp: bindE_eq_Inl)
qed simp

lemma ingestPage_not_reorg:
  assumes "decode_page scv raws = Inr evs" "\<forall>ev \<in> set evs. l = 0 \<or> l \<le> ev_ledger ev"
    and "ingestPage scv en raws l db = (Inl e, db')"
  shows "\<not> is_reorg e"
  using assms ingest_loop_not_reorg [OF assms(1,2), of en "(db, [])"]
  by (auto simp: ingestPage_def page_lock_error_def split: if_splits sum.splits)

lemma state_frames [simp]:
  "ix_db (set_state c s ix) = ix_db ix" "ix_db (load_state en c ix) = ix_db ix"
  "ix_quarantineStates (persist_state en c s esc ix) = ix_quarantineStates ix"
  "ix_quarantineStatesLoaded (persist_state en c s esc ix) = ix_quarantineStatesLoaded ix"
  "ix_quarantineStatesLoaded (set_state c s ix) = ix_quarantineStatesLoaded ix"
  "c \<in> set (ix_quarantineStatesLoaded (load_state en c ix))"
  "ix_db (persist_state en c s esc ix) = persistQuarantineState en c s esc (ix_db ix)"
  "current_state c (persist_state en c s esc ix) = current_state c ix"
  "current_state c (set_state c s ix) = s"
  by (simp_all add: set_state_def load_state_def persist_state_def current_state_def)

lemma load_state_loaded [simp]: "c \<in> set (ix_quarantineStatesLoaded ix) \<Longrightarrow> load_state en c ix = ix"
  by (simp add: load_state_def)

text \<open>An attempt that fails leaves the tables as they were and counts the failure.\<close>

lemma attempt_fails:
  assumes "decode_page scv raws = Inr evs" "en_lock_free en"
    and "\<forall>ev \<in> set evs. (l = 0 \<or> l \<le> ev_ledger ev) \<and> en_insert_fault en (ev_id ev) = None"
    and page: "ingestPage scv en raws l (ix_db ix) = (Inl err, db')"
    and "ingestPageWithQuarantine scv q en raws l c ix = (Inl e, ix')"
  shows "(\<exists>qt. ix_db ix' = (ix_db ix)\<lparr>db_quarantine := qt\<rparr>) \<and>
    c \<in> set (ix_quarantineStatesLoaded ix') \<and>
    current_state c ix' = Some (count_failure (current_state c (load_state en c ix)) (pageKeyFor raws) (error_message err)) \<and>
    qs_failures (count_failure (current_state c (load_state en c ix)) (pageKeyFor raws) (error_message err)) < q"
proof -
  define ixl where "ixl = load_state en c ix"
  define st where "st = count_failure (current_state c ixl) (pageKeyFor raws) (error_message err)"
  define ix1 where "ix1 = persist_state en c (Some st) False (set_state c (Some st) (ixl\<lparr>ix_db := ix_db ix\<rparr>))"
  have db': "db' = ix_db ix" using ingestPage_atomic [OF page] .
  have nr: "\<not> is_reorg err" using ingestPage_not_reorg [OF assms(1) _ page] assms(3) by blast
  have run: "ingestPageWithQuarantine scv q en raws l c ix =
    (if qs_failures st < q then (Inl err, ix1)
     else case quarantine_loop scv en l raws (persist_state en c (Some st) True ix1) of
        (Inl e, ix3) \<Rightarrow> (Inl e, ix3)
      | (Inr _, ix3) \<Rightarrow> (Inr (), persist_state en c None False (set_state c None ix3)))"
    using page nr db'
    by (simp add: ingestPageWithQuarantine_def Let_def ix1_def st_def ixl_def)
  obtain ix3 where "quarantine_loop scv en l raws (persist_state en c (Some st) True ix1) = (Inr (), ix3)"
    using quarantine_loop_ok [OF assms(1,2,3)] by blast
  with run assms(5) have r: "qs_failures st < q" "ix' = ix1" by (auto split: if_splits)
  have "ix_db ix1 = persistQuarantineState en c (Some st) False (ix_db ix)"
    by (simp add: ix1_def)
  then have "\<exists>qt. ix_db ix' = (ix_db ix)\<lparr>db_quarantine := qt\<rparr>"
    using persist_only_quarantine [of en c "Some st" False "ix_db ix"] r(2) by simp
  moreover have "c \<in> set (ix_quarantineStatesLoaded ix')"
    using r(2) by (simp add: ix1_def ixl_def)
  moreover have "current_state c ix' = Some st"
    using r(2) by (simp add: ix1_def)
  ultimately show ?thesis using r(1) by (simp add: st_def ixl_def)
qed

lemma attempt_succeeds_iff:
  assumes "ingestPage scv en raws l (ix_db ix) = (Inr es, db')"
  shows "fst (ingestPageWithQuarantine scv q en raws l c ix) = Inr ()"
  using assms by (simp add: ingestPageWithQuarantine_def Let_def)

lemma retry_counts:
  assumes "decode_page scv raws = Inr evs" "en_lock_free en"
    and "\<forall>ev \<in> set evs. (l = 0 \<or> l \<le> ev_ledger ev) \<and> en_insert_fault en (ev_id ev) = None"
    and "ingestPage scv en raws l (ix_db ix) = (Inl err, db')"
    and "c \<in> set (ix_quarantineStatesLoaded ix)" "current_state c ix = Some st"
    and "qs_pageKey st = pageKeyFor raws" "qs_errorMessage st = error_message err"
    and "q \<le> qs_failures st + Suc n"
  shows "fst (retry_page scv q en raws l c n ix) = Inr ()"
  using assms(4-)
proof (induction n arbitrary: ix st db')
  case 0
  show ?case
  proof (cases "ingestPageWithQuarantine scv q en raws l c ix")
    case (Pair r ix')
    show ?thesis
    proof (cases r)
      case (Inl e)
      with attempt_fails [OF assms(1-3) 0(1), of q c e ix'] Pair 0 have False
        by (simp add: count_failure_def)
      then show ?thesis ..
    next
      case (Inr u)
      with Pair show ?thesis by simp
    qed
  qed
next
  case (Suc n)
  show ?case
  proof (cases "ingestPageWithQuarantine scv q en raws l c ix")
    case (Pair r ix')
    show ?thesis
    proof (cases r)
      case (Inr u)
      with Pair show ?thesis by simp
    next
      case (Inl e)
      with attempt_fails [OF assms(1-3) Suc.prems(1), of q c e ix'] Pair Suc.prems obtain qt where
        a: "ix_db ix' = (ix_db ix)\<lparr>db_quarantine := qt\<rparr>" "c \<in> set (ix_quarantineStatesLoaded ix')"
          "current_state c ix' = Some (st\<lparr>qs_failures := Suc (qs_failures st)\<rparr>)"
        by (auto simp: count_failure_def)
      have "ingestPage scv en raws l (ix_db ix') = (Inl err, db'\<lparr>db_quarantine := qt\<rparr>)"
        using Suc.prems(1) by (simp add: a(1) ingestPage_quarantine)
      from Suc.IH [OF this a(2,3)] Suc.prems Pair Inl show ?thesis by simp
    qed
  qed
qed


text \<open>
  Liveness: a page whose events can be decoded and stored gets past the indexer after at most
  \<open>INDEXER_QUARANTINE_AFTER_FAILURES\<close> attempts, whatever its handlers do and whatever state the
  process started from.
\<close>

lemma retry_page_succeeds:
  assumes "decode_page scv raws = Inr evs" "en_lock_free en"
    and "\<forall>ev \<in> set evs. (l = 0 \<or> l \<le> ev_ledger ev) \<and> en_insert_fault en (ev_id ev) = None"
  shows "fst (retry_page scv q en raws l c (q - 1) ix) = Inr ()"
proof (cases "ingestPage scv en raws l (ix_db ix)")
  case (Pair r db')
  show ?thesis
  proof (cases r)
    case (Inr es)
    with attempt_succeeds_iff Pair have "fst (ingestPageWithQuarantine scv q en raws l c ix) = Inr ()" by blast
    then show ?thesis
      by (cases "q - 1"; cases "ingestPageWithQuarantine scv q en raws l c ix") auto
  next
    case (Inl err)
    with Pair have page: "ingestPage scv en raws l (ix_db ix) = (Inl err, db')" by simp
    obtain r1 ix1 where one: "ingestPageWithQuarantine scv q en raws l c ix = (r1, ix1)" by fastforce
    show ?thesis
    proof (cases r1)
      case (Inr u)
      with one show ?thesis by (cases "q - 1") auto
    next
      case (Inl e)
      note f = attempt_fails [OF assms page one [unfolded Inl]]
      then obtain qt st where st: "ix_db ix1 = (ix_db ix)\<lparr>db_quarantine := qt\<rparr>"
        "c \<in> set (ix_quarantineStatesLoaded ix1)" "current_state c ix1 = Some st"
        "st = count_failure (current_state c (load_state en c ix)) (pageKeyFor raws) (error_message err)"
        "qs_failures st < q" by blast
      have k: "qs_pageKey st = pageKeyFor raws" "qs_errorMessage st = error_message err" "1 \<le> qs_failures st"
        by (auto simp: st(4) count_failure_def split: option.splits)
      then obtain m where m: "q - 1 = Suc m" using st(5) by (cases "q - 1") auto
      have "ingestPage scv en raws l (ix_db ix1) = (Inl err, db'\<lparr>db_quarantine := qt\<rparr>)"
        using page by (simp add: st(1) ingestPage_quarantine)
      from retry_counts [OF assms this st(2,3) k(1,2), of q m] k(3) m one Inl show ?thesis by simp
    qed
  qed
qed

text \<open>
  Decoding happens outside the part of the quarantine loop that isolates an event, so an event
  that cannot be decoded is not isolated: no number of attempts gets past its page.
\<close>

lemma undecodable_page_fails:
  assumes "decodeEvent scv raw = Inl e" "raw \<in> set raws"
  shows "\<not> is_ok (foldE (ingest_event scv en l) raws dp)"
    and "\<not> is_ok (fst (quarantine_loop scv en l raws ix))"
  using assms(2)
proof (induction raws arbitrary: dp ix)
  case (Cons r rs)
  { case 1
    with Cons.IH(1) assms(1) show ?case
      by (cases "ingest_event scv en l r dp") (auto simp: ingest_event_def) }
  { case 2
    with Cons.IH(2) assms(1) show ?case
      by (auto split: sum.splits prod.splits) }
qed auto

lemma undecodable_page_stuck:
  assumes "decodeEvent scv raw = Inl e" "raw \<in> set raws"
  shows "\<not> is_ok (fst (retry_page scv q en raws l c n ix))"
proof -
  have one: "\<not> is_ok (fst (ingestPageWithQuarantine scv q en raws l c ix))" for ix
  proof -
    have "\<not> is_ok (fst (ingestPage scv en raws l (ix_db (load_state en c ix))))"
      using undecodable_page_fails(1) [OF assms, of en l "(ix_db ix, [])"] assms(2)
      by (cases "foldE (ingest_event scv en l) raws (ix_db ix, [])") (auto simp: ingestPage_def)
    then obtain err db where page: "ingestPage scv en raws l (ix_db ix) = (Inl err, db)"
      by (cases "ingestPage scv en raws l (ix_db ix)"; cases "fst (ingestPage scv en raws l (ix_db ix))") auto
    have loop: "\<exists>e ix'. quarantine_loop scv en l raws i = (Inl e, ix')" for i
      using undecodable_page_fails(2) [OF assms, of en l i]
      by (cases "quarantine_loop scv en l raws i"; cases "fst (quarantine_loop scv en l raws i)") auto
    show ?thesis
      using page loop by (simp add: ingestPageWithQuarantine_def Let_def)
        (metis (no_types, lifting) is_ok_simps(2) fst_conv old.prod.case old.sum.simps(5))
  qed
  show ?thesis
  proof (induction n arbitrary: ix)
    case 0
    show ?case using one by simp
  next
    case (Suc n)
    show ?case
      using one [of ix] Suc by (auto split: prod.splits sum.splits)
  qed
qed


text \<open>A page is let through only when each of its events is folded or on record as failed.\<close>

lemma ingestPageWithQuarantine_processed:
  assumes "ingestPageWithQuarantine scv q en raws l c ix = (Inr u, ix')"
    and "\<forall>raw \<in> set raws. en_record_fault en (re_id raw) = None" and "raw \<in> set raws"
  shows "is_logged (ix_db ix') (re_id raw) \<and>
    (is_folded (ix_db ix') (re_id raw) \<or> unresolved (ix_db ix') (re_id raw))"
proof -
  have persist: "is_logged (persistQuarantineState en c s esc db) i = is_logged db i"
    "is_folded (persistQuarantineState en c s esc db) i = is_folded db i"
    "unresolved (persistQuarantineState en c s esc db) i = unresolved db i" for s esc db i
    by (simp_all add: is_logged_def is_folded_def unresolved_def)
  obtain r db1 where page: "ingestPage scv en raws l (ix_db ix) = (r, db1)" by fastforce
  show ?thesis
  proof (cases r)
    case (Inr es)
    with page obtain evs where evs: "decode_page scv raws = Inr evs"
      "\<forall>i. is_folded db1 i = (is_folded (ix_db ix) i \<or> i \<in> ev_id ` set evs)"
      by (auto elim: ingestPage_success)
    have "re_id raw \<in> ev_id ` set evs"
      using decode_page_ids [OF evs(1)] assms(3) by (metis image_eqI image_set)
    moreover have "ix_db ix' = persistQuarantineState en c None False db1"
      using assms(1) page Inr by (auto simp: ingestPageWithQuarantine_def Let_def emit_def)
    ultimately show ?thesis using evs(2) folded_logged by (auto simp: persist)
  next
    case (Inl err)
    with assms(1) page obtain ix2 ix3 u' where loop: "quarantine_loop scv en l raws ix2 = (Inr u', ix3)"
      "ix_db ix' = persistQuarantineState en c None False (ix_db ix3)"
      by (auto simp: ingestPageWithQuarantine_def Let_def split: if_splits prod.splits sum.splits)
    from quarantine_loop_Inr [OF loop(1) assms(2)] obtain evs where evs: "decode_page scv raws = Inr evs"
      "\<forall>ev \<in> set evs. is_logged (ix_db ix3) (ev_id ev) \<and>
         (is_folded (ix_db ix3) (ev_id ev) \<or> unresolved (ix_db ix3) (ev_id ev))" by blast
    have "re_id raw \<in> ev_id ` set evs"
      using decode_page_ids [OF evs(1)] assms(3) by (metis image_eqI image_set)
    with evs(2) show ?thesis by (auto simp: loop(2) persist)
  qed
qed

end
