(* ===== verification/Poller.thy ===== *)
theory Poller
  imports Ingest_Facts
begin

text \<open>
  The poll loop of \<open>src/indexer/poller.ts\<close>: the cursor of a contract, one drain of the pages the
  RPC has, the discontinuity checks and the recorded halts, the start-up checks, the reset for a
  new deployment, and the schedule with its backoff.

  The RPC client is a parameter: what it answers to the requests of one poll is a function of
  the number of pages already drained. So are the clock readings, the shutdown signal and the
  database faults of the poll.
\<close>

section \<open>Configuration and environment\<close>

record indexer_config =
  ic_pageLimit :: nat
  ic_maxDrainPages :: nat
  ic_maxDrainMs :: int
  ic_quarantineAfterFailures :: nat
  ic_startLedger :: nat
  ic_startLookbackLedgers :: nat
  ic_pollIntervalMs :: nat
  ic_maxBackoffMs :: nat
  ic_resetOnContractChange :: bool

record events_request =
  rq_cursor :: "string option"
  rq_startLedger :: "nat option"

record 'scv events_page =
  pg_events :: "'scv event_response list"
  pg_cursor :: "string option"
  pg_latestLedger :: "nat option"

record 'scv poll_env =
  pe_tip :: "exn + nat" \<comment> \<open>\<open>getLatestLedgerInfo().sequence\<close>\<close>
  pe_latestLedger :: "exn + nat" \<comment> \<open>\<open>getLatestLedger()\<close>\<close>
  pe_priorHash :: "nat \<Rightarrow> string option" \<comment> \<open>\<open>getLedgerHash\<close>, before the drain\<close>
  pe_ledgerHash :: "nat \<Rightarrow> nat \<Rightarrow> string option" \<comment> \<open>\<open>getLedgerHash\<close>, after a page\<close>
  pe_getEvents :: "nat \<Rightarrow> events_request \<Rightarrow> exn + 'scv events_page"
  pe_aborted :: "nat \<Rightarrow> bool"
  pe_elapsedMs :: "nat \<Rightarrow> int" \<comment> \<open>since the drain started, after that many pages\<close>
  pe_env :: "nat \<Rightarrow> env"
  pe_cursor_fault :: "nat \<Rightarrow> pg_fault"

section \<open>The cursor\<close>

definition loadCursor :: "string \<Rightarrow> db \<Rightarrow> cursor_row option" where
  "loadCursor contractId db = tget (db_cursors db) contractId"

definition saveCursor ::
  "pg_fault \<Rightarrow> int \<Rightarrow> string \<Rightarrow> string option \<Rightarrow> nat \<Rightarrow> nat \<Rightarrow> string option \<Rightarrow> indexer \<Rightarrow>
   (exn + unit) \<times> indexer" where
  "saveCursor fault now contractId pagingToken lastLedger observedTipLedger lastLedgerHash ix =
     (case fault of
        None \<Rightarrow>
          (Inr (), ix\<lparr>ix_db := (ix_db ix)\<lparr>db_cursors := tput contractId
              \<lparr>cu_paging_token = pagingToken, cu_last_ledger = Some lastLedger,
               cu_last_ledger_hash = lastLedgerHash, cu_observed_tip_ledger = Some observedTipLedger,
               cu_updated_at = now\<rparr> (db_cursors (ix_db ix))\<rparr>,
            ix_cursorWriteFailures := tdel contractId (ix_cursorWriteFailures ix)\<rparr>)
      | Some cm \<Rightarrow>
          (Inl (PlainError (''Cursor write failed: '' @ snd cm)),
           ix\<lparr>ix_cursorWriteFailures := tput contractId \<lparr>cw_error = snd cm, cw_at = now\<rparr>
              (ix_cursorWriteFailures ix)\<rparr>))"

definition touchCursor :: "pg_fault \<Rightarrow> int \<Rightarrow> string \<Rightarrow> indexer \<Rightarrow> (exn + unit) \<times> indexer" where
  "touchCursor fault now contractId ix =
     (case pg_check fault of
        Inl e \<Rightarrow> (Inl e, ix)
      | Inr _ \<Rightarrow> (Inr (), ix\<lparr>ix_db := (ix_db ix)\<lparr>db_cursors :=
          tmod contractId (\<lambda>r. r\<lparr>cu_updated_at := now\<rparr>) (db_cursors (ix_db ix))\<rparr>\<rparr>))"

definition getCursorWriteFailure :: "string \<Rightarrow> indexer \<Rightarrow> cursor_write_failure option" where
  "getCursorWriteFailure contractId ix = tget (ix_cursorWriteFailures ix) contractId"

definition resolveStartLedger :: "indexer_config \<Rightarrow> exn + nat \<Rightarrow> exn + nat" where
  "resolveStartLedger cfg latestLedger =
     (if 0 < ic_startLedger cfg then Inr (max 1 (ic_startLedger cfg))
      else bindE latestLedger (\<lambda>latest. Inr (max 1 (latest - ic_startLookbackLedgers cfg))))"

section \<open>One drain\<close>

record drain =
  dr_request :: events_request
  dr_totalPages :: nat
  dr_totalEvents :: nat
  dr_lastLedger :: nat
  dr_lastLedgerHash :: "string option"
  dr_observedTipLedger :: nat
  dr_cursorWritten :: bool

definition coalesce :: "'a option \<Rightarrow> 'a option \<Rightarrow> 'a option" where
  "coalesce a b = (case a of Some x \<Rightarrow> Some x | None \<Rightarrow> b)"

definition last_id :: "'scv event_response list \<Rightarrow> string option" where
  "last_id events = (if events = [] then None else Some (re_id (last events)))"

definition folded_ledger :: "'scv event_response list \<Rightarrow> nat \<Rightarrow> nat" where
  "folded_ledger events lastLedger = (if events = [] then lastLedger else re_ledger (last events))"

text \<open>
  The part of an iteration after the page was ingested: the new cursor, written when anything
  of it changed. \<open>savedToken\<close> is \<open>cursor?.paging_token\<close>, \<open>None\<close> without a cursor row.
\<close>

definition advance ::
  "'scv poll_env \<Rightarrow> string \<Rightarrow> string option option \<Rightarrow> 'scv events_page \<Rightarrow> drain \<Rightarrow> indexer \<Rightarrow>
   (exn + drain) \<times> indexer" where
  "advance pe contractId savedToken res dr ix =
     (let events = pg_events res;
          n = dr_totalPages dr;
          nextToken = coalesce (last_id events) (coalesce (pg_cursor res) (rq_cursor (dr_request dr)));
          foldedLedger = folded_ledger events (dr_lastLedger dr);
          newObservedTip = (case pg_latestLedger res of Some t \<Rightarrow> t | None \<Rightarrow> dr_observedTipLedger dr);
          counted = dr\<lparr>dr_totalPages := n + 1, dr_totalEvents := dr_totalEvents dr + length events,
                       dr_request := \<lparr>rq_cursor = nextToken, rq_startLedger = None\<rparr>\<rparr>
      in if Some nextToken \<noteq> savedToken \<or> foldedLedger \<noteq> dr_lastLedger dr \<or>
            newObservedTip \<noteq> dr_observedTipLedger dr
         then
           let hash = (if foldedLedger \<noteq> dr_lastLedger dr then pe_ledgerHash pe n foldedLedger
                       else dr_lastLedgerHash dr)
           in case saveCursor (pe_cursor_fault pe n) (en_now (pe_env pe n)) contractId nextToken
                     foldedLedger newObservedTip hash ix of
                (Inl e, ix') \<Rightarrow> (Inl e, ix')
              | (Inr _, ix') \<Rightarrow>
                  (Inr (counted\<lparr>dr_lastLedger := foldedLedger, dr_lastLedgerHash := hash,
                          dr_observedTipLedger := newObservedTip, dr_cursorWritten := True\<rparr>), ix')
         else (Inr counted, ix))"

lemma advance_totalPages:
  "advance pe c tok res dr ix = (Inr dr', ix') \<Longrightarrow> dr_totalPages dr' = dr_totalPages dr + 1"
  by (auto simp: advance_def saveCursor_def Let_def split: if_splits option.splits)

function drain_loop ::
  "('scv \<Rightarrow> string + native) \<Rightarrow> indexer_config \<Rightarrow> 'scv poll_env \<Rightarrow> string \<Rightarrow> string option option \<Rightarrow>
   drain \<Rightarrow> indexer \<Rightarrow> (exn + drain) \<times> indexer" where
  "drain_loop scv cfg pe contractId savedToken dr ix =
     (let n = dr_totalPages dr in
      if pe_aborted pe n then (Inr dr, ix)
      else case pe_getEvents pe n (dr_request dr) of
        Inl e \<Rightarrow> (Inl e, ix)
      | Inr res \<Rightarrow>
          (case ingestPageWithQuarantine scv (ic_quarantineAfterFailures cfg) (pe_env pe n)
                  (pg_events res) (dr_lastLedger dr) contractId ix of
             (Inl e, ix1) \<Rightarrow> (Inl e, ix1)
           | (Inr _, ix1) \<Rightarrow>
               (case advance pe contractId savedToken res dr ix1 of
                  (Inl e, ix2) \<Rightarrow> (Inl e, ix2)
                | (Inr dr', ix2) \<Rightarrow>
                    if length (pg_events res) < ic_pageLimit cfg \<or>
                       ic_maxDrainPages cfg \<le> n + 1 \<or> ic_maxDrainMs cfg \<le> pe_elapsedMs pe (n + 1)
                    then (Inr dr', ix2)
                    else drain_loop scv cfg pe contractId savedToken dr' ix2)))"
  by pat_completeness auto

termination
  by (relation "measure (\<lambda>(scv, cfg, pe, c, tok, dr, ix). ic_maxDrainPages cfg - dr_totalPages dr)")
     (auto dest: advance_totalPages [OF sym])

declare drain_loop.simps [simp del]

section \<open>fetchOnce\<close>

definition GRACE_WINDOW :: nat where
  "GRACE_WINDOW = 10"

definition prior_ledger :: "cursor_row option \<Rightarrow> nat" where
  "prior_ledger cur = (case cur of None \<Rightarrow> 0 | Some r \<Rightarrow> (case cu_last_ledger r of None \<Rightarrow> 0 | Some l \<Rightarrow> l))"

definition observed_tip :: "cursor_row option \<Rightarrow> nat option" where
  "observed_tip cur = (case cur of None \<Rightarrow> None | Some r \<Rightarrow> cu_observed_tip_ledger r)"

definition prior_hash :: "cursor_row option \<Rightarrow> string option" where
  "prior_hash cur = (case cur of None \<Rightarrow> None | Some r \<Rightarrow> cu_last_ledger_hash r)"

text \<open>The coarse rewind check, on the sequence of the RPC's tip.\<close>

definition rewind_check :: "cursor_row option \<Rightarrow> nat \<Rightarrow> exn + unit" where
  "rewind_check cur tip =
     (let prior = prior_ledger cur;
          observed = (case observed_tip cur of None \<Rightarrow> 0 | Some t \<Rightarrow> t)
      in if 0 < prior \<and> tip < prior then
           if 0 < observed \<and> int prior - int tip \<le> int GRACE_WINDOW \<and> int prior - int GRACE_WINDOW \<le> int tip
           then Inr ()
           else Inl (ReorgDetectedError (''RPC latest ledger '' @ show_nat tip @
             '' is below the last folded ledger '' @ show_nat prior @ '' '' @ em_dash @
             '' the chain rewound past applied history''))
         else Inr ())"

text \<open>The same-height fork check, on the hash of the last folded ledger.\<close>

definition fork_check :: "cursor_row option \<Rightarrow> (nat \<Rightarrow> string option) \<Rightarrow> exn + unit" where
  "fork_check cur getLedgerHash =
     (let prior = prior_ledger cur in
      case prior_hash cur of
        None \<Rightarrow> Inr ()
      | Some h \<Rightarrow>
          if prior = 0 \<or> h = [] then Inr ()
          else (case getLedgerHash prior of
                  None \<Rightarrow> Inr ()
                | Some actual \<Rightarrow>
                    if actual \<noteq> h then Inl (ReorgDetectedError (''ledger '' @ show_nat prior @
                      [CHR 0x27] @ ''s hash changed from '' @ h @ '' to '' @ actual @ '' '' @ em_dash @
                      '' history diverged at the same height''))
                    else Inr ()))"

definition first_request :: "indexer_config \<Rightarrow> 'scv poll_env \<Rightarrow> cursor_row option \<Rightarrow> exn + events_request" where
  "first_request cfg pe cur =
     (case cur of
        Some r \<Rightarrow>
          (case cu_paging_token r of
             Some t \<Rightarrow> if t \<noteq> [] then Inr \<lparr>rq_cursor = Some t, rq_startLedger = None\<rparr>
               else bindE (resolveStartLedger cfg (pe_latestLedger pe)) (\<lambda>l. Inr \<lparr>rq_cursor = None, rq_startLedger = Some l\<rparr>)
           | None \<Rightarrow> bindE (resolveStartLedger cfg (pe_latestLedger pe)) (\<lambda>l. Inr \<lparr>rq_cursor = None, rq_startLedger = Some l\<rparr>))
      | None \<Rightarrow> bindE (resolveStartLedger cfg (pe_latestLedger pe)) (\<lambda>l. Inr \<lparr>rq_cursor = None, rq_startLedger = Some l\<rparr>))"

definition fetchOnce ::
  "('scv \<Rightarrow> string + native) \<Rightarrow> indexer_config \<Rightarrow> 'scv poll_env \<Rightarrow> string \<Rightarrow> indexer \<Rightarrow>
   (exn + unit) \<times> indexer" where
  "fetchOnce scv cfg pe contractId ix =
     (let cursor = loadCursor contractId (ix_db ix) in
      case bindE (pe_tip pe) (\<lambda>tip.
           bindE (rewind_check cursor tip) (\<lambda>_.
           bindE (fork_check cursor (pe_priorHash pe)) (\<lambda>_.
           bindE (first_request cfg pe cursor) (\<lambda>request. Inr (tip, request))))) of
        Inl e \<Rightarrow> (Inl e, ix)
      | Inr (tip, request) \<Rightarrow>
          (case drain_loop scv cfg pe contractId (map_option cu_paging_token cursor)
                  \<lparr>dr_request = request, dr_totalPages = 0, dr_totalEvents = 0,
                   dr_lastLedger = prior_ledger cursor, dr_lastLedgerHash = prior_hash cursor,
                   dr_observedTipLedger = (case observed_tip cursor of Some t \<Rightarrow> t | None \<Rightarrow> tip),
                   dr_cursorWritten = False\<rparr> ix of
             (Inl e, ix1) \<Rightarrow> (Inl e, ix1)
           | (Inr dr, ix1) \<Rightarrow>
               if dr_totalEvents dr = 0 \<and> \<not> dr_cursorWritten dr
               then touchCursor (pe_cursor_fault pe (dr_totalPages dr))
                      (en_now (pe_env pe (dr_totalPages dr))) contractId ix1
               else (Inr (), ix1)))"


section \<open>Recorded halts\<close>

text \<open>Best effort: a failure to record is logged and swallowed.\<close>

definition recordReorgHalt :: "pg_fault \<Rightarrow> int \<Rightarrow> string \<Rightarrow> exn \<Rightarrow> db \<Rightarrow> db" where
  "recordReorgHalt fault now contractId err db =
     (if fault \<noteq> None then db
      else let cursor = loadCursor contractId db in
        db\<lparr>db_halts := db_halts db @
          [\<lparr>rh_contract_id = contractId,
            rh_last_ledger = (case cursor of None \<Rightarrow> None | Some r \<Rightarrow> cu_last_ledger r),
            rh_last_ledger_hash = prior_hash cursor, rh_detail = error_message err,
            rh_detected_at = now, rh_cleared_at = None, rh_cleared_by = None\<rparr>]\<rparr>)"

text \<open>The most recent record no one has cleared, with its id.\<close>

definition loadUnclearedReorgHalt :: "db \<Rightarrow> (nat \<times> reorg_halt_row) option" where
  "loadUnclearedReorgHalt db =
     (case filter (\<lambda>ih. rh_cleared_at (snd ih) = None) (rev (enumerate 1 (db_halts db))) of
        [] \<Rightarrow> None
      | h # _ \<Rightarrow> Some h)"

definition clear_halt :: "int \<Rightarrow> string \<Rightarrow> reorg_halt_row \<Rightarrow> reorg_halt_row" where
  "clear_halt now clearedBy h =
     (if rh_cleared_at h = None then h\<lparr>rh_cleared_at := Some now, rh_cleared_by := Some clearedBy\<rparr> else h)"

definition clearReorgHalts :: "int \<Rightarrow> string \<Rightarrow> db \<Rightarrow> db \<times> nat" where
  "clearReorgHalts now clearedBy db =
     (db\<lparr>db_halts := map (clear_halt now clearedBy) (db_halts db)\<rparr>,
      length (filter (\<lambda>h. rh_cleared_at h = None) (db_halts db)))"

section \<open>A changed set of contracts\<close>

definition reset_lock_error :: exn where
  "reset_lock_error = PlainError (''Cannot reset database for contract change: reindex or fold '' @
     ''operation is currently in progress (advisory lock held)'')"

definition resetForContractChange :: "bool \<Rightarrow> db \<Rightarrow> exn + db" where
  "resetForContractChange lockFree db =
     (if \<not> lockFree then Inl reset_lock_error
      else Inr (db\<lparr>db_derived := resetDaoTotals (truncate_derived (db_derived db)), db_cursors := []\<rparr>))"

definition stale_error :: "string list \<Rightarrow> string list \<Rightarrow> exn" where
  "stale_error stale contractIds = PlainError
     (''Indexer cursor has row(s) for contract(s) no longer configured: '' @ js_join '', '' stale @
      '' (configured: '' @ js_join '', '' contractIds @ ''). Resuming would merge a stale deployment's derived '' @
      ''state with a new one. To repoint at a new deployment: start once with '' @
      ''INDEXER_RESET_ON_CONTRACT_CHANGE=true to wipe the cursor and derived tables, or point '' @
      ''DATABASE_URL at a fresh database. See the README's '' @ dquote @ ''Redeploying the contract'' @
      dquote @ '' section.'')"

definition ensureCursorContract :: "indexer_config \<Rightarrow> bool \<Rightarrow> string list \<Rightarrow> db \<Rightarrow> exn + db" where
  "ensureCursorContract cfg lockFree contractIds db =
     (let stale = filter (\<lambda>c. c \<notin> set contractIds) (tkeys (db_cursors db)) in
      if stale = [] then Inr db
      else if ic_resetOnContractChange cfg then resetForContractChange lockFree db
      else Inl (stale_error stale contractIds))"

section \<open>Starting and scheduling\<close>

text \<open>
  The checks of \<open>runIndexer\<close> before its loop. \<open>configured\<close> is the result of
  \<open>assertContractsConfigured()\<close>; \<open>isoTime\<close> stands for \<open>new Date(t).toISOString()\<close> in the message.
\<close>

definition halted_error :: "(int \<Rightarrow> string) \<Rightarrow> reorg_halt_row \<Rightarrow> exn" where
  "halted_error isoTime h = ReorgHaltedError
     (''a ledger discontinuity recorded at '' @ isoTime (rh_detected_at h) @ '' on '' @ rh_contract_id h @ '' '' @
      ''(last folded ledger '' @ (case rh_last_ledger h of Some l \<Rightarrow> show_nat l | None \<Rightarrow> ''unknown'') @
      '') has not been cleared: '' @ rh_detail h @ ''. '' @
      ''Confirm the chain state, then run `npm run reindex` (rebuilds and clears) or '' @
      ''`npm run reorg:clear` for a false alarm. See docs/REORG_RECOVERY.md.'')"

definition startIndexer ::
  "(int \<Rightarrow> string) \<Rightarrow> indexer_config \<Rightarrow> bool \<Rightarrow> bool \<Rightarrow> exn + string list \<Rightarrow> db \<Rightarrow>
   exn + string list \<times> db" where
  "startIndexer isoTime cfg running lockFree configured db =
     (if running then Inl (PlainError (''Indexer is already running '' @ em_dash @
                             '' cannot start a second instance''))
      else case loadUnclearedReorgHalt db of
        Some (_, h) \<Rightarrow> Inl (halted_error isoTime h)
      | None \<Rightarrow>
          bindE configured (\<lambda>contractIds.
          bindE (ensureCursorContract cfg lockFree contractIds db) (\<lambda>db'.
          Inr (contractIds, db'))))"

record schedule =
  sc_consecutiveFailures :: "(string, nat) tbl"
  sc_nextPollAt :: "(string, int) tbl"

definition initial_schedule :: "string list \<Rightarrow> schedule" where
  "initial_schedule contractIds =
     \<lparr>sc_consecutiveFailures = [], sc_nextPollAt = fold (\<lambda>c. tput c 0) contractIds []\<rparr>"

definition failures_of :: "string \<Rightarrow> schedule \<Rightarrow> nat" where
  "failures_of c sc = (case tget (sc_consecutiveFailures sc) c of Some n \<Rightarrow> n | None \<Rightarrow> 0)"

definition backoff_delay :: "indexer_config \<Rightarrow> nat \<Rightarrow> nat" where
  "backoff_delay cfg failures = min (ic_pollIntervalMs cfg * 2 ^ failures) (ic_maxBackoffMs cfg)"

text \<open>
  One contract of a tick of the loop: \<open>now\<close> is the clock at the start of the tick, \<open>after\<close> the
  clock when the poll has ended, \<open>haltFault\<close> the fault of the insert into \<open>reorg_halts\<close>.
\<close>

definition poll_contract ::
  "('scv \<Rightarrow> string + native) \<Rightarrow> indexer_config \<Rightarrow> 'scv poll_env \<Rightarrow> pg_fault \<Rightarrow> int \<Rightarrow> int \<Rightarrow> string \<Rightarrow>
   schedule \<Rightarrow> indexer \<Rightarrow> (exn + schedule) \<times> indexer" where
  "poll_contract scv cfg pe haltFault now after contractId sc ix =
     (if now < (case tget (sc_nextPollAt sc) contractId of Some t \<Rightarrow> t | None \<Rightarrow> 0) then (Inr sc, ix)
      else case fetchOnce scv cfg pe contractId ix of
        (Inr _, ix') \<Rightarrow>
          (Inr (sc\<lparr>sc_consecutiveFailures := tput contractId 0 (sc_consecutiveFailures sc),
                   sc_nextPollAt := tput contractId (after + int (ic_pollIntervalMs cfg)) (sc_nextPollAt sc)\<rparr>), ix')
      | (Inl err, ix') \<Rightarrow>
          if is_reorg err then
            let db = recordReorgHalt haltFault after contractId err (ix_db ix');
                reorgLedger = prior_ledger (loadCursor contractId db)
            in (Inl err, emit [BroadcastResync reorgLedger] (ix'\<lparr>ix_db := db\<rparr>))
          else
            let failures = failures_of contractId sc + 1 in
            (Inr (sc\<lparr>sc_consecutiveFailures := tput contractId failures (sc_consecutiveFailures sc),
                     sc_nextPollAt := tput contractId (after + int (backoff_delay cfg failures)) (sc_nextPollAt sc)\<rparr>), ix'))"

end
