(* ===== verification/Poller_Facts.thy ===== *)
theory Poller_Facts
  imports Poller
begin

text \<open>
  Facts about the poll loop: when a discontinuity is detected, that a cursor only moves forward
  and only past pages that were processed, how long a drain can get, what start-up refuses.
\<close>

section \<open>Ingestion leaves the cursors and the recorded halts alone\<close>

definition outer :: "db \<Rightarrow> (string, cursor_row) tbl \<times> reorg_halt_row list \<times> audit_row list" where
  "outer db = (db_cursors db, db_halts db, db_audit db)"

lemma outer_insertRawEvent [simp]: "outer (fst (insertRawEvent ev db)) = outer db"
  by (simp add: outer_def)

lemma outer_fold_and_mark: "fold_and_mark en ev db = Inr (db', cs) \<Longrightarrow> outer db' = outer db"
  by (auto simp: fold_and_mark_Inr outer_def)

lemma outer_ingest_event:
  assumes "ingest_event scv en l raw (db, p) = Inr (db', p')"
  shows "outer db' = outer db"
proof -
  obtain ev where ev: "decodeEvent scv raw = Inr ev"
    using assms by (auto simp: ingest_event_def bindE_eq_Inr)
  obtain db1 nf where "insertRawEvent ev db = (db1, nf)" by fastforce
  with outer_insertRawEvent [of ev db] assms ev show ?thesis
    by (auto simp: ingest_event_def bindE_eq_Inr dest: outer_fold_and_mark split: if_splits)
qed

lemma outer_ingestPage: "ingestPage scv en raws l db = (r, db') \<Longrightarrow> outer db' = outer db"
proof -
  have loop: "foldE (ingest_event scv en l) raws (db, p) = Inr (db', p') \<Longrightarrow> outer db' = outer db"
    for raws db p db' p'
  proof (induction raws arbitrary: db p)
    case (Cons raw raws)
    then show ?case by (auto simp: bindE_eq_Inr dest: outer_ingest_event)
  qed simp
  show "ingestPage scv en raws l db = (r, db') \<Longrightarrow> outer db' = outer db"
    by (auto simp: ingestPage_def dest: loop split: if_splits sum.splits)
qed

lemma outer_ingestEventQuarantined:
  assumes "ingestEventQuarantined en ev l db = (r, db')"
  shows "outer db' = outer db"
proof -
  obtain db1 nf where "insertRawEvent ev db = (db1, nf)" by fastforce
  with outer_insertRawEvent [of ev db] assms show ?thesis
    by (auto simp: ingestEventQuarantined_def recordQuarantinedEvent_def outer_def
        dest!: outer_fold_and_mark split: if_splits sum.splits option.splits)
qed

lemma outer_quarantine_loop: "quarantine_loop scv en l raws ix = (r, ix') \<Longrightarrow> outer (ix_db ix') = outer (ix_db ix)"
proof (induction raws arbitrary: ix)
  case (Cons raw raws)
  then show ?case
    by (fastforce simp: emit_def dest: outer_ingestEventQuarantined split: sum.splits prod.splits)
qed simp

lemma outer_persist [simp]: "outer (persistQuarantineState en c s esc db) = outer db"
  by (simp add: outer_def)

lemma outer_ingestPageWithQuarantine:
  assumes "ingestPageWithQuarantine scv q en raws l c ix = (r, ix')"
  shows "outer (ix_db ix') = outer (ix_db ix)"
  using assms
  by (auto simp: ingestPageWithQuarantine_def Let_def emit_def
      dest!: outer_ingestPage outer_quarantine_loop split: prod.splits sum.splits if_splits)

text \<open>A page that got through holds no event below the last folded ledger.\<close>

lemma quarantine_loop_ledgers:
  "quarantine_loop scv en l raws ix = (Inr u, ix') \<Longrightarrow> raw \<in> set raws \<Longrightarrow> l = 0 \<or> l \<le> re_ledger raw"
proof (induction raws arbitrary: ix)
  case (Cons r rs)
  from Cons.prems(1) obtain ev es db1 where ev: "decodeEvent scv r = Inr ev"
    and one: "ingestEventQuarantined en ev l (ix_db ix) = (Inr es, db1)"
    and rest: "quarantine_loop scv en l rs (emit es (ix\<lparr>ix_db := db1\<rparr>)) = (Inr u, ix')"
    by (auto split: sum.splits prod.splits)
  have "l = 0 \<or> l \<le> ev_ledger ev"
    using one by (auto simp: ingestEventQuarantined_def split: if_splits)
  then show ?case
    using Cons.IH [OF rest] Cons.prems(2) decodeEvent_ok_ids(2) [OF ev] by auto
qed simp

lemma ingestPageWithQuarantine_ledgers:
  assumes "ingestPageWithQuarantine scv q en raws l c ix = (Inr u, ix')" and "raw \<in> set raws"
  shows "l = 0 \<or> l \<le> re_ledger raw"
proof (cases "ingestPage scv en raws l (ix_db ix)")
  case (Pair r db)
  show ?thesis
  proof (cases r)
    case (Inr es)
    with Pair obtain evs where "decode_page scv raws = Inr evs" "\<forall>ev \<in> set evs. l = 0 \<or> l \<le> ev_ledger ev"
      by (auto elim: ingestPage_success)
    with decode_page_ids [of scv raws evs] assms(2) show ?thesis
      by (metis (mono_tags, lifting) image_eqI image_set imageE)
  next
    case (Inl e)
    with assms(1) Pair obtain ix1 ix2 u' where "quarantine_loop scv en l raws ix1 = (Inr u', ix2)"
      by (auto simp: ingestPageWithQuarantine_def Let_def split: if_splits prod.splits sum.splits)
    with assms(2) show ?thesis by (metis quarantine_loop_ledgers)
  qed
qed

section \<open>The cursor moves forward\<close>

lemma advance_cursor:
  assumes "advance pe c tok res dr ix = (r, ix')"
    and "dr_lastLedger dr = prior_ledger (loadCursor c (ix_db ix))"
    and "\<And>raw. raw \<in> set (pg_events res) \<Longrightarrow> dr_lastLedger dr = 0 \<or> dr_lastLedger dr \<le> re_ledger raw"
  shows "prior_ledger (loadCursor c (ix_db ix)) \<le> prior_ledger (loadCursor c (ix_db ix'))"
    and "r = Inr dr' \<Longrightarrow> dr_lastLedger dr' = prior_ledger (loadCursor c (ix_db ix'))"
    and "c' \<noteq> c \<Longrightarrow> loadCursor c' (ix_db ix') = loadCursor c' (ix_db ix)"
proof -
  have le: "dr_lastLedger dr \<le> folded_ledger (pg_events res) (dr_lastLedger dr)"
    using assms(3) [of "last (pg_events res)"] by (auto simp: folded_ledger_def)
  show "prior_ledger (loadCursor c (ix_db ix)) \<le> prior_ledger (loadCursor c (ix_db ix'))"
    and "r = Inr dr' \<Longrightarrow> dr_lastLedger dr' = prior_ledger (loadCursor c (ix_db ix'))"
    and "c' \<noteq> c \<Longrightarrow> loadCursor c' (ix_db ix') = loadCursor c' (ix_db ix)"
    using assms(1,2) le
    by (auto simp: advance_def saveCursor_def loadCursor_def prior_ledger_def Let_def
        split: if_splits option.splits)
qed

lemma loadCursor_outer: "outer a = outer b \<Longrightarrow> loadCursor c a = loadCursor c b"
  by (simp add: outer_def loadCursor_def)

text \<open>
  Induction over the pages of a drain: an invariant \<open>I\<close> of the loop state that each page keeps,
  and what it gives of the state the loop leaves, also when it leaves by an error.
\<close>

lemma drain_loop_invariant:
  assumes "drain_loop scv cfg pe c tok dr ix = (r, ix')" and "I dr ix"
    and stop: "\<And>dr ix. I dr ix \<Longrightarrow> J ix"
    and page: "\<And>dr ix res r1 ix1. I dr ix \<Longrightarrow> pe_getEvents pe (dr_totalPages dr) (dr_request dr) = Inr res \<Longrightarrow>
      ingestPageWithQuarantine scv (ic_quarantineAfterFailures cfg) (pe_env pe (dr_totalPages dr))
        (pg_events res) (dr_lastLedger dr) c ix = (r1, ix1) \<Longrightarrow> J ix1"
    and adv: "\<And>dr ix res u ix1 r2 ix2. I dr ix \<Longrightarrow> pe_getEvents pe (dr_totalPages dr) (dr_request dr) = Inr res \<Longrightarrow>
      ingestPageWithQuarantine scv (ic_quarantineAfterFailures cfg) (pe_env pe (dr_totalPages dr))
        (pg_events res) (dr_lastLedger dr) c ix = (Inr u, ix1) \<Longrightarrow>
      advance pe c tok res dr ix1 = (r2, ix2) \<Longrightarrow> J ix2 \<and> (\<forall>dr'. r2 = Inr dr' \<longrightarrow> I dr' ix2)"
  shows "J ix' \<and> (\<forall>dr'. r = Inr dr' \<longrightarrow> I dr' ix')"
  using assms(1,2)
proof (induction "ic_maxDrainPages cfg - dr_totalPages dr" arbitrary: dr ix rule: less_induct)
  case less
  define n where "n = dr_totalPages dr"
  note run = less.prems(1) [unfolded drain_loop.simps [of scv cfg pe c tok dr ix] Let_def, folded n_def]
  show ?case
  proof (cases "pe_aborted pe n")
    case True
    with run less.prems(2) stop show ?thesis by auto
  next
    case False
    show ?thesis
    proof (cases "pe_getEvents pe n (dr_request dr)")
      case (Inl e)
      with run False less.prems(2) stop show ?thesis by auto
    next
      case (Inr res)
      obtain r1 ix1 where ing: "ingestPageWithQuarantine scv (ic_quarantineAfterFailures cfg) (pe_env pe n)
        (pg_events res) (dr_lastLedger dr) c ix = (r1, ix1)" by fastforce
      note p = less.prems(2) Inr [unfolded n_def] ing [unfolded n_def]
      show ?thesis
      proof (cases r1)
        case (Inl e)
        with run False Inr ing page [OF p] show ?thesis by auto
      next
        case ok: (Inr u)
        obtain r2 ix2 where ad: "advance pe c tok res dr ix1 = (r2, ix2)" by fastforce
        note a = adv [OF p [unfolded ok] ad]
        have out: "(r, ix') = (r2, ix2) \<or> (\<exists>dr'. r2 = Inr dr' \<and> n + 1 < ic_maxDrainPages cfg \<and>
            drain_loop scv cfg pe c tok dr' ix2 = (r, ix'))"
          using run False Inr ing ok ad by (auto split: sum.splits if_splits)
        show ?thesis
        proof (cases "(r, ix') = (r2, ix2)")
          case True
          with a show ?thesis by auto
        next
          case False
          with out obtain dr' where dr': "r2 = Inr dr'" "n + 1 < ic_maxDrainPages cfg"
            "drain_loop scv cfg pe c tok dr' ix2 = (r, ix')" by blast
          have "dr_totalPages dr' = n + 1"
            using advance_totalPages ad dr'(1) by (auto simp: n_def)
          with less.hyps [OF _ dr'(3)] a dr'(1,2) show ?thesis by (auto simp: n_def)
        qed
      qed
    qed
  qed
qed

lemma drain_loop_cursor:
  assumes "drain_loop scv cfg pe c tok dr ix = (r, ix')"
    and "dr_lastLedger dr = prior_ledger (loadCursor c (ix_db ix))"
  shows "prior_ledger (loadCursor c (ix_db ix)) \<le> prior_ledger (loadCursor c (ix_db ix'))"
    and "c' \<noteq> c \<Longrightarrow> loadCursor c' (ix_db ix') = loadCursor c' (ix_db ix)"
proof -
  define J where "J = (\<lambda>ix' :: indexer. prior_ledger (loadCursor c (ix_db ix)) \<le> prior_ledger (loadCursor c (ix_db ix')) \<and>
    (\<forall>c'. c' \<noteq> c \<longrightarrow> loadCursor c' (ix_db ix') = loadCursor c' (ix_db ix)))"
  define I where "I = (\<lambda>(dr :: drain) ix'. J ix' \<and> dr_lastLedger dr = prior_ledger (loadCursor c (ix_db ix')))"
  have "J ix' \<and> (\<forall>dr'. r = Inr dr' \<longrightarrow> I dr' ix')"
  proof (rule drain_loop_invariant [OF assms(1), where I = I and J = J])
    show "I dr ix" using assms(2) by (simp add: I_def J_def)
  next
    fix dr i res r1 i1
    assume "I dr i" and ing: "ingestPageWithQuarantine scv (ic_quarantineAfterFailures cfg)
      (pe_env pe (dr_totalPages dr)) (pg_events res) (dr_lastLedger dr) c i = (r1, i1)"
    with loadCursor_outer [OF outer_ingestPageWithQuarantine [OF ing]] show "J i1"
      by (simp add: I_def J_def)
  next
    fix dr i res u i1 r2 i2
    assume I: "I dr i" and ing: "ingestPageWithQuarantine scv (ic_quarantineAfterFailures cfg)
      (pe_env pe (dr_totalPages dr)) (pg_events res) (dr_lastLedger dr) c i = (Inr u, i1)"
      and ad: "advance pe c tok res dr i1 = (r2, i2)"
    have o: "loadCursor k (ix_db i1) = loadCursor k (ix_db i)" for k
      using loadCursor_outer [OF outer_ingestPageWithQuarantine [OF ing]] .
    have dl: "dr_lastLedger dr = prior_ledger (loadCursor c (ix_db i1))" using I o by (simp add: I_def)
    note a = advance_cursor [OF ad dl ingestPageWithQuarantine_ledgers [OF ing]]
    show "J i2 \<and> (\<forall>dr'. r2 = Inr dr' \<longrightarrow> I dr' i2)"
      using I a o by (auto simp: I_def J_def intro: order_trans)
  qed (simp add: I_def)
  then show "prior_ledger (loadCursor c (ix_db ix)) \<le> prior_ledger (loadCursor c (ix_db ix'))"
    and "c' \<noteq> c \<Longrightarrow> loadCursor c' (ix_db ix') = loadCursor c' (ix_db ix)"
    by (auto simp: J_def)
qed

text \<open>A drain reads at most \<open>DRAIN_MAX_PAGES\<close> pages, and always may read one.\<close>

lemma drain_loop_pages:
  assumes "drain_loop scv cfg pe c tok dr ix = (Inr dr', ix')"
  shows "dr_totalPages dr' \<le> max (dr_totalPages dr + 1) (ic_maxDrainPages cfg)"
  using assms
proof (induction "ic_maxDrainPages cfg - dr_totalPages dr" arbitrary: dr ix rule: less_induct)
  case less
  define n where "n = dr_totalPages dr"
  note run = less.prems [unfolded drain_loop.simps [of scv cfg pe c tok dr ix] Let_def, folded n_def]
  from run have "dr' = dr \<or> (\<exists>res ix1 ix2 d. advance pe c tok res dr ix1 = (Inr d, ix2) \<and>
      (dr' = d \<or> n + 1 < ic_maxDrainPages cfg \<and> drain_loop scv cfg pe c tok d ix2 = (Inr dr', ix')))"
    by (fastforce split: if_splits sum.splits prod.splits)
  then show ?case
  proof (elim disjE exE conjE)
    fix res ix1 ix2 d
    assume d: "advance pe c tok res dr ix1 = (Inr d, ix2)" and "dr' = d"
    with advance_totalPages [OF d] show ?thesis by simp
  next
    fix res ix1 ix2 d
    assume d: "advance pe c tok res dr ix1 = (Inr d, ix2)" and n: "n + 1 < ic_maxDrainPages cfg"
      and "drain_loop scv cfg pe c tok d ix2 = (Inr dr', ix')"
    with less.hyps [of d ix2] advance_totalPages [OF d] show ?thesis by (auto simp: n_def)
  qed simp
qed


section \<open>Detection of discontinuities\<close>

lemma rewind_check_iff:
  "rewind_check cur tip = Inr () \<longleftrightarrow>
   prior_ledger cur \<le> tip \<or>
   prior_ledger cur \<le> tip + GRACE_WINDOW \<and> (\<exists>t. observed_tip cur = Some t \<and> 0 < t)"
  by (auto simp: rewind_check_def Let_def split: option.splits)

lemma rewind_check_error: "rewind_check cur tip = Inl e \<Longrightarrow> is_reorg e"
  by (auto simp: rewind_check_def Let_def split: if_splits)

lemma fork_check_iff:
  "fork_check cur gh = Inr () \<longleftrightarrow>
   prior_ledger cur = 0 \<or> prior_hash cur \<in> {None, Some []} \<or> gh (prior_ledger cur) \<in> {None, prior_hash cur}"
  by (auto simp: fork_check_def Let_def split: option.splits)

lemma fork_check_error: "fork_check cur gh = Inl e \<Longrightarrow> is_reorg e"
  by (auto simp: fork_check_def Let_def split: if_splits option.splits)

text \<open>A detected discontinuity stops the poll before anything is fetched or written.\<close>

lemma fetchOnce_discontinuity:
  assumes "pe_tip pe = Inr tip" and "cur = loadCursor c (ix_db ix)"
    and "rewind_check cur tip \<noteq> Inr () \<or> fork_check cur (pe_priorHash pe) \<noteq> Inr ()"
  shows "\<exists>e. fetchOnce scv cfg pe c ix = (Inl e, ix) \<and> is_reorg e"
proof (cases "rewind_check cur tip")
  case (Inl e)
  with assms rewind_check_error [OF Inl] show ?thesis by (auto simp: fetchOnce_def Let_def)
next
  case (Inr u)
  with assms(3) obtain e where e: "fork_check cur (pe_priorHash pe) = Inl e"
    by (cases "fork_check cur (pe_priorHash pe)") auto
  with assms Inr fork_check_error [OF e] show ?thesis by (auto simp: fetchOnce_def Let_def)
qed

definition first_drain :: "nat \<Rightarrow> events_request \<Rightarrow> cursor_row option \<Rightarrow> drain" where
  "first_drain tip req cur = \<lparr>dr_request = req, dr_totalPages = 0, dr_totalEvents = 0,
     dr_lastLedger = prior_ledger cur, dr_lastLedgerHash = prior_hash cur,
     dr_observedTipLedger = (case observed_tip cur of Some t \<Rightarrow> t | None \<Rightarrow> tip),
     dr_cursorWritten = False\<rparr>"

lemma fetchOnce_cases:
  assumes "fetchOnce scv cfg pe c ix = (r, ix')"
  obtains e where "r = Inl e" "ix' = ix"
  | tip req r1 ix1 where
      "drain_loop scv cfg pe c (map_option cu_paging_token (loadCursor c (ix_db ix)))
         (first_drain tip req (loadCursor c (ix_db ix))) ix = (r1, ix1)"
      "ix' = ix1 \<or> (\<exists>f now. ix' = snd (touchCursor f now c ix1))"
proof (cases "bindE (pe_tip pe) (\<lambda>tip. bindE (rewind_check (loadCursor c (ix_db ix)) tip) (\<lambda>_.
    bindE (fork_check (loadCursor c (ix_db ix)) (pe_priorHash pe)) (\<lambda>_.
    bindE (first_request cfg pe (loadCursor c (ix_db ix))) (\<lambda>request. Inr (tip, request)))))")
  case (Inl e)
  with assms have "r = Inl e" "ix' = ix" by (simp_all add: fetchOnce_def Let_def)
  then show ?thesis by (rule that(1))
next
  case (Inr x)
  obtain tip req where x: "x = (tip, req)" by fastforce
  obtain r1 ix1 where d: "drain_loop scv cfg pe c (map_option cu_paging_token (loadCursor c (ix_db ix)))
      (first_drain tip req (loadCursor c (ix_db ix))) ix = (r1, ix1)" by fastforce
  have "ix' = ix1 \<or> (\<exists>f now. ix' = snd (touchCursor f now c ix1))"
  proof (cases r1)
    case (Inl e)
    with assms Inr x d show ?thesis by (simp add: fetchOnce_def Let_def first_drain_def)
  next
    case (Inr dr)
    with assms \<open>_ = Inr x\<close> x d have "(r, ix') = (if dr_totalEvents dr = 0 \<and> \<not> dr_cursorWritten dr
        then touchCursor (pe_cursor_fault pe (dr_totalPages dr))
          (en_now (pe_env pe (dr_totalPages dr))) c ix1 else (Inr (), ix1))"
      by (simp add: fetchOnce_def Let_def first_drain_def)
    then show ?thesis by (metis snd_conv)
  qed
  with d that(2) show ?thesis by blast
qed

lemma touchCursor_keeps:
  "prior_ledger (loadCursor k (ix_db (snd (touchCursor f now c ix)))) = prior_ledger (loadCursor k (ix_db ix))"
  by (auto simp: touchCursor_def loadCursor_def prior_ledger_def split: sum.splits option.splits)

lemma touchCursor_other:
  "k \<noteq> c \<Longrightarrow> loadCursor k (ix_db (snd (touchCursor f now c ix))) = loadCursor k (ix_db ix)"
  by (auto simp: touchCursor_def loadCursor_def split: sum.splits)

lemma fetchOnce_monotone:
  assumes "fetchOnce scv cfg pe c ix = (r, ix')"
  shows "prior_ledger (loadCursor k (ix_db ix)) \<le> prior_ledger (loadCursor k (ix_db ix'))"
  using assms
proof (cases rule: fetchOnce_cases)
  case (2 tip req r1 ix1)
  note d = drain_loop_cursor [OF 2(1)]
  show ?thesis
    using d(1) d(2) [of k] 2(2) by (cases "k = c") (auto simp: touchCursor_keeps first_drain_def)
qed simp

lemma fetchOnce_other_contract:
  assumes "fetchOnce scv cfg pe c ix = (r, ix')" "k \<noteq> c"
  shows "loadCursor k (ix_db ix') = loadCursor k (ix_db ix)"
  using assms(1)
proof (cases rule: fetchOnce_cases)
  case (2 tip req r1 ix1)
  from drain_loop_cursor(2) [OF 2(1), of k] 2(2) assms(2) show ?thesis
    by (auto simp: touchCursor_other first_drain_def)
qed simp

section \<open>Halts and start-up\<close>

lemma uncleared_iff: "loadUnclearedReorgHalt db = None \<longleftrightarrow> (\<forall>h \<in> set (db_halts db). rh_cleared_at h \<noteq> None)"
proof -
  have "set (db_halts db) = snd ` set (enumerate 1 (db_halts db))"
    by (metis list.set_map map_snd_enumerate)
  then have "filter (\<lambda>ih. rh_cleared_at (snd ih) = None) (rev (enumerate 1 (db_halts db))) = [] \<longleftrightarrow>
      (\<forall>h \<in> set (db_halts db). rh_cleared_at h \<noteq> None)"
    by (simp add: filter_empty_conv)
  then show ?thesis by (auto simp: loadUnclearedReorgHalt_def split: list.split)
qed

lemma recordReorgHalt_blocks: "loadUnclearedReorgHalt (recordReorgHalt None now c e db) \<noteq> None"
  by (simp add: uncleared_iff recordReorgHalt_def Let_def)

lemma clearReorgHalts_unblocks: "loadUnclearedReorgHalt (fst (clearReorgHalts now who db)) = None"
  by (auto simp: uncleared_iff clearReorgHalts_def clear_halt_def)

lemma startIndexer_halted:
  assumes "loadUnclearedReorgHalt db \<noteq> None"
  shows "\<exists>m. startIndexer isoTime cfg False lockFree configured db = Inl (ReorgHaltedError m)"
  using assms by (auto simp: startIndexer_def halted_error_def)

lemma startIndexer_keeps_log:
  assumes "startIndexer isoTime cfg running lockFree configured db = Inr (cs, db')"
  shows "db_events db' = db_events db \<and> set (tkeys (db_cursors db')) \<subseteq> set cs \<and>
    (db' = db \<or> db_derived db' = empty_derived \<and> db_cursors db' = [])"
  using assms
  by (auto simp: startIndexer_def ensureCursorContract_def resetForContractChange_def Let_def
      bindE_eq_Inr filter_empty_conv tkeys_def split: if_splits option.splits)

text \<open>A poll that meets a discontinuity leaves a record that keeps the next start from running.\<close>

lemma poll_contract_reorg:
  assumes "poll_contract scv cfg pe None now after c sc ix = (Inl e, ix')"
  shows "is_reorg e \<and> loadUnclearedReorgHalt (ix_db ix') \<noteq> None"
  using assms recordReorgHalt_blocks [of after c e "ix_db (snd (fetchOnce scv cfg pe c ix))"]
  by (auto simp: poll_contract_def Let_def emit_def split: if_splits prod.splits sum.splits)

section \<open>Backoff\<close>

lemma backoff_bound: "backoff_delay cfg n \<le> ic_maxBackoffMs cfg"
  by (simp add: backoff_delay_def)

lemma backoff_mono: "m \<le> n \<Longrightarrow> backoff_delay cfg m \<le> backoff_delay cfg n"
  unfolding backoff_delay_def by (intro min.mono mult_le_mono2 power_increasing) auto

lemma poll_contract_schedule:
  assumes "poll_contract scv cfg pe hf now after c sc ix = (Inr sc', ix')"
    and "(case tget (sc_nextPollAt sc) c of Some t \<Rightarrow> t | None \<Rightarrow> 0) \<le> now"
  shows "\<exists>t. tget (sc_nextPollAt sc') c = Some t \<and> after \<le> t \<and>
      t \<le> after + int (max (ic_pollIntervalMs cfg) (ic_maxBackoffMs cfg))"
    and "k \<noteq> c \<Longrightarrow> tget (sc_nextPollAt sc') k = tget (sc_nextPollAt sc) k \<and> failures_of k sc' = failures_of k sc"
    and "is_ok (fst (fetchOnce scv cfg pe c ix)) \<Longrightarrow> failures_of c sc' = 0"
    and "\<not> is_ok (fst (fetchOnce scv cfg pe c ix)) \<Longrightarrow> failures_of c sc' = failures_of c sc + 1"
  using assms backoff_bound [of cfg "Suc (failures_of c sc)"]
  by (auto simp: poll_contract_def Let_def failures_of_def split: if_splits prod.splits sum.splits)

end
