(* ===== verification/Recovery.thy ===== *)
theory Recovery
  imports Poller_Facts
begin

text \<open>
  The recovery commands: the rebuild of the derived tables from the raw log
  (\<open>src/indexer/reindex.ts\<close>), the targeted replay of quarantined events
  (\<open>src/indexer/replay.ts\<close>) and the acknowledgement of a recorded discontinuity
  (\<open>src/indexer/clear-reorg.ts\<close>).
\<close>

section \<open>Reindex\<close>

definition reindex_lock_error :: exn where
  "reindex_lock_error = ReindexLockError
     (''Cannot acquire reindex advisory lock (0x0d400001). Another reindex is in progress or the '' @
      ''indexer worker is currently folding events. Stop the indexer worker before running reindex.'')"

text \<open>\<open>SELECT ... WHERE (ledger, id) > last ORDER BY ledger ASC, id ASC LIMIT n\<close>.\<close>

definition select_batch ::
  "event_key option \<Rightarrow> nat \<Rightarrow> (string, event_row) tbl \<Rightarrow> (string \<times> event_row) list" where
  "select_batch lastKey batchSize events =
     take (max 1 batchSize)
       (filter (\<lambda>ir. case lastKey of None \<Rightarrow> True | Some k \<Rightarrow> k < row_key ir) (sort_key row_key events))"

record rebuild =
  rb_derived :: derived
  rb_touched :: "string list" \<comment> \<open>\<open>touchedChannels\<close>, in insertion order\<close>
  rb_processed :: nat

definition set_add :: "'a \<Rightarrow> 'a list \<Rightarrow> 'a list" where
  "set_add x xs = (if x \<in> set xs then xs else xs @ [x])"

definition refold :: "env \<Rightarrow> string \<times> event_row \<Rightarrow> rebuild \<Rightarrow> exn + rebuild" where
  "refold en ir rb =
     bindE (toDecodedEvent (fst ir) (snd ir)) (\<lambda>ev.
     bindE (pg_check (en_fold_fault en (ev_id ev))) (\<lambda>_.
     bindE (applyEvent ev (rb_derived rb)) (\<lambda>(d, channels).
     Inr \<lparr>rb_derived = d, rb_touched = fold set_add channels (rb_touched rb),
          rb_processed = rb_processed rb + 1\<rparr>)))"

lemma select_batch_progress:
  assumes "x \<in> set (select_batch k n events)"
  shows "length (filter (\<lambda>ir. row_key x < row_key ir) events) <
    length (filter (\<lambda>ir. case k of None \<Rightarrow> True | Some k \<Rightarrow> k < row_key ir) events)"
proof -
  let ?P = "\<lambda>ir. case k of None \<Rightarrow> True | Some k \<Rightarrow> k < row_key ir"
  have "x \<in> set (filter ?P (sort_key row_key events))"
    using assms unfolding select_batch_def by (rule in_set_takeD)
  then have x: "x \<in> set events" "?P x" by simp_all
  then have "length (filter (\<lambda>ir. row_key x < row_key ir) (filter ?P events)) < length (filter ?P events)"
    by (intro length_filter_less [of x]) auto
  moreover have "filter (\<lambda>ir. row_key x < row_key ir) (filter ?P events) =
      filter (\<lambda>ir. row_key x < row_key ir) events"
    using x(2) by (auto simp: filter_filter intro!: filter_cong split: option.splits)
  ultimately show ?thesis by simp
qed

lemma select_batch_last:
  "select_batch k n events = r # rs \<Longrightarrow> last (r # rs) \<in> set (select_batch k n events)"
  by (metis last_in_set list.distinct(1))

function reindex_loop ::
  "env \<Rightarrow> nat \<Rightarrow> (string, event_row) tbl \<Rightarrow> event_key option \<Rightarrow> rebuild \<Rightarrow> exn + rebuild" where
  "reindex_loop en batchSize events lastKey rb =
     (case select_batch lastKey batchSize events of
        [] \<Rightarrow> Inr rb
      | r # rs \<Rightarrow>
          (case foldE (refold en) (r # rs) rb of
             Inl e \<Rightarrow> Inl e
           | Inr rb' \<Rightarrow> reindex_loop en batchSize events (Some (row_key (last (r # rs)))) rb'))"
  by pat_completeness auto

termination
  by (relation "measure (\<lambda>(en, n, events, k, rb).
        length (filter (\<lambda>ir. case k of None \<Rightarrow> True | Some k \<Rightarrow> k < row_key ir) events))")
     (auto dest!: select_batch_last select_batch_progress simp del: last.simps)

declare reindex_loop.simps [simp del]

text \<open>\<open>SELECT event_id, address FROM notifications WHERE read\<close>, and setting the flags again.\<close>

definition saved_reads :: "derived \<Rightarrow> (string \<times> string) list" where
  "saved_reads d = map notification_key (filter nt_read (notifications d))"

definition restore_read :: "string \<times> string \<Rightarrow> derived \<Rightarrow> derived" where
  "restore_read k d = d\<lparr>notifications :=
     map (\<lambda>n. if notification_key n = k then n\<lparr>nt_read := True\<rparr> else n) (notifications d)\<rparr>"

definition resolve_failed :: "int \<Rightarrow> resolution \<Rightarrow> failed_event_row \<Rightarrow> failed_event_row" where
  "resolve_failed now res r =
     (if fe_resolved_at r = None then r\<lparr>fe_resolved_at := Some now, fe_resolution := Some res\<rparr> else r)"

definition reindexFromEventLog ::
  "env \<Rightarrow> nat \<Rightarrow> db \<Rightarrow> (exn + nat \<times> effect list) \<times> db" where
  "reindexFromEventLog en batchSize db =
     (if \<not> en_lock_free en then (Inl reindex_lock_error, db)
      else
        let reads = saved_reads (db_derived db);
            d0 = resetDaoTotals (truncate_derived (db_derived db))
        in case reindex_loop en batchSize (db_events db) None
                  \<lparr>rb_derived = d0, rb_touched = [], rb_processed = 0\<rparr> of
             Inl e \<Rightarrow> (Inl e, db)
           | Inr rb \<Rightarrow>
               (Inr (rb_processed rb,
                     InvalidateMembersList #
                     map (\<lambda>ch. NotifyStream ch ''reindex'' None) (rb_touched rb) @ [InvalidateHistory]),
                db\<lparr>db_derived := fold restore_read reads (rb_derived rb),
                   db_failed := map (\<lambda>kr. (fst kr, resolve_failed (en_now en) R_resolved (snd kr))) (db_failed db),
                   db_halts := map (clear_halt (en_now en) ''reindex'') (db_halts db)\<rparr>))"

section \<open>Replay\<close>

datatype replay_outcome = Replayed | Already_resolved | Still_failing string

definition replay_lock_error :: "string \<Rightarrow> exn" where
  "replay_lock_error eventId = ReplayLockError
     (''Cannot replay event '' @ eventId @ '': reindex or the live indexer worker is currently folding events '' @
      ''(advisory lock 0x0d400001 held). Stop the indexer worker (or wait for the reindex to finish) and retry.'')"

definition missing_row_error :: "string \<Rightarrow> exn" where
  "missing_row_error eventId = PlainError
     (''event '' @ eventId @ '' has an unresolved failed_events record but no matching row in events '' @
      em_dash @ '' data inconsistency, investigate manually'')"

definition resolve_record :: "int \<Rightarrow> resolution \<Rightarrow> string \<Rightarrow> db \<Rightarrow> db" where
  "resolve_record now res eventId db =
     db\<lparr>db_failed := tmod eventId (resolve_failed now res) (db_failed db)\<rparr>"

definition replay_invalidations :: "decoded_event \<Rightarrow> effect list" where
  "replay_invalidations ev =
     InvalidateMembersList #
     (if ev_symbol ev \<in> {''joined'', ''staked'', ''unstaked'', ''claimed''} then
        (let address = (if is_nullish (field ev ''member'') then field ev ''address'' else field ev ''member'')
         in case address of JStr a \<Rightarrow> if a = [] then [] else [InvalidateMemberSummary a] | _ \<Rightarrow> [])
      else [])"

definition replayFailedEvent ::
  "env \<Rightarrow> resolution \<Rightarrow> string \<Rightarrow> db \<Rightarrow> (exn + replay_outcome \<times> effect list) \<times> db" where
  "replayFailedEvent en resolution eventId db =
     (if \<not> en_lock_free en then (Inl (replay_lock_error eventId), db)
      else if \<not> unresolved db eventId then (Inr (Already_resolved, []), db)
      else case tget (db_events db) eventId of
        None \<Rightarrow> (Inl (missing_row_error eventId), db)
      | Some row \<Rightarrow>
          if er_folded_at row \<noteq> None
          then (Inr (Already_resolved, []), resolve_record (en_now en) resolution eventId db)
          else case toDecodedEvent eventId row of
            Inl e \<Rightarrow> (Inl e, db)
          | Inr ev \<Rightarrow>
              (case fold_and_mark en ev db of
                 Inr (db', channels) \<Rightarrow>
                   (Inr (Replayed, replay_invalidations ev @
                          map (\<lambda>ch. NotifyStream ch ''replay'' None) channels),
                    resolve_record (en_now en) resolution eventId db')
               | Inl err \<Rightarrow>
                   (Inr (Still_failing (error_message err), []),
                    db\<lparr>db_failed := tmod eventId
                        (\<lambda>r. if fe_resolved_at r = None then r\<lparr>fe_error := error_message err\<rparr> else r)
                        (db_failed db)\<rparr>)))"

text \<open>\<open>SELECT DISTINCT event_id FROM failed_events WHERE resolved_at IS NULL ORDER BY event_id\<close>.\<close>

definition unresolved_ids :: "db \<Rightarrow> string list" where
  "unresolved_ids db = sort (map fst (filter (\<lambda>kr. fe_resolved_at (snd kr) = None) (db_failed db)))"

fun replay_each ::
  "env \<Rightarrow> string list \<Rightarrow> db \<Rightarrow> (exn + (string \<times> replay_outcome) list) \<times> db" where
  "replay_each en [] db = (Inr [], db)"
| "replay_each en (i # is) db =
     (case replayFailedEvent en R_resolved i db of
        (Inl e, db1) \<Rightarrow> (Inl e, db1)
      | (Inr (oc, _), db1) \<Rightarrow>
          (case replay_each en is db1 of
             (Inl e, db2) \<Rightarrow> (Inl e, db2)
           | (Inr ocs, db2) \<Rightarrow> (Inr ((i, oc) # ocs), db2)))"

definition replayAllUnresolvedFailedEvents ::
  "env \<Rightarrow> db \<Rightarrow> (exn + (string \<times> replay_outcome) list) \<times> db" where
  "replayAllUnresolvedFailedEvents en db = replay_each en (unresolved_ids db) db"

section \<open>Acknowledging a discontinuity\<close>

definition opt_json :: "('a \<Rightarrow> jsval) \<Rightarrow> 'a option \<Rightarrow> jsval" where
  "opt_json f v = (case v of None \<Rightarrow> JNull | Some x \<Rightarrow> f x)"

definition clearRecordedReorg ::
  "(int \<Rightarrow> string) \<Rightarrow> pg_fault \<Rightarrow> int \<Rightarrow> string option \<Rightarrow> string option \<Rightarrow> db \<Rightarrow>
   ((nat \<times> reorg_halt_row) option \<times> nat) \<times> db" where
  "clearRecordedReorg isoTime auditFault now adminAddress ipAddress db =
     (case loadUnclearedReorgHalt db of
        None \<Rightarrow> ((None, 0), db)
      | Some (i, h) \<Rightarrow>
          let clearedBy = (case adminAddress of Some a \<Rightarrow> a | None \<Rightarrow> ''operator'');
              (db1, cleared) = clearReorgHalts now clearedBy db;
              payload = JObj
                [(''halt_id'', JNum (NInt (int i))), (''contract_id'', JStr (rh_contract_id h)),
                 (''last_ledger'', opt_json (\<lambda>l. JNum (NInt (int l))) (rh_last_ledger h)),
                 (''last_ledger_hash'', opt_json JStr (rh_last_ledger_hash h)),
                 (''detail'', JStr (rh_detail h)), (''detected_at'', JStr (isoTime (rh_detected_at h))),
                 (''cleared'', JNum (NInt (int cleared)))]
          in ((Some (i, h), cleared),
              if auditFault \<noteq> None then db1
              else db1\<lparr>db_audit := db_audit db1 @
                [\<lparr>au_admin_address = clearedBy, au_action = ''clear_reorg'', au_ip_address = ipAddress,
                  au_payload = payload\<rparr>]\<rparr>))"

end
