(* ===== verification/Recovery_Facts.thy ===== *)
theory Recovery_Facts
  imports Recovery
begin

text \<open>
  The rebuild visits every event of the log exactly once in the order of the log whatever the
  batch size, it computes the plain fold of the log, and it equals the incremental state, read
  flags included, when the events were folded in the order of the log. A replay folds an event
  at most once.
\<close>

section \<open>Keyset pagination\<close>

lemma strict_sorted_drop:
  fixes f :: "'a \<Rightarrow> 'k :: linorder"
  assumes "sorted_wrt (\<lambda>a b. f a < f b) xs" "xs \<noteq> []" "0 < m"
  shows "filter (\<lambda>x. f (last (take m xs)) < f x) xs = drop m xs"
proof -
  let ?t = "take m xs" and ?d = "drop m xs"
  have ne: "?t \<noteq> []" using assms(2,3) by simp
  have s: "sorted_wrt (\<lambda>a b. f a < f b) (?t @ ?d)" using assms(1) by simp
  have "f x \<le> f (last ?t)" if "x \<in> set ?t" for x
  proof -
    obtain ys where ys: "?t = ys @ [last ?t]" using ne by (metis append_butlast_last_id)
    have "sorted_wrt (\<lambda>a b. f a < f b) (ys @ [last ?t])"
      using s ys by (metis sorted_wrt_append)
    moreover have "x \<in> set ys \<or> x = last ?t"
      using that ys by (metis Un_iff empty_iff empty_set set_append set_ConsD)
    ultimately show ?thesis by (auto simp: sorted_wrt_append intro: less_imp_le)
  qed
  then have "filter (\<lambda>x. f (last ?t) < f x) ?t = []"
    by (auto simp: filter_empty_conv not_less)
  moreover have "filter (\<lambda>x. f (last ?t) < f x) ?d = ?d"
    using s last_in_set [OF ne] unfolding sorted_wrt_append by (auto simp: filter_id_conv)
  ultimately show ?thesis by (metis append_Nil append_take_drop_id filter_append)
qed

lemma log_strictly_sorted:
  assumes "tuniq events"
  shows "sorted_wrt (\<lambda>a b. row_key a < row_key b) (sort_key row_key events)"
proof -
  let ?s = "sort_key row_key events"
  have ids: "distinct (map fst ?s)"
    using assms unfolding tuniq_def
    by (metis distinct_map distinct_sort set_sort)
  have "inj_on row_key (set ?s)"
    using ids by (intro inj_onI) (metis distinct_map inj_onD row_key_inj)
  then have "distinct (map row_key ?s)"
    using ids by (auto simp: distinct_map)
  then have "sorted_wrt (<) (map row_key ?s)"
    by (simp add: strict_sorted_iff)
  then show ?thesis by (simp add: sorted_wrt_map)
qed

definition after_key :: "event_key option \<Rightarrow> string \<times> event_row \<Rightarrow> bool" where
  "after_key k ir = (case k of None \<Rightarrow> True | Some k \<Rightarrow> k < row_key ir)"

lemma reindex_loop_visits:
  assumes "tuniq events"
  shows "reindex_loop en n events k rb =
    foldE (refold en) (filter (after_key k) (sort_key row_key events)) rb"
proof (induction "length (filter (after_key k) events)" arbitrary: k rb rule: less_induct)
  case less
  let ?F = "filter (after_key k) (sort_key row_key events)"
  have batch: "select_batch k n events = take (max 1 n) ?F"
    unfolding select_batch_def after_key_def [abs_def] ..
  have sorted: "sorted_wrt (\<lambda>a b. row_key a < row_key b) ?F"
    using log_strictly_sorted [OF assms] by (rule sorted_wrt_filter)
  show ?case
  proof (cases "select_batch k n events")
    case Nil
    then have "?F = []" using batch by simp
    with Nil show ?thesis by (simp add: reindex_loop.simps [of en n events k])
  next
    case (Cons r rs)
    let ?x = "last (r # rs)"
    have x: "?x \<in> set (select_batch k n events)" by (rule select_batch_last [OF Cons])
    have "?F \<noteq> []" using batch Cons by auto
    then have "filter (\<lambda>ir. row_key ?x < row_key ir) ?F = drop (max 1 n) ?F"
      using strict_sorted_drop [OF sorted, of "max 1 n"] batch Cons by simp
    moreover have "?x \<in> set ?F"
      using x batch by (metis in_set_takeD)
    then have "after_key k ?x" by (simp del: last.simps)
    then have "filter (\<lambda>ir. row_key ?x < row_key ir) ?F = filter (after_key (Some (row_key ?x))) (sort_key row_key events)"
      by (auto simp: after_key_def simp del: last.simps intro!: filter_cong split: option.splits)
    ultimately have rest: "filter (after_key (Some (row_key ?x))) (sort_key row_key events) = drop (max 1 n) ?F"
      by simp
    have less': "length (filter (after_key (Some (row_key ?x))) events) < length (filter (after_key k) events)"
      using select_batch_progress [OF x] by (simp add: after_key_def [abs_def] del: last.simps)
    have F: "?F = (r # rs) @ drop (max 1 n) ?F"
      using batch Cons by (metis append_take_drop_id)
    have "reindex_loop en n events k rb =
        bindE (foldE (refold en) (r # rs) rb) (reindex_loop en n events (Some (row_key ?x)))"
      by (simp add: reindex_loop.simps [of en n events k] Cons bindE_def del: foldE.simps last.simps)
    also have "\<dots> = bindE (foldE (refold en) (r # rs) rb) (foldE (refold en) (drop (max 1 n) ?F))"
      using less.hyps [OF less'] rest by (intro bindE_congI) (simp only:)
    also have "\<dots> = foldE (refold en) ?F rb"
      using F by (metis foldE_append)
    finally show ?thesis .
  qed
qed

section \<open>The rebuild is the fold of the log\<close>

text \<open>A row of the log holds an event that folds from the log as it did from the wire.\<close>

definition stores :: "string \<times> event_row \<Rightarrow> decoded_event \<Rightarrow> bool" where
  "stores ir ev = (fst ir = ev_id ev \<and> (snd ir)\<lparr>er_folded_at := None\<rparr> = raw_row ev \<and>
     namedFields (ev_symbol ev) (ev_data ev) = Inr (ev_fields ev) \<and> stable_data ev)"

lemma toDecodedEvent_folded_at: "toDecodedEvent i (r\<lparr>er_folded_at := t\<rparr>) = toDecodedEvent i r"
  by (simp add: toDecodedEvent_def)

lemma stores_decode:
  assumes "stores ir ev"
  shows "toDecodedEvent (fst ir) (snd ir) = Inr (ev\<lparr>ev_topics := map jsonb (ev_topics ev), ev_decodeError := None\<rparr>)"
  using assms toDecodedEvent_folded_at [of "fst ir" None "snd ir"] toDecodedEvent_raw_row [of ev]
  by (simp add: stores_def)

lemma refold_stores:
  assumes "stores ir ev" "en_fold_fault en (ev_id ev) = None"
  shows "map_sum id rb_derived (refold en ir rb) = fold_one ev (rb_derived rb)"
    and "refold en ir rb = Inr rb' \<Longrightarrow> rb_processed rb' = rb_processed rb + 1"
  using assms
  by (auto simp: refold_def stores_decode pg_check_def applyEvent_refold fold_one_def bindE_def
      split: sum.splits)

lemma refold_log:
  assumes "list_all2 stores rows evs" "\<forall>ev \<in> set evs. en_fold_fault en (ev_id ev) = None"
  shows "map_sum id rb_derived (foldE (refold en) rows rb) = fold_events evs (rb_derived rb) \<and>
    (\<forall>rb'. foldE (refold en) rows rb = Inr rb' \<longrightarrow> rb_processed rb' = rb_processed rb + length evs)"
  using assms
proof (induction rows evs arbitrary: rb rule: list_all2_induct)
  case (Cons ir rows ev evs)
  have ff: "en_fold_fault en (ev_id ev) = None" using Cons.prems by simp
  note one = refold_stores [OF Cons.hyps(1) ff, of rb]
  show ?case
  proof (cases "refold en ir rb")
    case (Inl e)
    with one(1) show ?thesis by (auto dest!: sym [of "Inl e"] simp: fold_one_def)
  next
    case (Inr rb1)
    with one have d: "fold_one ev (rb_derived rb) = Inr (rb_derived rb1)"
      "rb_processed rb1 = rb_processed rb + 1" by auto
    with Inr Cons.IH [of rb1] Cons.prems show ?thesis by auto
  qed
qed simp

section \<open>Read flags survive\<close>

lemma restore_reads:
  "notifications (fold restore_read ks d) =
     map (\<lambda>n. if notification_key n \<in> set ks then n\<lparr>nt_read := True\<rparr> else n) (notifications d)"
proof (induction ks arbitrary: d)
  case (Cons k ks)
  have key: "notification_key (n\<lparr>nt_read := True\<rparr>) = notification_key n" for n
    by (simp add: notification_key_def)
  have "notifications (restore_read k d) =
      map (\<lambda>n. if notification_key n = k then n\<lparr>nt_read := True\<rparr> else n) (notifications d)"
    by (simp add: restore_read_def)
  then show ?case by (simp add: Cons.IH key)
qed simp

lemma restore_reads_frame:
  "members (fold restore_read ks d) = members d" "loan_proposals (fold restore_read ks d) = loan_proposals d"
  "loans (fold restore_read ks d) = loans d" "treasury_proposals (fold restore_read ks d) = treasury_proposals d"
  "interest_distributions (fold restore_read ks d) = interest_distributions d"
  "daily_loan_stats (fold restore_read ks d) = daily_loan_stats d"
  "documents (fold restore_read ks d) = documents d" "dao_totals (fold restore_read ks d) = dao_totals d"
  by (induction ks arbitrary: d) (simp_all add: restore_read_def)

lemma restore_unread:
  assumes "distinct (map notification_key (notifications d))"
  shows "fold restore_read (saved_reads d) (unread d) = d"
proof (rule derived.equality)
  have key: "notification_key (n\<lparr>nt_read := b\<rparr>) = notification_key n" for n b
    by (simp add: notification_key_def)
  have "notification_key n \<in> set (saved_reads d) \<longleftrightarrow> nt_read n" if "n \<in> set (notifications d)" for n
    using assms that by (auto simp: saved_reads_def distinct_map inj_on_def)
  then show "notifications (fold restore_read (saved_reads d) (unread d)) = notifications d"
    by (auto simp: restore_reads unread_def key intro!: map_idI)
qed (simp_all add: restore_reads_frame)

lemma unread_keys: "map notification_key (notifications (unread d)) = map notification_key (notifications d)"
  by (simp add: unread_def notification_key_def)

section \<open>Reindex against the log and against the incremental state\<close>

lemma reindex_is_fold:
  assumes "en_lock_free en" "tuniq (db_events db)" "list_all2 stores (sort_key row_key (db_events db)) evs"
    and "\<forall>ev \<in> set evs. en_fold_fault en (ev_id ev) = None"
    and "fold_events evs empty_derived = Inr d"
  shows "\<exists>es db'. reindexFromEventLog en n db = (Inr (length evs, es), db') \<and>
    db_derived db' = fold restore_read (saved_reads (db_derived db)) d \<and>
    db_events db' = db_events db \<and> loadUnclearedReorgHalt db' = None \<and> (\<forall>i. \<not> unresolved db' i)"
proof -
  let ?rb = "\<lparr>rb_derived = empty_derived, rb_touched = [], rb_processed = 0\<rparr>"
  have "filter (after_key None) (sort_key row_key (db_events db)) = sort_key row_key (db_events db)"
    by (simp add: after_key_def)
  then have loop: "reindex_loop en n (db_events db) None ?rb = foldE (refold en) (sort_key row_key (db_events db)) ?rb"
    using reindex_loop_visits [OF assms(2)] by simp
  obtain rb where rb: "foldE (refold en) (sort_key row_key (db_events db)) ?rb = Inr rb"
    "rb_derived rb = d" "rb_processed rb = length evs"
    using refold_log [OF assms(3,4), of ?rb] assms(5)
    by (cases "foldE (refold en) (sort_key row_key (db_events db)) ?rb") auto
  have "tget (map (\<lambda>kr. (fst kr, resolve_failed t r (snd kr))) f) i = map_option (resolve_failed t r) (tget f i)" for t r i and f :: "(string, failed_event_row) tbl"
    unfolding tget_def by (induction f) auto
  then show ?thesis
    using assms(1) loop rb
    by (auto simp: reindexFromEventLog_def Let_def uncleared_iff clear_halt_def unresolved_def
        resolve_failed_def split: option.splits)
qed

lemma reindex_equals_incremental:
  assumes "en_lock_free en" "tuniq (db_events db)" "list_all2 stores (sort_key row_key (db_events db)) evs"
    and "\<forall>ev \<in> set evs. en_fold_fault en (ev_id ev) = None"
    and "fold_events evs empty_derived = Inr (unread (db_derived db))"
  shows "\<exists>es db'. reindexFromEventLog en n db = (Inr (length evs, es), db') \<and> db_derived db' = db_derived db"
proof -
  have "wf_derived (unread (db_derived db))"
    using fold_events_wf [OF assms(5) wf_empty_derived] .
  then have "distinct (map notification_key (notifications (db_derived db)))"
    by (simp add: wf_derived_def wf_lists_def unread_keys)
  from restore_unread [OF this] reindex_is_fold [OF assms] show ?thesis by metis
qed


section \<open>Replay\<close>

lemma resolve_record_frame [simp]:
  "db_derived (resolve_record t r i db) = db_derived db" "db_events (resolve_record t r i db) = db_events db"
  by (simp_all add: resolve_record_def)

lemma unresolved_resolve_record [simp]:
  "unresolved (resolve_record t r i db) j = (unresolved db j \<and> j \<noteq> i)"
  by (auto simp: resolve_record_def unresolved_def resolve_failed_def split: option.splits)

text \<open>A replay that reports success folded the event, once, and closed its record.\<close>

lemma replay_replayed:
  assumes "replayFailedEvent en res i db = (Inr (Replayed, es), db')"
  obtains row ev where "tget (db_events db) i = Some row" "toDecodedEvent i row = Inr ev"
    "\<not> is_folded db i" "fold_one ev (db_derived db) = Inr (db_derived db')"
    "\<And>j. is_folded db' j = (is_folded db j \<or> j = i)" "\<And>j. unresolved db' j = (unresolved db j \<and> j \<noteq> i)"
proof -
  obtain row where row: "tget (db_events db) i = Some row" "er_folded_at row = None" "unresolved db i" "en_lock_free en"
    using assms by (auto simp: replayFailedEvent_def split: if_splits option.splits)
  obtain ev where ev: "toDecodedEvent i row = Inr ev"
    using assms row by (auto simp: replayFailedEvent_def split: sum.splits)
  have id: "ev_id ev = i" using ev by (auto simp: toDecodedEvent_def Let_def bindE_eq_Inr)
  obtain db1 cs where f: "fold_and_mark en ev db = Inr (db1, cs)" "db' = resolve_record (en_now en) res i db1"
    using assms row ev by (auto simp: replayFailedEvent_def split: sum.splits)
  then obtain d where d: "fold_one ev (db_derived db) = Inr d"
    "db1 = markFolded (en_now en) i (db\<lparr>db_derived := d\<rparr>)"
    by (auto simp: fold_and_mark_Inr id)
  have l: "is_logged db i" using row by (simp add: is_logged_def)
  have k: "is_folded (db\<lparr>db_derived := d\<rparr>) j = is_folded db j" "is_logged (db\<lparr>db_derived := d\<rparr>) j = is_logged db j"
    "unresolved (markFolded t i (db\<lparr>db_derived := d\<rparr>)) j = unresolved db j" for j t
    by (simp_all add: is_folded_def is_logged_def unresolved_def)
  have e: "is_folded (resolve_record t r i x) j = is_folded x j" for t r x j
    by (simp add: is_folded_def)
  have nf: "\<not> is_folded db i" using row by (simp add: is_folded_def)
  show ?thesis
    by (rule that [OF row(1) ev nf]) (use d f(2) k e l in auto)
qed

lemma replay_still_failing:
  assumes "replayFailedEvent en res i db = (Inr (Still_failing m, es), db')"
  shows "db_derived db' = db_derived db" "db_events db' = db_events db" "unresolved db' i"
    "tkeys (db_failed db') = tkeys (db_failed db)" "\<exists>r. tget (db_failed db') i = Some r \<and> fe_error r = m"
  using assms
  by (auto simp: replayFailedEvent_def unresolved_def split: if_splits option.splits sum.splits prod.splits)

text \<open>Replaying again after a success changes nothing.\<close>

lemma replay_again:
  assumes "replayFailedEvent en res i db = (Inr (oc, es), db')" and "\<And>m. oc \<noteq> Still_failing m"
    and "en_lock_free en'"
  shows "replayFailedEvent en' res' i db' = (Inr (Already_resolved, []), db')"
proof -
  have "\<not> unresolved db' i"
  proof (cases oc)
    case Replayed
    with assms(1) show ?thesis by (auto elim: replay_replayed)
  next
    case Already_resolved
    with assms(1) show ?thesis
      by (auto simp: replayFailedEvent_def split: if_splits option.splits sum.splits prod.splits)
  next
    case (Still_failing x)
    with assms(2) [of x] show ?thesis by simp
  qed
  with assms(3) show ?thesis by (simp add: replayFailedEvent_def)
qed

section \<open>Acknowledging a discontinuity\<close>

lemma clearRecordedReorg_result:
  assumes "clearRecordedReorg isoTime af now admin ip db = ((h, n), db')"
  shows "loadUnclearedReorgHalt db' = None" "db_derived db' = db_derived db" "db_events db' = db_events db"
    "n = length (filter (\<lambda>h. rh_cleared_at h = None) (db_halts db))"
    "0 < n \<Longrightarrow> af = None \<Longrightarrow> length (db_audit db') = length (db_audit db) + 1"
    "\<exists>new. db_audit db' = db_audit db @ new"
proof -
  have c: "clearReorgHalts now who db = (x, k) \<Longrightarrow> loadUnclearedReorgHalt x = None" for who x k
    using clearReorgHalts_unblocks [of now who db] by simp
  have a: "loadUnclearedReorgHalt (x\<lparr>db_audit := y\<rparr>) = loadUnclearedReorgHalt x" for x :: db and y
    by (simp add: loadUnclearedReorgHalt_def)
  have n0: "loadUnclearedReorgHalt db = None \<Longrightarrow> filter (\<lambda>h. rh_cleared_at h = None) (db_halts db) = []"
    by (auto simp: uncleared_iff filter_empty_conv)
  show "loadUnclearedReorgHalt db' = None"
    using assms by (auto simp: clearRecordedReorg_def Let_def a dest: c split: option.splits prod.splits if_splits)
  show "db_derived db' = db_derived db" "db_events db' = db_events db"
    "n = length (filter (\<lambda>h. rh_cleared_at h = None) (db_halts db))"
    "0 < n \<Longrightarrow> af = None \<Longrightarrow> length (db_audit db') = length (db_audit db) + 1"
    "\<exists>new. db_audit db' = db_audit db @ new"
    using assms n0
    by (auto simp: clearRecordedReorg_def clearReorgHalts_def Let_def split: option.splits if_splits)
qed

end
