(* ===== verification/Stamps.thy ===== *)
theory Stamps
  imports Recovery_Facts "HOL-Library.Sublist"
begin

text \<open>
  The insertion stamps of the tables with a serial key: \<open>notifications.created_at\<close>,
  \<open>interest_distributions.created_at\<close> and \<open>documents.attached_at\<close> (\<open>src/src/db/schema.sql\<close>), which Postgres
  sets to the start of the inserting transaction and the API serves. They are kept beside the tables, in the
  order of the rows, because no handler reads them and no query filters or sorts by them; a rebuild, which empties the
  tables first, gives every row a new one.
\<close>

section \<open>Handlers only append to these tables\<close>

definition appends :: "derived \<Rightarrow> derived \<Rightarrow> bool" where
  "appends d d' \<longleftrightarrow> prefix (notifications d) (notifications d') \<and>
     prefix (interest_distributions d) (interest_distributions d') \<and> prefix (documents d) (documents d')"

definition grows :: "derived \<Rightarrow> exn + derived \<Rightarrow> bool" where
  "grows d r = (case r of Inl e \<Rightarrow> True | Inr d' \<Rightarrow> appends d d')"

named_theorems appends_intros \<open>statements that keep the rows of the serial tables\<close>

lemma appends_refl [simp]: "appends d d"
  by (simp add: appends_def)

lemma appends_trans: "appends a b \<Longrightarrow> appends b c \<Longrightarrow> appends a c"
  by (auto simp: appends_def intro: prefix_order.trans)

lemma appends_frame [simp]:
  "appends d (d'\<lparr>members := x\<rparr>) = appends d d'" "appends d (d'\<lparr>loan_proposals := y\<rparr>) = appends d d'"
  "appends d (d'\<lparr>loans := z\<rparr>) = appends d d'" "appends d (d'\<lparr>treasury_proposals := u\<rparr>) = appends d d'"
  "appends d (d'\<lparr>daily_loan_stats := v\<rparr>) = appends d d'" "appends d (d'\<lparr>dao_totals := w\<rparr>) = appends d d'"
  by (simp_all add: appends_def)

lemma appends_insert [appends_intros]:
  "appends d d' \<Longrightarrow> appends d (d'\<lparr>notifications := notifications d' @ ns\<rparr>)"
  "appends d d' \<Longrightarrow> appends d (d'\<lparr>interest_distributions := interest_distributions d' @ is\<rparr>)"
  "appends d d' \<Longrightarrow> appends d (d'\<lparr>documents := documents d' @ ds\<rparr>)"
  by (auto simp: appends_def)

lemma appends_notify [appends_intros]: "appends d d' \<Longrightarrow> appends d (notify ev a ty ti ms d')"
  by (auto simp: notify_def intro: appends_intros)

lemma appends_if [appends_intros]:
  "(b \<Longrightarrow> appends d t) \<Longrightarrow> (\<not> b \<Longrightarrow> appends d u) \<Longrightarrow> appends d (if b then t else u)"
  by simp

lemma appends_active [appends_intros]: "appends d d' \<Longrightarrow> appends d (set_has_active_loan a b d')"
  by (simp add: set_has_active_loan_def)

lemma grows_Inr: "appends d d' \<Longrightarrow> grows d (Inr d')"
  by (simp add: grows_def)

lemma grows_step: "grows d m \<Longrightarrow> (\<And>d1. appends d d1 \<Longrightarrow> grows d (f d1)) \<Longrightarrow> grows d (bindE m f)"
  by (cases m) (simp_all add: grows_def)

lemma grows_bind: "(\<And>x. grows d (f x)) \<Longrightarrow> grows d (bindE m f)"
  by (cases m) (simp_all add: grows_def)

lemma grows_split:
  "(b \<Longrightarrow> grows d t) \<Longrightarrow> (\<not> b \<Longrightarrow> grows d u) \<Longrightarrow> grows d (if b then t else u)"
  "grows d n \<Longrightarrow> (\<And>x. grows d (s x)) \<Longrightarrow> grows d (case opt of None \<Rightarrow> n | Some x \<Rightarrow> s x)"
  by (auto split: option.splits)

lemma grows_leave:
  assumes "appends d (fst p)" and "\<And>d1. appends d d1 \<Longrightarrow> grows d (g d1)" and "\<And>d1 x. appends d d1 \<Longrightarrow> grows d (h d1 x)"
  shows "grows d (case p of (d1, None) \<Rightarrow> g d1 | (d1, Some x) \<Rightarrow> h d1 x)"
  using assms by (cases p) (auto split: option.splits)

lemma appends_leave [appends_intros]:
  "appends d d' \<Longrightarrow> appends d (fst (leave_pending_loan i s d'))" "appends d d' \<Longrightarrow> appends d (fst (leave_pending_treasury i t d'))"
  by (auto simp: leave_pending_loan_def leave_pending_treasury_def split: option.splits)

lemma grows_updates:
  assumes "appends d d'"
  shows "grows d (update_member a f d')" "grows d (update_loan_proposal i g d')" "grows d (update_treasury_proposal i k d')"
    "grows d (add_principal_lent n d')" "grows d (add_principal_repaid n d')" "grows d (add_value_defaulted n d')"
    "grows d (add_interest_collected n d')" "grows d (incrementDailyLoanStats ev dl d')"
  using assms
  unfolding update_member_def update_loan_proposal_def update_treasury_proposal_def add_principal_lent_def
    add_principal_repaid_def add_value_defaulted_def add_interest_collected_def incrementDailyLoanStats_def Let_def
  by (auto intro!: grows_split grows_bind grows_Inr)

lemma grows_loans:
  assumes "appends d d'"
  shows "grows d (open_loan ev i b a tr due d')" "grows d (repay_loan ev i out st d')"
  using assms unfolding open_loan_def repay_loan_def Let_def
  by (intro grows_split grows_step grows_bind grows_updates grows_Inr | simp)+

lemma grows_handlers:
  assumes "h \<in> snd ` set handlers"
  shows "grows d (h ev d)"
proof -
  have "list_all (\<lambda>h. grows d (h ev d)) (map snd handlers)"
    unfolding handlers_def list.map snd_conv list.pred_inject handler_defs tally_treasury_def Let_def
    by (intro conjI grows_leave grows_step grows_bind grows_split grows_updates grows_loans grows_Inr appends_intros
        appends_refl | assumption | simp)+
  with assms show ?thesis by (auto simp: list_all_iff)
qed

lemma fold_one_appends: "fold_one ev d = Inr d' \<Longrightarrow> appends d d'"
proof -
  have "grows d (run_handler (ev_symbol ev) ev d)"
  proof (cases "map_of handlers (ev_symbol ev)")
    case (Some h)
    then have "grows d (h ev d)" by (intro grows_handlers) (force dest: map_of_SomeD)
    with Some show ?thesis by (simp add: run_handler_def obj_get_def)
  qed (simp add: run_handler_def obj_get_def grows_def)
  then show "fold_one ev d = Inr d' \<Longrightarrow> appends d d'"
    by (auto simp: fold_one_Inr applyEvent_def bindE_eq_Inr grows_def)
qed

lemma fold_events_appends: "fold_events evs d = Inr d' \<Longrightarrow> appends d d'"
  by (induction evs arbitrary: d) (auto simp: bindE_eq_Inr dest!: fold_one_appends intro: appends_trans)

section \<open>The stamps\<close>

record stamps =
  st_notifications :: "int list"
  st_distributions :: "int list"
  st_documents :: "int list"

definition no_stamps :: stamps where
  "no_stamps = \<lparr>st_notifications = [], st_distributions = [], st_documents = []\<rparr>"

text \<open>\<open>DEFAULT now()\<close>: a row beyond those already stamped gets the time of the transaction.\<close>

definition stamp_rows :: "int \<Rightarrow> 'a list \<Rightarrow> int list \<Rightarrow> int list" where
  "stamp_rows now rows old = old @ replicate (length rows - length old) now"

definition stamp_tables :: "int \<Rightarrow> derived \<Rightarrow> stamps \<Rightarrow> stamps" where
  "stamp_tables now d st =
     \<lparr>st_notifications = stamp_rows now (notifications d) (st_notifications st),
      st_distributions = stamp_rows now (interest_distributions d) (st_distributions st),
      st_documents = stamp_rows now (documents d) (st_documents st)\<rparr>"

definition stamped :: "derived \<Rightarrow> stamps \<Rightarrow> bool" where
  "stamped d st \<longleftrightarrow> length (st_notifications st) = length (notifications d) \<and>
     length (st_distributions st) = length (interest_distributions d) \<and> length (st_documents st) = length (documents d)"

text \<open>A page and a rebuild with the stamps; \<open>TRUNCATE\<close> leaves none.\<close>

definition ingestPage_stamped ::
  "('scv \<Rightarrow> string + native) \<Rightarrow> env \<Rightarrow> 'scv event_response list \<Rightarrow> nat \<Rightarrow> db \<times> stamps \<Rightarrow> (exn + effect list) \<times> db \<times> stamps" where
  "ingestPage_stamped scv en events lastLedger ds =
     (case ingestPage scv en events lastLedger (fst ds) of
        (Inl e, db) \<Rightarrow> (Inl e, db, snd ds)
      | (Inr es, db) \<Rightarrow> (Inr es, db, stamp_tables (en_now en) (db_derived db) (snd ds)))"

definition reindex_stamped ::
  "env \<Rightarrow> nat \<Rightarrow> db \<times> stamps \<Rightarrow> (exn + nat \<times> effect list) \<times> db \<times> stamps" where
  "reindex_stamped en batchSize ds =
     (case reindexFromEventLog en batchSize (fst ds) of
        (Inl e, db) \<Rightarrow> (Inl e, db, snd ds)
      | (Inr r, db) \<Rightarrow> (Inr r, db, stamp_tables (en_now en) (db_derived db) no_stamps))"

lemma stamp_rows_prefix: "prefix old (stamp_rows now rows old)"
  by (simp add: stamp_rows_def)

lemma stamp_rows_length: "length old \<le> length rows \<Longrightarrow> length (stamp_rows now rows old) = length rows"
  by (simp add: stamp_rows_def)

text \<open>A page keeps the stamps of the rows there are and stamps the rows it adds, one for each.\<close>

lemma page_keeps_stamps:
  assumes "ingestPage_stamped scv en events l (db, st) = (r, db', st')" "stamped (db_derived db) st"
  shows "stamped (db_derived db') st'" "prefix (st_notifications st) (st_notifications st')"
    "prefix (st_distributions st) (st_distributions st')" "prefix (st_documents st) (st_documents st')"
proof -
  have a: "appends (db_derived db) (db_derived db')"
    if i: "ingestPage scv en events l db = (Inr es, db')" for es
    using i by (auto elim!: ingestPage_success dest: fold_events_appends)
  have e: "db' = db" if "ingestPage scv en events l db = (Inl x, db')" for x
    using ingestPage_atomic [OF that] .
  show "stamped (db_derived db') st'" "prefix (st_notifications st) (st_notifications st')"
    "prefix (st_distributions st) (st_distributions st')" "prefix (st_documents st) (st_documents st')"
    using assms a e
    by (auto simp: ingestPage_stamped_def stamped_def stamp_tables_def stamp_rows_prefix stamp_rows_length appends_def
        dest!: prefix_length_le split: prod.splits sum.splits)
qed

text \<open>A rebuild stamps every row anew.\<close>

lemma rebuilt_stamps:
  "stamp_tables now d no_stamps =
     \<lparr>st_notifications = replicate (length (notifications d)) now,
      st_distributions = replicate (length (interest_distributions d)) now,
      st_documents = replicate (length (documents d)) now\<rparr>"
  by (simp add: stamp_tables_def stamp_rows_def no_stamps_def)

end
