(* ===== verification/Discontinuity.thy ===== *)
theory Discontinuity
  imports Recovery_Facts
begin

text \<open>
  Where a discontinuity comes from: of all errors a poll can end in (\<open>fetchOnce\<close> of
  \<open>src/src/indexer/poller.ts\<close>), a \<open>ReorgDetectedError\<close> is raised by the two checks before the first page or by
  an event below the last folded ledger, never by a decoder, a handler, the database or the quarantine.
  And what a completed rebuild does to the record of one.
\<close>

section \<open>Errors that are no discontinuity\<close>

lemma namedFields_not_reorg: "namedFields s d = Inl e \<Longrightarrow> \<not> is_reorg e"
  by (auto simp: namedFields_def split: slot.splits)

lemma decodeEvent_not_reorg: "decodeEvent scv raw = Inl e \<Longrightarrow> \<not> is_reorg e"
  by (auto simp: decodeEvent_def Let_def bindE_eq_Inl dest: namedFields_not_reorg)

definition below_ledger :: "nat \<Rightarrow> 'scv event_response list \<Rightarrow> bool" where
  "below_ledger l raws = (\<exists>raw \<in> set raws. re_ledger raw < l)"

lemma ingest_event_reorg:
  "ingest_event scv en l raw dp = Inl e \<Longrightarrow> is_reorg e \<Longrightarrow> re_ledger raw < l"
  using decodeEvent_ok_ids(2) [of scv raw]
  by (auto simp: ingest_event_def bindE_eq_Inl pg_check_def fold_and_mark_def
      dest: applyEvent_not_reorg decodeEvent_not_reorg split: if_splits option.splits prod.splits)

lemma ingest_loop_reorg: "foldE (ingest_event scv en l) raws dp = Inl e \<Longrightarrow> is_reorg e \<Longrightarrow> below_ledger l raws"
  by (induction raws arbitrary: dp) (auto simp: below_ledger_def bindE_eq_Inl dest: ingest_event_reorg)

lemma ingestPage_reorg: "ingestPage scv en raws l db = (Inl e, db') \<Longrightarrow> is_reorg e \<Longrightarrow> below_ledger l raws"
  by (auto simp: ingestPage_def page_lock_error_def dest: ingest_loop_reorg split: if_splits sum.splits)

lemma quarantined_reorg:
  "ingestEventQuarantined en ev l db = (Inl e, db') \<Longrightarrow> is_reorg e \<Longrightarrow> ev_ledger ev < l"
  by (auto simp: ingestEventQuarantined_def pg_check_def event_lock_error_def Let_def
      split: if_splits option.splits sum.splits prod.splits)

lemma quarantine_loop_reorg:
  "quarantine_loop scv en l raws ix = (Inl e, ix') \<Longrightarrow> is_reorg e \<Longrightarrow> below_ledger l raws"
proof (induction raws arbitrary: ix)
  case (Cons raw raws)
  then show ?case
    using decodeEvent_ok_ids(2) [of scv raw]
    by (auto simp: below_ledger_def dest: decodeEvent_not_reorg quarantined_reorg split: sum.splits prod.splits)
qed simp

lemma ingestPageWithQuarantine_reorg:
  assumes "ingestPageWithQuarantine scv q en raws l c ix = (Inl e, ix')" "is_reorg e"
  shows "below_ledger l raws"
  using assms
  by (auto simp: ingestPageWithQuarantine_def Let_def dest: ingestPage_reorg quarantine_loop_reorg
      split: prod.splits sum.splits if_splits)

lemma advance_not_reorg: "advance pe c tok res dr ix = (Inl e, ix') \<Longrightarrow> \<not> is_reorg e"
  by (auto simp: advance_def saveCursor_def Let_def split: if_splits option.splits)

section \<open>A discontinuity within a drain\<close>

text \<open>The ledgers a drain takes for the last folded one: that of the cursor, then those its pages ended with.\<close>

definition folded_up_to :: "'scv poll_env \<Rightarrow> cursor_row option \<Rightarrow> nat \<Rightarrow> nat set" where
  "folded_up_to pe cur n = insert (prior_ledger cur)
     {re_ledger (last (pg_events res)) | m rq res. m < n \<and> pe_getEvents pe m rq = Inr res \<and> pg_events res \<noteq> []}"

text \<open>Some page of the poll has an event below such a ledger.\<close>

definition page_below :: "'scv poll_env \<Rightarrow> cursor_row option \<Rightarrow> bool" where
  "page_below pe cur = (\<exists>n rq res l. pe_getEvents pe n rq = Inr res \<and> l \<in> folded_up_to pe cur n \<and> below_ledger l (pg_events res))"

lemma folded_up_to_mono: "m \<le> n \<Longrightarrow> folded_up_to pe cur m \<subseteq> folded_up_to pe cur n"
  by (fastforce simp: folded_up_to_def)

lemma advance_folded:
  assumes "advance pe c tok res dr ix = (Inr dr', ix')" "dr_lastLedger dr \<in> folded_up_to pe cur (dr_totalPages dr)"
    and "pe_getEvents pe (dr_totalPages dr) rq = Inr res"
  shows "dr_lastLedger dr' \<in> folded_up_to pe cur (dr_totalPages dr')"
proof -
  have p: "dr_totalPages dr' = Suc (dr_totalPages dr)" using advance_totalPages [OF assms(1)] by simp
  have l: "dr_lastLedger dr' = folded_ledger (pg_events res) (dr_lastLedger dr)"
    using assms(1) by (auto simp: advance_def saveCursor_def Let_def split: if_splits option.splits)
  show ?thesis
  proof (cases "pg_events res = []")
    case True
    then show ?thesis using p l assms(2) folded_up_to_mono [of "dr_totalPages dr" "Suc (dr_totalPages dr)" pe cur]
      by (auto simp: folded_ledger_def)
  next
    case False
    then show ?thesis using p l assms(3) by (auto simp: folded_ledger_def folded_up_to_def)
  qed
qed

lemma drain_loop_reorg:
  assumes "drain_loop scv cfg pe c tok dr ix = (Inl e, ix')" "is_reorg e"
    and "dr_lastLedger dr \<in> folded_up_to pe cur (dr_totalPages dr)"
    and "\<And>n rq e. pe_getEvents pe n rq = Inl e \<Longrightarrow> \<not> is_reorg e"
  shows "page_below pe cur"
  using assms
proof (induction scv cfg pe c tok dr ix rule: drain_loop.induct)
  case (1 scv cfg pe c tok dr ix)
  let ?n = "dr_totalPages dr"
  note run = "1.prems"(1) [unfolded drain_loop.simps [of scv cfg pe c tok dr ix], simplified Let_def]
  have na: "\<not> pe_aborted pe ?n" using run by auto
  obtain res where g: "pe_getEvents pe ?n (dr_request dr) = Inr res"
    using run na "1.prems"(2,4) by (cases "pe_getEvents pe ?n (dr_request dr)") auto
  let ?page = "ingestPageWithQuarantine scv (ic_quarantineAfterFailures cfg) (pe_env pe ?n) (pg_events res) (dr_lastLedger dr) c ix"
  obtain r ix1 where page: "?page = (r, ix1)" by fastforce
  show ?case
  proof (cases r)
    case (Inl e1)
    with run na g page have "?page = (Inl e, ix1)" by simp
    then have "below_ledger (dr_lastLedger dr) (pg_events res)" using "1.prems"(2) by (rule ingestPageWithQuarantine_reorg)
    with g "1.prems"(3) show ?thesis unfolding page_below_def by blast
  next
    case (Inr u)
    obtain a ix2 where adv: "advance pe c tok res dr ix1 = (a, ix2)" by fastforce
    show ?thesis
    proof (cases a)
      case (Inl e2)
      with run na g page Inr adv have "advance pe c tok res dr ix1 = (Inl e, ix2)" by simp
      with advance_not_reorg "1.prems"(2) show ?thesis by blast
    next
      case a: (Inr dr')
      with adv have adv': "advance pe c tok res dr ix1 = (Inr dr', ix2)" by simp
      let ?stop = "length (pg_events res) < ic_pageLimit cfg \<or> ic_maxDrainPages cfg \<le> ?n + 1 \<or> ic_maxDrainMs cfg \<le> pe_elapsedMs pe (?n + 1)"
      from run na g page Inr adv' have "\<not> ?stop" "drain_loop scv cfg pe c tok dr' ix2 = (Inl e, ix')"
        by (auto split: if_splits)
      moreover have "dr_lastLedger dr' \<in> folded_up_to pe cur (dr_totalPages dr')"
        by (rule advance_folded [OF adv' "1.prems"(3) g])
      ultimately show ?thesis
        using "1.IH" [OF refl na g page [symmetric] Inr adv [symmetric] a] "1.prems"(2,4) by blast
    qed
  qed
qed

section \<open>A poll\<close>

text \<open>Both checks before the first page, as one condition on the cursor and what the RPC reports.\<close>

definition discontinuous :: "'scv poll_env \<Rightarrow> cursor_row option \<Rightarrow> nat \<Rightarrow> bool" where
  "discontinuous pe cur tip = (rewind_check cur tip \<noteq> Inr () \<or> fork_check cur (pe_priorHash pe) \<noteq> Inr ())"

lemma discontinuous_iff:
  "discontinuous pe cur tip \<longleftrightarrow>
     tip < prior_ledger cur \<and> (tip + GRACE_WINDOW < prior_ledger cur \<or> observed_tip cur \<in> {None, Some 0}) \<or>
     0 < prior_ledger cur \<and> prior_hash cur \<notin> {None, Some []} \<and> pe_priorHash pe (prior_ledger cur) \<notin> {None, prior_hash cur}"
  by (cases "observed_tip cur") (auto simp: discontinuous_def rewind_check_iff fork_check_iff)

lemma first_request_not_reorg:
  assumes "first_request cfg pe cur = Inl e" "\<And>e. pe_latestLedger pe = Inl e \<Longrightarrow> \<not> is_reorg e"
  shows "\<not> is_reorg e"
  using assms
  by (auto simp: first_request_def resolveStartLedger_def bindE_eq_Inl split: option.splits if_splits)

lemma continuous_poll_reorg:
  assumes "fetchOnce scv cfg pe c ix = (Inl e, ix')" "is_reorg e" "pe_tip pe = Inr tip" "cur = loadCursor c (ix_db ix)"
    and "\<not> discontinuous pe cur tip"
    and "\<And>e. pe_latestLedger pe = Inl e \<Longrightarrow> \<not> is_reorg e" "\<And>n rq e. pe_getEvents pe n rq = Inl e \<Longrightarrow> \<not> is_reorg e"
  shows "page_below pe cur"
proof -
  have c: "rewind_check cur tip = Inr ()" "fork_check cur (pe_priorHash pe) = Inr ()"
    using assms(5) by (auto simp: discontinuous_def)
  show ?thesis
  proof (cases "first_request cfg pe cur")
    case (Inl e1)
    with assms(1,3,4) c have "e = e1" by (simp add: fetchOnce_def)
    with first_request_not_reorg [OF Inl assms(6)] assms(2) show ?thesis by simp
  next
    case (Inr rq)
    let ?drain = "drain_loop scv cfg pe c (map_option cu_paging_token cur) (first_drain tip rq cur) ix"
    obtain r ix1 where d: "?drain = (r, ix1)" by fastforce
    show ?thesis
    proof (cases r)
      case (Inl e1)
      have "?drain = (Inl e, ix1)" using assms(1,3,4) c Inr d Inl by (simp add: fetchOnce_def first_drain_def)
      then show ?thesis using assms(2)
        by (rule drain_loop_reorg) (auto simp: first_drain_def folded_up_to_def dest: assms(7))
    next
      case (Inr dr)
      with assms(1,3,4) c \<open>first_request cfg pe cur = Inr rq\<close> d
      have "touchCursor (pe_cursor_fault pe (dr_totalPages dr)) (en_now (pe_env pe (dr_totalPages dr))) c ix1 = (Inl e, ix')"
        by (auto simp: fetchOnce_def first_drain_def split: if_splits)
      with assms(2) show ?thesis by (auto simp: touchCursor_def pg_check_def split: option.splits)
    qed
  qed
qed

text \<open>Whatever the RPC would answer to a request for events: a poll that meets a discontinuity does not ask.\<close>

lemma discontinuity_before_fetch:
  assumes "pe_tip pe = Inr tip" "cur = loadCursor c (ix_db ix)" "\<And>e. pe_latestLedger pe = Inl e \<Longrightarrow> \<not> is_reorg e"
  shows "(\<exists>e. is_reorg e \<and> (\<forall>ge. fetchOnce scv cfg (pe\<lparr>pe_getEvents := ge\<rparr>) c ix = (Inl e, ix))) \<longleftrightarrow> discontinuous pe cur tip"
proof
  assume d: "discontinuous pe cur tip"
  show "\<exists>e. is_reorg e \<and> (\<forall>ge. fetchOnce scv cfg (pe\<lparr>pe_getEvents := ge\<rparr>) c ix = (Inl e, ix))"
  proof (cases "rewind_check cur tip")
    case (Inl e)
    with assms rewind_check_error [OF Inl] show ?thesis by (auto simp: fetchOnce_def Let_def)
  next
    case (Inr u)
    with d obtain e where e: "fork_check cur (pe_priorHash pe) = Inl e"
      by (cases "fork_check cur (pe_priorHash pe)") (auto simp: discontinuous_def)
    with assms Inr fork_check_error [OF e] show ?thesis by (auto simp: fetchOnce_def Let_def)
  qed
next
  let ?pe = "pe\<lparr>pe_getEvents := \<lambda>n rq. Inl (PlainError [])\<rparr>"
  assume "\<exists>e. is_reorg e \<and> (\<forall>ge. fetchOnce scv cfg (pe\<lparr>pe_getEvents := ge\<rparr>) c ix = (Inl e, ix))"
  then obtain e where e: "is_reorg e" "fetchOnce scv cfg ?pe c ix = (Inl e, ix)" by blast
  show "discontinuous pe cur tip"
  proof (rule ccontr)
    assume "\<not> discontinuous pe cur tip"
    then have "\<not> discontinuous ?pe cur tip" by (simp add: discontinuous_def)
    from continuous_poll_reorg [OF e(2,1) _ assms(2) this] assms(1,3) have "page_below ?pe cur" by simp
    then show False by (simp add: page_below_def)
  qed
qed

section \<open>A completed rebuild clears the record\<close>

lemma reindex_clears_halts:
  "reindexFromEventLog en n db = (Inr r, db') \<Longrightarrow> loadUnclearedReorgHalt db' = None"
  by (auto simp: reindexFromEventLog_def Let_def uncleared_iff clear_halt_def split: if_splits sum.splits)

text \<open>With an insert that fails nothing is recorded, and the next start is not kept from running.\<close>

lemma unrecorded_halt:
  "recordReorgHalt (Some f) now c e db = db"
  by (simp add: recordReorgHalt_def)

end
