(* ===== verification/System.thy ===== *)
theory System
  imports Recovery_Facts
begin

text \<open>
  The indexer as a state machine: the polls of its contracts, the replays of quarantined events,
  the acknowledgement of discontinuities, readers of notifications and restarts of the process,
  in any order and with any faults. Whatever the interleaving, the derived tables are the fold of
  a sequence in which every folded event occurs exactly once.
\<close>

section \<open>Exactly-once folding, abstractly\<close>

lemma images_disjoint: "(\<And>x. x \<in> B \<Longrightarrow> f x \<notin> f ` A) \<Longrightarrow> f ` A \<inter> f ` B = {}"
  unfolding disjoint_iff by (metis imageE)

text \<open>
  The contract of a store that folds a stream of events with redeliveries: each step folds some
  events that had not been folded before and remembers them.
\<close>

locale exactly_once_fold =
  fixes apply1 :: "'e \<Rightarrow> 'd \<Rightarrow> 'x + 'd"
    and ident :: "'e \<Rightarrow> 'i"
    and view :: "'s \<Rightarrow> 'd"
    and seen :: "'s \<Rightarrow> 'i \<Rightarrow> bool"
    and initial :: "'s \<Rightarrow> bool"
    and step :: "'s \<Rightarrow> 's \<Rightarrow> bool"
    and d0 :: 'd
  assumes initial_view: "initial s \<Longrightarrow> view s = d0"
    and initial_seen: "initial s \<Longrightarrow> \<not> seen s i"
    and step_folds: "step s s' \<Longrightarrow> \<exists>new. foldE apply1 new (view s) = Inr (view s') \<and>
      distinct (map ident new) \<and> (\<forall>e \<in> set new. \<not> seen s (ident e)) \<and>
      (\<forall>i. seen s' i \<longleftrightarrow> seen s i \<or> i \<in> ident ` set new)"
begin

definition history :: "'e list \<Rightarrow> 's \<Rightarrow> bool" where
  "history h s \<longleftrightarrow> foldE apply1 h d0 = Inr (view s) \<and> distinct (map ident h) \<and>
     (\<forall>i. seen s i \<longleftrightarrow> i \<in> ident ` set h)"

lemma history_initial: "initial s \<Longrightarrow> history [] s"
  by (simp add: history_def initial_view initial_seen)

lemma history_step:
  assumes "history h s" "step s s'"
  shows "\<exists>new. history (h @ new) s'"
proof -
  obtain new where n: "foldE apply1 new (view s) = Inr (view s')" "distinct (map ident new)"
    "\<forall>e \<in> set new. \<not> seen s (ident e)" "\<forall>i. seen s' i \<longleftrightarrow> seen s i \<or> i \<in> ident ` set new"
    using step_folds [OF assms(2)] by blast
  have "ident ` set h \<inter> ident ` set new = {}"
    by (rule images_disjoint) (use assms(1) n(3) in \<open>simp add: history_def\<close>)
  then have "history (h @ new) s'"
    using assms(1) n by (simp add: history_def foldE_append image_Un)
  then show ?thesis ..
qed

lemma history_exists:
  assumes "step\<^sup>*\<^sup>* s s'" "initial s"
  shows "\<exists>h. history h s'"
  using assms
proof (induction rule: rtranclp_induct)
  case base
  then show ?case using history_initial by blast
next
  case (step y z)
  then show ?case using history_step by blast
qed

lemma seen_stays:
  assumes "step\<^sup>*\<^sup>* s s'" "seen s i"
  shows "seen s' i"
  using assms by (induction rule: rtranclp_induct) (use step_folds in blast)+

end

section \<open>What every operation does to the fold\<close>

definition extends :: "db \<Rightarrow> db \<Rightarrow> bool" where
  "extends db db' = (\<exists>new. fold_events new (db_derived db) = Inr (db_derived db') \<and>
     distinct (map ev_id new) \<and> (\<forall>ev \<in> set new. \<not> is_folded db (ev_id ev)) \<and>
     (\<forall>i. is_folded db' i \<longleftrightarrow> is_folded db i \<or> i \<in> ev_id ` set new))"

lemma extends_same:
  assumes "db_derived db' = db_derived db" "db_events db' = db_events db"
  shows "extends db db'"
  unfolding extends_def
  by (rule exI [of _ "[]"]) (use assms same_events_folded [OF assms(2)] in auto)

lemma extends_refl [simp]: "extends db db"
  by (rule extends_same) auto

lemma extends_trans:
  assumes "extends a b" "extends b c"
  shows "extends a c"
proof -
  from assms obtain n1 n2 where n: "fold_events n1 (db_derived a) = Inr (db_derived b)"
    "fold_events n2 (db_derived b) = Inr (db_derived c)" "distinct (map ev_id n1)" "distinct (map ev_id n2)"
    "\<forall>ev \<in> set n1. \<not> is_folded a (ev_id ev)" "\<forall>ev \<in> set n2. \<not> is_folded b (ev_id ev)"
    "\<forall>i. is_folded b i \<longleftrightarrow> is_folded a i \<or> i \<in> ev_id ` set n1"
    "\<forall>i. is_folded c i \<longleftrightarrow> is_folded b i \<or> i \<in> ev_id ` set n2"
    unfolding extends_def by blast
  have "ev_id ` set n1 \<inter> ev_id ` set n2 = {}"
    by (rule images_disjoint) (use n(6,7) in simp)
  with n show ?thesis
    unfolding extends_def by (intro exI [of _ "n1 @ n2"]) (auto simp: fold_events_append)
qed

lemma extends_fresh:
  assumes "fold_events (fresh (is_folded db) evs) (db_derived db) = Inr (db_derived db')"
    "\<forall>i. is_folded db' i = (is_folded db i \<or> i \<in> ev_id ` set evs)"
  shows "extends db db'"
  unfolding extends_def
  by (rule exI [of _ "fresh (is_folded db) evs"])
     (use assms fresh_distinct fresh_ids [of "is_folded db" evs] in auto)

lemma extends_ingestPage:
  assumes "ingestPage scv en raws l db = (r, db')"
  shows "extends db db'"
proof (cases r)
  case (Inl e)
  with assms ingestPage_atomic [of scv en raws l db e db'] show ?thesis by simp
next
  case (Inr es)
  with assms show ?thesis by (auto elim: ingestPage_success intro: extends_fresh)
qed

lemma extends_ingestEventQuarantined:
  assumes "ingestEventQuarantined en ev l db = (r, db')"
  shows "extends db db'"
proof (cases r)
  case (Inl e)
  with assms have "db' = db"
    by (auto simp: ingestEventQuarantined_def split: if_splits sum.splits prod.splits)
  then show ?thesis by simp
next
  case (Inr es)
  from assms [unfolded Inr] show ?thesis
  proof (cases rule: ingestEventQuarantined_Inr)
    case folded
    then show ?thesis by (intro extends_fresh [of db "[ev]"]) auto
  next
    case failed
    then show ?thesis unfolding extends_def by (intro exI [of _ "[]"]) auto
  qed
qed

lemma extends_quarantine_loop:
  "quarantine_loop scv en l raws ix = (r, ix') \<Longrightarrow> extends (ix_db ix) (ix_db ix')"
proof (induction raws arbitrary: ix)
  case (Cons raw raws)
  show ?case
  proof (cases "decodeEvent scv raw")
    case (Inl e)
    with Cons.prems show ?thesis by simp
  next
    case (Inr ev)
    obtain r1 db1 where one: "ingestEventQuarantined en ev l (ix_db ix) = (r1, db1)" by fastforce
    note e = extends_ingestEventQuarantined [OF one]
    show ?thesis
    proof (cases r1)
      case (Inl x)
      with Cons.prems Inr one e show ?thesis by auto
    next
      case ok: (Inr es)
      with Cons.prems Inr one have "quarantine_loop scv en l raws (emit es (ix\<lparr>ix_db := db1\<rparr>)) = (r, ix')"
        by simp
      from Cons.IH [OF this] e show ?thesis by (auto simp: emit_def intro: extends_trans)
    qed
  qed
qed simp

lemma extends_persist: "extends a db \<Longrightarrow> extends a (persistQuarantineState en c s esc db)"
  by (erule extends_trans) (rule extends_same, auto)

lemma extends_recordReorgHalt: "extends a db \<Longrightarrow> extends a (recordReorgHalt f t c e db)"
  by (erule extends_trans) (rule extends_same, auto simp: recordReorgHalt_def Let_def)

lemma extends_ingestPageWithQuarantine:
  assumes "ingestPageWithQuarantine scv q en raws l c ix = (r, ix')"
  shows "extends (ix_db ix) (ix_db ix')"
proof -
  obtain rp dbp where page: "ingestPage scv en raws l (ix_db ix) = (rp, dbp)" by fastforce
  note ep = extends_ingestPage [OF page]
  show ?thesis
  proof (cases rp)
    case (Inr es)
    with assms page have "ix_db ix' = persistQuarantineState en c None False dbp"
      by (auto simp: ingestPageWithQuarantine_def Let_def emit_def)
    with ep extends_persist show ?thesis by simp
  next
    case (Inl err)
    define st where "st = count_failure (current_state c (load_state en c ix)) (pageKeyFor raws) (error_message err)"
    define ix1 where "ix1 = persist_state en c (Some st) False (set_state c (Some st) ((load_state en c ix)\<lparr>ix_db := dbp\<rparr>))"
    define ix2 where "ix2 = persist_state en c (Some st) True ix1"
    have e1: "extends (ix_db ix) (ix_db ix1)" "extends (ix_db ix) (ix_db ix2)"
      unfolding ix2_def ix1_def using ep by (simp_all add: extends_persist)
    obtain r3 ix3 where loop: "quarantine_loop scv en l raws ix2 = (r3, ix3)" by fastforce
    have e3: "extends (ix_db ix) (ix_db ix3)"
      using extends_quarantine_loop [OF loop] e1(2) extends_trans by blast
    have e4: "extends (ix_db ix) (ix_db (persist_state en c None False (set_state c None ix3)))"
      using e3 by (simp add: extends_persist)
    have "ix_db ix' \<in> {dbp, ix_db ix1, ix_db ix3, ix_db (persist_state en c None False (set_state c None ix3))}"
      using assms page Inl loop
      by (auto simp: ingestPageWithQuarantine_def Let_def st_def [symmetric] ix1_def [symmetric]
          ix2_def [symmetric] split: if_splits sum.splits)
    with ep e1 e3 e4 show ?thesis by auto
  qed
qed

lemma extends_advance:
  assumes "advance pe c tok res dr ix = (r, ix')" "extends a (ix_db ix)"
  shows "extends a (ix_db ix')"
proof -
  have "extends (ix_db ix) (ix_db ix')"
    using assms(1) by (intro extends_same)
      (auto simp: advance_def saveCursor_def Let_def split: if_splits option.splits)
  with assms(2) show ?thesis by (rule extends_trans)
qed

lemma extends_fetchOnce:
  assumes "fetchOnce scv cfg pe c ix = (r, ix')"
  shows "extends (ix_db ix) (ix_db ix')"
  using assms
proof (cases rule: fetchOnce_cases)
  case (2 tip req r1 ix1)
  have "extends (ix_db ix) (ix_db ix1) \<and> (\<forall>dr'. r1 = Inr dr' \<longrightarrow> extends (ix_db ix) (ix_db ix1))"
    by (rule drain_loop_invariant [OF 2(1), where I = "\<lambda>_ i. extends (ix_db ix) (ix_db i)"
          and J = "\<lambda>i. extends (ix_db ix) (ix_db i)"])
       (auto dest!: extends_ingestPageWithQuarantine intro: extends_trans extends_advance)
  moreover have "extends (ix_db ix1) (ix_db (snd (touchCursor f now c ix1)))" for f now
    by (rule extends_same) (auto simp: touchCursor_def split: sum.splits)
  ultimately show ?thesis using 2(2) extends_trans by blast
qed simp

lemma extends_replay:
  assumes "replayFailedEvent en res i db = (r, db')"
  shows "extends db db'"
proof (cases "\<exists>es. r = Inr (Replayed, es)")
  case True
  then obtain es where "replayFailedEvent en res i db = (Inr (Replayed, es), db')" using assms by blast
  from replay_replayed [OF this] obtain ev where ev: "\<exists>row. toDecodedEvent i row = Inr ev"
    "\<not> is_folded db i" "fold_one ev (db_derived db) = Inr (db_derived db')"
    "\<forall>j. is_folded db' j = (is_folded db j \<or> j = i)" by metis
  have "ev_id ev = i" using ev(1) by (auto simp: toDecodedEvent_def Let_def bindE_eq_Inr)
  with ev show ?thesis unfolding extends_def by (intro exI [of _ "[ev]"]) auto
next
  case False
  with assms have "db_derived db' = db_derived db" "db_events db' = db_events db"
    by (auto simp: replayFailedEvent_def split: if_splits option.splits sum.splits prod.splits)
  then show ?thesis by (rule extends_same)
qed

section \<open>The state machine\<close>

inductive indexer_step ::
  "('scv \<Rightarrow> string + native) \<Rightarrow> indexer_config \<Rightarrow> indexer \<Rightarrow> indexer \<Rightarrow> bool"
  for scv :: "'scv \<Rightarrow> string + native" and cfg :: indexer_config where
  poll: "poll_contract scv cfg pe haltFault now after c sc ix = (r, ix') \<Longrightarrow> indexer_step scv cfg ix ix'"
| replay: "replayFailedEvent en res i (ix_db ix) = (r, db') \<Longrightarrow>
    indexer_step scv cfg ix (ix\<lparr>ix_db := db'\<rparr>)"
| acknowledge: "clearRecordedReorg isoTime auditFault now admin ip (ix_db ix) = (r, db') \<Longrightarrow>
    indexer_step scv cfg ix (ix\<lparr>ix_db := db'\<rparr>)"
| reader: "unread d' = unread (db_derived (ix_db ix)) \<Longrightarrow>
    indexer_step scv cfg ix (ix\<lparr>ix_db := (ix_db ix)\<lparr>db_derived := d'\<rparr>\<rparr>)"
| restart: "indexer_step scv cfg ix
    (ix\<lparr>ix_quarantineStates := [], ix_quarantineStatesLoaded := [], ix_cursorWriteFailures := []\<rparr>)"

inductive_cases indexer_stepE: "indexer_step scv cfg ix ix'"

definition fresh_indexer :: "indexer \<Rightarrow> bool" where
  "fresh_indexer ix = (db_derived (ix_db ix) = empty_derived \<and> db_events (ix_db ix) = [])"

definition tables :: "indexer \<Rightarrow> derived" where
  "tables ix = unread (db_derived (ix_db ix))"

definition folded :: "indexer \<Rightarrow> string \<Rightarrow> bool" where
  "folded ix = is_folded (ix_db ix)"

lemma unread_idem [simp]: "unread (unread d) = unread d"
  by (simp add: unread_def)

lemma extends_tables:
  assumes "extends (ix_db ix) (ix_db ix')"
  shows "\<exists>new. foldE fold_one new (tables ix) = Inr (tables ix') \<and> distinct (map ev_id new) \<and>
    (\<forall>e \<in> set new. \<not> folded ix (ev_id e)) \<and> (\<forall>i. folded ix' i \<longleftrightarrow> folded ix i \<or> i \<in> ev_id ` set new)"
proof -
  from assms obtain new where n: "fold_events new (db_derived (ix_db ix)) = Inr (db_derived (ix_db ix'))"
    "distinct (map ev_id new)" "\<forall>ev \<in> set new. \<not> is_folded (ix_db ix) (ev_id ev)"
    "\<forall>i. is_folded (ix_db ix') i \<longleftrightarrow> is_folded (ix_db ix) i \<or> i \<in> ev_id ` set new"
    unfolding extends_def by blast
  then have "fold_events new (tables ix) = Inr (tables ix')"
    by (simp add: tables_def fold_events_unread)
  with n show ?thesis by (auto simp: fold_events_def folded_def)
qed

lemma indexer_step_folds:
  assumes "indexer_step scv cfg ix ix'"
  shows "\<exists>new. foldE fold_one new (tables ix) = Inr (tables ix') \<and> distinct (map ev_id new) \<and>
    (\<forall>e \<in> set new. \<not> folded ix (ev_id e)) \<and> (\<forall>i. folded ix' i \<longleftrightarrow> folded ix i \<or> i \<in> ev_id ` set new)"
  using assms
proof (cases rule: indexer_step.cases)
  case (poll pe haltFault now after c sc r)
  have "extends (ix_db ix) (ix_db ix')"
    using poll extends_fetchOnce [of scv cfg pe c ix]
    by (auto simp: poll_contract_def Let_def emit_def intro: extends_recordReorgHalt
        split: if_splits prod.splits sum.splits)
  then show ?thesis by (rule extends_tables)
next
  case (replay en res i r db')
  with extends_replay show ?thesis by (intro extends_tables) simp
next
  case (acknowledge isoTime auditFault now admin ip r db')
  obtain h n where r: "r = (h, n)" by fastforce
  show ?thesis
    using clearRecordedReorg_result(2,3) [OF acknowledge(2) [unfolded r]] acknowledge(1)
    by (intro extends_tables extends_same) auto
next
  case (reader d')
  then show ?thesis
    by (intro exI [of _ "[]"]) (auto simp: tables_def folded_def is_folded_def)
next
  case restart
  then show ?thesis by (intro extends_tables) simp
qed

interpretation eo: exactly_once_fold fold_one ev_id tables folded fresh_indexer "indexer_step scv cfg" empty_derived
  for scv :: "'scv \<Rightarrow> string + native" and cfg :: indexer_config
proof unfold_locales
  fix s
  assume "fresh_indexer s"
  then show "tables s = empty_derived" by (simp add: tables_def fresh_indexer_def unread_def empty_derived_def)
next
  fix s i
  assume "fresh_indexer s"
  then show "\<not> folded s i" by (simp add: folded_def is_folded_def fresh_indexer_def)
next
  fix s s' :: indexer
  assume "indexer_step scv cfg s s'"
  then show "\<exists>new. foldE fold_one new (tables s) = Inr (tables s') \<and> distinct (map ev_id new) \<and>
      (\<forall>e \<in> set new. \<not> folded s (ev_id e)) \<and> (\<forall>i. folded s' i \<longleftrightarrow> folded s i \<or> i \<in> ev_id ` set new)"
    by (rule indexer_step_folds)
qed


section \<open>Invariants of the reachable states\<close>

lemma wf_unread [simp]: "wf_derived (unread d) = wf_derived d"
  by (simp add: wf_derived_def wf_parts_defs unread_def notification_key_def [abs_def] comp_def list_all_iff)

lemma totals_agree_unread [simp]: "totals_agree (unread d) = totals_agree d"
  by (simp add: totals_agree_def)

lemma reachable_history:
  assumes "(indexer_step scv cfg)\<^sup>*\<^sup>* ix ix'" "fresh_indexer ix"
  shows "\<exists>h. fold_events h empty_derived = Inr (unread (db_derived (ix_db ix'))) \<and>
    distinct (map ev_id h) \<and> (\<forall>i. is_folded (ix_db ix') i \<longleftrightarrow> i \<in> ev_id ` set h)"
  using eo.history_exists [OF assms]
  by (auto simp: eo.history_def fold_events_def tables_def folded_def)

lemma reachable_invariants:
  assumes "(indexer_step scv cfg)\<^sup>*\<^sup>* ix ix'" "fresh_indexer ix"
  shows "wf_derived (db_derived (ix_db ix'))" "totals_agree (db_derived (ix_db ix'))"
proof -
  obtain h where h: "fold_events h empty_derived = Inr (unread (db_derived (ix_db ix')))"
    using reachable_history [OF assms] by blast
  show "wf_derived (db_derived (ix_db ix'))"
    using fold_events_wf [OF h wf_empty_derived] by simp
  show "totals_agree (db_derived (ix_db ix'))"
    using fold_events_totals_agree [OF h totals_agree_empty] by simp
qed

end
