(* ===== verification/Handlers_Idem.thy ===== *)
theory Handlers_Idem
  imports Handlers_Facts
begin

text \<open>
  Which handlers absorb a second delivery of the same event: all but the four that add to a tally
  (\<open>claimed\<close>, \<open>loan_vote\<close>, \<open>tre_vote\<close>, \<open>revealed\<close>), which rely on the \<open>folded_at\<close> mark alone.
\<close>

definition absorbs :: "handler \<Rightarrow> bool" where
  "absorbs h = (\<forall>ev d d'. h ev d = Inr d' \<longrightarrow> h ev d' = Inr d')"

lemma notify_twice [simp]:
  "notify ev a ty ti ms (notify ev a ty' ti' ms' d) = notify ev a ty' ti' ms' d"
  by (auto simp: notify_def)

lemma notify_update [simp]:
  "(notify ev a ty ti ms d)\<lparr>members := x1\<rparr> = notify ev a ty ti ms (d\<lparr>members := x1\<rparr>)"
  "(notify ev a ty ti ms d)\<lparr>loan_proposals := x2\<rparr> = notify ev a ty ti ms (d\<lparr>loan_proposals := x2\<rparr>)"
  "(notify ev a ty ti ms d)\<lparr>loans := x3\<rparr> = notify ev a ty ti ms (d\<lparr>loans := x3\<rparr>)"
  "(notify ev a ty ti ms d)\<lparr>treasury_proposals := x4\<rparr> = notify ev a ty ti ms (d\<lparr>treasury_proposals := x4\<rparr>)"
  by (simp_all add: notify_def)

lemma tmod_fixed: "(\<And>r. tget t k = Some r \<Longrightarrow> f r = r) \<Longrightarrow> tmod k f t = t"
  unfolding tget_def tmod_def by (induction t) (auto split: if_splits)

lemma tput_tput [simp]: "tput k r (tput k r' t) = tput k r t"
  unfolding tput_def by (induction t) auto

lemma tmod_tmod [simp]: "(\<And>r. f (f r) = f r) \<Longrightarrow> tmod k f (tmod k f t) = tmod k f t"
  by (rule tmod_fixed) auto

lemma tupsert_twice:
  assumes "f r = r" "\<And>x. f (f x) = f x"
  shows "tupsert k r f (tupsert k r f t) = tupsert k r f t"
proof -
  have "tupsert k r f (tupsert k r f t) = tmod k f (tupsert k r f t)"
    by (auto simp: tupsert_def split: option.splits)
  also have "\<dots> = tupsert k r f t"
    using assms by (intro tmod_fixed) (auto split: option.splits)
  finally show ?thesis .
qed

lemma update_member_fixed:
  "(\<And>m. tget (members d) a = Some m \<Longrightarrow> f m = Inr m) \<Longrightarrow> update_member a f d = Inr d"
  by (cases "tget (members d) a") (simp_all add: update_member_def)

lemma update_member_again:
  assumes "update_member a f d = Inr d'" "\<And>m m'. f m = Inr m' \<Longrightarrow> f m' = Inr m'"
  shows "update_member a f d' = Inr d'" "update_member a f (notify ev b ty ti ms d') = Inr (notify ev b ty ti ms d')"
proof -
  have "tget (members d') a = Some m \<Longrightarrow> f m = Inr m" for m
    using assms by (auto simp: update_member_def bindE_eq_Inr split: option.splits)
  then show "update_member a f d' = Inr d'" "update_member a f (notify ev b ty ti ms d') = Inr (notify ev b ty ti ms d')"
    by (auto intro!: update_member_fixed)
qed

lemma absorbs_membership:
  "absorbs h_joined" "absorbs h_exited" "absorbs h_staked" "absorbs h_unstaked" "absorbs h_name_reg"
proof -
  show "absorbs h_joined"
    by (auto simp: absorbs_def h_joined_def handler_bind tupsert_twice)
  show "absorbs h_exited"
    unfolding absorbs_def
  proof (intro allI impI)
    fix ev d d'
    assume "h_exited ev d = Inr d'"
    then obtain a s d1 where v: "requireAddr ev ''member'' = Inr a" "requireAmount ev ''share'' = Inr s"
      and u: "update_member a (\<lambda>m. bindE (pg_numeric (numeric_of s)) (\<lambda>s.
         Inr (m\<lparr>m_exited := True, m_exit_share := Some s, m_exited_ledger := Some (ev_ledger ev),
                m_stake := 0, m_has_active_loan := False\<rparr>))) d = Inr d1"
      and d': "d' = notify ev a N_info ''Membership ended'' (''You withdrew your share of '' @ s @ ''.'') d1"
      by (auto simp: h_exited_def bindE_eq_Inr)
    have "update_member a (\<lambda>m. bindE (pg_numeric (numeric_of s)) (\<lambda>s.
         Inr (m\<lparr>m_exited := True, m_exit_share := Some s, m_exited_ledger := Some (ev_ledger ev),
                m_stake := 0, m_has_active_loan := False\<rparr>))) d' = Inr d'"
      unfolding d' by (rule update_member_again(2) [OF u]) (auto simp: bindE_eq_Inr)
    with v d' show "h_exited ev d' = Inr d'" by (simp add: h_exited_def)
  qed
  show "absorbs h_staked" "absorbs h_unstaked" "absorbs h_name_reg"
    by (auto simp: absorbs_def h_staked_def h_unstaked_def h_name_reg_def bindE_eq_Inr
        intro!: update_member_again(1))
qed

lemma absorbs_loan_proposals: "absorbs h_loan_req" "absorbs h_loan_edit"
proof -
  show "absorbs h_loan_req"
    by (auto simp: absorbs_def h_loan_req_def handler_bind tupsert_twice)
  show "absorbs h_loan_edit"
    unfolding absorbs_def
  proof (intro allI impI)
    fix ev d d'
    assume "h_loan_edit ev d = Inr d'"
    then obtain x a b i where v: "requireId ev ''proposal_id'' = Inr x" "requireAmount ev ''new_amount'' = Inr a"
      "requireAmount ev ''total_repayment'' = Inr b" "pg_int4_param x = Inr i"
      and u: "update_loan_proposal i (\<lambda>p. bindE (pg_numeric (numeric_of a)) (\<lambda>a.
        bindE (pg_numeric (numeric_of b)) (\<lambda>tr. Inr (p\<lparr>lp_amount := a, lp_total_repayment := tr\<rparr>)))) d = Inr d'"
      by (auto simp: h_loan_edit_def bindE_eq_Inr)
    then show "h_loan_edit ev d' = Inr d'"
      by (auto simp: h_loan_edit_def update_loan_proposal_def bindE_eq_Inr split: option.splits)
  qed
qed

lemma leave_pending_again:
  "leave_pending_loan i s d = (d1, b) \<Longrightarrow> s \<noteq> LP_pending \<Longrightarrow>
     leave_pending_loan i s (notify ev a ty ti ms d1) = (notify ev a ty ti ms d1, None)"
  "leave_pending_loan i s d = (d1, b) \<Longrightarrow> s \<noteq> LP_pending \<Longrightarrow> leave_pending_loan i s d1 = (d1, None)"
  "leave_pending_treasury i s' d = (d1, b) \<Longrightarrow> s' \<noteq> TP_pending \<Longrightarrow>
     leave_pending_treasury i s' (notify ev a ty ti ms d1) = (notify ev a ty ti ms d1, None)"
  "leave_pending_treasury i s' d = (d1, b) \<Longrightarrow> s' \<noteq> TP_pending \<Longrightarrow> leave_pending_treasury i s' d1 = (d1, None)"
  by (auto simp: leave_pending_loan_def leave_pending_treasury_def split: option.splits if_splits)

lemma absorbs_leave:
  "absorbs h_loan_wait" "absorbs h_loan_rej" "absorbs h_loan_exp" "absorbs h_tre_wait" "absorbs h_tre_rej"
  by (auto simp: absorbs_def h_loan_wait_def h_loan_rej_def h_loan_exp_def h_tre_wait_def h_tre_rej_def
      handler_bind case_leave_Inr leave_pending_again split: option.splits)

lemma absorbs_treasury: "absorbs h_tre_prop" "absorbs h_tre_exec"
  by (auto simp: absorbs_def h_tre_prop_def h_tre_exec_def handler_bind tupsert_twice)

lemma absorbs_lists: "absorbs h_committed" "absorbs h_doc_attn"
proof -
  show "absorbs h_committed" by (auto simp: absorbs_def h_committed_def)
  show "absorbs h_doc_attn"
    unfolding absorbs_def
  proof (intro allI impI)
    fix ev d d'
    assume h: "h_doc_attn ev d = Inr d'"
    then obtain x c k i where v: "requireId ev ''proposal_id'' = Inr x" "requireAddr ev ''caller'' = Inr c"
      "requireProposalKind ev ''kind'' = Inr k" "pg_int4_param x = Inr i"
      by (auto simp: h_doc_attn_def bindE_eq_Inr)
    with h have "\<exists>r \<in> set (documents d'). doc_event_id r = ev_id ev"
      by (auto simp: h_doc_attn_def split: if_splits)
    with v show "h_doc_attn ev d' = Inr d'" by (simp add: h_doc_attn_def)
  qed
qed

lemma absorbs_interest: "absorbs h_interest"
  unfolding absorbs_def
proof (intro allI impI)
  fix ev d d'
  assume h: "h_interest ev d = Inr d'"
  then obtain x act a where v: "requireAmount ev ''interest'' = Inr x"
    "(case num (field ev ''active'') of None \<Rightarrow> Inr None
      | Some n \<Rightarrow> bindE (pg_int4_param n) (\<lambda>k. Inr (Some k))) = Inr act" "pg_numeric (numeric_of x) = Inr a"
    by (auto simp: h_interest_def bindE_eq_Inr)
  with h have "\<exists>r \<in> set (interest_distributions d'). idr_event_id r = ev_id ev"
    by (auto simp: h_interest_def dest!: add_totals_frame(4) split: if_splits)
  with v show "h_interest ev d' = Inr d'" by (simp add: h_interest_def)
qed

lemma absorbs_loan_dflt: "absorbs h_loan_dflt"
  unfolding absorbs_def
proof (intro allI impI)
  fix ev d d'
  assume h: "h_loan_dflt ev d = Inr d'"
  from h show "h_loan_dflt ev d' = Inr d'"
  proof (cases rule: loan_dflt_cases)
    case 1
    with h show ?thesis by simp
  next
    case (2 i b q l d1 d2 d3 d4 k)
    have "loans d4 = loans d3"
      using 2(10) by (auto simp: update_member_def bindE_eq_Inr split: option.splits)
    moreover have "loans d3 = loans d2"
      by (subst incrementDaily_frame [OF 2(9)], simp)
    moreover have "loans d2 = loans d1"
      using add_totals_frame(3) [OF 2(8)] by simp
    ultimately have "tget (loans d') k = Some (l\<lparr>ln_status := LN_defaulted, ln_defaulted_ledger := Some (ev_ledger ev)\<rparr>)"
      using 2(7,11) by simp
    with 2(1-3,6) show ?thesis by (simp add: h_loan_dflt_def)
  qed
qed


lemma open_loan_frame:
  assumes "open_loan ev i b a tr due d = Inr d'"
  shows "loan_proposals d' = loan_proposals d"
    "\<exists>l. tget (loans d') i = Some l \<and> ln_status l = LN_active \<and> ln_approved_ledger l = Some (ev_ledger ev)"
proof -
  have "loan_proposals d' = loan_proposals d \<and>
    (\<exists>l. tget (loans d') i = Some l \<and> ln_status l = LN_active \<and> ln_approved_ledger l = Some (ev_ledger ev))"
    using assms
  proof (cases rule: open_loan_cases)
    case (2 l d1 d2)
    have "loan_proposals d' = loan_proposals d2" "loans d' = loans d2"
      by (subst incrementDaily_frame [OF 2(7)], simp)+
    with add_totals_frame(1) [OF 2(6)] 2(2,8,9) show ?thesis by simp
  qed simp
  then show "loan_proposals d' = loan_proposals d"
    "\<exists>l. tget (loans d') i = Some l \<and> ln_status l = LN_active \<and> ln_approved_ledger l = Some (ev_ledger ev)"
    by auto
qed

lemma set_has_active_loan_fixed [simp]:
  "set_has_active_loan b v (notify ev a ty ti ms (set_has_active_loan b v d)) =
   notify ev a ty ti ms (set_has_active_loan b v d)"
  by (simp add: set_has_active_loan_def)

lemma absorbs_loan_appr: "absorbs h_loan_appr"
  unfolding absorbs_def
proof (intro allI impI)
  fix ev d d'
  assume h: "h_loan_appr ev d = Inr d'"
  let ?app = "\<lambda>p. p\<lparr>lp_status := LP_approved\<rparr>"
  from h obtain x b am i due a tr d2 where v: "requireId ev ''id'' = Inr x" "requireAddr ev ''borrower'' = Inr b"
    "requireAmount ev ''amount'' = Inr am" "pg_int4_param x = Inr i" "due_time_of (field ev ''due_time'') = Inr due"
    "pg_numeric (numeric_of am) = Inr a"
    and tr: "pg_numeric (case tget (tmod i ?app (loan_proposals d)) i of Some p \<Rightarrow> lp_total_repayment p | None \<Rightarrow> numeric_of am) = Inr tr"
    and ol: "open_loan ev i b a tr due (d\<lparr>loan_proposals := tmod i ?app (loan_proposals d)\<rparr>) = Inr d2"
    and d': "d' = notify ev b N_success ''Loan approved'' (''Loan #'' @ show_int i @ '' of '' @ am @ '' was approved.'')
      (set_has_active_loan b True d2)"
    by (auto simp: h_loan_appr_def bindE_eq_Inr Let_def)
  have p: "loan_proposals d' = tmod i ?app (loan_proposals d)"
    using open_loan_frame(1) [OF ol] by (simp add: d' set_has_active_loan_def)
  obtain l where l: "tget (loans d') i = Some l" "ln_status l = LN_active" "ln_approved_ledger l = Some (ev_ledger ev)"
    using open_loan_frame(2) [OF ol] by (auto simp: d' set_has_active_loan_def)
  have same: "d'\<lparr>loan_proposals := tmod i ?app (loan_proposals d')\<rparr> = d'"
    by (simp add: p)
  have open': "open_loan ev i b a tr due d' = Inr d'"
    using l by (simp add: open_loan_def)
  have tr': "pg_numeric (case tget (loan_proposals d') i of Some p \<Rightarrow> lp_total_repayment p | None \<Rightarrow> numeric_of am) = Inr tr"
    using tr by (simp only: p)
  have fin: "notify ev b N_success ''Loan approved'' (''Loan #'' @ show_int i @ '' of '' @ am @ '' was approved.'')
      (set_has_active_loan b True d') = d'"
    by (simp add: d')
  show "h_loan_appr ev d' = Inr d'"
    unfolding h_loan_appr_def by (simp only: v bindE_Inr Let_def same tr' open' fin)
qed

lemma repay_loan_again:
  assumes "repay_loan ev i out st d = Inr d1" "loans d' = loans d1"
  shows "repay_loan ev i out st d' = Inr d'"
  using assms(1)
proof (cases rule: repay_loan_cases)
  case 1
  with assms(2) show ?thesis by (simp add: repay_loan_def)
next
  case (2 prev d2)
  with assms(2) show ?thesis by (simp add: repay_loan_def pg_numeric_def)
next
  case (3 prev d2 d3)
  have "loans d1 = loans d3" by (subst incrementDaily_frame [OF 3(7)], simp)
  with add_totals_frame(2) [OF 3(6)] 3 assms(2) show ?thesis by (simp add: repay_loan_def pg_numeric_def)
qed

lemma absorbs_loan_rpy: "absorbs h_loan_rpy"
  unfolding absorbs_def
proof (intro allI impI)
  fix ev d d'
  assume h: "h_loan_rpy ev d = Inr d'"
  then obtain x b out i d1 where v: "requireId ev ''loan_id'' = Inr x" "requireAddr ev ''borrower'' = Inr b"
    "requireAmount ev ''outstanding'' = Inr out" "pg_int4_param x = Inr i"
    and r: "repay_loan ev i (numeric_of out) (if out = ''0'' then LN_repaid else LN_active) d = Inr d1"
    by (auto simp: h_loan_rpy_def bindE_eq_Inr Let_def)
  have "loans d' = loans d1"
    using h v r by (auto simp: h_loan_rpy_def Let_def set_has_active_loan_def)
  note again = repay_loan_again [OF r this]
  show "h_loan_rpy ev d' = Inr d'"
    using h v r again by (auto simp: h_loan_rpy_def Let_def)
qed

lemmas absorbing = absorbs_membership absorbs_loan_proposals absorbs_leave absorbs_treasury absorbs_lists
  absorbs_interest absorbs_loan_dflt absorbs_loan_appr absorbs_loan_rpy

definition tally_symbols :: "string list" where
  "tally_symbols = [''claimed'', ''loan_vote'', ''tre_vote'', ''revealed'']"

lemma handlers_absorb:
  assumes "map_of handlers s = Some h" "s \<notin> set tally_symbols"
  shows "absorbs h"
  using assms by (auto simp: handlers_def tally_symbols_def absorbing split: if_splits)

lemma applyEvent_absorbs:
  assumes "applyEvent ev d = Inr (d', cs)" "ev_symbol ev \<notin> set tally_symbols"
  shows "applyEvent ev d' = Inr (d', cs)"
proof (cases "map_of handlers (ev_symbol ev)")
  case (Some h)
  then have "absorbs h" using assms(2) by (rule handlers_absorb)
  with Some assms(1) show ?thesis
    by (auto simp: applyEvent_def run_handler_def obj_get_def absorbs_def bindE_eq_Inr)
next
  case None
  with assms(1) show ?thesis
    by (auto simp: applyEvent_def run_handler_def obj_get_def bindE_eq_Inr split: if_splits)
qed

end
