(* ===== verification/Examples.thy ===== *)
theory Examples
  imports System Handlers_Idem
begin

text \<open>
  Concrete inputs on which the properties are instantiated: wire values are native values and
  their decoder is the identity.
\<close>

definition wire :: "native \<Rightarrow> string + native" where
  "wire v = Inr v"

definition wire_event :: "string \<Rightarrow> nat \<Rightarrow> string \<Rightarrow> native list \<Rightarrow> native event_response" where
  "wire_event i l symb vals =
     \<lparr>re_id = i, re_ledger = l, re_ledgerClosedAt = 1700000000000, re_contractId = Some ''CDAO'',
      re_txHash = Some ''tx'', re_topic = [VStr symb], re_value = VArr vals\<rparr>"

definition ev_req :: "native event_response" where
  "ev_req = wire_event ''e1'' 5 ''loan_req'' [VNum (NInt 1), VStr ''GB'', VBigInt 100, VBigInt 110]"

definition ev_vote :: "native event_response" where
  "ev_vote = wire_event ''e2'' 6 ''loan_vote'' [VNum (NInt 1), VStr ''GV'', VBool True, VBigInt 3]"

definition ev_join :: "native event_response" where
  "ev_join = wire_event ''e0'' 4 ''joined'' [VStr ''GB'', VBigInt 50]"

text \<open>An approval whose amount is missing, and an event whose symbol names an inherited property.\<close>

definition ev_bad :: "native event_response" where
  "ev_bad = wire_event ''e3'' 7 ''loan_appr'' [VNum (NInt 1), VStr ''GB'']"

definition ev_proto :: "native event_response" where
  "ev_proto = wire_event ''e4'' 8 ''constructor'' []"

definition good_page :: "native event_response list" where
  "good_page = [ev_join, ev_req, ev_vote]"

definition bad_page :: "native event_response list" where
  "bad_page = [ev_join, ev_req, ev_bad]"

definition db1 :: db where
  "db1 = snd (ingestPage wire (healthy 9) good_page 0 empty_db)"

definition ix0 :: indexer where
  "ix0 = \<lparr>ix_db = empty_db, ix_quarantineStates = [], ix_quarantineStatesLoaded = [],
     ix_cursorWriteFailures = [], ix_effects = []\<rparr>"

definition cfg0 :: indexer_config where
  "cfg0 = \<lparr>ic_pageLimit = 100, ic_maxDrainPages = 5, ic_maxDrainMs = 30000,
     ic_quarantineAfterFailures = 3, ic_startLedger = 1, ic_startLookbackLedgers = 10,
     ic_pollIntervalMs = 5000, ic_maxBackoffMs = 60000, ic_resetOnContractChange = False\<rparr>"

definition pe0 :: "native poll_env" where
  "pe0 = \<lparr>pe_tip = Inr 10, pe_latestLedger = Inr 10, pe_priorHash = \<lambda>_. None,
     pe_ledgerHash = \<lambda>_ _. Some ''h6'',
     pe_getEvents = \<lambda>n _. Inr \<lparr>pg_events = (if n = 0 then good_page else []), pg_cursor = None,
       pg_latestLedger = Some 10\<rparr>,
     pe_aborted = \<lambda>_. False, pe_elapsedMs = \<lambda>_. 0, pe_env = \<lambda>_. healthy 9, pe_cursor_fault = \<lambda>_. None\<rparr>"

text \<open>The indexer after its first poll, and an RPC that has lost thirty ledgers since.\<close>

definition ix1 :: indexer where
  "ix1 = snd (poll_contract wire cfg0 pe0 None 0 1 ''CDAO'' (initial_schedule [''CDAO'']) ix0)"

definition cur1 :: cursor_row where
  "cur1 = \<lparr>cu_paging_token = Some ''e2'', cu_last_ledger = Some 40, cu_last_ledger_hash = Some ''h40'',
     cu_observed_tip_ledger = Some 42, cu_updated_at = 0\<rparr>"

definition ix2 :: indexer where
  "ix2 = ix0\<lparr>ix_db := empty_db\<lparr>db_cursors := [(''CDAO'', cur1)]\<rparr>\<rparr>"

text \<open>A vote whose fold fails once, so that it stays logged, unfolded and on record.\<close>

definition env_busy :: env where
  "env_busy = (healthy 10)\<lparr>en_fold_fault := \<lambda>i. if i = ''e2'' then Some (''53300'', ''too many clients'') else None\<rparr>"

definition vote_event :: decoded_event where
  "vote_event = (case decodeEvent wire ev_vote of Inr ev \<Rightarrow> ev | Inl _ \<Rightarrow> undefined)"

definition db_quarantined :: db where
  "db_quarantined = snd (ingestEventQuarantined env_busy vote_event 0
     (snd (ingestPage wire (healthy 9) [ev_join, ev_req] 0 empty_db)))"

definition votes_for :: "db \<Rightarrow> int option" where
  "votes_for db = map_option lp_votes_for (tget (loan_proposals (db_derived db)) 1)"

definition good_events :: "decoded_event list" where
  "good_events = (case decode_page wire good_page of Inr evs \<Rightarrow> evs | Inl _ \<Rightarrow> [])"

definition bad_events :: "decoded_event list" where
  "bad_events = (case decode_page wire bad_page of Inr evs \<Rightarrow> evs | Inl _ \<Rightarrow> [])"

lemma decode_good_page: "decode_page wire good_page = Inr good_events"
  by code_simp

lemma decode_bad_page: "decode_page wire bad_page = Inr bad_events"
  by code_simp

lemma fresh_ix0: "fresh_indexer ix0"
  by code_simp

lemma reach_ix1: "(indexer_step wire cfg0)\<^sup>*\<^sup>* ix0 ix1"
proof -
  have "indexer_step wire cfg0 ix0 ix1"
    unfolding ix1_def by (rule indexer_step.poll) (rule prod.collapse [symmetric])
  then show ?thesis by (rule r_into_rtranclp)
qed

text \<open>The first poll step by step: one short page, ingested and recorded in the cursor.\<close>

definition ixA :: indexer where
  "ixA = snd (ingestPageWithQuarantine wire 3 (healthy 9) good_page 0 ''CDAO'' ix0)"

lemma ixA_run: "ingestPageWithQuarantine wire 3 (healthy 9) good_page 0 ''CDAO'' ix0 = (Inr (), ixA)"
proof -
  have "fst (ingestPageWithQuarantine wire 3 (healthy 9) good_page 0 ''CDAO'' ix0) = Inr ()"
    by code_simp
  then show ?thesis by (metis ixA_def prod.collapse)
qed

lemma good_page_last: "last_id good_page = Some ''e2''" "folded_ledger good_page 0 = 6" "length good_page = 3"
  by code_simp+

definition dr0 :: drain where
  "dr0 = \<lparr>dr_request = \<lparr>rq_cursor = None, rq_startLedger = Some 1\<rparr>, dr_totalPages = 0, dr_totalEvents = 0,
     dr_lastLedger = 0, dr_lastLedgerHash = None, dr_observedTipLedger = 10, dr_cursorWritten = False\<rparr>"

lemma pe0_simps:
  "pe_tip pe0 = Inr 10" "pe_latestLedger pe0 = Inr 10" "pe_ledgerHash pe0 n l = Some ''h6''"
  "pe_getEvents pe0 0 r = Inr \<lparr>pg_events = good_page, pg_cursor = None, pg_latestLedger = Some 10\<rparr>"
  "\<not> pe_aborted pe0 n" "pe_elapsedMs pe0 n = 0" "pe_env pe0 n = healthy 9" "pe_cursor_fault pe0 n = None"
  by (simp_all add: pe0_def)

lemma ix0_cursor: "loadCursor ''CDAO'' (ix_db ix0) = None"
  by code_simp

lemma advance0: "\<exists>dr. advance pe0 ''CDAO'' None \<lparr>pg_events = good_page, pg_cursor = None, pg_latestLedger = Some 10\<rparr> dr0 ixA =
    (Inr dr, snd (saveCursor None 9 ''CDAO'' (Some ''e2'') 6 10 (Some ''h6'') ixA)) \<and> dr_totalEvents dr = 3"
  by (simp add: advance_def Let_def good_page_last dr0_def coalesce_def pe0_simps saveCursor_def healthy_def)

lemma drain0: "\<exists>dr. drain_loop wire cfg0 pe0 ''CDAO'' None dr0 ix0 =
    (Inr dr, snd (saveCursor None 9 ''CDAO'' (Some ''e2'') 6 10 (Some ''h6'') ixA)) \<and> dr_totalEvents dr = 3"
proof -
  have p: "dr_totalPages dr0 = 0" "dr_lastLedger dr0 = 0" by (simp_all add: dr0_def)
  have q: "ic_quarantineAfterFailures cfg0 = 3" "ic_pageLimit cfg0 = 100" by (simp_all add: cfg0_def)
  obtain dr where "advance pe0 ''CDAO'' None \<lparr>pg_events = good_page, pg_cursor = None, pg_latestLedger = Some 10\<rparr> dr0 ixA =
    (Inr dr, snd (saveCursor None 9 ''CDAO'' (Some ''e2'') 6 10 (Some ''h6'') ixA)) \<and> dr_totalEvents dr = 3"
    using advance0 by blast
  then show ?thesis
    by (subst drain_loop.simps) (simp add: p q pe0_simps ixA_run good_page_last)
qed

lemma fetch0: "fetchOnce wire cfg0 pe0 ''CDAO'' ix0 =
    (Inr (), snd (saveCursor None 9 ''CDAO'' (Some ''e2'') 6 10 (Some ''h6'') ixA))"
proof -
  obtain dr where d: "drain_loop wire cfg0 pe0 ''CDAO'' None dr0 ix0 =
    (Inr dr, snd (saveCursor None 9 ''CDAO'' (Some ''e2'') 6 10 (Some ''h6'') ixA))" "dr_totalEvents dr = 3"
    using drain0 by blast
  have "first_request cfg0 pe0 None = Inr \<lparr>rq_cursor = None, rq_startLedger = Some 1\<rparr>"
    by (simp add: first_request_def resolveStartLedger_def cfg0_def)
  moreover have "rewind_check None 10 = Inr ()" "fork_check None f = Inr ()" for f
    by (simp_all add: rewind_check_def fork_check_def prior_ledger_def prior_hash_def)
  ultimately show ?thesis
    using d [unfolded dr0_def] by (simp add: fetchOnce_def ix0_cursor pe0_simps prior_ledger_def
        prior_hash_def observed_tip_def)
qed

lemma ix1_is: "ix1 = snd (saveCursor None 9 ''CDAO'' (Some ''e2'') 6 10 (Some ''h6'') ixA)"
proof -
  have "(case tget (sc_nextPollAt (initial_schedule [''CDAO''])) ''CDAO'' of Some t \<Rightarrow> t | None \<Rightarrow> 0) = 0"
    by code_simp
  then show ?thesis by (simp add: ix1_def poll_contract_def fetch0)
qed

lemma ix1_folded: "is_folded (ix_db ix1) ''e2''"
proof -
  have "is_folded (ix_db ixA) ''e2''" by code_simp
  then show ?thesis by (simp add: ix1_is saveCursor_def is_folded_def)
qed

lemma ix1_cursor: "prior_ledger (loadCursor ''CDAO'' (ix_db ix1)) = 6"
  by (simp add: ix1_is saveCursor_def loadCursor_def prior_ledger_def)

lemma good_page_ingested: "is_ok (fst (ingestPage wire (healthy 9) good_page 0 empty_db))"
  by code_simp

lemma good_page_all_folded: "list_all (\<lambda>ev. is_folded db1 (ev_id ev)) good_events"
  by code_simp

lemma bad_page_fails: "\<not> is_ok (fst (ingestPage wire (healthy 9) bad_page 0 empty_db))"
  by code_simp

lemma healthy_simps [simp]:
  "en_lock_free (healthy t)" "en_insert_fault (healthy t) i = None" "en_fold_fault (healthy t) i = None"
  "en_record_fault (healthy t) i = None" "en_state_writable (healthy t)" "en_state_readable (healthy t)"
  by (simp_all add: healthy_def)


lemma uniq_quarantined: "tuniq (db_events db_quarantined)"
  by code_simp

lemma reindex_batches_visit:
  "tuniq events \<Longrightarrow> reindex_loop en n events None rb = foldE (refold en) (sort_key row_key events) rb"
  using reindex_loop_visits [of events en n None rb] by (simp add: after_key_def)

end
