(* ===== verification/Auth.thy ===== *)
theory Auth
  imports JsValue
begin

text \<open>
  Authentication (\<open>src/auth.ts\<close>): the counters, the failure tracker with its exponential
  backoff, the two nonce stores behind the \<open>NonceStore\<close> interface, signature verification and
  \<open>authenticateRequest\<close>. The Stellar SDK (address formats, muxed accounts, ed25519) is the
  parameter record \<open>sdk\<close>; the clock and the random bytes are arguments of the operations that
  read them. Times are milliseconds. Log lines are not modelled, nor are the interval timers
  themselves: their bodies are the operations \<open>tracker_cleanup\<close>, \<open>memory_sweep\<close> and
  \<open>postgres_cleanup\<close>.
\<close>

section \<open>Counters\<close>

record verifications_failed =
  vf_missingHeaders :: nat
  vf_invalidNonce :: nat
  vf_invalidSignature :: nat
  vf_addressMismatch :: nat
  vf_malformedEncoding :: nat
  vf_unsupportedAddressType :: nat

record auth_stats =
  as_challengesIssued :: nat
  as_verificationsSucceeded :: nat
  as_verificationsFailed :: verifications_failed

definition resetAuthStats :: "auth_stats \<Rightarrow> auth_stats" where
  "resetAuthStats st = st\<lparr>as_challengesIssued := 0, as_verificationsSucceeded := 0,
     as_verificationsFailed := (as_verificationsFailed st)\<lparr>vf_missingHeaders := 0, vf_invalidNonce := 0,
       vf_invalidSignature := 0, vf_addressMismatch := 0, vf_malformedEncoding := 0,
       vf_unsupportedAddressType := 0\<rparr>\<rparr>"

definition count_issued :: "auth_stats \<Rightarrow> auth_stats" where
  "count_issued st = st\<lparr>as_challengesIssued := as_challengesIssued st + 1\<rparr>"

definition count_succeeded :: "auth_stats \<Rightarrow> auth_stats" where
  "count_succeeded st = st\<lparr>as_verificationsSucceeded := as_verificationsSucceeded st + 1\<rparr>"

definition count_failed :: "(verifications_failed \<Rightarrow> verifications_failed) \<Rightarrow> auth_stats \<Rightarrow> auth_stats" where
  "count_failed f st = st\<lparr>as_verificationsFailed := f (as_verificationsFailed st)\<rparr>"

section \<open>The failure tracker\<close>

record failure_record =
  fr_count :: nat
  fr_lastFailureAt :: int
  fr_nextAllowedAt :: int

definition BASE_BACKOFF_MS :: nat where "BASE_BACKOFF_MS = 1000"
definition MAX_BACKOFF_MS :: nat where "MAX_BACKOFF_MS = 60000"
definition FAILURE_WINDOW_MS :: int where "FAILURE_WINDOW_MS = 300000"
definition MAX_CAPACITY :: nat where "MAX_CAPACITY = 10000"

type_synonym failures = "(string, failure_record) tbl"

definition tracker_cleanup :: "int \<Rightarrow> failures \<Rightarrow> failures" where
  "tracker_cleanup now fs = filter (\<lambda>(_, r).
     \<not> (fr_lastFailureAt r < now - FAILURE_WINDOW_MS \<or> now > fr_nextAllowedAt r + 3600000)) fs"

definition isAllowed :: "int \<Rightarrow> string \<Rightarrow> failures \<Rightarrow> bool" where
  "isAllowed now a fs = (case tget fs a of None \<Rightarrow> True | Some r \<Rightarrow> fr_nextAllowedAt r \<le> now)"

definition getRemainingBackoff :: "int \<Rightarrow> string \<Rightarrow> failures \<Rightarrow> int" where
  "getRemainingBackoff now a fs =
     (case tget fs a of None \<Rightarrow> 0 | Some r \<Rightarrow> max 0 (fr_nextAllowedAt r - now))"

text \<open>The eviction scan: the first record with the smallest \<open>nextAllowedAt\<close>.\<close>

fun oldest_key :: "(string \<times> int) option \<Rightarrow> failures \<Rightarrow> (string \<times> int) option" where
  "oldest_key best [] = best"
| "oldest_key best ((k, r) # fs) =
     (case best of
        None \<Rightarrow> oldest_key (Some (k, fr_nextAllowedAt r)) fs
      | Some (_, t) \<Rightarrow> if fr_nextAllowedAt r < t then oldest_key (Some (k, fr_nextAllowedAt r)) fs
                       else oldest_key best fs)"

definition evict_oldest :: "failures \<Rightarrow> failures" where
  "evict_oldest fs = (case oldest_key None fs of None \<Rightarrow> fs | Some (k, _) \<Rightarrow> tdel k fs)"

definition backoff_ms :: "nat \<Rightarrow> nat" where
  "backoff_ms n = min (2 ^ (n - 1) * BASE_BACKOFF_MS) MAX_BACKOFF_MS"

definition recordFailure :: "int \<Rightarrow> string \<Rightarrow> failures \<Rightarrow> failures" where
  "recordFailure now a fs =
     (let existing = tget fs a;
          fs1 = (if existing = None \<and> MAX_CAPACITY \<le> length fs then evict_oldest fs else fs)
      in case existing of
           Some r \<Rightarrow>
             if now - fr_lastFailureAt r < FAILURE_WINDOW_MS then
               tput a \<lparr>fr_count = fr_count r + 1, fr_lastFailureAt = now,
                 fr_nextAllowedAt = now + int (backoff_ms (fr_count r + 1))\<rparr> fs1
             else tput a \<lparr>fr_count = 1, fr_lastFailureAt = now,
                 fr_nextAllowedAt = now + int BASE_BACKOFF_MS\<rparr> fs1
         | None \<Rightarrow> tput a \<lparr>fr_count = 1, fr_lastFailureAt = now,
                 fr_nextAllowedAt = now + int BASE_BACKOFF_MS\<rparr> fs1)"

definition recordSuccess :: "string \<Rightarrow> failures \<Rightarrow> failures" where
  "recordSuccess a fs = tdel a fs"

section \<open>Nonces\<close>

definition NONCE_TIMESTAMP_HEX_LEN :: nat where "NONCE_TIMESTAMP_HEX_LEN = 12"
definition NONCE_RANDOM_BYTES :: nat where "NONCE_RANDOM_BYTES = 26"
definition MAX_NONCES_PER_ADDRESS :: nat where "MAX_NONCES_PER_ADDRESS = 100"

definition truncateAddress :: "string \<Rightarrow> string" where
  "truncateAddress a = (if length a \<le> 10 then a else take 4 a @ ellipsis @ drop (length a - 4) a)"

text \<open>\<open>n.toString(16)\<close>, \<open>s.padStart(n, '0')\<close> and \<open>bytes.toString('hex')\<close>.\<close>

fun show_hex :: "nat \<Rightarrow> string" where
  "show_hex n = (if n < 16 then [hex_digit n] else show_hex (n div 16) @ [hex_digit (n mod 16)])"

declare show_hex.simps [simp del]

definition padStart :: "nat \<Rightarrow> char \<Rightarrow> string \<Rightarrow> string" where
  "padStart n c s = replicate (n - length s) c @ s"

definition bytes_hex :: "nat list \<Rightarrow> string" where
  "bytes_hex bs = concat (map (\<lambda>b. [hex_digit (b div 16 mod 16), hex_digit (b mod 16)]) bs)"

definition make_nonce :: "nat \<Rightarrow> nat list \<Rightarrow> string" where
  "make_nonce timestamp rnd = padStart NONCE_TIMESTAMP_HEX_LEN (CHR ''0'') (show_hex timestamp) @ bytes_hex rnd"

record nonce_config =
  nc_ttlMs :: nat
  nc_maxEntries :: nat

text \<open>Both stores count a challenge in \<open>authStats\<close> exactly when \<open>issue\<close> returns a nonce.\<close>

definition counted :: "(exn + string) \<times> 's \<Rightarrow> auth_stats \<Rightarrow> (exn + string) \<times> auth_stats \<times> 's" where
  "counted r st = (fst r, if is_ok (fst r) then count_issued st else st, snd r)"

text \<open>What one call of \<open>issue\<close> reads: the database's clock, the process clock (twice) and the
  random bytes.\<close>

record issue_env =
  ie_dbNow :: int
  ie_timestamp :: nat
  ie_expiryNow :: nat
  ie_random :: "nat list"

definition ie_nonce :: "issue_env \<Rightarrow> string" where
  "ie_nonce e = make_nonce (ie_timestamp e) (ie_random e)"

definition capacity_error :: exn where
  "capacity_error = NonceStoreCapacityError ''Nonce store capacity exceeded''"

definition address_capacity_error :: "string \<Rightarrow> exn" where
  "address_capacity_error a = NonceStoreCapacityError (''Too many outstanding nonces for '' @ truncateAddress a)"

record nonce_entry =
  ne_address :: string
  ne_expiresAt :: int

subsection \<open>The in-memory store\<close>

record memory_store =
  ms_store :: "(string, nonce_entry) tbl"
  ms_counts :: "(string, nat) tbl"

definition count_of :: "memory_store \<Rightarrow> string \<Rightarrow> nat" where
  "count_of s a = (case tget (ms_counts s) a of Some n \<Rightarrow> n | None \<Rightarrow> 0)"

definition decrement :: "string \<Rightarrow> memory_store \<Rightarrow> memory_store" where
  "decrement a s =
     (if 1 < count_of s a then s\<lparr>ms_counts := tput a (count_of s a - 1) (ms_counts s)\<rparr>
      else s\<lparr>ms_counts := tdel a (ms_counts s)\<rparr>)"

definition sweep_one :: "int \<Rightarrow> string \<times> nonce_entry \<Rightarrow> memory_store \<Rightarrow> memory_store" where
  "sweep_one now ne s =
     (if ne_expiresAt (snd ne) < now
      then decrement (ne_address (snd ne)) (s\<lparr>ms_store := tdel (fst ne) (ms_store s)\<rparr>) else s)"

definition memory_sweep :: "int \<Rightarrow> memory_store \<Rightarrow> memory_store" where
  "memory_sweep now s = fold (sweep_one now) (ms_store s) s"

definition memory_issue :: "nonce_config \<Rightarrow> issue_env \<Rightarrow> string \<Rightarrow> memory_store \<Rightarrow> (exn + string) \<times> memory_store" where
  "memory_issue cfg e a s =
     (if nc_maxEntries cfg \<le> length (ms_store s) then (Inl capacity_error, s)
      else if MAX_NONCES_PER_ADDRESS \<le> count_of s a then (Inl (address_capacity_error a), s)
      else (Inr (ie_nonce e),
            s\<lparr>ms_store := tput (ie_nonce e)
                 \<lparr>ne_address = a, ne_expiresAt = int (ie_expiryNow e) + int (nc_ttlMs cfg)\<rparr> (ms_store s),
              ms_counts := tput a (count_of s a + 1) (ms_counts s)\<rparr>))"

definition memory_consume :: "int \<Rightarrow> string \<Rightarrow> string \<Rightarrow> memory_store \<Rightarrow> bool \<times> memory_store" where
  "memory_consume now a n s =
     (case tget (ms_store s) n of
        None \<Rightarrow> (False, s)
      | Some en \<Rightarrow>
          if ne_expiresAt en < now then (False, decrement a (s\<lparr>ms_store := tdel n (ms_store s)\<rparr>))
          else if ne_address en \<noteq> a then (False, s)
          else (True, decrement a (s\<lparr>ms_store := tdel n (ms_store s)\<rparr>)))"

subsection \<open>The Postgres store\<close>

type_synonym nonce_table = "(string, nonce_entry) tbl"

definition postgres_cleanup :: "int \<Rightarrow> nonce_table \<Rightarrow> nonce_table" where
  "postgres_cleanup now t = filter (\<lambda>(_, en). \<not> ne_expiresAt en \<le> now) t"

definition live_rows :: "int \<Rightarrow> nonce_table \<Rightarrow> nonce_entry list" where
  "live_rows now t = filter (\<lambda>en. now < ne_expiresAt en) (trows t)"

definition duplicate_nonce_error :: exn where
  "duplicate_nonce_error =
     PgError ''23505'' (''duplicate key value violates unique constraint '' @ dquote @ ''auth_nonces_pkey'' @ dquote)"

definition postgres_issue :: "nonce_config \<Rightarrow> issue_env \<Rightarrow> string \<Rightarrow> nonce_table \<Rightarrow> (exn + string) \<times> nonce_table" where
  "postgres_issue cfg e a t =
     (let live = live_rows (ie_dbNow e) t in
      if nc_maxEntries cfg \<le> length live then (Inl capacity_error, t)
      else if MAX_NONCES_PER_ADDRESS \<le> length (filter (\<lambda>en. ne_address en = a) live)
      then (Inl (address_capacity_error a), t)
      else if tget t (ie_nonce e) \<noteq> None then (Inl duplicate_nonce_error, t)
      else (Inr (ie_nonce e),
            tput (ie_nonce e)
              \<lparr>ne_address = a, ne_expiresAt = int (ie_expiryNow e) + int (nc_ttlMs cfg)\<rparr> t))"

definition postgres_consume :: "int \<Rightarrow> string \<Rightarrow> string \<Rightarrow> nonce_table \<Rightarrow> bool \<times> nonce_table" where
  "postgres_consume now a n t =
     (case tget t n of
        None \<Rightarrow> (False, t)
      | Some en \<Rightarrow> if ne_address en = a \<and> now < ne_expiresAt en then (True, tdel n t) else (False, t))"

section \<open>Signatures\<close>

datatype address_type = Ed25519 | Muxed | Contract | Invalid

record sdk =
  sdk_isValidEd25519PublicKey :: "string \<Rightarrow> bool"
  sdk_isValidMed25519PublicKey :: "string \<Rightarrow> bool"
  sdk_isValidContract :: "string \<Rightarrow> bool"
  sdk_muxedBase :: "string \<Rightarrow> exn + string" \<comment> \<open>\<open>MuxedAccount.fromAddress(a, '0').baseAccount().accountId()\<close>\<close>
  sdk_verify :: "string \<Rightarrow> string \<Rightarrow> nat list \<Rightarrow> exn + bool" \<comment> \<open>\<open>Keypair.fromPublicKey(k).verify(data, signature)\<close>\<close>

definition classifyStellarAddress :: "sdk \<Rightarrow> string \<Rightarrow> address_type" where
  "classifyStellarAddress sdk a =
     (if sdk_isValidEd25519PublicKey sdk a then Ed25519
      else if sdk_isValidMed25519PublicKey sdk a then Muxed
      else if sdk_isValidContract sdk a then Contract
      else Invalid)"

definition isValidStellarAddress :: "sdk \<Rightarrow> string \<Rightarrow> bool" where
  "isValidStellarAddress sdk a = sdk_isValidEd25519PublicKey sdk a"

text \<open>
  \<open>Buffer.from(s, 'base64')\<close>: both alphabets are accepted, characters outside them are dropped,
  the text ends at the first padding character, and a trailing group of two or three characters
  gives one or two bytes.
\<close>

definition base64_digit :: "char \<Rightarrow> nat option" where
  "base64_digit c = (let n = of_char c :: nat in
     if 65 \<le> n \<and> n \<le> 90 then Some (n - 65)
     else if 97 \<le> n \<and> n \<le> 122 then Some (n - 71)
     else if 48 \<le> n \<and> n \<le> 57 then Some (n + 4)
     else if n = 43 \<or> n = 45 then Some 62
     else if n = 47 \<or> n = 95 then Some 63 else None)"

fun sextets_bytes :: "nat list \<Rightarrow> nat list" where
  "sextets_bytes (a # b # c # d # r) =
     (a * 4 + b div 16) # (b mod 16 * 16 + c div 4) # (c mod 4 * 64 + d) # sextets_bytes r"
| "sextets_bytes [a, b, c] = [a * 4 + b div 16, b mod 16 * 16 + c div 4]"
| "sextets_bytes [a, b] = [a * 4 + b div 16]"
| "sextets_bytes _ = []"

definition base64_bytes :: "string \<Rightarrow> nat list" where
  "base64_bytes s = sextets_bytes (List.map_filter base64_digit (takeWhile (\<lambda>c. c \<noteq> CHR ''='') s))"

datatype signature_result =
    SigOk string \<comment> \<open>\<open>ed25519Address\<close>\<close>
  | SigFailed nat string \<comment> \<open>status and message\<close>

definition ED25519_SIGNATURE_BYTES :: nat where "ED25519_SIGNATURE_BYTES = 64"

definition verify_with_key ::
  "sdk \<Rightarrow> string \<Rightarrow> string \<Rightarrow> string \<Rightarrow> string \<Rightarrow> auth_stats \<Rightarrow> signature_result \<times> auth_stats" where
  "verify_with_key sdk key a n sg st =
     (let buf = base64_bytes sg in
      if length buf \<noteq> ED25519_SIGNATURE_BYTES
      then (SigFailed 401 ''Invalid signature'', count_failed (\<lambda>f. f\<lparr>vf_malformedEncoding := vf_malformedEncoding f + 1\<rparr>) st)
      else case sdk_verify sdk key (n @ '':'' @ a) buf of
             Inr True \<Rightarrow> (SigOk key, count_succeeded st)
           | _ \<Rightarrow> (SigFailed 401 ''Invalid signature'', count_failed (\<lambda>f. f\<lparr>vf_invalidSignature := vf_invalidSignature f + 1\<rparr>) st))"

definition verifySignature ::
  "sdk \<Rightarrow> string \<Rightarrow> string \<Rightarrow> string \<Rightarrow> auth_stats \<Rightarrow> signature_result \<times> auth_stats" where
  "verifySignature sdk a n sg st =
     (let unsupported = count_failed (\<lambda>f. f\<lparr>vf_unsupportedAddressType := vf_unsupportedAddressType f + 1\<rparr>) st in
      case classifyStellarAddress sdk a of
        Invalid \<Rightarrow> (SigFailed 400 ''Unrecognized Stellar address format'', unsupported)
      | Contract \<Rightarrow> (SigFailed 400 (''Contract (C'' @ ellipsis @ '') accounts are not supported for authentication''), unsupported)
      | Muxed \<Rightarrow> (case sdk_muxedBase sdk a of
          Inl _ \<Rightarrow> (SigFailed 400 (''Malformed muxed (M'' @ ellipsis @ '') address''), unsupported)
        | Inr base \<Rightarrow> verify_with_key sdk base a n sg st)
      | Ed25519 \<Rightarrow> verify_with_key sdk a a n sg st)"

section \<open>Requests\<close>

text \<open>The three header parts, or \<open>None\<close> when each of them is null.\<close>

definition auth_scheme :: string where "auth_scheme = ''StellarSignature ''"

definition extractAuthHeaders :: "(string \<times> jsval) list \<Rightarrow> (string \<times> string \<times> string) option" where
  "extractAuthHeaders headers =
     (case map_of headers ''authorization'' of
        Some (JStr h) \<Rightarrow>
          if js_startsWith h auth_scheme then
            (case js_split (CHR '':'') (drop (length auth_scheme) h) of
               [a, sg, n] \<Rightarrow> Some (a, sg, n)
             | _ \<Rightarrow> None)
          else None
      | _ \<Rightarrow> None)"

datatype auth_result =
    Unauthenticated nat string \<comment> \<open>status and message\<close>
  | Authenticated string string \<comment> \<open>\<open>address\<close> and \<open>ed25519Address\<close>\<close>

text \<open>The process state a request reads and writes: the counters, the tracker if one was passed,
  and the nonce store.\<close>

record 's auth_state =
  au_stats :: auth_stats
  au_tracker :: "failures option"
  au_store :: 's

definition authenticateRequest ::
  "sdk \<Rightarrow> (string \<Rightarrow> string \<Rightarrow> 's \<Rightarrow> bool \<times> 's) \<Rightarrow> (string \<times> jsval) list \<Rightarrow> string option \<Rightarrow>
     's auth_state \<Rightarrow> auth_result \<times> 's auth_state" where
  "authenticateRequest sdk consume headers target s =
     (let missing = (Unauthenticated 401 ''Missing authentication headers'',
            s\<lparr>au_stats := count_failed (\<lambda>f. f\<lparr>vf_missingHeaders := vf_missingHeaders f + 1\<rparr>) (au_stats s)\<rparr>) in
      case extractAuthHeaders headers of
        None \<Rightarrow> missing
      | Some (a, sg, n) \<Rightarrow>
          if a = [] \<or> sg = [] \<or> n = [] then missing
          else case verifySignature sdk a n sg (au_stats s) of
                 (SigFailed status err, st) \<Rightarrow> (Unauthenticated status err, s\<lparr>au_stats := st\<rparr>)
               | (SigOk key, st) \<Rightarrow>
                   (case consume a n (au_store s) of
                      (False, store) \<Rightarrow>
                        (Unauthenticated 401 ''Invalid or expired nonce'', s\<lparr>au_stats := st, au_store := store\<rparr>)
                    | (True, store) \<Rightarrow>
                        if target \<notin> {None, Some []} \<and> target \<noteq> Some a
                        then (Unauthenticated 403 ''Cannot modify notifications for another address'',
                              s\<lparr>au_stats := st, au_store := store\<rparr>)
                        else (Authenticated a key,
                              s\<lparr>au_stats := st, au_store := store, au_tracker := map_option (recordSuccess a) (au_tracker s)\<rparr>)))"

end
