(* ===== verification/Auth_Facts.thy ===== *)
theory Auth_Facts
  imports Auth
begin

text \<open>
  The contract of a nonce store as a locale, with what a client may conclude from it (a nonce is
  used at most once, nobody but its owner can use it up, an authenticated request proves control
  of the address), both stores as interpretations, the accounting of the in-memory store, and
  the behaviour of the failure tracker.
\<close>

section \<open>Runs of a nonce store\<close>

datatype nonce_op =
    Issue issue_env string
  | Consume int string string
  | Sweep int

datatype nonce_outcome = Issued string | Used string | Quiet

definition nonce_step ::
  "(issue_env \<Rightarrow> string \<Rightarrow> 's \<Rightarrow> (exn + string) \<times> 's) \<Rightarrow> (int \<Rightarrow> string \<Rightarrow> string \<Rightarrow> 's \<Rightarrow> bool \<times> 's) \<Rightarrow>
     (int \<Rightarrow> 's \<Rightarrow> 's) \<Rightarrow> nonce_op \<Rightarrow> 's \<Rightarrow> nonce_outcome \<times> 's" where
  "nonce_step issue consume sweep x s =
     (case x of
        Issue e a \<Rightarrow> (case issue e a s of (Inr n, s') \<Rightarrow> (Issued n, s') | (Inl _, s') \<Rightarrow> (Quiet, s'))
      | Consume t a n \<Rightarrow> (case consume t a n s of (b, s') \<Rightarrow> (if b then Used n else Quiet, s'))
      | Sweep t \<Rightarrow> (Quiet, sweep t s))"

fun nonce_run ::
  "(issue_env \<Rightarrow> string \<Rightarrow> 's \<Rightarrow> (exn + string) \<times> 's) \<Rightarrow> (int \<Rightarrow> string \<Rightarrow> string \<Rightarrow> 's \<Rightarrow> bool \<times> 's) \<Rightarrow>
     (int \<Rightarrow> 's \<Rightarrow> 's) \<Rightarrow> nonce_op list \<Rightarrow> 's \<Rightarrow> nonce_outcome list \<times> 's" where
  "nonce_run issue consume sweep [] s = ([], s)"
| "nonce_run issue consume sweep (x # xs) s =
     (case nonce_step issue consume sweep x s of (out, s1) \<Rightarrow>
        (case nonce_run issue consume sweep xs s1 of (outs, s2) \<Rightarrow> (out # outs, s2)))"

definition op_time_le :: "int \<Rightarrow> nonce_op \<Rightarrow> bool" where
  "op_time_le t x = (case x of Issue _ _ \<Rightarrow> True | Consume u _ _ \<Rightarrow> u \<le> t | Sweep u \<Rightarrow> u \<le> t)"

section \<open>The contract\<close>

locale nonce_store =
  fixes issue :: "issue_env \<Rightarrow> string \<Rightarrow> 's \<Rightarrow> (exn + string) \<times> 's"
    and consume :: "int \<Rightarrow> string \<Rightarrow> string \<Rightarrow> 's \<Rightarrow> bool \<times> 's"
    and sweep :: "int \<Rightarrow> 's \<Rightarrow> 's"
    and owner :: "'s \<Rightarrow> string \<Rightarrow> (string \<times> int) option" \<comment> \<open>who a stored nonce belongs to and until when\<close>
    and valid :: "int \<Rightarrow> int \<Rightarrow> bool" \<comment> \<open>is a nonce with this expiry accepted at this time\<close>
    and inv :: "'s \<Rightarrow> bool"
  assumes valid_mono: "valid t x \<Longrightarrow> u \<le> t \<Longrightarrow> valid u x"
    and consume_iff: "fst (consume t a n s) \<longleftrightarrow> (\<exists>x. owner s n = Some (a, x) \<and> valid t x)"
    and consume_frees: "fst (consume t a n s) \<Longrightarrow> owner (snd (consume t a n s)) n = None"
    and consume_owner: "owner (snd (consume t a n s)) m = Some p \<Longrightarrow> owner s m = Some p"
    and consume_keeps: "owner s m = Some (b, x) \<Longrightarrow> valid t x \<Longrightarrow> m \<noteq> n \<or> \<not> fst (consume t a n s) \<Longrightarrow>
      owner (snd (consume t a n s)) m = Some (b, x)"
    and sweep_owner: "inv s \<Longrightarrow> owner (sweep t s) m = Some p \<Longrightarrow> owner s m = Some p"
    and sweep_keeps: "inv s \<Longrightarrow> owner s m = Some (b, x) \<Longrightarrow> valid t x \<Longrightarrow> owner (sweep t s) m = Some (b, x)"
    and issue_owner: "fst (issue e a s) \<noteq> Inr m \<Longrightarrow> owner (snd (issue e a s)) m = owner s m"
    and issue_inv: "inv s \<Longrightarrow> inv (snd (issue e a s))"
    and consume_inv: "inv s \<Longrightarrow> inv (snd (consume t a n s))"
    and sweep_inv: "inv s \<Longrightarrow> inv (sweep t s)"
begin

lemma step_inv: "inv s \<Longrightarrow> inv (snd (nonce_step issue consume sweep x s))"
  using issue_inv consume_inv sweep_inv
  by (auto simp: nonce_step_def split: nonce_op.splits prod.splits sum.splits) (metis snd_conv)+

lemma used_at_most_issued:
  assumes "inv s"
  shows "count_list (fst (nonce_run issue consume sweep xs s)) (Used n) \<le>
     count_list (fst (nonce_run issue consume sweep xs s)) (Issued n) + (if owner s n = None then 0 else 1)"
  using assms
proof (induction xs arbitrary: s)
  case (Cons x xs)
  obtain out s1 where st: "nonce_step issue consume sweep x s = (out, s1)" by fastforce
  obtain outs s2 where r: "nonce_run issue consume sweep xs s1 = (outs, s2)" by fastforce
  have ih: "count_list outs (Used n) \<le> count_list outs (Issued n) + (if owner s1 n = None then 0 else 1)"
    using Cons.IH [of s1] step_inv [OF Cons.prems, of x] st r by simp
  have "out = Issued n \<or> out = Used n \<and> owner s n \<noteq> None \<and> owner s1 n = None \<or>
      out \<noteq> Used n \<and> (owner s n = None \<longrightarrow> owner s1 n = None)"
  proof (cases x)
    case (Issue e a)
    then show ?thesis using st issue_owner [of e a s n]
      by (auto simp: nonce_step_def split: prod.splits sum.splits)
  next
    case (Consume t a m)
    then show ?thesis
      using st consume_iff [of t a m s] consume_frees [of t a m s] consume_owner [of t a m s n]
      by (cases "owner s1 n") (auto simp: nonce_step_def split: prod.splits if_splits)
  next
    case (Sweep t)
    then show ?thesis using st sweep_owner [OF Cons.prems, of t n]
      by (cases "owner s1 n") (auto simp: nonce_step_def)
  qed
  with ih st r show ?case by (auto split: if_splits)
qed simp

lemma owner_keeps_nonce:
  assumes "inv s" and "owner s n = Some (a, x)" and "valid t x"
    and "\<forall>y \<in> set xs. op_time_le t y \<and> (\<forall>u. y \<noteq> Consume u a n)"
    and "Issued n \<notin> set (fst (nonce_run issue consume sweep xs s))"
  shows "fst (consume t a n (snd (nonce_run issue consume sweep xs s)))"
  using assms
proof (induction xs arbitrary: s)
  case Nil
  then show ?case by (auto simp: consume_iff)
next
  case (Cons y xs)
  obtain out s1 where st: "nonce_step issue consume sweep y s = (out, s1)" by fastforce
  have "owner s1 n = Some (a, x)"
  proof (cases y)
    case (Issue e b)
    then show ?thesis using st issue_owner [of e b s n] Cons.prems(2,5)
      by (auto simp: nonce_step_def split: prod.splits sum.splits)
  next
    case (Consume u b m)
    with Cons.prems have "u \<le> t" and "m = n \<longrightarrow> b \<noteq> a" by (auto simp: op_time_le_def)
    with Cons.prems(2,3) have "valid u x" and "m = n \<longrightarrow> \<not> fst (consume u b m s)"
      by (auto simp: consume_iff intro: valid_mono)
    with Consume st consume_keeps [of s n a x u m b] Cons.prems(1,2) show ?thesis
      by (auto simp: nonce_step_def split: prod.splits)
  next
    case (Sweep u)
    with Cons.prems have "valid u x" by (auto simp: op_time_le_def intro: valid_mono)
    with Sweep st sweep_keeps Cons.prems(1,2) show ?thesis by (auto simp: nonce_step_def)
  qed
  moreover have "inv s1" using step_inv [OF Cons.prems(1), of y] st by simp
  ultimately show ?case using Cons.IH [of s1] Cons.prems st by (auto split: prod.splits)
qed

lemma authenticated_owner:
  assumes "authenticateRequest sdk (consume now) headers target s = (Authenticated a key, s')"
  shows "\<exists>sg n x. extractAuthHeaders headers = Some (a, sg, n) \<and>
    sdk_verify sdk key (n @ '':'' @ a) (base64_bytes sg) = Inr True \<and>
    length (base64_bytes sg) = ED25519_SIGNATURE_BYTES \<and>
    (sdk_isValidEd25519PublicKey sdk a \<and> key = a \<or> sdk_muxedBase sdk a = Inr key) \<and>
    owner (au_store s) n = Some (a, x) \<and> valid now x \<and> owner (au_store s') n = None \<and>
    target \<in> {None, Some [], Some a}"
proof -
  from assms obtain sg n st where h: "extractAuthHeaders headers = Some (a, sg, n)"
    and v: "verifySignature sdk a n sg (au_stats s) = (SigOk key, st)"
    and c: "fst (consume now a n (au_store s))" "au_store s' = snd (consume now a n (au_store s))"
    and t: "target \<in> {None, Some [], Some a}"
    by (auto simp: authenticateRequest_def Let_def split: option.splits prod.splits signature_result.splits if_splits bool.splits)
  have "sdk_verify sdk key (n @ '':'' @ a) (base64_bytes sg) = Inr True \<and>
      length (base64_bytes sg) = ED25519_SIGNATURE_BYTES \<and>
      (sdk_isValidEd25519PublicKey sdk a \<and> key = a \<or> sdk_muxedBase sdk a = Inr key)"
    using v
    by (auto simp: verifySignature_def verify_with_key_def classifyStellarAddress_def Let_def
        split: if_splits sum.splits bool.splits)
  with h c t show ?thesis by (auto simp: consume_iff consume_frees)
qed

end

text \<open>A request that is turned away before its nonce is looked up leaves the store alone.\<close>

lemma unverified_keeps_store:
  assumes "authenticateRequest sdk consume headers target s = (r, s')"
    and "case extractAuthHeaders headers of None \<Rightarrow> True
      | Some (a, sg, n) \<Rightarrow> \<forall>key st. fst (verifySignature sdk a n sg st) \<noteq> SigOk key"
  shows "au_store s' = au_store s \<and> au_tracker s' = au_tracker s \<and> (\<exists>c m. r = Unauthenticated c m)"
  using assms
  by (auto simp: authenticateRequest_def Let_def split: option.splits prod.splits signature_result.splits if_splits)
     (metis fst_conv)+

section \<open>The two stores\<close>

definition entry_owner :: "(string, nonce_entry) tbl \<Rightarrow> string \<Rightarrow> (string \<times> int) option" where
  "entry_owner t n = map_option (\<lambda>en. (ne_address en, ne_expiresAt en)) (tget t n)"

definition memory_owner :: "memory_store \<Rightarrow> string \<Rightarrow> (string \<times> int) option" where
  "memory_owner s = entry_owner (ms_store s)"

definition memory_inv :: "memory_store \<Rightarrow> bool" where
  "memory_inv s = (tuniq (ms_store s) \<and> tuniq (ms_counts s))"

lemma ms_store_decrement [simp]: "ms_store (decrement a s) = ms_store s"
  by (simp add: decrement_def)

lemma memory_inv_decrement [simp]: "memory_inv s \<Longrightarrow> memory_inv (decrement a s)"
  by (simp add: memory_inv_def decrement_def)

lemma ms_store_sweep_fold:
  "ms_store (fold (sweep_one t) xs s) = filter (\<lambda>p. \<not> (fst p \<in> fst ` set (filter (\<lambda>p. ne_expiresAt (snd p) < t) xs))) (ms_store s)"
proof (induction xs arbitrary: s)
  case (Cons x xs)
  then show ?case
    by (auto simp: sweep_one_def tdel_def AList.delete_eq intro!: filter_cong)
qed simp

lemma memory_sweep_store:
  assumes "tuniq (ms_store s)"
  shows "ms_store (memory_sweep t s) = filter (\<lambda>p. \<not> ne_expiresAt (snd p) < t) (ms_store s)"
  using assms unfolding memory_sweep_def ms_store_sweep_fold tuniq_def
  by (intro filter_cong) (auto dest: eq_key_imp_eq_value)

lemma tget_filter:
  assumes "tuniq t"
  shows "tget (filter (\<lambda>p. P (snd p)) t) k = (case tget t k of Some r \<Rightarrow> if P r then Some r else None | None \<Rightarrow> None)"
  using assms unfolding tuniq_def tget_def
  by (induction t) (auto split: option.splits simp: map_of_eq_None_iff image_iff)

lemma tuniq_filter [simp]: "tuniq t \<Longrightarrow> tuniq (filter P t)"
  by (simp add: tuniq_def distinct_map_filter)

lemma memory_inv_sweep_fold: "memory_inv s \<Longrightarrow> memory_inv (fold (sweep_one t) xs s)"
proof (induction xs arbitrary: s)
  case (Cons x xs)
  have "memory_inv (sweep_one t x s)" using Cons.prems
    by (auto simp: sweep_one_def intro!: memory_inv_decrement) (simp add: memory_inv_def)
  with Cons.IH show ?case by simp
qed simp

interpretation mem: nonce_store "memory_issue cfg" memory_consume memory_sweep memory_owner "\<lambda>t x. t \<le> x" memory_inv
proof
  fix t a n s m p
  assume "memory_owner (snd (memory_consume t a n s)) m = Some p"
  then show "memory_owner s m = Some p"
    by (auto simp: memory_consume_def memory_owner_def entry_owner_def split: option.splits if_splits)
next
  fix t s m p
  assume "memory_inv s" "memory_owner (memory_sweep t s) m = Some p"
  then show "memory_owner s m = Some p"
    using tget_filter [of "ms_store s" "\<lambda>en. \<not> ne_expiresAt en < t" m]
    by (auto simp: memory_owner_def entry_owner_def memory_inv_def memory_sweep_store
        split: option.splits if_splits)
next
  fix s m b x and t :: int
  assume "memory_inv s" "memory_owner s m = Some (b, x)" "t \<le> x"
  then show "memory_owner (memory_sweep t s) m = Some (b, x)"
    using tget_filter [of "ms_store s" "\<lambda>en. \<not> ne_expiresAt en < t" m]
    by (auto simp: memory_owner_def entry_owner_def memory_inv_def memory_sweep_store split: option.splits)
next
  fix s t
  assume "memory_inv s"
  then show "memory_inv (memory_sweep t s)" by (simp add: memory_sweep_def memory_inv_sweep_fold)
next
  fix s t a n
  assume "memory_inv s"
  then show "memory_inv (snd (memory_consume t a n s))"
    by (auto simp: memory_consume_def split: option.splits intro!: memory_inv_decrement) (simp_all add: memory_inv_def)
qed (auto simp: memory_consume_def memory_issue_def memory_owner_def entry_owner_def memory_inv_def split: option.splits)

interpretation pg: nonce_store "postgres_issue cfg" postgres_consume postgres_cleanup entry_owner "\<lambda>t x. t < x" tuniq
proof
  fix t s m p
  assume "tuniq s" "entry_owner (postgres_cleanup t s) m = Some p"
  then show "entry_owner s m = Some p"
    using tget_filter [of s "\<lambda>en. \<not> ne_expiresAt en \<le> t" m]
    by (auto simp: entry_owner_def postgres_cleanup_def case_prod_unfold split: option.splits if_splits)
next
  fix s m b x and t :: int
  assume "tuniq s" "entry_owner s m = Some (b, x)" "t < x"
  then show "entry_owner (postgres_cleanup t s) m = Some (b, x)"
    using tget_filter [of s "\<lambda>en. \<not> ne_expiresAt en \<le> t" m]
    by (auto simp: entry_owner_def postgres_cleanup_def case_prod_unfold)
qed (auto simp: postgres_consume_def postgres_issue_def postgres_cleanup_def entry_owner_def Let_def
    split: option.splits if_splits)

section \<open>Accounting of the in-memory store\<close>

definition outstanding :: "memory_store \<Rightarrow> string \<Rightarrow> int" where
  "outstanding s a = tsum (\<lambda>en. if ne_address en = a then 1 else 0) (ms_store s)"

definition counts_agree :: "memory_store \<Rightarrow> bool" where
  "counts_agree s = (memory_inv s \<and> (\<forall>a. int (count_of s a) = outstanding s a))"

lemma count_of_decrement: "count_of (decrement a s) b = (if b = a then count_of s a - 1 else count_of s b)"
  by (auto simp: decrement_def count_of_def split: option.splits)

lemma outstanding_pos:
  assumes "tget (ms_store s) n = Some en"
  shows "0 < outstanding s (ne_address en)"
proof -
  have "(if ne_address en = ne_address en then 1 else 0) \<le> outstanding s (ne_address en)"
    unfolding outstanding_def
    by (rule tsum_ge_row [where f = "\<lambda>e. if ne_address e = ne_address en then 1 else 0", OF _ assms]) simp
  then show ?thesis by simp
qed

lemma counts_agree_remove:
  assumes "counts_agree s" and "tget (ms_store s) n = Some en"
  shows "counts_agree (decrement (ne_address en) (s\<lparr>ms_store := tdel n (ms_store s)\<rparr>))"
proof -
  let ?s = "s\<lparr>ms_store := tdel n (ms_store s)\<rparr>"
  have out: "outstanding ?s b = outstanding s b - (if b = ne_address en then 1 else 0)" for b
    using assms by (auto simp: outstanding_def tsum_tdel counts_agree_def memory_inv_def)
  have cnt: "count_of ?s b = count_of s b" for b by (simp add: count_of_def)
  have pos: "0 < outstanding s (ne_address en)" using assms(2) by (rule outstanding_pos)
  have agree: "int (count_of s b) = outstanding s b" for b
    using assms(1) by (simp add: counts_agree_def)
  have same: "outstanding (decrement (ne_address en) ?s) b = outstanding ?s b" for b
    by (simp add: outstanding_def)
  have "memory_inv (decrement (ne_address en) ?s)"
    using assms(1) by (auto simp: counts_agree_def intro!: memory_inv_decrement) (simp add: memory_inv_def)
  moreover have "int (count_of (decrement (ne_address en) ?s) b) = outstanding (decrement (ne_address en) ?s) b" for b
    unfolding same out count_of_decrement cnt using agree [of b] pos by auto
  ultimately show ?thesis by (simp add: counts_agree_def)
qed

lemma counts_agree_issue:
  assumes "counts_agree s" and "tget (ms_store s) (ie_nonce e) = None"
  shows "counts_agree (snd (memory_issue cfg e a s))"
  using assms
  by (auto simp: memory_issue_def counts_agree_def memory_inv_def outstanding_def count_of_def tsum_tput_fresh)

lemma counts_agree_consume:
  assumes "counts_agree s"
    and "\<And>en. tget (ms_store s) n = Some en \<Longrightarrow> ne_expiresAt en < t \<Longrightarrow> ne_address en = a"
  shows "counts_agree (snd (memory_consume t a n s))"
  using assms counts_agree_remove [OF assms(1), of n]
  by (fastforce simp: memory_consume_def split: option.splits)

lemma counts_agree_sweep_fold:
  assumes "counts_agree s" and "distinct (map fst xs)"
    and "\<forall>p \<in> set xs. tget (ms_store s) (fst p) = Some (snd p)"
  shows "counts_agree (fold (sweep_one t) xs s)"
  using assms
proof (induction xs arbitrary: s)
  case (Cons x xs)
  have "counts_agree (sweep_one t x s)"
    using counts_agree_remove [OF Cons.prems(1), of "fst x"] Cons.prems(1,3) by (auto simp: sweep_one_def)
  moreover have "tget (ms_store (sweep_one t x s)) (fst p) = Some (snd p)" if "p \<in> set xs" for p
  proof -
    have "fst p \<noteq> fst x" using that Cons.prems(2) by (metis distinct.simps(2) image_eqI list.simps(9) list.set_map)
    with that Cons.prems(3) show ?thesis by (simp add: sweep_one_def)
  qed
  ultimately show ?case using Cons.IH [of "sweep_one t x s"] Cons.prems(2) by simp
qed simp

lemma counts_agree_sweep:
  assumes "counts_agree s"
  shows "counts_agree (memory_sweep t s)"
  unfolding memory_sweep_def
proof (rule counts_agree_sweep_fold [OF assms])
  show "distinct (map fst (ms_store s))" using assms by (simp add: counts_agree_def memory_inv_def tuniq_def)
  then show "\<forall>p \<in> set (ms_store s). tget (ms_store s) (fst p) = Some (snd p)"
    by (simp add: tget_def)
qed

text \<open>
  Runs of the in-memory store in which nonces are fresh and an expired nonce is presented, if at
  all, by the address it was issued to.
\<close>

inductive memory_run :: "nonce_config \<Rightarrow> memory_store \<Rightarrow> bool" for cfg where
  start: "memory_run cfg \<lparr>ms_store = [], ms_counts = []\<rparr>"
| issue: "memory_run cfg s \<Longrightarrow> tget (ms_store s) (ie_nonce e) = None \<Longrightarrow> memory_run cfg (snd (memory_issue cfg e a s))"
| consume: "memory_run cfg s \<Longrightarrow>
    (\<And>en. tget (ms_store s) n = Some en \<Longrightarrow> ne_expiresAt en < t \<Longrightarrow> ne_address en = a) \<Longrightarrow>
    memory_run cfg (snd (memory_consume t a n s))"
| sweep: "memory_run cfg s \<Longrightarrow> memory_run cfg (memory_sweep t s)"

definition within_limits :: "nonce_config \<Rightarrow> memory_store \<Rightarrow> bool" where
  "within_limits cfg s = (length (ms_store s) \<le> nc_maxEntries cfg \<and> (\<forall>a. count_of s a \<le> MAX_NONCES_PER_ADDRESS))"

lemma count_of_decrement_le: "count_of (decrement a s) b \<le> count_of s b"
  by (simp add: count_of_decrement)

lemma within_limits_remove:
  "within_limits cfg s \<Longrightarrow> within_limits cfg (decrement a (s\<lparr>ms_store := tdel n (ms_store s)\<rparr>))"
  using count_of_decrement_le [of a "s\<lparr>ms_store := tdel n (ms_store s)\<rparr>"] length_tdel_le [of n "ms_store s"]
  by (auto simp: within_limits_def) (metis count_of_def le_trans memory_store.select_convs(2) memory_store.surjective memory_store.update_convs(1))

lemma within_limits_sweep_fold: "within_limits cfg s \<Longrightarrow> within_limits cfg (fold (sweep_one t) xs s)"
  by (induction xs arbitrary: s) (auto simp: sweep_one_def within_limits_remove)

lemma memory_run_bounded: "memory_run cfg s \<Longrightarrow> counts_agree s \<and> within_limits cfg s"
proof (induction rule: memory_run.induct)
  case start
  then show ?case by (simp add: counts_agree_def memory_inv_def outstanding_def count_of_def within_limits_def)
next
  case (issue s e a)
  then have "within_limits cfg (snd (memory_issue cfg e a s))"
    by (auto simp: within_limits_def memory_issue_def count_of_def length_tput)
  with issue show ?case by (simp add: counts_agree_issue)
next
  case (consume s n t a)
  then have "within_limits cfg (snd (memory_consume t a n s))"
    by (auto simp: memory_consume_def within_limits_remove split: option.splits)
  with consume counts_agree_consume [of s n t a] show ?case by blast
next
  case (sweep s t)
  then show ?case using counts_agree_sweep [of s t] by (simp add: memory_sweep_def within_limits_sweep_fold)
qed

lemma memory_run_outstanding:
  assumes "memory_run cfg s"
  shows "length (ms_store s) \<le> nc_maxEntries cfg" and "outstanding s a \<le> int MAX_NONCES_PER_ADDRESS"
    and "int (count_of s a) = outstanding s a"
  using memory_run_bounded [OF assms] by (auto simp: counts_agree_def within_limits_def) (metis of_nat_le_iff)

text \<open>
  An expired nonce presented by another address is dropped without being given back to its
  owner's count.
\<close>

definition present_all :: "int \<Rightarrow> string \<Rightarrow> string list \<Rightarrow> memory_store \<Rightarrow> memory_store" where
  "present_all t a ns s = fold (\<lambda>n u. snd (memory_consume t a n u)) ns s"

definition nonces_of :: "string \<Rightarrow> memory_store \<Rightarrow> string list" where
  "nonces_of b s = map fst (filter (\<lambda>p. ne_address (snd p) = b) (ms_store s))"

lemma present_foreign:
  assumes "distinct ns" and "a \<noteq> b"
    and "\<forall>n \<in> set ns. \<exists>en. tget (ms_store s) n = Some en \<and> ne_address en = b \<and> ne_expiresAt en < t"
  shows "ms_store (present_all t a ns s) = filter (\<lambda>p. fst p \<notin> set ns) (ms_store s) \<and>
    count_of (present_all t a ns s) b = count_of s b"
  using assms
proof (induction ns arbitrary: s)
  case (Cons n ns)
  let ?s = "snd (memory_consume t a n s)"
  have st: "ms_store ?s = tdel n (ms_store s)" and ct: "count_of ?s b = count_of s b"
    using Cons.prems(2,3) by (auto simp: memory_consume_def count_of_decrement) (auto simp: count_of_def)
  have "\<forall>m \<in> set ns. \<exists>en. tget (ms_store ?s) m = Some en \<and> ne_address en = b \<and> ne_expiresAt en < t"
    using Cons.prems(1,3) st by auto
  with Cons.IH [of ?s] Cons.prems(1,2) have "ms_store (present_all t a ns ?s) = filter (\<lambda>p. fst p \<notin> set ns) (ms_store ?s) \<and>
      count_of (present_all t a ns ?s) b = count_of ?s b" by simp
  with st ct show ?case
    by (auto simp: present_all_def tdel_def AList.delete_eq case_prod_unfold intro!: filter_cong)
qed (simp add: present_all_def)

lemma present_all_foreign:
  assumes "counts_agree s" and "a \<noteq> b" and "\<forall>p \<in> set (ms_store s). ne_address (snd p) = b \<longrightarrow> ne_expiresAt (snd p) < t"
  shows "count_of (present_all t a (nonces_of b s) s) b = count_of s b"
    and "outstanding (present_all t a (nonces_of b s) s) b = 0"
proof -
  have u: "distinct (map fst (ms_store s))" using assms(1) by (simp add: counts_agree_def memory_inv_def tuniq_def)
  have n: "p \<in> set (ms_store s) \<Longrightarrow> fst p \<in> set (nonces_of b s) \<longleftrightarrow> ne_address (snd p) = b" for p
    using u by (cases p) (force simp: nonces_of_def dest: eq_key_imp_eq_value)
  have "\<forall>m \<in> set (nonces_of b s). \<exists>en. tget (ms_store s) m = Some en \<and> ne_address en = b \<and> ne_expiresAt en < t"
    using assms(3) u by (auto simp: nonces_of_def tget_def) (metis map_of_eq_Some_iff snd_conv)
  moreover have "distinct (nonces_of b s)" using u by (simp add: nonces_of_def distinct_map_filter)
  ultimately have r: "ms_store (present_all t a (nonces_of b s) s) = filter (\<lambda>p. fst p \<notin> set (nonces_of b s)) (ms_store s)"
    "count_of (present_all t a (nonces_of b s) s) b = count_of s b"
    using present_foreign [OF _ assms(2)] by blast+
  then show "count_of (present_all t a (nonces_of b s) s) b = count_of s b" by blast
  have "map (\<lambda>en. if ne_address en = b then 1 else (0 :: int)) (trows (ms_store (present_all t a (nonces_of b s) s))) =
      map (\<lambda>_. 0) (trows (ms_store (present_all t a (nonces_of b s) s)))"
    unfolding r(1) trows_def by (rule map_cong) (use n in auto)
  then show "outstanding (present_all t a (nonces_of b s) s) b = 0"
    by (simp only: outstanding_def tsum_def sum_list_0)
qed

lemma count_of_sweep_absent:
  assumes "memory_inv s" and "\<forall>p \<in> set (ms_store s). ne_address (snd p) \<noteq> b"
  shows "count_of (memory_sweep t s) b = count_of s b"
proof -
  have "count_of (fold (sweep_one t) xs u) b = count_of u b" if "\<forall>p \<in> set xs. ne_address (snd p) \<noteq> b" for xs u
    using that by (induction xs arbitrary: u) (auto simp: sweep_one_def count_of_decrement, simp add: count_of_def)
  with assms(2) show ?thesis by (simp add: memory_sweep_def)
qed

section \<open>Nonces carry their time\<close>

lemma radix_val_append:
  "radix_val b acc (xs @ ys) = (case radix_val b acc xs of None \<Rightarrow> None | Some v \<Rightarrow> radix_val b v ys)"
  by (induction xs arbitrary: acc) (auto split: option.splits simp del: hex_val.simps)

lemma radix_val_show_hex: "radix_val 16 0 (show_hex n) = Some n"
proof (induction n rule: show_hex.induct)
  case (1 n)
  show ?case
  proof (cases "n < 16")
    case True
    then show ?thesis by (subst show_hex.simps) (simp add: hex_val_hex_digit del: hex_val.simps)
  next
    case False
    with "1.IH" have "radix_val 16 0 (show_hex (n div 16)) = Some (n div 16)" by simp
    with False show ?thesis
      by (subst show_hex.simps) (simp add: radix_val_append hex_val_hex_digit del: hex_val.simps)
  qed
qed

lemma length_show_hex: "n < 16 ^ k \<Longrightarrow> 0 < k \<Longrightarrow> length (show_hex n) \<le> k"
proof (induction k arbitrary: n)
  case (Suc k)
  show ?case
  proof (cases "n < 16")
    case True
    then show ?thesis by (subst show_hex.simps) simp
  next
    case False
    with Suc.prems have "0 < k" by (intro gr0I) simp
    moreover from Suc.prems have "n div 16 < 16 ^ k" by (simp add: less_mult_imp_div_less)
    ultimately have "length (show_hex (n div 16)) \<le> k" by (intro Suc.IH)
    with False show ?thesis by (subst show_hex.simps) simp
  qed
qed simp

lemma radix_val_zeros: "radix_val 16 0 (replicate k (CHR ''0'') @ s) = radix_val 16 0 s"
proof (induction k)
  case (Suc k)
  have "hex_val (CHR ''0'') = Some 0" by code_simp
  with Suc show ?case by (simp del: hex_val.simps)
qed simp

lemma make_nonce_prefix:
  assumes "t < 16 ^ NONCE_TIMESTAMP_HEX_LEN"
  shows "radix_val 16 0 (take NONCE_TIMESTAMP_HEX_LEN (make_nonce t rnd)) = Some t"
    and "length (make_nonce t rnd) = NONCE_TIMESTAMP_HEX_LEN + 2 * length rnd"
proof -
  have l: "length (show_hex t) \<le> NONCE_TIMESTAMP_HEX_LEN"
    using length_show_hex [OF assms] by (simp add: NONCE_TIMESTAMP_HEX_LEN_def)
  have p: "length (padStart NONCE_TIMESTAMP_HEX_LEN (CHR ''0'') (show_hex t)) = NONCE_TIMESTAMP_HEX_LEN"
    using l by (simp add: padStart_def)
  show "radix_val 16 0 (take NONCE_TIMESTAMP_HEX_LEN (make_nonce t rnd)) = Some t"
    unfolding make_nonce_def using p
    by (simp add: padStart_def radix_val_zeros radix_val_show_hex)
  have "length (bytes_hex rnd) = 2 * length rnd" by (induction rnd) (auto simp: bytes_hex_def)
  with p show "length (make_nonce t rnd) = NONCE_TIMESTAMP_HEX_LEN + 2 * length rnd"
    by (simp add: make_nonce_def)
qed

text \<open>The signed text determines the nonce and the address it was signed for.\<close>

lemma header_parts_no_colon:
  assumes "extractAuthHeaders headers = Some (a, sg, n)"
  shows "CHR '':'' \<notin> set a" and "CHR '':'' \<notin> set n"
proof -
  from assms obtain h where "js_split (CHR '':'') (drop (length auth_scheme) h) = [a, sg, n]"
    by (auto simp: extractAuthHeaders_def split: option.splits jsval.splits if_splits list.splits)
  then have "\<forall>w \<in> {a, n}. w \<in> set (js_split (CHR '':'') (drop (length auth_scheme) h))" by simp
  then show "CHR '':'' \<notin> set a" and "CHR '':'' \<notin> set n" by (auto dest: js_split_pieces_no_sep)
qed

lemma payload_inject:
  assumes "n @ '':'' @ a = n' @ '':'' @ a'" and "CHR '':'' \<notin> set n" and "CHR '':'' \<notin> set n'"
    and "CHR '':'' \<notin> set a" and "CHR '':'' \<notin> set a'"
  shows "n = n' \<and> a = a'"
proof -
  have "js_split (CHR '':'') (n @ '':'' @ a) = [n, a]" "js_split (CHR '':'') (n' @ '':'' @ a') = [n', a']"
    using assms(2-5) by (simp_all add: js_split_append_sep js_split_no_sep)
  with assms(1) show ?thesis by simp
qed

section \<open>The failure tracker\<close>

lemma oldest_key_in:
  "oldest_key best fs = Some (k, t) \<Longrightarrow> best = Some (k, t) \<or> k \<in> fst ` set fs"
proof (induction fs arbitrary: best)
  case (Cons p fs)
  then show ?case by (cases p; cases best) (fastforce split: if_splits)+
qed simp

lemma oldest_key_None: "oldest_key best fs = None \<longleftrightarrow> best = None \<and> fs = []"
  by (induction best fs rule: oldest_key.induct) (auto split: option.splits)

lemma evict_oldest_shrinks: "fs \<noteq> [] \<Longrightarrow> length (evict_oldest fs) < length fs"
proof -
  assume "fs \<noteq> []"
  then obtain k t where k: "oldest_key None fs = Some (k, t)"
    by (cases "oldest_key None fs") (auto simp: oldest_key_None)
  then have "k \<in> fst ` set fs" using oldest_key_in by fastforce
  then have "length (tdel k fs) < length fs"
    by (auto simp: tdel_def AList.delete_eq intro!: length_filter_less)
  with k show ?thesis by (simp add: evict_oldest_def)
qed

lemma recordFailure_capacity:
  assumes "length fs \<le> MAX_CAPACITY"
  shows "length (recordFailure now a fs) \<le> MAX_CAPACITY"
proof (cases "tget fs a")
  case None
  show ?thesis
  proof (cases "MAX_CAPACITY \<le> length fs")
    case True
    with assms have "length (evict_oldest fs) < MAX_CAPACITY"
      using evict_oldest_shrinks [of fs] by (cases fs) (auto simp: MAX_CAPACITY_def)
    with None True show ?thesis by (simp add: recordFailure_def length_tput)
  qed (use None in \<open>simp add: recordFailure_def length_tput\<close>)
qed (use assms in \<open>auto simp: recordFailure_def length_tput\<close>)

lemma recordFailures_capacity:
  "length fs \<le> MAX_CAPACITY \<Longrightarrow> length (fold (\<lambda>u. recordFailure u a) ts fs) \<le> MAX_CAPACITY"
  by (induction ts arbitrary: fs) (simp_all add: recordFailure_capacity)

definition failing :: "nat \<Rightarrow> int \<Rightarrow> string \<Rightarrow> failures \<Rightarrow> bool" where
  "failing n t a fs = (case tget fs a of None \<Rightarrow> n = 0
     | Some r \<Rightarrow> fr_count r = n \<and> fr_lastFailureAt r = t \<and> fr_nextAllowedAt r = t + int (backoff_ms n))"

lemma recordFailure_first: "tget fs a = None \<Longrightarrow> failing (Suc 0) t a (recordFailure t a fs)"
  by (simp add: failing_def recordFailure_def backoff_ms_def BASE_BACKOFF_MS_def MAX_BACKOFF_MS_def Let_def)

lemma recordFailure_again:
  "failing (Suc n) t a fs \<Longrightarrow> u - t < FAILURE_WINDOW_MS \<Longrightarrow> failing (Suc (Suc n)) u a (recordFailure u a fs)"
  by (auto simp: failing_def recordFailure_def Let_def split: option.splits)

lemma recordFailure_burst:
  assumes "failing (Suc n) t a fs" and "successively (\<lambda>x y. y - x < FAILURE_WINDOW_MS) (t # ts)"
  shows "failing (Suc n + length ts) (last (t # ts)) a (fold (\<lambda>u. recordFailure u a) ts fs)"
  using assms
proof (induction ts arbitrary: n t fs)
  case (Cons u ts)
  have "failing (Suc (Suc n)) u a (recordFailure u a fs)"
    using recordFailure_again [OF Cons.prems(1)] Cons.prems(2) by simp
  from Cons.IH [OF this] Cons.prems(2) show ?case by (cases ts) auto
qed simp

lemma recordFailure_run:
  assumes "tget fs a = None" and "successively (\<lambda>x y. y - x < FAILURE_WINDOW_MS) (t # ts)"
  shows "failing (Suc (length ts)) (last (t # ts)) a (fold (\<lambda>u. recordFailure u a) (t # ts) fs)"
  using recordFailure_burst [OF recordFailure_first [OF assms(1)] assms(2)] by simp

lemma failing_backoff:
  assumes "failing (Suc n) t a fs" 
  shows "getRemainingBackoff t a fs = int (backoff_ms (Suc n))"
    and "isAllowed now a fs \<longleftrightarrow> t + int (backoff_ms (Suc n)) \<le> now"
  using assms by (auto simp: failing_def getRemainingBackoff_def isAllowed_def split: option.splits)

end
