(* ===== verification/Json.thy ===== *)
theory Json
  imports JsValue
begin

text \<open>
  \<open>JSON.parse\<close>, as the stream's listener applies it to a notification, and the round trip with
  \<open>JSON.stringify\<close>. Text is UTF-8, so an escape \<open>\u....\<close> becomes the bytes of its code point. The
  parser takes fuel; one unit per character of the text is enough, since every recursive call
  has consumed a character (\<open>parse_json_text\<close> shows it for printed values).
\<close>

section \<open>Strings\<close>

definition hex4 :: "char \<Rightarrow> char \<Rightarrow> char \<Rightarrow> char \<Rightarrow> nat option" where
  "hex4 a b c d = radix_val 16 0 [a, b, c, d]"

definition utf8 :: "nat \<Rightarrow> string" where
  "utf8 u =
     (if u < 128 then [char_of u]
      else if u < 2048 then [char_of (192 + u div 64), char_of (128 + u mod 64)]
      else if u < 65536 then [char_of (224 + u div 4096), char_of (128 + u div 64 mod 64), char_of (128 + u mod 64)]
      else [char_of (240 + u div 262144), char_of (128 + u div 4096 mod 64), char_of (128 + u div 64 mod 64), char_of (128 + u mod 64)])"

definition simple_escape :: "char \<Rightarrow> char option" where
  "simple_escape c =
     (if c = CHR 0x22 \<or> c = CHR 0x5C \<or> c = CHR ''/'' then Some c
      else if c = CHR ''b'' then Some (CHR 0x08)
      else if c = CHR ''f'' then Some (CHR 0x0C)
      else if c = CHR ''n'' then Some (CHR 0x0A)
      else if c = CHR ''r'' then Some (CHR 0x0D)
      else if c = CHR ''t'' then Some (CHR 0x09) else None)"

text \<open>The text after an opening quote: the string up to the closing quote, and the rest. A high
  surrogate followed by a low one is one code point.\<close>

fun parse_string :: "string \<Rightarrow> (string \<times> string) option" where
  "parse_string [] = None"
| "parse_string (c # r) =
     (if c = CHR 0x22 then Some ([], r)
      else if (of_char c :: nat) < 32 then None
      else if c \<noteq> CHR 0x5C then map_option (apfst ((#) c)) (parse_string r)
      else case r of
             [] \<Rightarrow> None
           | x # r1 \<Rightarrow>
               if x = CHR ''u'' then
                 (case r1 of
                    h1 # h2 # h3 # h4 # r2 \<Rightarrow>
                      (case hex4 h1 h2 h3 h4 of
                         None \<Rightarrow> None
                       | Some u \<Rightarrow>
                           (case r2 of
                              y # z # l1 # l2 # l3 # l4 # r3 \<Rightarrow>
                                (case hex4 l1 l2 l3 l4 of
                                   Some v \<Rightarrow>
                                     if y = CHR 0x5C \<and> z = CHR ''u'' \<and> 0xD800 \<le> u \<and> u < 0xDC00 \<and> 0xDC00 \<le> v \<and> v < 0xE000
                                     then map_option (apfst ((@) (utf8 (0x10000 + (u - 0xD800) * 1024 + (v - 0xDC00))))) (parse_string r3)
                                     else map_option (apfst ((@) (utf8 u))) (parse_string r2)
                                 | None \<Rightarrow> map_option (apfst ((@) (utf8 u))) (parse_string r2))
                            | _ \<Rightarrow> map_option (apfst ((@) (utf8 u))) (parse_string r2)))
                  | _ \<Rightarrow> None)
               else (case simple_escape x of
                       None \<Rightarrow> None
                     | Some y \<Rightarrow> map_option (apfst ((#) y)) (parse_string r1)))"

section \<open>Numbers\<close>

definition is_number_char :: "char \<Rightarrow> bool" where
  "is_number_char c = (is_digit c \<or> c \<in> {CHR ''-'', CHR ''+'', CHR ''.'', CHR ''e'', CHR ''E''})"

definition exponent_ok :: "string \<Rightarrow> bool" where
  "exponent_ok s =
     (case s of
        [] \<Rightarrow> True
      | c # r \<Rightarrow> (c = CHR ''e'' \<or> c = CHR ''E'') \<and>
          (case r of x # ds \<Rightarrow> (if x = CHR ''-'' \<or> x = CHR ''+'' then all_digits ds else all_digits r) | [] \<Rightarrow> False))"

definition fraction_ok :: "string \<Rightarrow> bool" where
  "fraction_ok s =
     (if s \<noteq> [] \<and> hd s = CHR ''.'' then takeWhile is_digit (tl s) \<noteq> [] \<and> exponent_ok (dropWhile is_digit (tl s))
      else exponent_ok s)"

definition unsigned_ok :: "string \<Rightarrow> bool" where
  "unsigned_ok s =
     (let ds = takeWhile is_digit s in
      ds \<noteq> [] \<and> (hd ds = CHR ''0'' \<longrightarrow> length ds = 1) \<and> fraction_ok (dropWhile is_digit s))"

definition json_number_ok :: "string \<Rightarrow> bool" where
  "json_number_ok s = (if s \<noteq> [] \<and> hd s = CHR ''-'' then unsigned_ok (tl s) else unsigned_ok s)"

definition parse_number :: "string \<Rightarrow> (jsval \<times> string) option" where
  "parse_number s =
     (let t = takeWhile is_number_char s in
      if json_number_ok t then Some (JNum (str_Number t), dropWhile is_number_char s) else None)"

section \<open>Values\<close>

definition is_json_ws :: "char \<Rightarrow> bool" where
  "is_json_ws c = (c = CHR 0x20 \<or> c = CHR 0x09 \<or> c = CHR 0x0A \<or> c = CHR 0x0D)"

definition skip_ws :: "string \<Rightarrow> string" where
  "skip_ws s = dropWhile is_json_ws s"

text \<open>Properties of a parsed object: a repeated key keeps its first place and its last value.\<close>

definition json_object :: "(string \<times> jsval) list \<Rightarrow> jsval" where
  "json_object kvs = JObj (fold (\<lambda>(k, v) ob. tput k v ob) kvs [])"

definition parse_word :: "string \<Rightarrow> jsval \<Rightarrow> string \<Rightarrow> (jsval \<times> string) option" where
  "parse_word w v s = (if js_startsWith s w then Some (v, drop (length w) s) else None)"

fun parse_value :: "nat \<Rightarrow> string \<Rightarrow> (jsval \<times> string) option"
  and parse_elems :: "nat \<Rightarrow> string \<Rightarrow> (jsval list \<times> string) option"
  and parse_members :: "nat \<Rightarrow> string \<Rightarrow> ((string \<times> jsval) list \<times> string) option" where
  "parse_value 0 s = None"
| "parse_value (Suc k) s =
     (case skip_ws s of
        [] \<Rightarrow> None
      | c # r \<Rightarrow>
          if c = CHR ''{'' then
            (case skip_ws r of
               [] \<Rightarrow> None
             | x # r1 \<Rightarrow> if x = CHR ''}'' then Some (JObj [], r1)
                          else map_option (apfst json_object) (parse_members k r))
          else if c = CHR ''['' then
            (case skip_ws r of
               [] \<Rightarrow> None
             | x # r1 \<Rightarrow> if x = CHR '']'' then Some (JArr [], r1)
                          else map_option (apfst JArr) (parse_elems k r))
          else if c = CHR 0x22 then map_option (apfst JStr) (parse_string r)
          else if c = CHR ''n'' then parse_word ''null'' JNull (c # r)
          else if c = CHR ''t'' then parse_word ''true'' (JBool True) (c # r)
          else if c = CHR ''f'' then parse_word ''false'' (JBool False) (c # r)
          else parse_number (c # r))"
| "parse_elems 0 s = None"
| "parse_elems (Suc k) s =
     (case parse_value k s of
        None \<Rightarrow> None
      | Some (v, r) \<Rightarrow>
          (case skip_ws r of
             [] \<Rightarrow> None
           | x # r1 \<Rightarrow> if x = CHR '','' then map_option (apfst ((#) v)) (parse_elems k r1)
                        else if x = CHR '']'' then Some ([v], r1) else None))"
| "parse_members 0 s = None"
| "parse_members (Suc k) s =
     (case skip_ws s of
        [] \<Rightarrow> None
      | q # r \<Rightarrow>
          if q \<noteq> CHR 0x22 then None
          else case parse_string r of
                 None \<Rightarrow> None
               | Some (key, r1) \<Rightarrow>
                   (case skip_ws r1 of
                      [] \<Rightarrow> None
                    | x # r2 \<Rightarrow>
                        if x \<noteq> CHR '':'' then None
                        else case parse_value k r2 of
                               None \<Rightarrow> None
                             | Some (v, r3) \<Rightarrow>
                                 (case skip_ws r3 of
                                    [] \<Rightarrow> None
                                  | y # r4 \<Rightarrow> if y = CHR '','' then map_option (apfst ((#) (key, v))) (parse_members k r4)
                                               else if y = CHR ''}'' then Some ([(key, v)], r4) else None)))"

definition JSON_parse :: "string \<Rightarrow> jsval option" where
  "JSON_parse s =
     (case parse_value (Suc (length s)) s of
        None \<Rightarrow> None
      | Some (v, r) \<Rightarrow> if skip_ws r = [] then Some v else None)"

section \<open>Round trip\<close>

text \<open>
  The values whose text determines them: integers that print as digits, no undefined parts, no
  repeated keys.
\<close>

fun json_plain :: "jsval \<Rightarrow> bool" where
  "json_plain JUndefined = False"
| "json_plain JNull = True"
| "json_plain (JBool _) = True"
| "json_plain (JNum n) = (case n of NInt i \<Rightarrow> \<bar>i\<bar> < 10 ^ 21 | _ \<Rightarrow> False)"
| "json_plain (JStr _) = True"
| "json_plain (JArr vs) = list_all json_plain vs"
| "json_plain (JObj kvs) = (distinct (map fst kvs) \<and> list_all (\<lambda>kv. json_plain (snd kv)) kvs)"

lemma parse_string_u:
  assumes "hex4 h1 h2 h3 h4 = Some u" and "u < 0xD800"
  shows "parse_string (CHR 0x5C # CHR ''u'' # h1 # h2 # h3 # h4 # r) =
    map_option (apfst ((@) (utf8 u))) (parse_string r)"
  using assms by (simp del: parse_string.simps add: parse_string.simps(2) [of "CHR 0x5C"] split: list.splits option.splits)

lemma hex4_small: "n < 32 \<Longrightarrow> hex4 (CHR ''0'') (CHR ''0'') (hex_digit (n div 16)) (hex_digit (n mod 16)) = Some n"
  using hex_val_hex_digit [of "n div 16"] hex_val_hex_digit [of "n mod 16"]
  by (simp add: hex4_def is_digit_def del: hex_val.simps) (simp add: is_digit_def Let_def)

lemma parse_escaped:
  "parse_string (json_escape c @ r) = map_option (apfst ((#) c)) (parse_string r)"
proof -
  let ?n = "of_char c :: nat"
  consider "?n \<in> {34, 92, 8, 12, 10, 13, 9}" | "?n < 32" "?n \<notin> {8, 12, 10, 13, 9}" | "32 \<le> ?n" "?n \<noteq> 34" "?n \<noteq> 92"
    by force
  then show ?thesis
  proof cases
    case 1
    let ?C = "{CHR 0x22, CHR 0x5C, CHR 0x08, CHR 0x0C, CHR 0x0A, CHR 0x0D, CHR 0x09}"
    have "?n \<in> of_char ` ?C" using 1 by auto
    then have "c \<in> ?C" by (simp only: inj_image_mem_iff [OF inj_of_char])
    then show ?thesis by (auto simp: json_escape_def simple_escape_def)
  next
    case 2
    have u: "(@) (utf8 ?n) = (#) c" using 2 by (auto simp: utf8_def)
    from 2 show ?thesis
      using parse_string_u [OF hex4_small [of ?n], of r] by (simp add: json_escape_def Let_def u del: parse_string.simps)
  next
    case 3
    then have "c \<noteq> CHR 0x22" "c \<noteq> CHR 0x5C" by auto
    with 3 show ?thesis by (simp add: json_escape_def Let_def)
  qed
qed

lemma parse_quoted: "parse_string (concat (map json_escape s) @ CHR 0x22 # r) = Some (s, r)"
proof (induction s)
  case (Cons c s)
  then show ?case by (simp add: parse_escaped del: parse_string.simps)
qed simp

lemma show_nat_head: "\<exists>d t. show_nat n = digit_char d # t \<and> d < 10 \<and> (d = 0 \<longrightarrow> t = [])"
proof (induction n rule: show_nat.induct)
  case (1 n)
  show ?case
  proof (cases "n < 10")
    case True
    then show ?thesis by (subst show_nat.simps) auto
  next
    case False
    with "1.IH" obtain d t where ih: "show_nat (n div 10) = digit_char d # t" "d < 10" "d = 0 \<longrightarrow> t = []" by auto
    have "d \<noteq> 0"
    proof
      assume "d = 0"
      with ih have "show_nat (n div 10) = [digit_char 0]" by simp
      then have "n div 10 = 0" by (metis digits_val_show_nat digits_val_snoc append_Nil digit_val_digit_char digits_val_def foldl_Nil mult_0_right add_0 zero_less_numeral)
      with False show False by simp
    qed
    with ih False show ?thesis by (subst show_nat.simps) auto
  qed
qed

lemma show_int_not_Nil [simp]: "show_int i \<noteq> []"
  using show_nat_head [of "nat i"] by (auto simp: show_int_def)

lemma is_digit_show_nat: "list_all is_digit (show_nat n)"
  using all_digits_show_nat [of n] by (simp add: all_digits_def)

lemma span_show_nat [simp]:
  "takeWhile is_digit (show_nat n) = show_nat n" "dropWhile is_digit (show_nat n) = []"
  using is_digit_show_nat [of n] by (auto simp: list_all_iff takeWhile_eq_all_conv dropWhile_eq_Nil_conv)

lemma unsigned_ok_show_nat: "unsigned_ok (show_nat n)"
proof -
  obtain d t where d: "show_nat n = digit_char d # t" "d < 10" "d = 0 \<longrightarrow> t = []"
    using show_nat_head by blast
  have "d = 0" if "digit_char d = CHR ''0''" using that d(2) of_char_digit_char [of d] by simp
  then have "hd (show_nat n) = CHR ''0'' \<longrightarrow> length (show_nat n) = 1" and "show_nat n \<noteq> []" using d by auto
  then show ?thesis by (simp add: unsigned_ok_def fraction_ok_def exponent_ok_def)
qed

lemma digit_not_minus: "d < 10 \<Longrightarrow> digit_char d \<noteq> CHR ''-''" 
  using of_char_digit_char [of d] by fastforce

lemma json_number_ok_show_int: "json_number_ok (show_int i)"
proof -
  obtain d t where d: "show_nat (nat i) = digit_char d # t" "d < 10" using show_nat_head by blast
  then have "json_number_ok (show_nat (nat i))"
    using unsigned_ok_show_nat [of "nat i"] digit_not_minus [of d] by (simp add: json_number_ok_def)
  then show ?thesis by (auto simp: show_int_def json_number_ok_def unsigned_ok_show_nat)
qed

lemma number_char_show_int: "list_all is_number_char (show_int i)"
  using is_digit_show_nat by (auto simp: show_int_def is_number_char_def list_all_iff)

lemma is_ws_digit: "is_digit c \<Longrightarrow> \<not> is_ws c"
  by (auto simp: is_digit_def is_ws_def)

lemma js_trim_no_ws: "list_all (\<lambda>c. \<not> is_ws c) s \<Longrightarrow> js_trim s = s"
proof -
  assume "list_all (\<lambda>c. \<not> is_ws c) s"
  then have "dropWhile is_ws s = s" "dropWhile is_ws (rev s) = rev s"
    by (auto simp: list_all_iff dropWhile_eq_self_iff hd_rev)
  then show ?thesis by (simp add: js_trim_def)
qed

lemma unsigned_num_show_nat:
  assumes "int n < 10 ^ 21"
  shows "unsigned_num neg t (show_nat n) = NInt (if neg then - int n else int n)"
proof -
  have d: "parse_decimal (show_nat n) = Some (n, 0)"
    using all_digits_show_nat [of n]
    by (auto simp: parse_decimal_def parse_exponent_def all_digits_def Let_def)
  have ni: "show_nat n \<noteq> ''Infinity''"
  proof
    assume "show_nat n = ''Infinity''"
    then have "is_digit (CHR ''I'')" using is_digit_show_nat [of n] by simp
    then show False by (simp add: is_digit_def)
  qed
  have "\<not> max_double \<le> int n" using assms by (simp add: max_double_def)
  with d ni assms show ?thesis by (simp add: unsigned_num_def decimal_num_def Let_def)
qed

lemma str_Number_digits:
  assumes "js_trim s = s" and "s = digit_char d # t" and "d < 10" and "d = 0 \<longrightarrow> t = []"
  shows "str_Number s = unsigned_num False s s"
proof -
  have "d = 0 \<or> d = 1 \<or> d = 2 \<or> d = 3 \<or> d = 4 \<or> d = 5 \<or> d = 6 \<or> d = 7 \<or> d = 8 \<or> d = 9"
    using assms(3) by presburger
  with assms(1,2,4) show ?thesis
    by (elim disjE) (simp_all add: str_Number_def digit_char_def char_of_def bit_simps Let_def)
qed

lemma str_Number_show_int:
  assumes "\<bar>i\<bar> < 10 ^ 21"
  shows "str_Number (show_int i) = NInt i"
proof (cases "i < 0")
  case True
  have "js_trim (show_int i) = show_int i"
    by (rule js_trim_no_ws) (use True is_digit_show_nat [of "nat (- i)"] is_ws_digit in \<open>auto simp: show_int_def list_all_iff is_ws_def\<close>)
  with True assms show ?thesis by (simp add: str_Number_def show_int_def unsigned_num_show_nat)
next
  case False
  obtain d t where d: "show_nat (nat i) = digit_char d # t" "d < 10" "d = 0 \<longrightarrow> t = []" using show_nat_head by blast
  have "js_trim (show_int i) = show_int i"
    by (rule js_trim_no_ws) (use False is_digit_show_nat [of "nat i"] is_ws_digit in \<open>auto simp: show_int_def list_all_iff\<close>)
  then have "str_Number (show_nat (nat i)) = unsigned_num False (show_nat (nat i)) (show_nat (nat i))"
    using False d by (intro str_Number_digits) (simp_all add: show_int_def)
  with False assms show ?thesis by (simp add: show_int_def unsigned_num_show_nat)
qed

lemma parse_number_show_int:
  assumes "\<bar>i\<bar> < 10 ^ 21" and "r = [] \<or> \<not> is_number_char (hd r)"
  shows "parse_number (show_int i @ r) = Some (JNum (NInt i), r)"
proof -
  have "takeWhile is_number_char r = []" "dropWhile is_number_char r = r" using assms(2) by (cases r; simp)+
  moreover have "\<forall>c \<in> set (show_int i). is_number_char c" using number_char_show_int by (simp add: list_all_iff)
  ultimately have "takeWhile is_number_char (show_int i @ r) = show_int i"
    "dropWhile is_number_char (show_int i @ r) = r"
    by (simp_all add: takeWhile_append dropWhile_append)
  then show ?thesis
    by (simp add: parse_number_def json_number_ok_show_int str_Number_show_int [OF assms(1)])
qed



definition closes :: "string \<Rightarrow> bool" where
  "closes r = (r = [] \<or> hd r \<in> {CHR '','', CHR '']'', CHR ''}''})"

lemma closes_not_number: "closes r \<Longrightarrow> r = [] \<or> \<not> is_number_char (hd r)"
  by (auto simp: closes_def is_number_char_def is_digit_def)

definition opens :: "char \<Rightarrow> bool" where
  "opens c = (\<not> is_json_ws c \<and> c \<noteq> CHR '']'' \<and> c \<noteq> CHR ''}'')"

lemma opens_digit: "d < 10 \<Longrightarrow> opens (digit_char d)"
  using of_char_digit_char [of d] by (auto simp: opens_def is_json_ws_def)

lemma json_text_opens: "json_plain v \<Longrightarrow> \<exists>c t. json_text v = c # t \<and> opens c"
proof (cases v)
  case (JNum n)
  assume "json_plain v"
  with JNum obtain i where n: "n = NInt i" by (cases n) auto
  obtain d t where "show_nat (nat i) = digit_char d # t" "d < 10" using show_nat_head by blast
  with opens_digit [of d] JNum n show ?thesis
    by (auto simp: num_String_def show_int_def isFinite_def opens_def is_json_ws_def)
qed (auto simp: json_quote_def dquote_def opens_def is_json_ws_def)

lemma skip_ws_opens: "opens c \<Longrightarrow> skip_ws (c # t) = c # t"
  by (simp add: skip_ws_def opens_def)

lemma skip_ws_closes: "c \<in> {CHR '','', CHR '']'', CHR ''}'', CHR '':''} \<Longrightarrow> skip_ws (c # t) = c # t"
  by (auto simp: skip_ws_def is_json_ws_def)

lemma fold_tput_distinct:
  assumes "distinct (map fst ob @ map fst kvs)"
  shows "fold (\<lambda>(k, v) ob. tput k v ob) kvs ob = ob @ kvs"
  using assms
proof (induction kvs arbitrary: ob)
  case (Cons kv kvs)
  obtain k v where kv: "kv = (k, v)" by fastforce
  with Cons.prems have "tget ob k = None" by (auto simp: tget_def map_of_eq_None_iff)
  then show ?case using Cons kv by (simp add: tput_fresh)
qed simp

lemma json_object_distinct: "distinct (map fst kvs) \<Longrightarrow> json_object kvs = JObj kvs"
  by (simp add: json_object_def fold_tput_distinct)

lemma parse_word_append: "parse_word w v (w @ r) = Some (v, r)"
  by (simp add: parse_word_def js_startsWith_def)

lemma parse_value_null: "parse_value (Suc k) (''null'' @ r) = Some (JNull, r)"
  using parse_word_append [of "''null''" JNull r] by (simp add: skip_ws_def is_json_ws_def)

lemma parse_value_bool: "parse_value (Suc k) ((if b then ''true'' else ''false'') @ r) = Some (JBool b, r)"
  using parse_word_append [of "''true''" "JBool True" r] parse_word_append [of "''false''" "JBool False" r]
  by (simp add: skip_ws_def is_json_ws_def)

lemma parse_value_int:
  assumes "\<bar>i\<bar> < 10 ^ 21" and "closes r"
  shows "parse_value (Suc k) (show_int i @ r) = Some (JNum (NInt i), r)"
proof -
  obtain c t where c: "show_int i = c # t" "is_number_char c"
    using number_char_show_int [of i] by (cases "show_int i") auto
  then have "skip_ws (show_int i @ r) = show_int i @ r"
    and "c \<notin> {CHR ''{'', CHR ''['', CHR 0x22, CHR ''n'', CHR ''t'', CHR ''f''}"
    by (auto simp: skip_ws_def is_json_ws_def is_number_char_def is_digit_def)
  with c show ?thesis
    using parse_number_show_int [OF assms(1) closes_not_number [OF assms(2)]] by simp
qed

lemma parse_value_string: "parse_value (Suc k) (json_quote s @ r) = Some (JStr s, r)"
  by (simp add: json_quote_def dquote_def skip_ws_def is_json_ws_def parse_quoted)

lemma parse_elems_join:
  assumes "vs \<noteq> []" and "\<And>v k r. v \<in> set vs \<Longrightarrow> length (json_text v) \<le> k \<Longrightarrow> closes r \<Longrightarrow>
      parse_value k (json_text v @ r) = Some (v, r)"
    and "length (js_join '','' (map json_text vs)) < k"
  shows "parse_elems k (js_join '','' (map json_text vs) @ CHR '']'' # r) = Some (vs, r)"
  using assms
proof (induction vs arbitrary: k)
  case (Cons v vs)
  from Cons.prems(3) obtain k' where k: "k = Suc k'" by (cases k) auto
  show ?case
  proof (cases vs)
    case Nil
    then have "parse_value k' (json_text v @ CHR '']'' # r) = Some (v, CHR '']'' # r)"
      using Cons.prems(2,3) k by (simp add: closes_def)
    with Nil k show ?thesis by (simp add: skip_ws_closes)
  next
    case (Cons w ws)
    let ?rest = "js_join '','' (map json_text vs) @ CHR '']'' # r"
    have "parse_value k' (json_text v @ CHR '','' # ?rest) = Some (v, CHR '','' # ?rest)"
      using Cons.prems(2,3) k Cons by (simp add: closes_def)
    moreover have "parse_elems k' ?rest = Some (vs, r)"
      using Cons.IH [of k'] Cons.prems(2,3) k Cons by auto
    ultimately show ?thesis using k Cons by (simp add: skip_ws_closes)
  qed
qed simp

abbreviation member_text :: "string \<times> jsval \<Rightarrow> string" where
  "member_text kv \<equiv> json_quote (fst kv) @ '':'' @ json_text (snd kv)"

lemma parse_members_join:
  assumes "kvs \<noteq> []" and "\<And>kv k r. kv \<in> set kvs \<Longrightarrow> length (json_text (snd kv)) \<le> k \<Longrightarrow> closes r \<Longrightarrow>
      parse_value k (json_text (snd kv) @ r) = Some (snd kv, r)"
    and "length (js_join '','' (map member_text kvs)) < k"
  shows "parse_members k (js_join '','' (map member_text kvs) @ CHR ''}'' # r) = Some (kvs, r)"
  using assms
proof (induction kvs arbitrary: k)
  case (Cons kv kvs)
  from Cons.prems(3) obtain k' where k: "k = Suc k'" by (cases k) auto
  have key: "parse_members (Suc k') (json_quote (fst kv) @ CHR '':'' # s) =
    (case parse_value k' s of None \<Rightarrow> None | Some (v, r3) \<Rightarrow>
       (case skip_ws r3 of [] \<Rightarrow> None | y # r4 \<Rightarrow>
          if y = CHR '','' then map_option (apfst ((#) (fst kv, v))) (parse_members k' r4)
          else if y = CHR ''}'' then Some ([(fst kv, v)], r4) else None))" for s
    by (simp add: json_quote_def dquote_def skip_ws_def is_json_ws_def parse_quoted)
  show ?case
  proof (cases kvs)
    case Nil
    then have "parse_value k' (json_text (snd kv) @ CHR ''}'' # r) = Some (snd kv, CHR ''}'' # r)"
      using Cons.prems(2,3) k by (simp add: closes_def)
    with Nil k key [of "json_text (snd kv) @ CHR ''}'' # r"] show ?thesis by (simp add: skip_ws_closes)
  next
    case (Cons w ws)
    let ?rest = "js_join '','' (map member_text kvs) @ CHR ''}'' # r"
    have "parse_value k' (json_text (snd kv) @ CHR '','' # ?rest) = Some (snd kv, CHR '','' # ?rest)"
      using Cons.prems(2,3) k Cons by (simp add: closes_def)
    moreover have "parse_members k' ?rest = Some (kvs, r)"
      using Cons.IH [of k'] Cons.prems(2,3) k Cons by auto
    ultimately show ?thesis using k Cons key [of "json_text (snd kv) @ CHR '','' # ?rest"]
      by (simp add: skip_ws_closes)
  qed
qed simp

lemma js_join_opens:
  assumes "vs \<noteq> []" and "json_plain (hd vs)"
  shows "\<exists>c t. js_join '','' (map json_text vs) = c # t \<and> opens c"
proof -
  obtain v ws where vs: "vs = v # ws" using assms(1) by (cases vs) auto
  with assms(2) obtain c t where "json_text v = c # t" "opens c" using json_text_opens by fastforce
  with vs show ?thesis by (cases ws) auto
qed

lemma plain_members_text:
  assumes "list_all (\<lambda>kv. json_plain (snd kv)) kvs"
  shows "concat (map (\<lambda>kv. if snd kv = JUndefined then [] else [member_text kv]) kvs) = map member_text kvs"
  using assms by (induction kvs) auto

lemma parse_json_text:
  assumes "json_plain v" and "length (json_text v) \<le> k" and "closes r"
  shows "parse_value k (json_text v @ r) = Some (v, r)"
  using assms
proof (induction v arbitrary: k r)
  case (JArr vs)
  from JArr.prems(2) obtain k' where k: "k = Suc k'" by (cases k) auto
  show ?case
  proof (cases "vs = []")
    case True
    with k show ?thesis by (simp add: skip_ws_def is_json_ws_def)
  next
    case False
    then obtain c t where c: "js_join '','' (map json_text vs) = c # t" "opens c"
      using js_join_opens [of vs] JArr.prems(1) by (cases vs) auto
    have "parse_elems k' (js_join '','' (map json_text vs) @ CHR '']'' # r) = Some (vs, r)"
      by (rule parse_elems_join [OF False]) (use JArr k in \<open>auto simp: list_all_iff\<close>)
    with c k show ?thesis by (simp add: skip_ws_def is_json_ws_def opens_def)
  qed
next
  case (JObj kvs)
  from JObj.prems(2) obtain k' where k: "k = Suc k'" by (cases k) auto
  have pl: "list_all (\<lambda>kv. json_plain (snd kv)) kvs" "distinct (map fst kvs)" using JObj.prems(1) by auto
  show ?case
  proof (cases kvs)
    case Nil
    with k show ?thesis by (simp add: skip_ws_def is_json_ws_def)
  next
    case (Cons kv ws)
    have "parse_members k' (js_join '','' (map member_text kvs) @ CHR ''}'' # r) = Some (kvs, r)"
    proof (rule parse_members_join)
      show "length (js_join '','' (map member_text kvs)) < k'"
        using JObj.prems(2) k by (simp add: plain_members_text [OF pl(1)])
      fix kv k r
      assume "kv \<in> set kvs" "length (json_text (snd kv)) \<le> k" "closes r"
      with pl(1) show "parse_value k (json_text (snd kv) @ r) = Some (snd kv, r)"
        by (intro JObj.IH [of kv "snd kv"]) (auto simp: list_all_iff snds.simps)
    qed (simp add: Cons)
    moreover have "\<exists>t. js_join '','' (map member_text kvs) = CHR 0x22 # t"
      using Cons by (cases ws) (auto simp: json_quote_def dquote_def)
    ultimately show ?thesis using k
      by (auto simp: plain_members_text [OF pl(1)] skip_ws_def is_json_ws_def json_object_distinct [OF pl(2)])
  qed
next
  case (JNum n)
  then show ?case by (cases n; cases k) (auto simp: isFinite_def num_String_def parse_value_int simp del: parse_value.simps)
next
  case (JStr s)
  then show ?case using parse_value_string [of "k - 1" s r]
    by (cases k) (simp_all add: json_quote_def dquote_def del: parse_value.simps)
next
  case JNull
  then show ?case using parse_value_null [of "k - 1" r] by (cases k) simp_all
next
  case (JBool b)
  then show ?case using parse_value_bool [of "k - 1" b r] by (cases k; cases b) simp_all
qed simp

lemma JSON_parse_stringify: "json_plain v \<Longrightarrow> JSON_parse (JSON_stringify v) = Some v"
proof -
  assume v: "json_plain v"
  then have "v \<noteq> JUndefined" by auto
  with parse_json_text [OF v, of "Suc (length (json_text v))" "[]"] show ?thesis
    by (simp add: JSON_parse_def JSON_stringify_def closes_def skip_ws_def del: parse_value.simps)
qed

end
