(* ===== verification/Stream.thy ===== *)
theory Stream
  imports Handlers Json
begin

text \<open>
  The event stream (\<open>src/api/stream.ts\<close>): the SSE client with its queue, backpressure and
  heartbeats, the fan-out of a notification to the connected clients, admission to the stream,
  the shared listener with its reconnects, and the sending side.

  A socket is a function from the number of write calls made so far to the result of the next
  one, so that every behaviour of a reader is covered. Timers are flags: an armed timer is a
  step the environment may take. Console output and the message counters are not modelled.
\<close>

section \<open>Numbers and text\<close>

text \<open>\<open>a < b\<close> on numbers; a comparison with \<open>NaN\<close> is false.\<close>

definition scaled_less :: "int \<times> int \<Rightarrow> int \<times> int \<Rightarrow> bool" where
  "scaled_less a b = (let e = min (snd a) (snd b) in
     fst a * 10 ^ nat (snd a - e) < fst b * 10 ^ nat (snd b - e))"

fun num_less :: "jsnum \<Rightarrow> jsnum \<Rightarrow> bool" where
  "num_less NNaN _ = False"
| "num_less _ NNaN = False"
| "num_less (NInf n) (NInf m) = (n \<and> \<not> m)"
| "num_less (NInf n) _ = n"
| "num_less _ (NInf m) = (\<not> m)"
| "num_less (NInt i) (NInt j) = (i < j)"
| "num_less (NInt i) (NDec m e _) = scaled_less (i, 0) (m, e)"
| "num_less (NDec m e _) (NInt j) = scaled_less (m, e) (j, 0)"
| "num_less (NDec m e _) (NDec m' e' _) = scaled_less (m, e) (m', e')"

text \<open>\<open>Number.parseInt(s, 10)\<close>.\<close>

definition js_parseInt :: "string \<Rightarrow> jsnum" where
  "js_parseInt s =
     (let t = dropWhile is_ws s;
          neg = (t \<noteq> [] \<and> hd t = CHR ''-'');
          u = (if t \<noteq> [] \<and> (hd t = CHR ''-'' \<or> hd t = CHR ''+'') then tl t else t);
          ds = takeWhile is_digit u
      in if ds = [] then NNaN else NInt (if neg then - int (digits_val ds) else int (digits_val ds)))"

text \<open>\<open>payload?.ledger\<close>: only objects have such a property.\<close>

definition number_at :: "string \<Rightarrow> jsval \<Rightarrow> jsnum option" where
  "number_at k v =
     (case v of JObj kvs \<Rightarrow> (case map_of kvs k of Some (JNum n) \<Rightarrow> Some n | _ \<Rightarrow> None) | _ \<Rightarrow> None)"

section \<open>One client\<close>

definition MAX_QUEUED_MESSAGES :: nat where "MAX_QUEUED_MESSAGES = 200"
definition HEARTBEAT_RETRY_INITIAL_MS :: nat where "HEARTBEAT_RETRY_INITIAL_MS = 1000"
definition HEARTBEAT_RETRY_MAX_MS :: nat where "HEARTBEAT_RETRY_MAX_MS = 16000"

record stream_message =
  sm_type :: string
  sm_channel :: "string option"
  sm_payload :: jsval \<comment> \<open>\<open>JUndefined\<close> when absent\<close>
  sm_timestamp :: int

datatype write_result =
    WriteOk
  | WriteFull
  | WriteThrew bool \<comment> \<open>is the socket destroyed\<close>

type_synonym socket = "nat \<Rightarrow> write_result"

record stream_client =
  sc_ip :: string
  sc_channels :: "string slot list"
  sc_heartbeatTimer :: bool
  sc_closed :: bool
  sc_released :: bool \<comment> \<open>\<open>releasePromise\<close> is set\<close>
  sc_paused :: bool
  sc_queue :: "string list"
  sc_stallTimer :: bool
  sc_retryTimer :: bool
  sc_retryDelay :: nat
  sc_lastSentLedger :: jsnum
  sc_writes :: nat \<comment> \<open>calls of \<open>reply.raw.write\<close> so far\<close>
  sc_out :: "string list" \<comment> \<open>frames the socket has taken\<close>

definition new_client :: "string \<Rightarrow> stream_client" where
  "new_client ip = \<lparr>sc_ip = ip, sc_channels = [], sc_heartbeatTimer = False, sc_closed = False,
     sc_released = False, sc_paused = False, sc_queue = [], sc_stallTimer = False, sc_retryTimer = False,
     sc_retryDelay = HEARTBEAT_RETRY_INITIAL_MS, sc_lastSentLedger = NInt 0, sc_writes = 0, sc_out = []\<rparr>"

text \<open>\<open>close\<close> with the part of \<open>doClose\<close> that concerns the client itself.\<close>

definition close_client :: "stream_client \<Rightarrow> stream_client" where
  "close_client c =
     (if sc_released c then c
      else c\<lparr>sc_closed := True, sc_queue := [], sc_stallTimer := False, sc_retryTimer := False,
             sc_released := True, sc_heartbeatTimer := False, sc_channels := []\<rparr>)"

definition enqueue :: "string \<Rightarrow> stream_client \<Rightarrow> stream_client" where
  "enqueue frame c =
     (if MAX_QUEUED_MESSAGES \<le> length (sc_queue c) then close_client c
      else c\<lparr>sc_queue := sc_queue c @ [frame]\<rparr>)"

definition writeFrame :: "socket \<Rightarrow> string \<Rightarrow> stream_client \<Rightarrow> stream_client" where
  "writeFrame sock frame c =
     (let c1 = c\<lparr>sc_writes := sc_writes c + 1\<rparr> in
      case sock (sc_writes c) of
        WriteOk \<Rightarrow> c1\<lparr>sc_out := sc_out c @ [frame], sc_paused := False, sc_stallTimer := False\<rparr>
      | WriteFull \<Rightarrow> c1\<lparr>sc_out := sc_out c @ [frame], sc_paused := True, sc_stallTimer := True\<rparr>
      | WriteThrew destroyed \<Rightarrow> if destroyed then c1\<lparr>sc_closed := True\<rparr> else c1)"

definition bump_ledger :: "jsval \<Rightarrow> jsnum \<Rightarrow> jsnum" where
  "bump_ledger payload l =
     (case number_at ''ledger'' payload of Some n \<Rightarrow> if num_less l n then n else l | None \<Rightarrow> l)"

definition nl :: string where "nl = [CHR 0x0A]"

definition frame_text :: "jsnum \<Rightarrow> stream_message \<Rightarrow> string" where
  "frame_text l m =
     ''event: '' @ sm_type m @ nl @ ''id: '' @ num_String l @ nl @ ''data: '' @
     json_text (JObj [(''type'', JStr (sm_type m)),
       (''channel'', case sm_channel m of Some ch \<Rightarrow> JStr ch | None \<Rightarrow> JUndefined),
       (''payload'', sm_payload m), (''timestamp'', JNum (NInt (sm_timestamp m)))]) @ nl @ nl"

definition sendMessage :: "socket \<Rightarrow> bool \<Rightarrow> stream_message \<Rightarrow> stream_client \<Rightarrow> stream_client" where
  "sendMessage sock force m c =
     (if sc_closed c then c
      else let c1 = c\<lparr>sc_lastSentLedger := bump_ledger (sm_payload m) (sc_lastSentLedger c)\<rparr>;
               frame = frame_text (sc_lastSentLedger c1) m
           in if sc_paused c1 \<and> \<not> force then enqueue frame c1 else writeFrame sock frame c1)"

lemma writeFrame_queue [simp]: "sc_queue (writeFrame sock f c) = sc_queue c"
  by (simp add: writeFrame_def Let_def split: write_result.splits)

function flushQueue :: "socket \<Rightarrow> stream_client \<Rightarrow> stream_client" where
  "flushQueue sock c =
     (if \<not> sc_paused c \<and> \<not> sc_closed c \<and> sc_queue c \<noteq> []
      then flushQueue sock (writeFrame sock (hd (sc_queue c)) (c\<lparr>sc_queue := tl (sc_queue c)\<rparr>)) else c)"
  by auto
termination by (relation "measure (\<lambda>(_, c). length (sc_queue c))") auto

declare flushQueue.simps [simp del]

text \<open>The socket's \<open>drain\<close> event.\<close>

definition on_drain :: "socket \<Rightarrow> stream_client \<Rightarrow> stream_client" where
  "on_drain sock c = flushQueue sock (c\<lparr>sc_paused := False, sc_stallTimer := False\<rparr>)"

definition heartbeat :: "int \<Rightarrow> stream_message" where
  "heartbeat now = \<lparr>sm_type = ''heartbeat'', sm_channel = None, sm_payload = JUndefined, sm_timestamp = now\<rparr>"

definition scheduleHeartbeatRetry :: "stream_client \<Rightarrow> stream_client" where
  "scheduleHeartbeatRetry c =
     (if sc_retryTimer c then c else c\<lparr>sc_retryDelay := HEARTBEAT_RETRY_INITIAL_MS, sc_retryTimer := True\<rparr>)"

definition heartbeat_tick :: "socket \<Rightarrow> int \<Rightarrow> stream_client \<Rightarrow> stream_client" where
  "heartbeat_tick sock now c =
     (if \<not> sc_heartbeatTimer c \<or> sc_closed c then c
      else if sc_paused c then scheduleHeartbeatRetry c
      else sendMessage sock False (heartbeat now) c)"

definition heartbeat_retry :: "socket \<Rightarrow> int \<Rightarrow> stream_client \<Rightarrow> stream_client" where
  "heartbeat_retry sock now c =
     (if \<not> sc_retryTimer c then c
      else let c1 = c\<lparr>sc_retryTimer := False\<rparr> in
        if sc_closed c1 then c1
        else let c2 = sendMessage sock True (heartbeat now) c1 in
          if sc_paused c2
          then c2\<lparr>sc_retryDelay := min (sc_retryDelay c2 * 2) HEARTBEAT_RETRY_MAX_MS, sc_retryTimer := True\<rparr>
          else c2)"

definition stall_timeout :: "stream_client \<Rightarrow> stream_client" where
  "stall_timeout c = (if sc_stallTimer c then close_client c else c)"

definition notification :: "string \<Rightarrow> jsval \<Rightarrow> int \<Rightarrow> stream_message" where
  "notification ch payload now =
     \<lparr>sm_type = ''notification'', sm_channel = Some ch, sm_payload = payload, sm_timestamp = now\<rparr>"

definition receiveNotification :: "socket \<Rightarrow> int \<Rightarrow> string \<Rightarrow> jsval \<Rightarrow> stream_client \<Rightarrow> stream_client" where
  "receiveNotification sock now ch payload c =
     (if sc_closed c then c
      else if Own ch \<notin> set (sc_channels c) then c
      else sendMessage sock False (notification ch payload now) c)"

definition resync_message :: "string \<Rightarrow> jsnum \<Rightarrow> int \<Rightarrow> stream_message" where
  "resync_message lastEventId current now =
     (let seen = js_parseInt lastEventId; missed = (\<not> isFinite seen \<or> num_less seen current) in
      \<lparr>sm_type = ''resync'', sm_channel = None,
       sm_payload = JObj [(''missed'', JBool missed), (''lastKnownLedger'', JNum current)], sm_timestamp = now\<rparr>)"

definition connected_message :: "int \<Rightarrow> stream_message" where
  "connected_message now = \<lparr>sm_type = ''notification'', sm_channel = None,
     sm_payload = JObj [(''message'', JStr ''Connected to stream'')], sm_timestamp = now\<rparr>"

text \<open>\<open>start\<close>: \<open>chs\<close> are the requested channels (\<open>None\<close> for all), \<open>known\<close> the process's
  best-known ledger.\<close>

definition start :: "socket \<Rightarrow> int \<Rightarrow> string slot list option \<Rightarrow> string option \<Rightarrow> jsnum option \<Rightarrow>
    stream_client \<Rightarrow> stream_client" where
  "start sock now chs lastEventId known c =
     (let chans = (case chs of Some l \<Rightarrow> l | None \<Rightarrow> map (Own \<circ> snd) STREAM_CHANNELS);
          c1 = c\<lparr>sc_channels := remdups (sc_channels c @ chans),
                 sc_lastSentLedger := (case known of Some l \<Rightarrow> l | None \<Rightarrow> NInt 0)\<rparr>;
          c2 = (case (lastEventId, known) of
                  (Some s, Some l) \<Rightarrow> sendMessage sock False (resync_message s l now) c1
                | _ \<Rightarrow> c1);
          c3 = sendMessage sock False (connected_message now) c2
      in c3\<lparr>sc_heartbeatTimer := True\<rparr>)"

section \<open>The process\<close>

record stream_proc =
  sp_clients :: "(nat, stream_client) tbl" \<comment> \<open>\<open>connectedClients\<close>, in insertion order\<close>
  sp_next :: nat
  sp_byIp :: "(string, nat) tbl"
  sp_gauge :: nat
  sp_total :: nat
  sp_knownLedger :: "jsnum option"
  sp_lastReorg :: "jsnum option"

definition ip_count :: "string \<Rightarrow> stream_proc \<Rightarrow> nat" where
  "ip_count ip p = (case tget (sp_byIp p) ip of Some n \<Rightarrow> n | None \<Rightarrow> 0)"

text \<open>The part of \<open>doClose\<close> that concerns the process-wide trackers.\<close>

definition untrack :: "nat \<Rightarrow> string \<Rightarrow> stream_proc \<Rightarrow> stream_proc" where
  "untrack i ip p =
     (if tget (sp_clients p) i = None then p
      else let n = ip_count ip p; cs = tdel i (sp_clients p) in
        p\<lparr>sp_clients := cs, sp_byIp := (if n \<le> 1 then tdel ip (sp_byIp p) else tput ip (n - 1) (sp_byIp p)),
          sp_gauge := length cs\<rparr>)"

text \<open>A client after an operation: one that closed itself is dropped from the trackers.\<close>

definition put_client :: "nat \<Rightarrow> stream_client \<Rightarrow> stream_proc \<Rightarrow> stream_proc" where
  "put_client i c p =
     (if sc_released c then untrack i (sc_ip c) p else p\<lparr>sp_clients := tmod i (\<lambda>_. c) (sp_clients p)\<rparr>)"

definition on_client :: "nat \<Rightarrow> (stream_client \<Rightarrow> stream_client) \<Rightarrow> stream_proc \<Rightarrow> stream_proc" where
  "on_client i f p = (case tget (sp_clients p) i of None \<Rightarrow> p | Some c \<Rightarrow> put_client i (f c) p)"

definition fan_out :: "(nat \<Rightarrow> socket) \<Rightarrow> (nat \<Rightarrow> int) \<Rightarrow> string \<Rightarrow> jsval \<Rightarrow> stream_proc \<Rightarrow> stream_proc" where
  "fan_out sock now ch payload p =
     fold (\<lambda>i. on_client i (receiveNotification (sock i) (now i) ch payload)) (tkeys (sp_clients p)) p"

definition raise_known :: "jsnum option \<Rightarrow> jsnum option \<Rightarrow> jsnum option" where
  "raise_known n known =
     (case n of None \<Rightarrow> known
      | Some l \<Rightarrow> (case known of None \<Rightarrow> Some l | Some k \<Rightarrow> if num_less k l then Some l else known))"

definition null_property_error :: exn where
  "null_property_error = JsTypeError (''Cannot read properties of null (reading '' @ [CHR 0x27] @ ''ledger'' @ [CHR 0x27] @ '')'')"

text \<open>\<open>n <= m\<close> on numbers.\<close>

definition num_le :: "jsnum \<Rightarrow> jsnum \<Rightarrow> bool" where
  "num_le a b = (a \<noteq> NNaN \<and> b \<noteq> NNaN \<and> \<not> num_less b a)"

definition dispatch_payload :: "(nat \<Rightarrow> socket) \<Rightarrow> (nat \<Rightarrow> int) \<Rightarrow> string \<Rightarrow> jsval \<Rightarrow> stream_proc \<Rightarrow> exn + stream_proc" where
  "dispatch_payload sock now ch payload p =
     (if payload = JNull then Inl null_property_error
      else let p1 = p\<lparr>sp_knownLedger := raise_known (number_at ''ledger'' payload) (sp_knownLedger p)\<rparr> in
        case number_at ''reorg_ledger'' payload of
          None \<Rightarrow> Inr (fan_out sock now ch payload p1)
        | Some r \<Rightarrow>
            if (case sp_lastReorg p1 of Some l \<Rightarrow> num_le r l | None \<Rightarrow> False) then Inr p1
            else Inr (fan_out sock now ch payload (p1\<lparr>sp_lastReorg := Some r\<rparr>)))"

definition dispatchStreamNotification ::
  "(nat \<Rightarrow> socket) \<Rightarrow> (nat \<Rightarrow> int) \<Rightarrow> string \<Rightarrow> string \<Rightarrow> stream_proc \<Rightarrow> exn + stream_proc" where
  "dispatchStreamNotification sock now ch rawPayload p =
     (if rawPayload = [] then dispatch_payload sock now ch (JObj []) p
      else case JSON_parse rawPayload of
             None \<Rightarrow> Inr p
           | Some payload \<Rightarrow> dispatch_payload sock now ch payload p)"

text \<open>What the listener tells the clients when its connection is lost, and how a new connection
  seeds the best-known ledger with \<open>MAX(last_ledger)\<close>.\<close>

definition disconnect_payload :: jsval where
  "disconnect_payload =
     JObj [(''type'', JStr ''disconnect''), (''reason'', JStr ''database_connection_lost''),
       (''message'', JStr ''Database connection lost, please reconnect'')]"

definition connection_lost :: "(nat \<Rightarrow> socket) \<Rightarrow> (nat \<Rightarrow> int) \<Rightarrow> stream_proc \<Rightarrow> stream_proc" where
  "connection_lost sock now p =
     fold (\<lambda>i. fold (\<lambda>ch. on_client i (receiveNotification (sock i) (now i) ch disconnect_payload)) (map snd STREAM_CHANNELS))
       (tkeys (sp_clients p)) p"

definition seed_known :: "nat option \<Rightarrow> stream_proc \<Rightarrow> stream_proc" where
  "seed_known maxLedger p =
     p\<lparr>sp_knownLedger := raise_known (map_option (\<lambda>l. NInt (int l)) maxLedger) (sp_knownLedger p)\<rparr>"

section \<open>Admission\<close>

definition parseChannelSubset :: "jsval \<Rightarrow> exn + string slot list option" where
  "parseChannelSubset v =
     (if v = JUndefined \<or> v = JNull \<or> v = JStr [] then Inr None
      else let keys = filter (\<lambda>k. k \<noteq> []) (map js_trim (js_split (CHR '','') (js_String v))) in
        if keys = [] then Inr None
        else let unknown = filter (\<lambda>k. obj_get STREAM_CHANNELS k = Missing) keys in
          if unknown \<noteq> [] then Inl (PlainError (''unknown channel(s): '' @ js_join '', '' unknown))
          else Inr (Some (map (obj_get STREAM_CHANNELS) keys)))"

record stream_limits =
  sl_maxConnections :: nat
  sl_maxConnectionsPerIp :: nat
  sl_retryAfterSeconds :: nat

datatype stream_response =
    Refused nat string "nat option" \<comment> \<open>status, error and \<open>Retry-After\<close>\<close>
  | Opened nat \<comment> \<open>a stream to the client with this number\<close>

text \<open>The handler up to its \<open>await\<close>: what it read of the state is carried over.\<close>

definition stream_check ::
  "stream_limits \<Rightarrow> jsval \<Rightarrow> string \<Rightarrow> stream_proc \<Rightarrow> stream_response + string slot list option \<times> nat" where
  "stream_check lim chs ip p =
     (case parseChannelSubset chs of
        Inl e \<Rightarrow> Inl (Refused 400 (error_message e) None)
      | Inr channels \<Rightarrow>
          if sl_maxConnections lim \<le> length (sp_clients p)
          then Inl (Refused 503 ''Too many concurrent stream connections'' (Some (sl_retryAfterSeconds lim)))
          else if sl_maxConnectionsPerIp lim \<le> ip_count ip p
          then Inl (Refused 503 ''Too many concurrent stream connections from this address'' (Some (sl_retryAfterSeconds lim)))
          else Inr (channels, ip_count ip p))"

text \<open>The handler after the \<open>await\<close>; \<open>listening\<close> says whether the shared listener is up.\<close>

definition stream_open ::
  "(nat \<Rightarrow> socket) \<Rightarrow> int \<Rightarrow> bool \<Rightarrow> string slot list option \<times> nat \<Rightarrow> string \<Rightarrow> string option \<Rightarrow> stream_proc \<Rightarrow>
     stream_response \<times> stream_proc" where
  "stream_open sock now listening chk ip lastEventId p =
     (if \<not> listening then (Refused 500 ''Failed to establish stream'' None, p)
      else let i = sp_next p;
               cs = sp_clients p @ [(i, new_client ip)];
               p1 = p\<lparr>sp_clients := cs, sp_next := i + 1, sp_byIp := tput ip (snd chk + 1) (sp_byIp p),
                      sp_gauge := length cs, sp_total := sp_total p + 1\<rparr>
           in (Opened i, on_client i (start (sock i) now (fst chk) lastEventId (sp_knownLedger p)) p1))"

definition stream_endpoint ::
  "stream_limits \<Rightarrow> (nat \<Rightarrow> socket) \<Rightarrow> int \<Rightarrow> bool \<Rightarrow> jsval \<Rightarrow> string \<Rightarrow> string option \<Rightarrow> stream_proc \<Rightarrow>
     stream_response \<times> stream_proc" where
  "stream_endpoint lim sock now listening chs ip lastEventId p =
     (case stream_check lim chs ip p of
        Inl r \<Rightarrow> (r, p)
      | Inr chk \<Rightarrow> stream_open sock now listening chk ip lastEventId p)"

definition drainStreamClients :: "stream_proc \<Rightarrow> stream_proc" where
  "drainStreamClients p = fold (\<lambda>i. on_client i close_client) (tkeys (sp_clients p)) p"

section \<open>Sending\<close>

definition PG_NOTIFY_MAX_PAYLOAD_BYTES :: nat where "PG_NOTIFY_MAX_PAYLOAD_BYTES = 8000"

record notifier =
  nt_failures :: nat
  nt_sent :: "(string \<times> string) list" \<comment> \<open>channel and payload of every \<open>pg_notify\<close>\<close>

definition payload_json :: "jsval option \<Rightarrow> string" where
  "payload_json payload = (case payload of Some v \<Rightarrow> JSON_stringify v | None \<Rightarrow> [])"

text \<open>\<open>fault\<close> is what the query raises, if anything.\<close>

definition notifyStreamClientsAfterCommit :: "exn option \<Rightarrow> string \<Rightarrow> jsval option \<Rightarrow> notifier \<Rightarrow> notifier" where
  "notifyStreamClientsAfterCommit fault ch payload s =
     (if PG_NOTIFY_MAX_PAYLOAD_BYTES < length (payload_json payload) then s\<lparr>nt_failures := nt_failures s + 1\<rparr>
      else case fault of
             Some _ \<Rightarrow> s\<lparr>nt_failures := nt_failures s + 1\<rparr>
           | None \<Rightarrow> s\<lparr>nt_sent := nt_sent s @ [(ch, payload_json payload)]\<rparr>)"

text \<open>The variant on the caller's own connection; it counts and swallows its failures alike.\<close>

definition notifyStreamClients :: "exn option \<Rightarrow> string \<Rightarrow> jsval option \<Rightarrow> notifier \<Rightarrow> notifier" where
  "notifyStreamClients fault ch payload s =
     (if PG_NOTIFY_MAX_PAYLOAD_BYTES < length (payload_json payload) then s\<lparr>nt_failures := nt_failures s + 1\<rparr>
      else case fault of
             Some _ \<Rightarrow> s\<lparr>nt_failures := nt_failures s + 1\<rparr>
           | None \<Rightarrow> s\<lparr>nt_sent := nt_sent s @ [(ch, payload_json payload)]\<rparr>)"

definition broadcastResyncToAllChannels :: "(string \<Rightarrow> exn option) \<Rightarrow> jsval option \<Rightarrow> notifier \<Rightarrow> notifier" where
  "broadcastResyncToAllChannels fault payload s =
     fold (\<lambda>ch. notifyStreamClientsAfterCommit (fault ch) ch payload) (map snd STREAM_CHANNELS) s"

text \<open>What the poller broadcasts before it halts on a discontinuity.\<close>

definition reorg_payload :: "nat \<Rightarrow> int \<Rightarrow> jsval" where
  "reorg_payload l now =
     JObj [(''type'', JStr ''resync''), (''event'', JStr ''reorg_detected''), (''ledger'', JNum (NInt (int l))),
       (''reorg_ledger'', JNum (NInt (int l))), (''message'', JStr ''Ledger discontinuity detected''),
       (''timestamp'', JNum (NInt now))]"

definition notifyStreamClientsOrThrow :: "exn option \<Rightarrow> string \<Rightarrow> jsval option \<Rightarrow> notifier \<Rightarrow> exn + notifier" where
  "notifyStreamClientsOrThrow fault ch payload s =
     (if PG_NOTIFY_MAX_PAYLOAD_BYTES < length (payload_json payload)
      then Inl (PlainError (''NOTIFY payload exceeds '' @ show_nat PG_NOTIFY_MAX_PAYLOAD_BYTES @ '' bytes ('' @
             show_nat (length (payload_json payload)) @ '')''))
      else case fault of
             Some e \<Rightarrow> Inl e
           | None \<Rightarrow> Inr (s\<lparr>nt_sent := nt_sent s @ [(ch, payload_json payload)]\<rparr>))"

end
