(* ===== verification/Stream_Facts.thy ===== *)
theory Stream_Facts
  imports Stream
begin

text \<open>
  Facts about the stream: what every step of a client keeps (a bounded queue, an armed stall
  timer while it is paused), that frames reach the socket in the order they were sent as long
  as no heartbeat retry overtakes them, what a notification does to the clients, and what
  admission keeps of the process-wide trackers.
\<close>

section \<open>Steps of a client\<close>

datatype client_event =
    Send stream_message
  | Receive int string jsval
  | Drain
  | Tick int
  | Retry int
  | Stall
  | Idle

definition client_step :: "socket \<Rightarrow> client_event \<Rightarrow> stream_client \<Rightarrow> stream_client" where
  "client_step sock e c =
     (case e of
        Send m \<Rightarrow> sendMessage sock False m c
      | Receive now ch payload \<Rightarrow> receiveNotification sock now ch payload c
      | Drain \<Rightarrow> on_drain sock c
      | Tick now \<Rightarrow> heartbeat_tick sock now c
      | Retry now \<Rightarrow> heartbeat_retry sock now c
      | Stall \<Rightarrow> stall_timeout c
      | Idle \<Rightarrow> close_client c)"

definition client_run :: "socket \<Rightarrow> client_event list \<Rightarrow> stream_client \<Rightarrow> stream_client" where
  "client_run sock es c = fold (client_step sock) es c"

subsection \<open>What every step keeps\<close>

definition client_ok :: "stream_client \<Rightarrow> bool" where
  "client_ok c =
     (length (sc_queue c) \<le> MAX_QUEUED_MESSAGES \<and>
      HEARTBEAT_RETRY_INITIAL_MS \<le> sc_retryDelay c \<and> sc_retryDelay c \<le> HEARTBEAT_RETRY_MAX_MS \<and>
      (if sc_released c
       then sc_closed c \<and> sc_queue c = [] \<and> \<not> sc_stallTimer c \<and> \<not> sc_retryTimer c \<and> \<not> sc_heartbeatTimer c \<and> sc_channels c = []
       else sc_paused c \<longrightarrow> sc_stallTimer c))"

lemma client_ok_new: "client_ok (new_client ip)"
  by (simp add: client_ok_def new_client_def HEARTBEAT_RETRY_INITIAL_MS_def HEARTBEAT_RETRY_MAX_MS_def)

lemma client_ok_close [inv_intros]: "client_ok c \<Longrightarrow> client_ok (close_client c)"
  by (simp add: client_ok_def close_client_def)

lemma client_ok_enqueue [inv_intros]: "client_ok c \<Longrightarrow> \<not> sc_released c \<Longrightarrow> client_ok (enqueue f c)"
  by (auto simp: enqueue_def client_ok_close) (simp add: client_ok_def)

lemma client_ok_writeFrame [inv_intros]:
  "client_ok c \<Longrightarrow> \<not> sc_released c \<Longrightarrow> client_ok (writeFrame sock f c) \<and> \<not> sc_released (writeFrame sock f c)"
  by (auto simp: client_ok_def writeFrame_def Let_def split: write_result.splits)

lemma closed_if_released: "client_ok c \<Longrightarrow> sc_released c \<Longrightarrow> sc_closed c"
  by (simp add: client_ok_def)

lemma client_ok_sendMessage [inv_intros]: "client_ok c \<Longrightarrow> client_ok (sendMessage sock force m c)"
proof (cases "sc_closed c")
  case False
  assume ok: "client_ok c"
  let ?c = "c\<lparr>sc_lastSentLedger := bump_ledger (sm_payload m) (sc_lastSentLedger c)\<rparr>"
  have "client_ok ?c" "\<not> sc_released ?c" using ok False closed_if_released by (auto simp: client_ok_def)
  with False show ?thesis
    using client_ok_enqueue [of ?c] client_ok_writeFrame [of ?c] by (simp add: sendMessage_def Let_def)
qed (simp add: sendMessage_def)

lemma client_ok_flushQueue: "client_ok c \<Longrightarrow> client_ok (flushQueue sock c)"
proof (induction sock c rule: flushQueue.induct)
  case (1 sock c)
  show ?case
  proof (cases "\<not> sc_paused c \<and> \<not> sc_closed c \<and> sc_queue c \<noteq> []")
    case True
    let ?c = "c\<lparr>sc_queue := tl (sc_queue c)\<rparr>"
    have "client_ok ?c" "\<not> sc_released ?c" using "1.prems" True by (auto simp: client_ok_def)
    then show ?thesis using True "1.IH" client_ok_writeFrame by (subst flushQueue.simps) simp
  next
    case False
    with "1.prems" show ?thesis by (subst flushQueue.simps) auto
  qed
qed

lemma client_ok_on_drain [inv_intros]: "client_ok c \<Longrightarrow> client_ok (on_drain sock c)"
  unfolding on_drain_def by (rule client_ok_flushQueue) (auto simp: client_ok_def)

lemma client_ok_retry:
  assumes "client_ok c"
  shows "client_ok (heartbeat_retry sock now c)"
proof (cases "sc_retryTimer c \<and> \<not> sc_closed c")
  case True
  let ?c1 = "c\<lparr>sc_retryTimer := False\<rparr>"
  have nr: "\<not> sc_released c" using True assms closed_if_released by blast
  with assms have "client_ok ?c1" by (simp add: client_ok_def)
  then have ok: "client_ok (sendMessage sock True (heartbeat now) ?c1)" by (rule client_ok_sendMessage)
  moreover have "\<not> sc_released (sendMessage sock True (heartbeat now) ?c1)"
    using nr True by (auto simp: sendMessage_def writeFrame_def Let_def split: write_result.splits)
  ultimately show ?thesis using True
    by (auto simp: heartbeat_retry_def Let_def client_ok_def)
next
  case False
  with assms show ?thesis by (auto simp: heartbeat_retry_def client_ok_def)
qed

lemma client_ok_step: "client_ok c \<Longrightarrow> client_ok (client_step sock e c)"
  by (cases e)
     (auto simp: client_step_def receiveNotification_def heartbeat_tick_def stall_timeout_def scheduleHeartbeatRetry_def
       client_ok_retry intro: inv_intros, auto simp: client_ok_def HEARTBEAT_RETRY_INITIAL_MS_def HEARTBEAT_RETRY_MAX_MS_def)

lemma client_ok_run: "client_ok c \<Longrightarrow> client_ok (client_run sock es c)"
  unfolding client_run_def by (induction es arbitrary: c) (simp_all add: client_ok_step)

lemma sendMessage_room:
  assumes "client_ok c" and "\<not> sc_released c" and "length (sc_queue c) < MAX_QUEUED_MESSAGES"
  shows "\<not> sc_released (sendMessage sock force m c)"
    and "length (sc_queue (sendMessage sock force m c)) \<le> Suc (length (sc_queue c))"
  using assms
  by (auto simp: sendMessage_def enqueue_def writeFrame_def Let_def split: write_result.splits)

lemma client_ok_start:
  "client_ok (start sock now chs lastEventId known (new_client ip)) \<and> \<not> sc_released (start sock now chs lastEventId known (new_client ip))"
proof -
  define chans where "chans = (case chs of Some l \<Rightarrow> l | None \<Rightarrow> map (Own \<circ> snd) STREAM_CHANNELS)"
  define c1 where "c1 = (new_client ip)\<lparr>sc_channels := remdups (sc_channels (new_client ip) @ chans),
    sc_lastSentLedger := (case known of Some l \<Rightarrow> l | None \<Rightarrow> NInt 0)\<rparr>"
  define c2 where "c2 = (case (lastEventId, known) of
    (Some s, Some l) \<Rightarrow> sendMessage sock False (resync_message s l now) c1 | _ \<Rightarrow> c1)"
  have c1: "client_ok c1" "\<not> sc_released c1" "sc_queue c1 = []"
    using client_ok_new [of ip] by (simp_all add: c1_def client_ok_def new_client_def)
  have c2: "client_ok c2 \<and> \<not> sc_released c2 \<and> length (sc_queue c2) \<le> 1"
    using c1 client_ok_sendMessage [OF c1(1)] sendMessage_room [OF c1(1,2)]
    by (fastforce simp: c2_def MAX_QUEUED_MESSAGES_def split: option.splits)
  have "client_ok (sendMessage sock False (connected_message now) c2)"
    "\<not> sc_released (sendMessage sock False (connected_message now) c2)"
    using c2 client_ok_sendMessage sendMessage_room(1) [of c2] by (auto simp: MAX_QUEUED_MESSAGES_def)
  then show ?thesis unfolding start_def Let_def chans_def [symmetric] c1_def [symmetric] c2_def [symmetric]
    by (simp add: client_ok_def)
qed

subsection \<open>Frames keep their order\<close>

text \<open>A step other than a heartbeat retry, over a socket whose writes do not throw.\<close>

definition orderly :: "client_event \<Rightarrow> bool" where
  "orderly e = (case e of Retry _ \<Rightarrow> False | _ \<Rightarrow> True)"

definition takes_all :: "socket \<Rightarrow> bool" where
  "takes_all sock = (\<forall>n. sock n \<in> {WriteOk, WriteFull})"

text \<open>The frames a step hands to the client for delivery.\<close>

definition message_frame :: "stream_message \<Rightarrow> stream_client \<Rightarrow> string" where
  "message_frame m c = frame_text (bump_ledger (sm_payload m) (sc_lastSentLedger c)) m"

definition submits :: "client_event \<Rightarrow> stream_client \<Rightarrow> string list" where
  "submits e c =
     (if sc_closed c then []
      else case e of
             Send m \<Rightarrow> [message_frame m c]
           | Receive now ch payload \<Rightarrow> if Own ch \<in> set (sc_channels c) then [message_frame (notification ch payload now) c] else []
           | Tick now \<Rightarrow> if sc_heartbeatTimer c \<and> \<not> sc_paused c then [message_frame (heartbeat now) c] else []
           | _ \<Rightarrow> [])"

fun submitted :: "socket \<Rightarrow> client_event list \<Rightarrow> stream_client \<Rightarrow> string list" where
  "submitted sock [] c = []"
| "submitted sock (e # es) c = submits e c @ submitted sock es (client_step sock e c)"

definition lined_up :: "stream_client \<Rightarrow> bool" where
  "lined_up c = (sc_queue c \<noteq> [] \<longrightarrow> sc_paused c)"

lemma writeFrame_takes:
  assumes "takes_all sock"
  shows "sc_out (writeFrame sock f c) = sc_out c @ [f]" and "sc_closed (writeFrame sock f c) = sc_closed c"
proof -
  have "sock (sc_writes c) \<in> {WriteOk, WriteFull}" using assms by (simp add: takes_all_def)
  then show "sc_out (writeFrame sock f c) = sc_out c @ [f]" "sc_closed (writeFrame sock f c) = sc_closed c"
    by (auto simp: writeFrame_def Let_def)
qed

lemma sendMessage_order:
  assumes "takes_all sock" and "client_ok c" and "lined_up c" and "\<not> sc_closed c" and "\<not> sc_closed (sendMessage sock False m c)"
  shows "sc_out (sendMessage sock False m c) @ sc_queue (sendMessage sock False m c) = sc_out c @ sc_queue c @ [message_frame m c]"
    and "lined_up (sendMessage sock False m c)"
  using assms(3-5) closed_if_released [OF assms(2)]
  by (auto simp: sendMessage_def message_frame_def Let_def lined_up_def writeFrame_takes [OF assms(1)] enqueue_def
      close_client_def split: if_splits)

lemma lined_up_sendMessage: "lined_up c \<Longrightarrow> lined_up (sendMessage sock False m c)"
  by (auto simp: sendMessage_def enqueue_def close_client_def lined_up_def Let_def)

lemma lined_up_start: "lined_up (start sock now chs l known (new_client ip))"
proof -
  have heart: "lined_up (c\<lparr>sc_heartbeatTimer := True\<rparr>) = lined_up c" for c by (simp add: lined_up_def)
  have new: "lined_up ((new_client ip)\<lparr>sc_channels := a, sc_lastSentLedger := b\<rparr>)" for a b
    by (simp add: lined_up_def new_client_def)
  show ?thesis unfolding start_def Let_def heart
    by (rule lined_up_sendMessage) (auto simp: new split: option.splits intro: lined_up_sendMessage)
qed

lemma flushQueue_order:
  assumes "takes_all sock"
  shows "sc_out (flushQueue sock c) @ sc_queue (flushQueue sock c) = sc_out c @ sc_queue c \<and>
    sc_closed (flushQueue sock c) = sc_closed c \<and> (\<not> sc_closed c \<longrightarrow> lined_up (flushQueue sock c))"
  using assms
proof (induction sock c rule: flushQueue.induct)
  case (1 sock c)
  show ?case
  proof (cases "\<not> sc_paused c \<and> \<not> sc_closed c \<and> sc_queue c \<noteq> []")
    case True
    then show ?thesis using "1.IH" [OF True "1.prems"] writeFrame_takes [OF "1.prems"]
      by (subst (1 2 3 4) flushQueue.simps) (simp add: writeFrame_takes [OF "1.prems"])
  next
    case False
    then show ?thesis by (subst (1 2 3 4) flushQueue.simps) (auto simp: lined_up_def)
  qed
qed

lemma client_step_order:
  assumes "takes_all sock" and "client_ok c" and "lined_up c" and "orderly e" and "\<not> sc_closed c" and "\<not> sc_closed (client_step sock e c)"
  shows "sc_out (client_step sock e c) @ sc_queue (client_step sock e c) = sc_out c @ sc_queue c @ submits e c"
    and "lined_up (client_step sock e c)"
  using assms sendMessage_order [OF assms(1-3) assms(5)] flushQueue_order [OF assms(1), of "c\<lparr>sc_paused := False, sc_stallTimer := False\<rparr>"]
  by (auto simp: client_step_def submits_def receiveNotification_def heartbeat_tick_def on_drain_def orderly_def
      scheduleHeartbeatRetry_def stall_timeout_def close_client_def lined_up_def split: client_event.splits if_splits)

lemma flushQueue_closed: "sc_closed c \<Longrightarrow> flushQueue sock c = c"
  by (subst flushQueue.simps) simp

lemma client_step_closed: "sc_closed c \<Longrightarrow> sc_closed (client_step sock e c)"
  by (cases e) (auto simp: client_step_def sendMessage_def receiveNotification_def on_drain_def flushQueue_closed
      heartbeat_tick_def heartbeat_retry_def stall_timeout_def close_client_def Let_def)

lemma client_run_closed: "sc_closed c \<Longrightarrow> sc_closed (client_run sock es c)"
  unfolding client_run_def by (induction es arbitrary: c) (simp_all add: client_step_closed)

lemma client_run_order:
  assumes "takes_all sock" and "client_ok c" and "lined_up c" and "list_all orderly es"
    and "\<not> sc_closed (client_run sock es c)"
  shows "sc_out (client_run sock es c) @ sc_queue (client_run sock es c) = sc_out c @ sc_queue c @ submitted sock es c"
  using assms(2-)
proof (induction es arbitrary: c)
  case Nil
  then show ?case by (simp add: client_run_def)
next
  case (Cons e es)
  have run: "client_run sock (e # es) c = client_run sock es (client_step sock e c)" for c
    by (simp add: client_run_def)
  have open1: "\<not> sc_closed (client_step sock e c)" using client_run_closed Cons.prems(4) unfolding run by blast
  then have open0: "\<not> sc_closed c" using client_step_closed by blast
  have st: "sc_out (client_step sock e c) @ sc_queue (client_step sock e c) = sc_out c @ sc_queue c @ submits e c"
    "lined_up (client_step sock e c)"
    using client_step_order [OF assms(1) Cons.prems(1,2) _ open0 open1] Cons.prems(3) by auto
  from Cons.IH [OF client_ok_step [OF Cons.prems(1)] st(2)] Cons.prems(3,4) run st(1)
  show ?case by auto
qed

section \<open>Notifications\<close>

lemma receiveNotification_ip [simp]: "sc_ip (receiveNotification sock now ch payload c) = sc_ip c"
  by (auto simp: receiveNotification_def sendMessage_def enqueue_def close_client_def writeFrame_def Let_def
      split: write_result.splits)

lemma tget_put_client:
  "tget (sp_clients (put_client i c p)) j =
     (if j = i then (if sc_released c then None else map_option (\<lambda>_. c) (tget (sp_clients p) i)) else tget (sp_clients p) j)"
  by (auto simp: put_client_def untrack_def Let_def)

lemma tget_on_client:
  "tget (sp_clients (on_client i f p)) j =
     (if j = i then (case tget (sp_clients p) i of None \<Rightarrow> None | Some c \<Rightarrow> if sc_released (f c) then None else Some (f c))
      else tget (sp_clients p) j)"
  by (auto simp: on_client_def tget_put_client split: option.splits)

lemma fold_on_client:
  assumes "distinct is"
  shows "tget (sp_clients (fold (\<lambda>i. on_client i (f i)) is p)) j =
    (if j \<in> set is then (case tget (sp_clients p) j of None \<Rightarrow> None | Some c \<Rightarrow> if sc_released (f j c) then None else Some (f j c))
     else tget (sp_clients p) j)"
  using assms by (induction "is" arbitrary: p) (auto simp: tget_on_client split: option.splits)

lemma fan_out_clients:
  assumes "tuniq (sp_clients p)"
  shows "tget (sp_clients (fan_out sock now ch payload p)) j =
    (case tget (sp_clients p) j of None \<Rightarrow> None
     | Some c \<Rightarrow> let c' = receiveNotification (sock j) (now j) ch payload c in if sc_released c' then None else Some c')"
  using fold_on_client [of "tkeys (sp_clients p)" "\<lambda>i. receiveNotification (sock i) (now i) ch payload" p j] assms
    tget_in_keys [of "sp_clients p" j]
  by (auto simp: fan_out_def Let_def tuniq_def tkeys_def split: option.splits if_splits)

text \<open>What the sender wrote is what the clients are told.\<close>

lemma dispatch_stringified:
  assumes "json_plain payload"
  shows "dispatchStreamNotification sock now ch (JSON_stringify payload) p = dispatch_payload sock now ch payload p"
proof -
  have "payload \<noteq> JUndefined" using assms by auto
  then have "JSON_stringify payload \<noteq> []"
    using json_text_opens [OF assms] by (auto simp: JSON_stringify_def)
  then show ?thesis by (simp add: dispatchStreamNotification_def JSON_parse_stringify [OF assms])
qed

lemma dispatch_all_stringified:
  assumes "json_plain payload"
  shows "foldE (\<lambda>(ch, raw). dispatchStreamNotification sock now ch raw) (map (\<lambda>kc. (snd kc, JSON_stringify payload)) cs) p =
    foldE (\<lambda>ch. dispatch_payload sock now ch payload) (map snd cs) p"
proof (induction cs arbitrary: p)
  case (Cons kc cs)
  then show ?case
    by (cases "dispatch_payload sock now (snd kc) payload p") (simp_all add: dispatch_stringified [OF assms])
qed simp

lemma dispatch_throws_iff:
  "(\<exists>e. dispatchStreamNotification sock now ch raw p = Inl e) \<longleftrightarrow> raw \<noteq> [] \<and> JSON_parse raw = Some JNull"
  by (auto simp: dispatchStreamNotification_def dispatch_payload_def Let_def split: option.splits)

text \<open>What a notification does to one connected client.\<close>

lemma receiveNotification_cases:
  assumes "client_ok c" and "\<not> sc_released c"
  shows "sc_closed c \<or> Own ch \<notin> set (sc_channels c) \<Longrightarrow> receiveNotification sock now ch payload c = c"
    and "\<not> sc_closed c \<Longrightarrow> Own ch \<in> set (sc_channels c) \<Longrightarrow> \<not> sc_paused c \<Longrightarrow> takes_all sock \<Longrightarrow>
      sc_out (receiveNotification sock now ch payload c) = sc_out c @ [message_frame (notification ch payload now) c] \<and>
      \<not> sc_released (receiveNotification sock now ch payload c)"
    and "\<not> sc_closed c \<Longrightarrow> Own ch \<in> set (sc_channels c) \<Longrightarrow> sc_paused c \<Longrightarrow> length (sc_queue c) < MAX_QUEUED_MESSAGES \<Longrightarrow>
      sc_queue (receiveNotification sock now ch payload c) = sc_queue c @ [message_frame (notification ch payload now) c] \<and>
      \<not> sc_released (receiveNotification sock now ch payload c)"
    and "\<not> sc_closed c \<Longrightarrow> Own ch \<in> set (sc_channels c) \<Longrightarrow> sc_paused c \<Longrightarrow> \<not> length (sc_queue c) < MAX_QUEUED_MESSAGES \<Longrightarrow>
      sc_released (receiveNotification sock now ch payload c)"
  using assms client_ok_writeFrame [of "c\<lparr>sc_lastSentLedger := l\<rparr>" for l]
  by (auto simp: receiveNotification_def sendMessage_def message_frame_def notification_def enqueue_def close_client_def
      writeFrame_takes Let_def client_ok_def)

lemma on_client_lastReorg [simp]: "sp_lastReorg (on_client i f p) = sp_lastReorg p"
  by (auto simp: on_client_def put_client_def untrack_def Let_def split: option.splits)

lemma fan_out_lastReorg [simp]: "sp_lastReorg (fan_out sock now ch payload p) = sp_lastReorg p"
proof -
  have "sp_lastReorg (fold (\<lambda>i. on_client i (f i)) is p) = sp_lastReorg p" for f "is" and p :: stream_proc
    by (induction "is" arbitrary: p) simp_all
  then show ?thesis by (simp add: fan_out_def)
qed

text \<open>A discontinuity at a ledger is announced on one channel only.\<close>

definition announced :: "int \<Rightarrow> stream_proc \<Rightarrow> bool" where
  "announced r p = (case sp_lastReorg p of Some l \<Rightarrow> num_le (NInt r) l | None \<Rightarrow> False)"

lemma dispatch_announces:
  assumes "dispatch_payload sock now ch payload p = Inr p1" and "number_at ''reorg_ledger'' payload = Some (NInt r)"
  shows "announced r p1"
  using assms
  by (auto simp: dispatch_payload_def Let_def announced_def num_le_def split: if_splits option.splits)

lemma dispatch_announced:
  assumes "announced r p" and "number_at ''reorg_ledger'' payload = Some (NInt r)"
  shows "\<exists>p'. dispatch_payload sock now ch payload p = Inr p' \<and> sp_clients p' = sp_clients p \<and> announced r p'"
proof -
  have "payload \<noteq> JNull" using assms(2) by (auto simp: number_at_def)
  with assms show ?thesis
    by (auto simp: dispatch_payload_def Let_def announced_def split: option.splits)
qed

lemma announced_on_all:
  assumes "announced r p" and "number_at ''reorg_ledger'' payload = Some (NInt r)"
  shows "\<exists>p'. foldE (\<lambda>ch. dispatch_payload sock now ch payload) chs p = Inr p' \<and> sp_clients p' = sp_clients p"
  using assms(1)
proof (induction chs arbitrary: p)
  case (Cons ch chs)
  obtain p1 where "dispatch_payload sock now ch payload p = Inr p1" "sp_clients p1 = sp_clients p" "announced r p1"
    using dispatch_announced [OF Cons.prems assms(2)] by blast
  with Cons.IH [of p1] show ?case by auto
qed simp

lemma broadcast_reaches_first_channel:
  assumes "tuniq (sp_clients p)" and "number_at ''reorg_ledger'' payload = Some (NInt r)"
    and "tget (sp_clients p) i = Some c" and "Own ch \<notin> set (sc_channels c)" and "\<not> sc_released c"
  shows "\<exists>p'. foldE (\<lambda>ch. dispatch_payload sock now ch payload) (ch # chs) p = Inr p' \<and> tget (sp_clients p') i = Some c"
proof -
  have nn: "payload \<noteq> JNull" using assms(2) by (auto simp: number_at_def)
  then obtain p1 where p1: "dispatch_payload sock now ch payload p = Inr p1"
    by (cases "dispatch_payload sock now ch payload p") (auto simp: dispatch_payload_def Let_def split: option.splits if_splits)
  have "receiveNotification sock' now' ch payload c = c" for sock' now'
    using assms(4) by (simp add: receiveNotification_def)
  then have "tget (sp_clients p1) i = Some c"
    using p1 assms(1,3,5) nn
    by (auto simp: dispatch_payload_def Let_def fan_out_clients split: option.splits if_splits)
  moreover obtain p' where "foldE (\<lambda>ch. dispatch_payload sock now ch payload) chs p1 = Inr p'" "sp_clients p' = sp_clients p1"
    using announced_on_all [OF dispatch_announces [OF p1 assms(2)] assms(2)] by blast
  ultimately show ?thesis using p1 by auto
qed

lemma reorg_payload_plain: "\<bar>int l\<bar> < 10 ^ 21 \<Longrightarrow> \<bar>now\<bar> < 10 ^ 21 \<Longrightarrow> json_plain (reorg_payload l now)"
  by (simp add: reorg_payload_def)

lemma reorg_payload_ledger: "number_at ''reorg_ledger'' (reorg_payload l now) = Some (NInt (int l))"
  by (simp add: reorg_payload_def number_at_def)

lemma broadcast_sends_on_every_channel:
  assumes "length (JSON_stringify payload) \<le> PG_NOTIFY_MAX_PAYLOAD_BYTES"
  shows "broadcastResyncToAllChannels (\<lambda>_. None) (Some payload) s =
    s\<lparr>nt_sent := nt_sent s @ map (\<lambda>kc. (snd kc, JSON_stringify payload)) STREAM_CHANNELS\<rparr>"
  using assms
  by (simp add: broadcastResyncToAllChannels_def STREAM_CHANNELS_def notifyStreamClientsAfterCommit_def payload_json_def)

section \<open>The trackers\<close>

definition clients_from :: "string \<Rightarrow> stream_proc \<Rightarrow> int" where
  "clients_from ip p = tsum (\<lambda>c. if sc_ip c = ip then 1 else 0) (sp_clients p)"

definition tracked :: "stream_proc \<Rightarrow> bool" where
  "tracked p =
     (tuniq (sp_clients p) \<and> list_all (\<lambda>i. i < sp_next p) (tkeys (sp_clients p)) \<and>
      sp_gauge p = length (sp_clients p) \<and> tall (\<lambda>c. \<not> sc_released c) (sp_clients p) \<and>
      (\<forall>ip. int (ip_count ip p) = clients_from ip p))"

lemma length_tmod [simp]: "length (tmod k f t) = length t"
  by (metis length_map tkeys_def tkeys_tmod)

lemma tkeys_tdel: "set (tkeys (tdel k t)) \<subseteq> set (tkeys t)"
  by (auto simp: tkeys_def tdel_def AList.delete_eq)

lemma tall_tdel: "tall P t \<Longrightarrow> tall P (tdel k t)"
  by (auto simp: tall_def trows_def tdel_def AList.delete_eq list_all_iff)

lemma ip_count_untrack:
  "tget (sp_clients p) i \<noteq> None \<Longrightarrow> ip_count ip (untrack i ip' p) = (if ip = ip' then ip_count ip' p - 1 else ip_count ip p)"
  by (auto simp: untrack_def ip_count_def Let_def split: option.splits)

lemma tracked_put_client:
  assumes "tracked p" and "tget (sp_clients p) i = Some c" and "sc_ip c' = sc_ip c"
  shows "tracked (put_client i c' p)"
proof (cases "sc_released c'")
  case True
  have from_ip: "clients_from ip (untrack i (sc_ip c) p) = clients_from ip p - (if ip = sc_ip c then 1 else 0)" for ip
    using assms(1,2) by (auto simp: clients_from_def untrack_def Let_def tsum_tdel tracked_def)
  have pos: "1 \<le> clients_from (sc_ip c) p"
  proof -
    have "(if sc_ip c = sc_ip c then 1 else 0) \<le> tsum (\<lambda>d. if sc_ip d = sc_ip c then 1 else (0 :: int)) (sp_clients p)"
      by (rule tsum_ge_row [where f = "\<lambda>d. if sc_ip d = sc_ip c then 1 else 0", OF _ assms(2)]) simp
    then show ?thesis by (simp add: clients_from_def)
  qed
  have "int (ip_count ip (untrack i (sc_ip c) p)) = clients_from ip (untrack i (sc_ip c) p)" for ip
  proof -
    have agree: "int (ip_count ip p) = clients_from ip p" for ip using assms(1) by (simp add: tracked_def)
    show ?thesis using pos agree [of ip] assms(2) ip_count_untrack [of p i ip "sc_ip c"] from_ip [of ip]
      by (cases "ip = sc_ip c") (auto simp: of_nat_diff)
  qed
  then show ?thesis using True assms tkeys_tdel [of i "sp_clients p"]
    by (auto simp: put_client_def tracked_def untrack_def Let_def list_all_iff tall_tdel)
next
  case False
  have "clients_from ip (p\<lparr>sp_clients := tmod i (\<lambda>_. c') (sp_clients p)\<rparr>) = clients_from ip p" for ip
    using assms(2,3) by (simp add: clients_from_def tsum_tmod)
  with False assms(1) show ?thesis
    by (auto simp: put_client_def tracked_def ip_count_def intro!: tall_tmod)
qed

lemma tracked_on_client:
  assumes "tracked p" and "\<And>c. sc_ip (f c) = sc_ip c"
  shows "tracked (on_client i f p)" and "length (sp_clients (on_client i f p)) \<le> length (sp_clients p)"
    and "clients_from ip (on_client i f p) \<le> clients_from ip p"
proof -
  show "tracked (on_client i f p)"
    using assms tracked_put_client by (auto simp: on_client_def split: option.splits)
  show "length (sp_clients (on_client i f p)) \<le> length (sp_clients p)"
    using length_tdel_le [of i "sp_clients p"]
    by (auto simp: on_client_def put_client_def untrack_def Let_def split: option.splits)
  show "clients_from ip (on_client i f p) \<le> clients_from ip p"
    using assms by (auto simp: on_client_def put_client_def untrack_def Let_def clients_from_def tracked_def
        tsum_tdel tsum_tmod split: option.splits)
qed

lemma start_ip [simp]: "sc_ip (start sock now chs l known c) = sc_ip c"
proof -
  have "sc_ip (sendMessage sock f m d) = sc_ip d" for f m d
    by (auto simp: sendMessage_def enqueue_def close_client_def writeFrame_def Let_def split: write_result.splits)
  then show ?thesis by (auto simp: start_def Let_def split: option.splits)
qed

text \<open>The process with one more client, before it is started.\<close>

definition admit :: "string \<Rightarrow> nat \<Rightarrow> stream_proc \<Rightarrow> stream_proc" where
  "admit ip n p = p\<lparr>sp_clients := sp_clients p @ [(sp_next p, new_client ip)], sp_next := sp_next p + 1,
     sp_byIp := tput ip (n + 1) (sp_byIp p), sp_gauge := length (sp_clients p) + 1, sp_total := sp_total p + 1\<rparr>"

lemma stream_open_admit:
  "stream_open sock now True (chs, n) ip l p =
     (Opened (sp_next p), on_client (sp_next p) (start (sock (sp_next p)) now chs l (sp_knownLedger p)) (admit ip n p))"
  by (simp add: stream_open_def admit_def Let_def)

lemma tracked_admit:
  assumes "tracked p" and "n = ip_count ip p"
  shows "tracked (admit ip n p)" and "clients_from ip' (admit ip n p) = clients_from ip' p + (if ip' = ip then 1 else 0)"
    and "length (sp_clients (admit ip n p)) = length (sp_clients p) + 1"
proof -
  show c: "clients_from ip' (admit ip n p) = clients_from ip' p + (if ip' = ip then 1 else 0)" for ip'
    by (simp add: clients_from_def admit_def tsum_def trows_def new_client_def)
  have "ip_count ip' (admit ip n p) = ip_count ip' p + (if ip' = ip then 1 else 0)" for ip'
    using assms(2) by (auto simp: ip_count_def admit_def)
  moreover have "sp_next p \<notin> fst ` set (sp_clients p)"
    using assms(1) by (force simp: tracked_def list_all_iff tkeys_def)
  ultimately show "tracked (admit ip n p)"
    using assms(1) c
    by (auto simp: tracked_def admit_def tuniq_def tkeys_def tall_def trows_def new_client_def list_all_iff
        clients_from_def ip_count_def)
  show "length (sp_clients (admit ip n p)) = length (sp_clients p) + 1" by (simp add: admit_def)
qed

lemma sendMessage_ip [simp]: "sc_ip (sendMessage sock f m c) = sc_ip c"
  by (auto simp: sendMessage_def enqueue_def close_client_def writeFrame_def Let_def split: write_result.splits)

lemma writeFrame_ip [simp]: "sc_ip (writeFrame sock f c) = sc_ip c"
  by (auto simp: writeFrame_def Let_def split: write_result.splits)

lemma flushQueue_ip [simp]: "sc_ip (flushQueue sock c) = sc_ip c"
proof (induction sock c rule: flushQueue.induct)
  case (1 sock c)
  then show ?case by (subst flushQueue.simps) simp
qed

lemma client_step_ip [simp]: "sc_ip (client_step sock e c) = sc_ip c"
  by (auto simp: client_step_def on_drain_def heartbeat_tick_def heartbeat_retry_def stall_timeout_def
      scheduleHeartbeatRetry_def close_client_def Let_def split: client_event.splits)

subsection \<open>Requests one after another\<close>

text \<open>
  The states of the process when each request is admitted before the next one is looked at, that
  is, when nothing runs between the two halves of the handler.
\<close>

inductive stream_reachable :: "stream_limits \<Rightarrow> stream_proc \<Rightarrow> bool" for lim where
  init: "sp_clients p = [] \<Longrightarrow> sp_byIp p = [] \<Longrightarrow> sp_gauge p = 0 \<Longrightarrow> stream_reachable lim p"
| request: "stream_reachable lim p \<Longrightarrow> stream_reachable lim (snd (stream_endpoint lim sock now listening chs ip l p))"
| event: "stream_reachable lim p \<Longrightarrow> stream_reachable lim (on_client i (client_step sock e) p)"
| notified: "stream_reachable lim p \<Longrightarrow> dispatchStreamNotification sock now ch raw p = Inr p' \<Longrightarrow> stream_reachable lim p'"
| lost: "stream_reachable lim p \<Longrightarrow> stream_reachable lim (connection_lost sock now p)"
| seeded: "stream_reachable lim p \<Longrightarrow> stream_reachable lim (seed_known m p)"
| drained: "stream_reachable lim p \<Longrightarrow> stream_reachable lim (drainStreamClients p)"

definition within_caps :: "stream_limits \<Rightarrow> stream_proc \<Rightarrow> bool" where
  "within_caps lim p = (length (sp_clients p) \<le> sl_maxConnections lim \<and>
     (\<forall>ip. clients_from ip p \<le> int (sl_maxConnectionsPerIp lim)))"

definition stream_inv :: "stream_limits \<Rightarrow> stream_proc \<Rightarrow> bool" where
  "stream_inv lim p = (tracked p \<and> within_caps lim p)"

lemma stream_inv_on_client:
  assumes "stream_inv lim p" and "\<And>c. sc_ip (f c) = sc_ip c"
  shows "stream_inv lim (on_client i f p)"
proof -
  have t: "tracked p" using assms(1) by (simp add: stream_inv_def)
  from tracked_on_client [OF t assms(2)] assms(1) show ?thesis
    unfolding stream_inv_def within_caps_def by (meson order_trans)
qed

lemma stream_inv_fold:
  assumes "\<And>x p. stream_inv lim p \<Longrightarrow> stream_inv lim (f x p)"
  shows "stream_inv lim p \<Longrightarrow> stream_inv lim (fold f xs p)"
  by (induction xs arbitrary: p) (simp_all add: assms)

lemma stream_inv_fan_out: "stream_inv lim p \<Longrightarrow> stream_inv lim (fan_out sock now ch payload p)"
  unfolding fan_out_def by (rule stream_inv_fold) (simp_all add: stream_inv_on_client)

lemma stream_inv_lost: "stream_inv lim p \<Longrightarrow> stream_inv lim (connection_lost sock now p)"
  unfolding connection_lost_def by (intro stream_inv_fold) (simp_all add: stream_inv_on_client)

lemma close_client_ip [simp]: "sc_ip (close_client c) = sc_ip c"
  by (simp add: close_client_def)

lemma stream_inv_drained: "stream_inv lim p \<Longrightarrow> stream_inv lim (drainStreamClients p)"
  unfolding drainStreamClients_def by (rule stream_inv_fold) (simp_all add: stream_inv_on_client)

lemma stream_inv_ledgers:
  "stream_inv lim (p\<lparr>sp_knownLedger := k\<rparr>) = stream_inv lim p" "stream_inv lim (p\<lparr>sp_lastReorg := r\<rparr>) = stream_inv lim p"
  by (simp_all add: stream_inv_def tracked_def within_caps_def clients_from_def ip_count_def)

lemma stream_inv_dispatch:
  assumes "stream_inv lim p" and "dispatchStreamNotification sock now ch raw p = Inr p'"
  shows "stream_inv lim p'"
proof -
  have "stream_inv lim p'" if "dispatch_payload sock now ch v p = Inr p'" for v
    using that assms(1)
    by (auto simp: dispatch_payload_def Let_def stream_inv_ledgers intro!: stream_inv_fan_out split: option.splits if_splits)
  with assms show ?thesis by (auto simp: dispatchStreamNotification_def split: if_splits option.splits)
qed

lemma stream_inv_request:
  assumes "stream_inv lim p"
  shows "stream_inv lim (snd (stream_endpoint lim sock now listening chs ip l p))"
proof (cases "stream_check lim chs ip p")
  case (Inl r)
  with assms show ?thesis by (simp add: stream_endpoint_def)
next
  case (Inr chk)
  show ?thesis
  proof (cases listening)
    case False
    with Inr assms show ?thesis by (simp add: stream_endpoint_def stream_open_def)
  next
    case True
    from Inr have n: "chk = (fst chk, ip_count ip p)" "length (sp_clients p) < sl_maxConnections lim"
      "ip_count ip p < sl_maxConnectionsPerIp lim"
      by (auto simp: stream_check_def split: sum.splits if_splits)
    have "stream_inv lim (admit ip (ip_count ip p) p)"
    proof -
      have t: "tracked p" and w: "within_caps lim p" using assms by (simp_all add: stream_inv_def)
      then have "clients_from ip p < int (sl_maxConnectionsPerIp lim)" using n(3) by (metis tracked_def of_nat_less_iff)
      with t w n(2) tracked_admit(1,3) [OF t refl, of ip] tracked_admit(2) [OF t refl, where ip = ip] show ?thesis
        by (auto simp: stream_inv_def within_caps_def)
    qed
    then have "stream_inv lim (on_client (sp_next p) (start (sock (sp_next p)) now (fst chk) l (sp_knownLedger p)) (admit ip (ip_count ip p) p))"
      by (rule stream_inv_on_client) simp
    moreover from n(1) obtain chs' where "chk = (chs', ip_count ip p)" by blast
    ultimately show ?thesis using Inr True by (simp add: stream_endpoint_def stream_open_admit)
  qed
qed

lemma stream_reachable_inv: "stream_reachable lim p \<Longrightarrow> stream_inv lim p"
proof (induction rule: stream_reachable.induct)
  case (init p)
  then show ?case by (simp add: stream_inv_def tracked_def within_caps_def clients_from_def ip_count_def tkeys_def)
next
  case (request p sock now listening chs ip l)
  then show ?case by (intro stream_inv_request)
next
  case (event p i sock e)
  then show ?case by (intro stream_inv_on_client) simp_all
next
  case (notified p sock now ch raw p')
  then show ?case using stream_inv_dispatch by blast
next
  case (lost p sock now)
  then show ?case by (intro stream_inv_lost)
next
  case (seeded p m)
  then show ?case by (simp add: seed_known_def stream_inv_ledgers)
next
  case (drained p)
  then show ?case by (intro stream_inv_drained)
qed

end
