(* ===== verification/Listener.thy ===== *)
theory Listener
  imports Prelude
begin

text \<open>
  The shared \<open>LISTEN\<close> connection of \<open>src/api/stream.ts\<close> (class \<open>SharedListener\<close>) as a state
  machine: its steps are the synchronous parts of its methods and of the callbacks it
  registers. Connections are numbered; an established one may report an error at any time.
\<close>

section \<open>State and operations\<close>

record reconnect_config =
  rc_initialMs :: nat
  rc_maxMs :: nat

record listener =
  ls_client :: "nat option"
  ls_connecting :: bool
  ls_reconnecting :: bool
  ls_reconnectTimer :: "nat option" \<comment> \<open>the delay of an armed timer\<close>
  ls_reconnectAttempt :: nat
  ls_stopped :: bool
  ls_retrying :: bool \<comment> \<open>the reconnect timer's \<open>ensureStarted().then\<close> is pending\<close>
  ls_ending :: bool \<comment> \<open>\<open>deadClient.end()\<close> is pending\<close>
  ls_opened :: nat \<comment> \<open>connections opened so far\<close>

definition new_listener :: listener where
  "new_listener = \<lparr>ls_client = None, ls_connecting = False, ls_reconnecting = False, ls_reconnectTimer = None,
     ls_reconnectAttempt = 0, ls_stopped = False, ls_retrying = False, ls_ending = False, ls_opened = 0\<rparr>"

definition ensureStarted :: "listener \<Rightarrow> listener" where
  "ensureStarted l =
     (let l1 = l\<lparr>ls_stopped := False\<rparr> in
      if ls_client l1 \<noteq> None then l1
      else l1\<lparr>ls_connecting := True\<rparr>)"

definition reconnect_delay :: "reconnect_config \<Rightarrow> nat \<Rightarrow> nat" where
  "reconnect_delay rc attempt = min (rc_initialMs rc * 2 ^ attempt) (rc_maxMs rc)"

definition scheduleReconnect :: "reconnect_config \<Rightarrow> listener \<Rightarrow> listener" where
  "scheduleReconnect rc l =
     (if ls_stopped l \<or> ls_reconnectTimer l \<noteq> None \<or> ls_client l \<noteq> None \<or> ls_connecting l then l
      else l\<lparr>ls_reconnectTimer := Some (reconnect_delay rc (ls_reconnectAttempt l)),
             ls_reconnectAttempt := ls_reconnectAttempt l + 1\<rparr>)"

text \<open>The reconnect timer's callback.\<close>

definition reconnect_fire :: "listener \<Rightarrow> listener" where
  "reconnect_fire l =
     (let l1 = l\<lparr>ls_reconnectTimer := None\<rparr> in
      if ls_stopped l1 then l1
      else let l2 = ensureStarted l1 in
        if ls_client l2 \<noteq> None then l2\<lparr>ls_reconnectAttempt := 0\<rparr> else l2\<lparr>ls_retrying := True\<rparr>)"

text \<open>\<open>connect()\<close> completing, and failing at \<open>connect\<close> or a \<open>LISTEN\<close>.\<close>

definition connect_done :: "listener \<Rightarrow> listener" where
  "connect_done l =
     (let l1 = l\<lparr>ls_client := Some (ls_opened l), ls_opened := ls_opened l + 1, ls_connecting := False\<rparr> in
      if ls_retrying l1 then l1\<lparr>ls_retrying := False, ls_reconnectAttempt := 0\<rparr> else l1)"

definition connect_failed :: "reconnect_config \<Rightarrow> listener \<Rightarrow> listener" where
  "connect_failed rc l =
     (let l1 = l\<lparr>ls_connecting := False\<rparr> in
      if ls_retrying l1 then scheduleReconnect rc (l1\<lparr>ls_retrying := False\<rparr>) else l1)"

text \<open>The \<open>error\<close> callback (the messages to the clients aside): \<open>deadClient?.end()...\<close> does
  nothing at all when there is no client.\<close>

definition connection_error :: "listener \<Rightarrow> listener" where
  "connection_error l =
     (if ls_reconnecting l then l
      else l\<lparr>ls_reconnecting := True, ls_client := None, ls_ending := (ls_client l \<noteq> None \<or> ls_ending l)\<rparr>)"

definition end_done :: "reconnect_config \<Rightarrow> listener \<Rightarrow> listener" where
  "end_done rc l = scheduleReconnect rc (l\<lparr>ls_ending := False, ls_reconnecting := False\<rparr>)"

text \<open>\<open>shutdown\<close>, once its wait for \<open>reconnecting\<close> is over.\<close>

definition shutdown :: "listener \<Rightarrow> listener" where
  "shutdown l = l\<lparr>ls_stopped := True, ls_reconnectTimer := None, ls_reconnectAttempt := 0, ls_client := None\<rparr>"

section \<open>Steps\<close>

inductive listener_step :: "reconnect_config \<Rightarrow> listener \<Rightarrow> listener \<Rightarrow> bool" for rc where
  request: "listener_step rc l (ensureStarted l)"
| connected: "ls_connecting l \<Longrightarrow> listener_step rc l (connect_done l)"
| failed: "ls_connecting l \<Longrightarrow> listener_step rc l (connect_failed rc l)"
| error: "k < ls_opened l \<Longrightarrow> listener_step rc l (connection_error l)"
| ended: "ls_ending l \<Longrightarrow> listener_step rc l (end_done rc l)"
| timer: "ls_reconnectTimer l = Some d \<Longrightarrow> listener_step rc l (reconnect_fire l)"
| stop: "\<not> ls_reconnecting l \<Longrightarrow> listener_step rc l (shutdown l)"

text \<open>
  The same when only the connection in use reports errors and an attempt to connect made for a
  request succeeds (attempts made by the reconnect timer may fail).
\<close>

inductive sound_step :: "reconnect_config \<Rightarrow> listener \<Rightarrow> listener \<Rightarrow> bool" for rc where
  s_request: "sound_step rc l (ensureStarted l)"
| s_connected: "ls_connecting l \<Longrightarrow> sound_step rc l (connect_done l)"
| s_failed: "ls_connecting l \<Longrightarrow> ls_retrying l \<Longrightarrow> sound_step rc l (connect_failed rc l)"
| s_error: "ls_client l = Some k \<Longrightarrow> sound_step rc l (connection_error l)"
| s_ended: "ls_ending l \<Longrightarrow> sound_step rc l (end_done rc l)"
| s_timer: "ls_reconnectTimer l = Some d \<Longrightarrow> sound_step rc l (reconnect_fire l)"
| s_stop: "\<not> ls_reconnecting l \<Longrightarrow> sound_step rc l (shutdown l)"

section \<open>A lost connection is being replaced\<close>

definition delay_ok :: "reconnect_config \<Rightarrow> listener \<Rightarrow> bool" where
  "delay_ok rc l = (case ls_reconnectTimer l of None \<Rightarrow> True | Some d \<Rightarrow> d \<le> rc_maxMs rc)"

lemma delay_ok_step: "listener_step rc l l' \<Longrightarrow> delay_ok rc l \<Longrightarrow> delay_ok rc l'"
  by (induction rule: listener_step.induct)
     (auto simp: delay_ok_def ensureStarted_def connect_done_def connect_failed_def connection_error_def end_done_def
       reconnect_fire_def shutdown_def scheduleReconnect_def reconnect_delay_def Let_def split: option.splits)

lemmas listener_defs = ensureStarted_def connect_done_def connect_failed_def connection_error_def end_done_def
  reconnect_fire_def shutdown_def scheduleReconnect_def Let_def

definition being_replaced :: "listener \<Rightarrow> bool" where
  "being_replaced l =
     ((ls_reconnecting l \<longleftrightarrow> ls_ending l) \<and> (ls_retrying l \<longrightarrow> ls_connecting l) \<and>
      (0 < ls_opened l \<and> ls_client l = None \<and> \<not> ls_stopped l \<longrightarrow>
        ls_connecting l \<or> ls_reconnectTimer l \<noteq> None \<or> ls_ending l))"

lemma being_replaced_step: "sound_step rc l l' \<Longrightarrow> being_replaced l \<Longrightarrow> being_replaced l'"
  by (induction rule: sound_step.induct) (auto simp: being_replaced_def listener_defs)

lemma sound_step_is_step:
  assumes "sound_step rc l l'" and "0 < ls_opened l \<or> ls_client l = None"
  shows "listener_step rc l l'"
  using assms by (cases rule: sound_step.cases) (auto intro: listener_step.intros)

definition listener_inv :: "reconnect_config \<Rightarrow> listener \<Rightarrow> bool" where
  "listener_inv rc l = (being_replaced l \<and> delay_ok rc l \<and> (ls_client l \<noteq> None \<longrightarrow> 0 < ls_opened l))"

lemma sound_run_inv:
  assumes "(sound_step rc)\<^sup>*\<^sup>* new_listener l"
  shows "listener_inv rc l"
  using assms
proof (induction rule: rtranclp_induct)
  case base
  then show ?case by (simp add: listener_inv_def being_replaced_def delay_ok_def new_listener_def)
next
  case (step l l')
  have "ls_client l' \<noteq> None \<longrightarrow> 0 < ls_opened l'"
    using step.hyps(2) step.IH by (induction rule: sound_step.induct) (auto simp: listener_inv_def listener_defs)
  moreover have "listener_step rc l l'"
    using step.hyps(2) step.IH by (intro sound_step_is_step) (auto simp: listener_inv_def)
  ultimately show ?case
    using step being_replaced_step delay_ok_step by (auto simp: listener_inv_def)
qed

text \<open>Two ways in which the replacement is lost.\<close>

definition wedged :: "listener \<Rightarrow> bool" where
  "wedged l = (ls_reconnecting l \<and> \<not> ls_ending l)"

lemma wedged_step: "listener_step rc l l' \<Longrightarrow> wedged l \<Longrightarrow> wedged l'"
  by (induction rule: listener_step.induct) (auto simp: wedged_def listener_defs)

lemma wedged_run: "(listener_step rc)\<^sup>*\<^sup>* l l' \<Longrightarrow> wedged l \<Longrightarrow> wedged l'"
  by (induction rule: rtranclp_induct) (auto intro: wedged_step)

lemma late_error_wedges:
  assumes "ls_client l = None" and "\<not> ls_reconnecting l" and "\<not> ls_ending l"
  shows "wedged (connection_error l)"
  using assms by (simp add: wedged_def connection_error_def)

definition idle :: "listener \<Rightarrow> bool" where
  "idle l = (ls_client l = None \<and> \<not> ls_connecting l \<and> ls_reconnectTimer l = None \<and> \<not> ls_ending l \<and> \<not> ls_stopped l)"

text \<open>A request that arrives while the lost connection is being closed, and whose own attempt to
  connect fails.\<close>

definition cancelled_reconnect :: "reconnect_config \<Rightarrow> listener" where
  "cancelled_reconnect rc =
     connect_failed rc (end_done rc (ensureStarted (connection_error (connect_done (ensureStarted new_listener)))))"

lemma cancelled_reconnect_run: "(listener_step rc)\<^sup>*\<^sup>* new_listener (cancelled_reconnect rc)"
proof -
  let ?l1 = "connect_done (ensureStarted new_listener)"
  let ?l2 = "ensureStarted (connection_error ?l1)"
  have "listener_step rc new_listener (ensureStarted new_listener)" by (rule listener_step.request)
  moreover have "listener_step rc (ensureStarted new_listener) ?l1"
    by (rule listener_step.connected) (simp add: listener_defs new_listener_def)
  moreover have "listener_step rc ?l1 (connection_error ?l1)"
    by (rule listener_step.error [of 0]) (simp add: listener_defs new_listener_def)
  moreover have "listener_step rc (connection_error ?l1) ?l2" by (rule listener_step.request)
  moreover have "listener_step rc ?l2 (end_done rc ?l2)"
    by (rule listener_step.ended) (simp add: listener_defs new_listener_def)
  moreover have "listener_step rc (end_done rc ?l2) (cancelled_reconnect rc)"
    unfolding cancelled_reconnect_def by (rule listener_step.failed) (simp add: listener_defs new_listener_def)
  ultimately show ?thesis by (meson converse_rtranclp_into_rtranclp rtranclp.rtrancl_refl)
qed

lemma cancelled_reconnect_idle: "idle (cancelled_reconnect rc) \<and> 0 < ls_opened (cancelled_reconnect rc)"
  by (simp add: idle_def cancelled_reconnect_def listener_defs new_listener_def)

end
