(* ===== verification/Api_Examples.thy ===== *)
theory Api_Examples
  imports Auth_Facts Stream_Facts Listener
begin

text \<open>
  Concrete nonce stores, requests, stream clients and payloads on which the theorems about the
  API side are instantiated.
\<close>

section \<open>Authentication\<close>

definition nonce_cfg :: nonce_config where
  "nonce_cfg = \<lparr>nc_ttlMs = 300, nc_maxEntries = 10\<rparr>"

definition issue_at :: "nat \<Rightarrow> nat \<Rightarrow> issue_env" where
  "issue_at t r = \<lparr>ie_dbNow = int t, ie_timestamp = t, ie_expiryNow = t, ie_random = [r, 255]\<rparr>"

definition empty_memory :: memory_store where
  "empty_memory = \<lparr>ms_store = [], ms_counts = []\<rparr>"

definition nonce1 :: string where
  "nonce1 = ie_nonce (issue_at 1000 7)"

definition store1 :: memory_store where
  "store1 = snd (memory_issue nonce_cfg (issue_at 1000 7) ''GALICE'' empty_memory)"

definition table1 :: nonce_table where
  "table1 = snd (postgres_issue nonce_cfg (issue_at 1000 7) ''GALICE'' [])"

lemma memory_inv_empty: "memory_inv empty_memory" "memory_owner empty_memory n = None"
  by (simp_all add: memory_inv_def empty_memory_def memory_owner_def entry_owner_def)

lemma memory_inv_store1: "memory_inv store1"
  unfolding store1_def by (rule mem.issue_inv [OF memory_inv_empty(1)])

lemma store1_owner: "memory_owner store1 nonce1 = Some (''GALICE'', 1300)" by code_simp
lemma table1_owner: "entry_owner table1 nonce1 = Some (''GALICE'', 1300)" by code_simp

definition replay_ops :: "nonce_op list" where
  "replay_ops = [Issue (issue_at 1000 7) ''GALICE'', Consume 1100 ''GALICE'' nonce1, Sweep 1150,
     Consume 1200 ''GALICE'' nonce1]"

definition attack_ops :: "nonce_op list" where
  "attack_ops = [Consume 1100 ''GMALLORY'' nonce1, Sweep 1150, Consume 1200 ''GMALLORY'' nonce1]"

definition sdk0 :: sdk where
  "sdk0 = \<lparr>sdk_isValidEd25519PublicKey = (\<lambda>a. js_startsWith a ''G''),
     sdk_isValidMed25519PublicKey = (\<lambda>a. js_startsWith a ''M''),
     sdk_isValidContract = (\<lambda>a. js_startsWith a ''C''),
     sdk_muxedBase = (\<lambda>a. Inr (CHR ''G'' # tl a)),
     sdk_verify = (\<lambda>k d sg. Inr (hd sg = length k))\<rparr>"

definition signature0 :: string where
  "signature0 = ''Bg'' @ replicate 84 (CHR ''A'')"

definition headers0 :: "(string \<times> jsval) list" where
  "headers0 = [(''authorization'', JStr (''StellarSignature GALICE:'' @ signature0 @ '':'' @ nonce1))]"

definition stats0 :: auth_stats where
  "stats0 = \<lparr>as_challengesIssued = 0, as_verificationsSucceeded = 0,
     as_verificationsFailed = \<lparr>vf_missingHeaders = 0, vf_invalidNonce = 0, vf_invalidSignature = 0,
       vf_addressMismatch = 0, vf_malformedEncoding = 0, vf_unsupportedAddressType = 0\<rparr>\<rparr>"

definition auth0 :: "'s \<Rightarrow> 's auth_state" where
  "auth0 s = \<lparr>au_stats = stats0, au_tracker = Some [], au_store = s\<rparr>"

section \<open>Streams\<close>

definition vote_at :: "int \<Rightarrow> jsval" where
  "vote_at l = JObj [(''symbol'', JStr ''loan_vote''), (''ledger'', JNum (NInt l)), (''timestamp'', JNum (NInt 9))]"

definition all_well :: socket where
  "all_well n = WriteOk"

definition slow_reader :: socket where
  "slow_reader n = (if n = 1 then WriteFull else WriteOk)"

definition client0 :: stream_client where
  "client0 = start all_well 1 (Some [Own ''loans_changed'']) None (Some (NInt 5)) (new_client ''10.0.0.1'')"

definition proc0 :: stream_proc where
  "proc0 = \<lparr>sp_clients = [(0, client0)], sp_next = 1, sp_byIp = [(''10.0.0.1'', 1)], sp_gauge = 1, sp_total = 1,
     sp_knownLedger = Some (NInt 5), sp_lastReorg = None\<rparr>"

definition empty_proc :: stream_proc where
  "empty_proc = \<lparr>sp_clients = [], sp_next = 0, sp_byIp = [], sp_gauge = 0, sp_total = 0,
     sp_knownLedger = None, sp_lastReorg = None\<rparr>"

lemma takes_all_examples: "takes_all all_well" "takes_all slow_reader"
  by (simp_all add: takes_all_def all_well_def slow_reader_def)

lemma client_ok_client0: "client_ok client0" "\<not> sc_released client0"
  using client_ok_start by (simp_all add: client0_def)

definition slow_events :: "client_event list" where
  "slow_events = [Receive 2 ''loans_changed'' (vote_at 6), Receive 3 ''loans_changed'' (vote_at 7), Tick 4, Drain,
     Receive 5 ''loans_changed'' (vote_at 8)]"

definition retry_events :: "client_event list" where
  "retry_events = [Receive 2 ''loans_changed'' (vote_at 6), Receive 3 ''loans_changed'' (vote_at 7), Tick 4, Retry 5,
     Receive 6 ''loans_changed'' (vote_at 8), Drain]"

definition lim1 :: stream_limits where
  "lim1 = \<lparr>sl_maxConnections = 10, sl_maxConnectionsPerIp = 1, sl_retryAfterSeconds = 30\<rparr>"

definition two_requests :: stream_proc where
  "two_requests =
     (let chk = projr (stream_check lim1 JUndefined ''10.0.0.1'' empty_proc);
          p1 = snd (stream_open (\<lambda>_. all_well) 1 True chk ''10.0.0.1'' None empty_proc)
      in snd (stream_open (\<lambda>_. all_well) 2 True chk ''10.0.0.1'' None p1))"

end
