(* ===== verification/Observations.thy ===== *)
theory Observations
  imports Examples Api_Examples
begin

text \<open>
  Further facts about the indexer and the API side, with concrete runs: consequences of the
  component lemmas, and behaviours that differ from what comments in the source promise.
\<close>

text \<open>
  A page transaction succeeds whenever the lock is free, its events decode, none lies below the
  last folded ledger, the database raises no fault and the handlers accept the events that
  still need folding.
\<close>

lemma ingestPage_succeeds:
  assumes "en_lock_free en" and "decode_page scv raws = Inr evs"
    and "\<forall>ev \<in> set evs. (l = 0 \<or> l \<le> ev_ledger ev) \<and> en_insert_fault en (ev_id ev) = None \<and>
           en_fold_fault en (ev_id ev) = None"
    and "is_ok (fold_events (fresh (is_folded db) evs) (db_derived db))"
  shows "is_ok (fst (ingestPage scv en raws l db))"
  using ingest_loop_ok [OF assms(2-4), of "[]"] assms(1)
  by (auto simp: ingestPage_def)

lemma ingestPage_succeeds_example:
  "is_ok (fst (ingestPage wire (healthy 9) good_page 4 empty_db))"
proof (rule ingestPage_succeeds [OF _ decode_good_page])
  have "list_all (\<lambda>ev. 4 \<le> ev_ledger ev) good_events" by code_simp
  then show "\<forall>ev \<in> set good_events. ((4 :: nat) = 0 \<or> 4 \<le> ev_ledger ev) \<and>
      en_insert_fault (healthy 9) (ev_id ev) = None \<and> en_fold_fault (healthy 9) (ev_id ev) = None"
    by (simp add: list_all_iff)
  show "is_ok (fold_events (fresh (is_folded empty_db) good_events) (db_derived empty_db))"
    by code_simp
qed simp

text \<open>
  The failure counter survives a restart: what was persisted for a contract is what the next
  process loads, and persisting it for one contract leaves the rows of the others.
\<close>

lemma quarantine_counter_survives_restart:
  assumes "en_state_writable en" and "en_state_readable en'"
    and "qs_pageKey s \<noteq> []" and "qs_errorMessage s \<noteq> []"
  shows "loadQuarantineState en' c (persistQuarantineState en c (Some s) esc db) = Some s \<and>
    (\<forall>c'. c' \<noteq> c \<longrightarrow> tget (db_quarantine (persistQuarantineState en c (Some s) esc db)) c' = tget (db_quarantine db) c')"
  using load_persisted_state [OF assms] persist_other_contract by blast

lemma quarantine_counter_survives_restart_example:
  "loadQuarantineState (healthy 2) ''CDAO'' (persistQuarantineState (healthy 1) ''CDAO''
     (Some \<lparr>qs_pageKey = ''e1..e2:2'', qs_errorMessage = ''boom'', qs_failures = 2\<rparr>) True empty_db) =
   Some \<lparr>qs_pageKey = ''e1..e2:2'', qs_errorMessage = ''boom'', qs_failures = 2\<rparr>"
  using quarantine_counter_survives_restart [of "healthy 1" "healthy 2"
      "\<lparr>qs_pageKey = ''e1..e2:2'', qs_errorMessage = ''boom'', qs_failures = 2\<rparr>" "''CDAO''" True empty_db]
  by simp

text \<open>
  In general a rebuild computes the fold of the whole log in its order with the read flags
  restored, clears the recorded discontinuities and closes every failure record.
\<close>

lemma reindex_is_the_fold_of_the_log:
  assumes "en_lock_free en" and "tuniq (db_events db)"
    and "list_all2 stores (sort_key row_key (db_events db)) evs"
    and "\<forall>ev \<in> set evs. en_fold_fault en (ev_id ev) = None"
    and "fold_events evs empty_derived = Inr d"
  shows "\<exists>es db'. reindexFromEventLog en n db = (Inr (length evs, es), db') \<and>
    db_derived db' = fold restore_read (saved_reads (db_derived db)) d \<and>
    db_events db' = db_events db \<and> loadUnclearedReorgHalt db' = None \<and> (\<forall>i. \<not> unresolved db' i)"
  using assms by (rule reindex_is_fold)

lemma reindex_is_the_fold_of_the_log_example:
  "\<exists>es db'. reindexFromEventLog (healthy 12) 2 db_quarantined = (Inr (3, es), db') \<and>
    votes_for db' = Some 3 \<and> (\<forall>i. \<not> unresolved db' i)"
proof -
  let ?d = "projr (fold_events good_events empty_derived)"
  have n: "length good_events = 3" by code_simp
  have "\<exists>es db'. reindexFromEventLog (healthy 12) 2 db_quarantined = (Inr (length good_events, es), db') \<and>
      db_derived db' = fold restore_read (saved_reads (db_derived db_quarantined)) ?d \<and>
      db_events db' = db_events db_quarantined \<and> loadUnclearedReorgHalt db' = None \<and> (\<forall>i. \<not> unresolved db' i)"
  proof (rule reindex_is_the_fold_of_the_log)
    show "tuniq (db_events db_quarantined)" by code_simp
    show "list_all2 stores (sort_key row_key (db_events db_quarantined)) good_events" by code_simp
    show "fold_events good_events empty_derived = Inr ?d" by code_simp
  qed simp_all
  moreover have "map_option lp_votes_for (tget (loan_proposals (fold restore_read
      (saved_reads (db_derived db_quarantined)) ?d)) 1) = Some 3" by code_simp
  ultimately show ?thesis by (auto simp: n votes_for_def)
qed

text \<open>
  Replaying an event again after it was replayed or found resolved changes nothing.
\<close>

lemma replay_is_idempotent:
  assumes "replayFailedEvent en res i db = (Inr (oc, es), db')" and "\<forall>m. oc \<noteq> Still_failing m"
    and "en_lock_free en'"
  shows "replayFailedEvent en' res' i db' = (Inr (Already_resolved, []), db')"
  by (rule replay_again [OF assms(1) _ assms(3)]) (use assms(2) in simp)

lemma replay_is_idempotent_example:
  "\<exists>db'. db' = snd (replayFailedEvent (healthy 14) R_resolved ''e2'' db_quarantined) \<and>
     replayFailedEvent (healthy 15) R_ignored ''e2'' db' = (Inr (Already_resolved, []), db')"
proof -
  let ?r = "replayFailedEvent (healthy 14) R_resolved ''e2'' db_quarantined"
  have "(case fst ?r of Inr (oc, es) \<Rightarrow> oc = Replayed | Inl e \<Rightarrow> False)" by code_simp
  then obtain es where r: "?r = (Inr (Replayed, es), snd ?r)"
    by (cases ?r) (auto split: sum.splits)
  from replay_is_idempotent [OF r] show ?thesis by simp
qed

text \<open>
  Expired nonces presented by another address are dropped but stay counted against their owner:
  once every nonce of an address at its limit has been dropped this way, the store holds none of
  its nonces and yet refuses to issue one.
\<close>

lemma foreign_presentation_of_expired_nonces_locks_the_owner_out:
  assumes "memory_run cfg s" and "a \<noteq> b"
    and "\<forall>p \<in> set (ms_store s). ne_address (snd p) = b \<longrightarrow> ne_expiresAt (snd p) < t"
    and "s' = present_all t a (nonces_of b s) s"
  shows "outstanding s' b = 0 \<and> count_of s' b = count_of s b \<and>
    (count_of s b = MAX_NONCES_PER_ADDRESS \<longrightarrow> \<not> is_ok (fst (memory_issue cfg e b s')))"
proof -
  have "counts_agree s" using memory_run_bounded [OF assms(1)] by blast
  from present_all_foreign [OF this assms(2,3)] assms(4) show ?thesis by (simp add: memory_issue_def)
qed

lemma foreign_presentation_of_expired_nonces_locks_the_owner_out_example:
  "outstanding (present_all 2000 ''GMALLORY'' [nonce1] store1) ''GALICE'' = 0 \<and>
   count_of (present_all 2000 ''GMALLORY'' [nonce1] store1) ''GALICE'' = 1"
proof -
  have r: "memory_run nonce_cfg store1"
    unfolding store1_def empty_memory_def by (intro memory_run.issue memory_run.start) simp
  have x: "\<forall>p \<in> set (ms_store store1). ne_address (snd p) = ''GALICE'' \<longrightarrow> ne_expiresAt (snd p) < 2000"
    by code_simp
  have n: "nonces_of ''GALICE'' store1 = [nonce1]" "count_of store1 ''GALICE'' = 1" by code_simp+
  from foreign_presentation_of_expired_nonces_locks_the_owner_out [OF r _ x refl, of "''GMALLORY''"]
  show ?thesis by (simp add: n)
qed

text \<open>
  The exception: a heartbeat retry that finds the socket writable again resumes writing without
  flushing the queue, so the next notification overtakes the queued ones and the client sees
  ledger 8 before ledger 7, with a smaller event id last.
\<close>

lemma heartbeat_retry_reorders_frames:
  "sc_out (client_run slow_reader retry_events client0) =
     sc_out client0 @ [frame_text (NInt 6) (notification ''loans_changed'' (vote_at 6) 2),
       frame_text (NInt 7) (heartbeat 5),
       frame_text (NInt 8) (notification ''loans_changed'' (vote_at 8) 6),
       frame_text (NInt 7) (notification ''loans_changed'' (vote_at 7) 3)]"
  by code_simp

text \<open>
  Dispatching a notification throws exactly when its payload is the JSON value \<open>null\<close>; any other
  payload, well formed or not, is delivered or dropped.
\<close>

lemma dispatch_throws_exactly_on_null:
  "(\<exists>e. dispatchStreamNotification sock now ch raw p = Inl e) \<longleftrightarrow> raw \<noteq> [] \<and> JSON_parse raw = Some JNull"
  by (rule dispatch_throws_iff)

text \<open>
  Two requests from one address that are both checked before either is registered are both
  admitted past a limit of one, their count is one too low, and after one of them closes the
  address counts as unconnected.
\<close>

lemma interleaved_admission_exceeds_the_cap:
  "clients_from ''10.0.0.1'' two_requests = 2 \<and> ip_count ''10.0.0.1'' two_requests = 1 \<and>
   clients_from ''10.0.0.1'' (on_client 0 close_client two_requests) = 1 \<and>
   ip_count ''10.0.0.1'' (on_client 0 close_client two_requests) = 0"
  by code_simp

text \<open>
  A request that arrives while the lost connection is being closed and whose own attempt fails
  leaves the listener without a connection, an attempt or a timer.
\<close>

lemma request_during_close_cancels_the_reconnect:
  "(listener_step rc)\<^sup>*\<^sup>* new_listener (cancelled_reconnect rc) \<and> 0 < ls_opened (cancelled_reconnect rc) \<and> idle (cancelled_reconnect rc)"
  using cancelled_reconnect_run cancelled_reconnect_idle by blast

end
