(* ===== verification/Http.thy ===== *)
theory Http
  imports JsValue
begin

text \<open>
  What every response of the API goes through: the error envelope and the classification of
  thrown errors (\<open>src/api/errors.ts\<close>), the cache policies (\<open>src/api/cache-policy.ts\<close>) and the
  concurrency gate in front of the statistics (\<open>src/api/load-shedding.ts\<close>). Log lines are not
  modelled.
\<close>

section \<open>Error codes\<close>

datatype error_code =
    BAD_REQUEST | VALIDATION_FAILED | UNAUTHORIZED | FORBIDDEN | NOT_FOUND | ROUTE_NOT_FOUND
  | REQUEST_TIMEOUT | PAYLOAD_TOO_LARGE | RATE_LIMITED | CLIENT_ERROR | RESOURCE_ALREADY_EXISTS
  | RELATED_DATA_CONFLICT | CONSTRAINT_VIOLATION | MISSING_REQUIRED_VALUE | DATABASE_UNAVAILABLE
  | SERVICE_UNAVAILABLE | INTERNAL_ERROR

definition ERROR_CODES :: "(error_code \<times> string) list" where
  "ERROR_CODES =
     [(BAD_REQUEST, ''BAD_REQUEST''), (VALIDATION_FAILED, ''VALIDATION_FAILED''),
      (UNAUTHORIZED, ''UNAUTHORIZED''), (FORBIDDEN, ''FORBIDDEN''), (NOT_FOUND, ''NOT_FOUND''),
      (ROUTE_NOT_FOUND, ''ROUTE_NOT_FOUND''), (REQUEST_TIMEOUT, ''REQUEST_TIMEOUT''),
      (PAYLOAD_TOO_LARGE, ''PAYLOAD_TOO_LARGE''), (RATE_LIMITED, ''RATE_LIMITED''),
      (CLIENT_ERROR, ''CLIENT_ERROR''), (RESOURCE_ALREADY_EXISTS, ''RESOURCE_ALREADY_EXISTS''),
      (RELATED_DATA_CONFLICT, ''RELATED_DATA_CONFLICT''), (CONSTRAINT_VIOLATION, ''CONSTRAINT_VIOLATION''),
      (MISSING_REQUIRED_VALUE, ''MISSING_REQUIRED_VALUE''), (DATABASE_UNAVAILABLE, ''DATABASE_UNAVAILABLE''),
      (SERVICE_UNAVAILABLE, ''SERVICE_UNAVAILABLE''), (INTERNAL_ERROR, ''INTERNAL_ERROR'')]"

definition code_name :: "error_code \<Rightarrow> string" where
  "code_name c = the (map_of ERROR_CODES c)"

definition isErrorCode :: "jsval \<Rightarrow> bool" where
  "isErrorCode v = (case v of JStr s \<Rightarrow> s \<in> set (map snd ERROR_CODES) | _ \<Rightarrow> False)"

definition codeForStatus :: "int \<Rightarrow> error_code" where
  "codeForStatus status =
     (if status = 400 then BAD_REQUEST else if status = 401 then UNAUTHORIZED
      else if status = 403 then FORBIDDEN else if status = 404 then NOT_FOUND
      else if status = 408 then REQUEST_TIMEOUT else if status = 413 then PAYLOAD_TOO_LARGE
      else if status = 429 then RATE_LIMITED else if status = 503 then SERVICE_UNAVAILABLE
      else if 400 \<le> status \<and> status < 500 then CLIENT_ERROR else INTERNAL_ERROR)"

section \<open>Classification\<close>

text \<open>What the code reads of a thrown value.\<close>

record thrown =
  th_validation :: bool
  th_statusCode :: "int option"
  th_message :: string
  th_code :: "string option"

record classified =
  cl_status :: int
  cl_error :: string
  cl_code :: error_code
  cl_leak :: bool

definition PG_STATUS :: "(string \<times> classified) list" where
  "PG_STATUS =
     [(''23505'', \<lparr>cl_status = 409, cl_error = ''resource already exists'', cl_code = RESOURCE_ALREADY_EXISTS, cl_leak = True\<rparr>),
      (''23503'', \<lparr>cl_status = 409, cl_error = ''request conflicts with related data'', cl_code = RELATED_DATA_CONFLICT, cl_leak = True\<rparr>),
      (''23514'', \<lparr>cl_status = 422, cl_error = ''request violates a data constraint'', cl_code = CONSTRAINT_VIOLATION, cl_leak = True\<rparr>),
      (''23502'', \<lparr>cl_status = 422, cl_error = ''request is missing a required value'', cl_code = MISSING_REQUIRED_VALUE, cl_leak = True\<rparr>)]"

definition PG_CONNECTION_CODES :: "string list" where
  "PG_CONNECTION_CODES =
     [''08000'', ''08003'', ''08006'', ''08001'', ''08004'', ''08007'', ''08P01'', ''57P01'', ''57P02'', ''57P03'', ''53300'',
      ''ECONNREFUSED'', ''ECONNRESET'', ''ETIMEDOUT'', ''ENOTFOUND'', ''EPIPE'']"

text \<open>\<open>/^[0-9A-Z]{5}$/\<close>.\<close>

definition is_sqlstate :: "string \<Rightarrow> bool" where
  "is_sqlstate s = (length s = 5 \<and>
     list_all (\<lambda>c. is_digit c \<or> 65 \<le> (of_char c :: nat) \<and> (of_char c :: nat) \<le> 90) s)"

definition internal_error :: classified where
  "internal_error = \<lparr>cl_status = 500, cl_error = ''internal server error'', cl_code = INTERNAL_ERROR, cl_leak = True\<rparr>"

definition classify_status :: "thrown \<Rightarrow> classified" where
  "classify_status e =
     (let status = (case th_statusCode e of Some s \<Rightarrow> s | None \<Rightarrow> 500) in
      if 400 \<le> status \<and> status < 500
      then \<lparr>cl_status = status, cl_error = (if th_message e = [] then ''bad request'' else th_message e),
            cl_code = codeForStatus status, cl_leak = False\<rparr>
      else let status5xx = (if 500 \<le> status \<and> status \<le> 599 then status else 500) in
        \<lparr>cl_status = status5xx, cl_error = ''internal server error'', cl_code = codeForStatus status5xx, cl_leak = True\<rparr>)"

text \<open>
  \<open>None\<close> is the spread of a property that \<open>PG_STATUS\<close> inherits from \<open>Object.prototype\<close>: it has
  neither a status nor a message.
\<close>

definition classifyError :: "thrown \<Rightarrow> classified option" where
  "classifyError e =
     (if th_validation e
      then Some \<lparr>cl_status = (case th_statusCode e of Some s \<Rightarrow> s | None \<Rightarrow> 400), cl_error = th_message e,
                 cl_code = VALIDATION_FAILED, cl_leak = False\<rparr>
      else case th_code e of
             None \<Rightarrow> Some (classify_status e)
           | Some code \<Rightarrow>
               if code = [] then Some (classify_status e)
               else if code \<in> set PG_CONNECTION_CODES
               then Some \<lparr>cl_status = 503, cl_error = ''database temporarily unavailable'',
                          cl_code = DATABASE_UNAVAILABLE, cl_leak = True\<rparr>
               else case obj_get PG_STATUS code of
                      Own c \<Rightarrow> Some c
                    | Inherited _ \<Rightarrow> None
                    | Missing \<Rightarrow> if is_sqlstate code then Some internal_error else Some (classify_status e))"

text \<open>The errors of the program as thrown values; only a replay conflict chooses its status.\<close>

definition thrown_of :: "exn \<Rightarrow> thrown" where
  "thrown_of e =
     \<lparr>th_validation = False, th_statusCode = (case e of ReplayLockError _ \<Rightarrow> Some 409 | _ \<Rightarrow> None),
      th_message = error_message e, th_code = (case e of PgError c _ \<Rightarrow> Some c | _ \<Rightarrow> None)\<rparr>"

section \<open>The envelope\<close>

definition envelope :: "string \<Rightarrow> error_code \<Rightarrow> string \<Rightarrow> jsval" where
  "envelope err c reqId =
     JObj [(''error'', JStr err), (''code'', JStr (code_name c)), (''correlationId'', JStr reqId)]"

definition not_found_handler :: "string \<Rightarrow> int \<times> jsval" where
  "not_found_handler reqId = (404, envelope ''route not found'' ROUTE_NOT_FOUND reqId)"

definition error_handler :: "thrown \<Rightarrow> string \<Rightarrow> (int \<times> jsval) option" where
  "error_handler e reqId =
     map_option (\<lambda>c. (cl_status c, envelope (cl_error c) (cl_code c) reqId)) (classifyError e)"

text \<open>\<open>preSerialization\<close>.\<close>

definition stamp :: "int \<Rightarrow> string \<Rightarrow> jsval \<Rightarrow> jsval" where
  "stamp status reqId payload =
     (if status < 400 then payload
      else case payload of
             JObj body \<Rightarrow>
               (case map_of body ''error'' of
                  Some (JStr _) \<Rightarrow>
                    (let own = (case map_of body ''code'' of Some v \<Rightarrow> v | None \<Rightarrow> JUndefined);
                         code = (if isErrorCode own then own else JStr (code_name (codeForStatus status)));
                         cid = (case map_of body ''correlationId'' of Some v \<Rightarrow> if is_nullish v then JStr reqId else v
                                | None \<Rightarrow> JStr reqId)
                     in JObj (tput ''correlationId'' cid (tput ''code'' code body)))
                | _ \<Rightarrow> payload)
           | _ \<Rightarrow> payload)"

definition isAllowedCorsOrigin :: "string \<Rightarrow> string \<Rightarrow> bool" where
  "isAllowedCorsOrigin allowed origin =
     (if allowed = ''*'' then True else list_ex (\<lambda>o'. js_trim o' = origin) (js_split (CHR '','') allowed))"

text \<open>The \<open>Access-Control-Allow-Origin\<close> header of a failed response.\<close>

definition cors_on_send :: "string \<Rightarrow> int \<Rightarrow> string option \<Rightarrow> string option \<Rightarrow> string option" where
  "cors_on_send allowed status origin header =
     (if 400 \<le> status \<and> header = None then
        (case origin of Some o' \<Rightarrow> if o' \<noteq> [] \<and> isAllowedCorsOrigin allowed o' then Some o' else None | None \<Rightarrow> None)
      else header)"

definition client_error_status :: "string option \<Rightarrow> int" where
  "client_error_status code =
     (if code = Some ''ERR_HTTP_REQUEST_TIMEOUT'' then 408 else if code = Some ''HPE_HEADER_OVERFLOW'' then 431 else 400)"

text \<open>\<open>statusText\<close> is the table \<open>STATUS_CODES\<close> of \<open>node:http\<close>.\<close>

definition frameworkErrors :: "(int \<Rightarrow> string option) \<Rightarrow> int option \<Rightarrow> string \<Rightarrow> int \<times> jsval" where
  "frameworkErrors statusText statusCode reqId =
     (let status = (case statusCode of Some s \<Rightarrow> s | None \<Rightarrow> 400) in
      (status, envelope (case statusText status of Some t \<Rightarrow> t | None \<Rightarrow> ''Bad Request'') (codeForStatus status) reqId))"

section \<open>Cache policies\<close>

datatype cache_policy = Public_live | Public_historical | Private_policy | No_store

fun CACHE_POLICIES :: "cache_policy \<Rightarrow> string" where
  "CACHE_POLICIES Public_live = ''public, max-age=5, must-revalidate''"
| "CACHE_POLICIES Public_historical = ''public, max-age=3600, must-revalidate''"
| "CACHE_POLICIES Private_policy = ''private, no-cache''"
| "CACHE_POLICIES No_store = ''no-store''"

definition DEFAULT_CACHE_POLICY :: cache_policy where "DEFAULT_CACHE_POLICY = No_store"

definition KNOWN_DIRECTIVES :: "string list" where
  "KNOWN_DIRECTIVES = map CACHE_POLICIES [Public_live, Public_historical, Private_policy, No_store]"

definition isKnownCacheControl :: "jsval \<Rightarrow> bool" where
  "isKnownCacheControl v = (case v of JStr s \<Rightarrow> s \<in> set KNOWN_DIRECTIVES | _ \<Rightarrow> False)"

definition historicalOrLive :: "bool \<Rightarrow> cache_policy" where
  "historicalOrLive hasCursor = (if hasCursor then Public_historical else Public_live)"

text \<open>The headers \<open>Cache-Control\<close> and \<open>ETag\<close> when the response is sent.\<close>

definition cache_on_send :: "string \<Rightarrow> jsval \<Rightarrow> jsval \<Rightarrow> string option \<Rightarrow> jsval \<times> string option" where
  "cache_on_send url authorization value etag =
     (if js_startsWith url ''/docs'' then (value, etag)
      else
        let v1 = (if isKnownCacheControl value then value else JStr (CACHE_POLICIES No_store));
            v2 = (case (v1, authorization) of
                    (JStr s, JStr _) \<Rightarrow> if js_startsWith s ''public'' then JStr (CACHE_POLICIES Private_policy) else v1
                  | _ \<Rightarrow> v1)
        in (v2, if v2 = JStr (CACHE_POLICIES No_store) then None else etag))"

section \<open>The concurrency gate\<close>

record gate =
  gt_active :: nat
  gt_limit :: nat

definition tryAcquire :: "gate \<Rightarrow> bool \<times> gate" where
  "tryAcquire g = (if gt_limit g \<le> gt_active g then (False, g) else (True, g\<lparr>gt_active := gt_active g + 1\<rparr>))"

definition release :: "gate \<Rightarrow> gate" where
  "release g = (if 0 < gt_active g then g\<lparr>gt_active := gt_active g - 1\<rparr> else g)"

text \<open>
  \<open>run\<close> is a call of \<open>tryAcquire\<close>, later followed by one of \<open>release\<close> when it succeeded; other
  calls come between. The state is the gate and the number of tasks running in it.
\<close>

inductive gate_step :: "gate \<times> nat \<Rightarrow> gate \<times> nat \<Rightarrow> bool" where
  enter: "tryAcquire g = (True, g') \<Longrightarrow> gate_step (g, n) (g', Suc n)"
| shed: "tryAcquire g = (False, g') \<Longrightarrow> gate_step (g, n) (g', n)"
| leave: "gate_step (g, Suc n) (release g, n)"

section \<open>Facts\<close>

lemma obj_get_PG_STATUS: "obj_get PG_STATUS c = Own cl \<Longrightarrow> (c, cl) \<in> set PG_STATUS"
  by (auto simp: obj_get_def dest: map_of_SomeD split: option.splits if_splits)

text \<open>The message of a thrown error reaches the client only where it was chosen for the client.\<close>

lemma classify_status_message:
  "classify_status (e\<lparr>th_message := m\<rparr>) = classify_status e \<or>
   \<not> cl_leak (classify_status e) \<and> 400 \<le> cl_status (classify_status e) \<and> cl_status (classify_status e) < 500"
  by (simp add: classify_status_def Let_def)

lemma classifyError_message:
  assumes "classifyError e = Some c"
  shows "classifyError (e\<lparr>th_message := m\<rparr>) = Some c \<or>
    \<not> cl_leak c \<and> (th_validation e \<or> 400 \<le> cl_status c \<and> cl_status c < 500 \<and>
      (case th_code e of None \<Rightarrow> True | Some code \<Rightarrow> \<not> is_sqlstate code))"
proof (cases "th_validation e")
  case True
  with assms show ?thesis by (auto simp: classifyError_def)
next
  case nv: False
  have empty: "\<not> is_sqlstate []" by (simp add: is_sqlstate_def)
  show ?thesis
  proof (cases "classifyError (e\<lparr>th_message := m\<rparr>) = classifyError e")
    case False
    with nv have "classifyError e = Some (classify_status e) \<and> classify_status (e\<lparr>th_message := m\<rparr>) \<noteq> classify_status e \<and>
        (case th_code e of None \<Rightarrow> True | Some code \<Rightarrow> \<not> is_sqlstate code)"
      using empty by (cases "th_code e") (auto simp: classifyError_def split: if_splits slot.splits)
    with assms classify_status_message [of m e] show ?thesis by auto
  qed (use assms in simp)
qed

lemma classifyError_pg:
  assumes "is_sqlstate code" and "code \<notin> set object_prototype_names"
  shows "\<exists>c. classifyError (thrown_of (PgError code m)) = Some c \<and>
    classifyError (thrown_of (PgError code m')) = Some c \<and> cl_status c \<in> {409, 422, 500, 503}"
proof -
  have "code \<noteq> []" using assms(1) by (auto simp: is_sqlstate_def)
  then show ?thesis
    using assms obj_get_PG_STATUS [of code]
    by (auto simp: classifyError_def thrown_of_def internal_error_def PG_STATUS_def obj_get_def split: option.splits if_splits)
qed

lemma classify_status_range: "400 \<le> cl_status (classify_status e) \<and> cl_status (classify_status e) < 600"
  by (simp add: classify_status_def Let_def)

lemma PG_STATUS_range: "(c, cl) \<in> set PG_STATUS \<Longrightarrow> 400 \<le> cl_status cl \<and> cl_status cl < 600"
  by (auto simp: PG_STATUS_def)

lemma classifyError_code:
  assumes "classifyError e = Some c" and "\<not> th_validation e"
  shows "400 \<le> cl_status c \<and> cl_status c < 600"
  using assms classify_status_range [of e]
  by (cases "th_code e")
     (auto simp: classifyError_def internal_error_def dest: obj_get_PG_STATUS PG_STATUS_range split: if_splits slot.splits)

lemma code_name_known: "isErrorCode (JStr (code_name c))"
  by (cases c) (simp_all add: isErrorCode_def code_name_def ERROR_CODES_def)

lemma stamp_stamps:
  assumes "400 \<le> status" and "map_of body ''error'' = Some (JStr t)"
  shows "\<exists>b cid. stamp status reqId (JObj body) = JObj b \<and> map_of b ''error'' = Some (JStr t) \<and>
    isErrorCode (the (map_of b ''code'')) \<and> map_of b ''correlationId'' = Some cid \<and> \<not> is_nullish cid"
  using assms
  by (auto simp: stamp_def Let_def tput_def update_conv' code_name_known is_nullish_def split: option.splits)

lemma isKnownCacheControl_iff: "isKnownCacheControl v \<longleftrightarrow> (\<exists>p. v = JStr (CACHE_POLICIES p))"
proof -
  have "set KNOWN_DIRECTIVES = CACHE_POLICIES ` {Public_live, Public_historical, Private_policy, No_store}"
    by (simp only: KNOWN_DIRECTIVES_def set_map list.set)
  also have "{Public_live, Public_historical, Private_policy, No_store} = UNIV"
    using cache_policy.exhaust by blast
  finally have "s \<in> set KNOWN_DIRECTIVES \<longleftrightarrow> (\<exists>p. s = CACHE_POLICIES p)" for s by (simp only: image_iff UNIV_I bex_UNIV)
  then show ?thesis by (cases v) (simp_all add: isKnownCacheControl_def)
qed

lemma cache_on_send_policy:
  assumes "\<not> js_startsWith url ''/docs''"
  obtains p where "fst (cache_on_send url au v et) = JStr (CACHE_POLICIES p)"
    and "\<And>a. au = JStr a \<Longrightarrow> p \<in> {Private_policy, No_store}"
proof -
  obtain p where p: "(if isKnownCacheControl v then v else JStr (CACHE_POLICIES No_store)) = JStr (CACHE_POLICIES p)"
    by (metis isKnownCacheControl_iff)
  show thesis
  proof (cases "(\<exists>a. au = JStr a) \<and> js_startsWith (CACHE_POLICIES p) ''public''")
    case True
    with assms p show ?thesis by (intro that [of Private_policy]) (auto simp: cache_on_send_def Let_def)
  next
    case False
    have "p \<in> {Private_policy, No_store}" if "au = JStr a" for a
      using False that by (cases p) (simp_all add: js_startsWith_def)
    with assms p False show ?thesis
      by (intro that [of p]) (auto simp: cache_on_send_def Let_def split: jsval.splits)
  qed
qed

lemma gate_step_inv:
  assumes "gate_step\<^sup>*\<^sup>* s t" and "gt_active (fst s) = snd s" and "snd s \<le> gt_limit (fst s)"
  shows "gt_active (fst t) = snd t \<and> snd t \<le> gt_limit (fst t) \<and> gt_limit (fst t) = gt_limit (fst s)"
  using assms
proof (induction rule: rtranclp_induct)
  case (step y z)
  then show ?case by (auto elim!: gate_step.cases simp: tryAcquire_def release_def split: if_splits)
qed simp

end
