(* ===== verification/Loan_Derived.thy ===== *)
theory Loan_Derived
  imports Json
begin

text \<open>
  The derived fields of a loan (\<open>src/api/loan-derived.ts\<close>): interest charge, repaid amount and
  repayment progress in basis points, computed from amounts that may be malformed.
\<close>

definition is_integer_text :: "string \<Rightarrow> bool" where
  "is_integer_text s = all_digits (if s \<noteq> [] \<and> hd s = CHR ''-'' then tl s else s)"

definition text_integer :: "string \<Rightarrow> int" where
  "text_integer s = (if s \<noteq> [] \<and> hd s = CHR ''-'' then - int (digits_val (tl s)) else int (digits_val s))"

definition parseIntegerAmount :: "jsval \<Rightarrow> int option" where
  "parseIntegerAmount v =
     (case v of
        JNum n \<Rightarrow> (case n of NInt i \<Rightarrow> if isSafeInteger n then Some i else None | _ \<Rightarrow> None)
      | JStr s \<Rightarrow> if is_integer_text s then Some (text_integer s) else None
      | _ \<Rightarrow> None)"

text \<open>Division of \<open>bigint\<close>s truncates toward zero.\<close>

definition big_div :: "int \<Rightarrow> int \<Rightarrow> int" where
  "big_div a b = (if (a < 0) = (b < 0) then \<bar>a\<bar> div \<bar>b\<bar> else - (\<bar>a\<bar> div \<bar>b\<bar>))"

definition repaymentProgressBps :: "int \<Rightarrow> int \<Rightarrow> int" where
  "repaymentProgressBps repaid tot =
     (if tot \<le> 0 then 0
      else let bps = big_div (repaid * 10000) tot in if bps < 0 then 0 else if 10000 < bps then 10000 else bps)"

record loan_derived =
  ld_interest_charge :: "string option"
  ld_repaid_amount :: "string option"
  ld_repayment_progress_bps :: "int option"

text \<open>The arguments are the columns \<open>total_repayment\<close>, \<open>amount\<close> and \<open>outstanding\<close> of the loan.\<close>

definition withLoanDerived :: "jsval \<Rightarrow> jsval \<Rightarrow> jsval \<Rightarrow> loan_derived" where
  "withLoanDerived total_repayment amount outstanding =
     (case (parseIntegerAmount total_repayment, parseIntegerAmount amount, parseIntegerAmount outstanding) of
        (Some t, Some a, Some u) \<Rightarrow>
          \<lparr>ld_interest_charge = Some (show_int (t - a)), ld_repaid_amount = Some (show_int (t - u)),
           ld_repayment_progress_bps = Some (repaymentProgressBps (t - u) t)\<rparr>
      | _ \<Rightarrow> \<lparr>ld_interest_charge = None, ld_repaid_amount = None, ld_repayment_progress_bps = None\<rparr>)"

lemma repaymentProgressBps_range: "0 \<le> repaymentProgressBps r t \<and> repaymentProgressBps r t \<le> 10000"
  by (simp add: repaymentProgressBps_def Let_def)

lemma repaymentProgressBps_exact:
  assumes "0 \<le> r" and "r \<le> t" and "0 < t"
  shows "repaymentProgressBps r t = r * 10000 div t"
proof -
  have "r * 10000 div t \<le> 10000"
  proof -
    have "r * 10000 div t \<le> t * 10000 div t" using assms by (intro zdiv_mono1) auto
    then show ?thesis using assms(3) by simp
  qed
  moreover have "0 \<le> r * 10000 div t" using assms by (intro pos_imp_zdiv_nonneg_iff [THEN iffD2]) auto
  ultimately show ?thesis using assms by (simp add: repaymentProgressBps_def big_div_def Let_def)
qed

lemma parseIntegerAmount_text: "parseIntegerAmount (JStr (show_int i)) = Some i"
proof (cases "i < 0")
  case True
  then show ?thesis by (simp add: parseIntegerAmount_def is_integer_text_def text_integer_def show_int_def)
next
  case False
  obtain d t where "show_nat (nat i) = digit_char d # t" "d < 10" using show_nat_head by blast
  with False digit_not_minus [of d] all_digits_show_nat [of "nat i"] digits_val_show_nat [of "nat i"] show ?thesis
    by (simp add: parseIntegerAmount_def is_integer_text_def text_integer_def show_int_def del: all_digits_show_nat digits_val_show_nat)
qed

text \<open>On the columns of a well-formed loan: progress is complete exactly when nothing is outstanding.\<close>

lemma withLoanDerived_progress:
  assumes "0 \<le> u" and "u \<le> t" and "0 < t"
  shows "ld_repayment_progress_bps (withLoanDerived (JStr (show_int t)) (JStr (show_int a)) (JStr (show_int u))) =
      Some ((t - u) * 10000 div t)"
    and "(t - u) * 10000 div t = 10000 \<longleftrightarrow> u = 0"
proof -
  show "ld_repayment_progress_bps (withLoanDerived (JStr (show_int t)) (JStr (show_int a)) (JStr (show_int u))) =
      Some ((t - u) * 10000 div t)"
    using assms by (simp add: withLoanDerived_def parseIntegerAmount_text repaymentProgressBps_exact)
  have "(t - u) * 10000 div t < 10000" if "0 < u"
  proof (rule ccontr)
    assume "\<not> ?thesis"
    then have "10000 * t \<le> (t - u) * 10000 div t * t" using assms(3) by (intro mult_right_mono) auto
    also have "\<dots> \<le> (t - u) * 10000" using assms(3) by (simp add: minus_mod_eq_div_mult [symmetric] del: left_diff_distrib_numeral)
    finally show False using that by simp
  qed
  moreover have "u \<noteq> 0 \<Longrightarrow> 0 < u" using assms(1) by simp
  ultimately show "(t - u) * 10000 div t = 10000 \<longleftrightarrow> u = 0" using assms(3) by (cases "u = 0") auto
qed

end
