(* ===== verification/Routes.thy ===== *)
theory Routes
  imports Http Auth Recovery Loan_Derived "HOL-Library.Product_Lexorder"
begin

text \<open>
  The read endpoints of \<open>src/api/routes/index.ts\<close>: the parsing of query and path parameters and
  the handlers, each a function from the request and the database to a cache policy and an answer.
  \<open>Inl\<close> is an error thrown to the error handler, \<open>Refuse\<close> a deliberate error response.

  The query parameters of a request are what Fastify passes: strings, or arrays of strings for a
  repeated parameter. Rows with equal sort keys come in the reverse order of the table. The
  handlers of the member list and the member summary are what runs on a miss of the Redis cache in
  front of them; \<open>Cache_Coherence\<close> has the cached routes. The destructuring \<open>const { nonceStore, authFailureTracker }\<close> without
  an initializer is read as one of \<open>opts\<close>.
\<close>

section \<open>Parameters\<close>

type_synonym query_params = "(string \<times> jsval) list"

definition param :: "query_params \<Rightarrow> string \<Rightarrow> jsval" where
  "param q k = (case map_of q k of Some v \<Rightarrow> v | None \<Rightarrow> JUndefined)"

definition is_absent :: "jsval \<Rightarrow> bool" where
  "is_absent v = (v = JUndefined \<or> v = JNull \<or> v = JStr [])"

definition safe_digits :: "string \<Rightarrow> int option" where
  "safe_digits raw =
     (if all_digits raw then (case str_Number raw of NInt i \<Rightarrow> if isSafeInteger (NInt i) then Some i else None | _ \<Rightarrow> None)
      else None)"

definition parseLimit :: "jsval \<Rightarrow> int option" where
  "parseLimit v =
     (if is_absent v then Some 50
      else case safe_digits (js_trim (js_String v)) of
             Some n \<Rightarrow> if n \<le> 0 \<or> 200 < n then None else Some n
           | None \<Rightarrow> None)"

definition invalidLimit :: "jsval \<Rightarrow> bool" where
  "invalidLimit v = (parseLimit v = None)"

definition limit_of :: "jsval \<Rightarrow> nat" where
  "limit_of v = nat (case parseLimit v of Some n \<Rightarrow> n | None \<Rightarrow> 50)"

definition cursor :: "jsval \<Rightarrow> int option" where
  "cursor v =
     (if is_absent v then None
      else case safe_digits (js_trim (js_String v)) of Some n \<Rightarrow> if 0 < n then Some n else None | None \<Rightarrow> None)"

definition invalidCursor :: "jsval \<Rightarrow> bool" where
  "invalidCursor v = (v \<noteq> JUndefined \<and> cursor v = None)"

record event_cursor =
  ec_ledger :: jsnum
  ec_id :: "string option"

definition eventCursor :: "jsval \<Rightarrow> event_cursor option" where
  "eventCursor v =
     (if is_absent v then None
      else let raw = js_trim (js_String v) in
        case js_split (CHR ''-'') raw of
          [a, b] \<Rightarrow>
            if all_digits a \<and> all_digits b then Some \<lparr>ec_ledger = str_Number a, ec_id = Some raw\<rparr>
            else (case str_Number raw of
                    NInt n \<Rightarrow> if isSafeInteger (NInt n) \<and> 0 < n then Some \<lparr>ec_ledger = NInt n, ec_id = None\<rparr> else None
                  | _ \<Rightarrow> None)
        | _ \<Rightarrow> (case str_Number raw of
                    NInt n \<Rightarrow> if isSafeInteger (NInt n) \<and> 0 < n then Some \<lparr>ec_ledger = NInt n, ec_id = None\<rparr> else None
                  | _ \<Rightarrow> None))"

definition invalidEventCursor :: "jsval \<Rightarrow> bool" where
  "invalidEventCursor v = (v \<noteq> JUndefined \<and> eventCursor v = None)"

definition ledgerBound :: "jsval \<Rightarrow> int option" where
  "ledgerBound v = (if is_absent v then None else safe_digits (js_trim (js_String v)))"

definition MAX_LEDGER_RANGE :: int where "MAX_LEDGER_RANGE = 10000"

definition invalidLedgerRange :: "jsval \<Rightarrow> jsval \<Rightarrow> bool" where
  "invalidLedgerRange fromRaw toRaw =
     (fromRaw \<noteq> JUndefined \<and> ledgerBound fromRaw = None \<or>
      toRaw \<noteq> JUndefined \<and> ledgerBound toRaw = None \<or>
      (case (ledgerBound fromRaw, ledgerBound toRaw) of
         (Some a, Some b) \<Rightarrow> b < a \<or> MAX_LEDGER_RANGE < b - a
       | _ \<Rightarrow> False))"

definition validAddress :: "sdk \<Rightarrow> string \<Rightarrow> bool" where
  "validAddress sdk a = sdk_isValidEd25519PublicKey sdk a"

definition isMemberActivitySymbol :: "jsval \<Rightarrow> bool" where
  "isMemberActivitySymbol v = (case v of JStr s \<Rightarrow> s \<in> set MEMBER_ACTIVITY_SYMBOLS | _ \<Rightarrow> False)"

definition entityIdParam :: "string \<Rightarrow> string option" where
  "entityIdParam v =
     (let raw = js_trim v in case safe_digits raw of Some n \<Rightarrow> if 0 < n then Some raw else None | None \<Rightarrow> None)"

text \<open>The same check where the handlers go on with the number.\<close>

definition id_param :: "string \<Rightarrow> int option" where
  "id_param v = (case safe_digits (js_trim v) of Some n \<Rightarrow> if 0 < n then Some n else None | None \<Rightarrow> None)"

text \<open>A non-empty string parameter.\<close>

definition text_param :: "jsval \<Rightarrow> string option" where
  "text_param v = (case v of JStr s \<Rightarrow> if s = [] then None else Some s | _ \<Rightarrow> None)"

definition bad_optional_address :: "sdk \<Rightarrow> jsval \<Rightarrow> bool" where
  "bad_optional_address sdk v = (\<not> is_absent v \<and> (case v of JStr s \<Rightarrow> \<not> validAddress sdk s | _ \<Rightarrow> True))"

section \<open>Answers\<close>

datatype 'a reply = Send 'a | Refuse nat string

type_synonym 'a answer = "cache_policy \<times> (exn + 'a reply)"

abbreviation refuse :: "cache_policy \<Rightarrow> nat \<Rightarrow> string \<Rightarrow> 'a answer" where
  "refuse policy status msg \<equiv> (policy, Inr (Refuse status msg))"

fun mapE :: "('a \<Rightarrow> exn + 'b) \<Rightarrow> 'a list \<Rightarrow> exn + 'b list" where
  "mapE f [] = Inr []"
| "mapE f (x # xs) = bindE (f x) (\<lambda>y. bindE (mapE f xs) (\<lambda>ys. Inr (y # ys)))"

text \<open>\<open>SELECT ... WHERE P ORDER BY key DESC LIMIT l\<close>, and the same in ascending order.\<close>

definition select_asc :: "('r \<Rightarrow> 'k::linorder) \<Rightarrow> ('r \<Rightarrow> bool) \<Rightarrow> nat \<Rightarrow> 'r list \<Rightarrow> 'r list" where
  "select_asc key P l rows = take l (sort_key key (filter P rows))"

definition select_desc :: "('r \<Rightarrow> 'k::linorder) \<Rightarrow> ('r \<Rightarrow> bool) \<Rightarrow> nat \<Rightarrow> 'r list \<Rightarrow> 'r list" where
  "select_desc key P l rows = take l (rev (sort_key key (filter P rows)))"

text \<open>The rows of a table with a \<open>BIGSERIAL\<close> key with their ids.\<close>

definition with_ids :: "'r list \<Rightarrow> (int \<times> 'r) list" where
  "with_ids rows = zip (map int [1..<Suc (length rows)]) rows"

text \<open>Binding an optional cursor to an \<open>INTEGER\<close> column.\<close>

definition opt_int4 :: "int option \<Rightarrow> exn + unit" where
  "opt_int4 c = (case c of None \<Rightarrow> Inr () | Some i \<Rightarrow> bindE (pg_int4_param (NInt i)) (\<lambda>_. Inr ()))"

definition before_id :: "int option \<Rightarrow> int \<Rightarrow> bool" where
  "before_id c i = (case c of None \<Rightarrow> True | Some k \<Rightarrow> i < k)"

section \<open>Members\<close>

definition get_members :: "query_params \<Rightarrow> derived \<Rightarrow> (string \<times> member_row) list answer" where
  "get_members q d =
     (if invalidLimit (param q ''limit'') then refuse Public_live 400 ''invalid limit parameter''
      else (Public_live, Inr (Send (select_desc (\<lambda>(_, r). case m_joined_ledger r of Some l \<Rightarrow> l | None \<Rightarrow> 0)
        (\<lambda>(_, r). \<not> m_exited r \<and> m_joined_ledger r \<noteq> None) (limit_of (param q ''limit'')) (members d)))))"

definition get_member :: "sdk \<Rightarrow> string \<Rightarrow> derived \<Rightarrow> member_row answer" where
  "get_member sdk a d =
     (if \<not> validAddress sdk a then refuse Public_live 400 ''invalid Stellar address''
      else case tget (members d) a of
             None \<Rightarrow> refuse Public_live 404 ''member not found''
           | Some m \<Rightarrow> (Public_live, Inr (Send m)))"

definition LOANS_EMBED_LIMIT :: nat where "LOANS_EMBED_LIMIT = 100"

record member_summary =
  sm_member :: member_row
  sm_loans :: "(int \<times> loan_row \<times> loan_derived) list"
  sm_loans_total_count :: nat
  sm_loans_truncated :: bool
  sm_unread_notifications :: nat
  sm_contribution_share_bps :: int
  sm_stake_share_bps :: int
  sm_repaid_loans_count :: nat
  sm_defaulted_loans_count :: nat
  sm_defaulted_loans_value :: int

text \<open>
  \<open>share a b\<close> is \<open>TRUNC(a / b)\<close> of \<open>NUMERIC\<close> values, whose division rounds the quotient to a
  number of digits that Postgres chooses.
\<close>

definition share_bps :: "(int \<Rightarrow> int \<Rightarrow> int) \<Rightarrow> (member_row \<Rightarrow> int) \<Rightarrow> member_row \<Rightarrow> derived \<Rightarrow> int" where
  "share_bps share col m d =
     (let tot = sum_list (map col (filter (\<lambda>r. \<not> m_exited r) (trows (members d)))) in
      if 0 < tot \<and> \<not> m_exited m then share (col m * 10000) tot else 0)"

text \<open>The embedded loans come through \<open>row_to_json\<close>, their amounts as JSON numbers.\<close>

definition fetchMemberSummary :: "(int \<Rightarrow> int \<Rightarrow> int) \<Rightarrow> string \<Rightarrow> derived \<Rightarrow> member_summary option" where
  "fetchMemberSummary share a d =
     map_option (\<lambda>m.
       let own = filter (\<lambda>(_, r). ln_borrower r = a) (loans d);
           num = (\<lambda>i. JNum (NInt i))
       in \<lparr>sm_member = m,
           sm_loans = map (\<lambda>(i, r). (i, r, withLoanDerived (num (ln_total_repayment r)) (num (ln_amount r)) (num (ln_outstanding r))))
             (select_desc fst (\<lambda>_. True) LOANS_EMBED_LIMIT own),
           sm_loans_total_count = length own, sm_loans_truncated = (LOANS_EMBED_LIMIT < length own),
           sm_unread_notifications = length (filter (\<lambda>n. nt_address n = a \<and> \<not> nt_read n) (notifications d)),
           sm_contribution_share_bps = share_bps share m_contribution m d,
           sm_stake_share_bps = share_bps share m_stake m d,
           sm_repaid_loans_count = length (filter (\<lambda>(_, r). ln_status r = LN_repaid) own),
           sm_defaulted_loans_count = length (filter (\<lambda>(_, r). ln_status r = LN_defaulted) own),
           sm_defaulted_loans_value =
             sum_list (map (\<lambda>(_, r). ln_outstanding r) (filter (\<lambda>(_, r). ln_status r = LN_defaulted) own))\<rparr>)
     (tget (members d) a)"

definition get_member_summary :: "sdk \<Rightarrow> (int \<Rightarrow> int \<Rightarrow> int) \<Rightarrow> string \<Rightarrow> derived \<Rightarrow> member_summary answer" where
  "get_member_summary sdk share a d =
     (if \<not> validAddress sdk a then refuse Private_policy 400 ''invalid Stellar address''
      else case fetchMemberSummary share a d of
             None \<Rightarrow> refuse Private_policy 404 ''member not found''
           | Some s \<Rightarrow> (Private_policy, Inr (Send s)))"

section \<open>Timelines\<close>

record timeline_entry =
  tl_id :: string
  tl_symbol :: string
  tl_ledger :: nat
  tl_timestamp :: int
  tl_tx_hash :: "string option"
  tl_fields :: fields

definition toTimelineEntry :: "string \<times> event_row \<Rightarrow> exn + timeline_entry" where
  "toTimelineEntry ir =
     (let r = snd ir; data = (case er_data r of JArr vs \<Rightarrow> vs | _ \<Rightarrow> []) in
      bindE (namedFields (er_symbol r) data) (\<lambda>fs.
      Inr \<lparr>tl_id = fst ir, tl_symbol = er_symbol r, tl_ledger = er_ledger r, tl_timestamp = er_closed_at r,
           tl_tx_hash = er_tx_hash r, tl_fields = fs\<rparr>))"

definition TIMELINE_MAX_ROWS :: nat where "TIMELINE_MAX_ROWS = 2000"

text \<open>\<open>data->>0 = id\<close> for an id of digits.\<close>

definition first_entry_is :: "string \<Rightarrow> event_row \<Rightarrow> bool" where
  "first_entry_is i r =
     (case er_data r of
        JArr (JStr s # _) \<Rightarrow> s = i
      | JArr (JNum (NInt n) # _) \<Rightarrow> show_int n = i
      | _ \<Rightarrow> False)"

definition entityTimeline :: "string list \<Rightarrow> string \<Rightarrow> db \<Rightarrow> exn + timeline_entry list" where
  "entityTimeline symbols i db =
     mapE toTimelineEntry
       (select_asc row_key (\<lambda>(_, r). er_symbol r \<in> set symbols \<and> first_entry_is i r) TIMELINE_MAX_ROWS (db_events db))"

definition entity_timeline_route :: "string list \<Rightarrow> string \<Rightarrow> string \<Rightarrow> db \<Rightarrow> timeline_entry list answer" where
  "entity_timeline_route symbols msg raw db =
     (case entityIdParam raw of
        None \<Rightarrow> refuse Public_live 400 msg
      | Some i \<Rightarrow> (Public_live, bindE (entityTimeline symbols i db) (\<lambda>es. Inr (Send es))))"

definition get_loan_timeline :: "string \<Rightarrow> db \<Rightarrow> timeline_entry list answer" where
  "get_loan_timeline = entity_timeline_route LOAN_TIMELINE_SYMBOLS ''invalid loan id''"

definition get_treasury_timeline :: "string \<Rightarrow> db \<Rightarrow> timeline_entry list answer" where
  "get_treasury_timeline = entity_timeline_route TREASURY_TIMELINE_SYMBOLS ''invalid proposal id''"

text \<open>\<open>data @> to_jsonb(a)\<close>: an array contains its primitive elements.\<close>

definition data_names :: "string \<Rightarrow> event_row \<Rightarrow> bool" where
  "data_names a r = (case er_data r of JArr vs \<Rightarrow> JStr a \<in> set vs | JStr s \<Rightarrow> s = a | _ \<Rightarrow> False)"

definition before_ledger :: "int option \<Rightarrow> nat \<Rightarrow> bool" where
  "before_ledger c l = (case c of None \<Rightarrow> True | Some k \<Rightarrow> int l < k)"

definition get_member_activity :: "sdk \<Rightarrow> string \<Rightarrow> query_params \<Rightarrow> db \<Rightarrow> timeline_entry list answer" where
  "get_member_activity sdk rawAddress q db =
     (let a = js_toUpperCase rawAddress; sy = param q ''symbol''; c = cursor (param q ''before'') in
      if \<not> validAddress sdk a then refuse Public_live 400 ''invalid Stellar address''
      else if invalidLimit (param q ''limit'') then refuse Public_live 400 ''invalid limit parameter''
      else if invalidCursor (param q ''before'') then refuse Public_live 400 ''invalid before cursor''
      else if sy \<noteq> JUndefined \<and> \<not> isMemberActivitySymbol sy
      then refuse Public_live 400 (''invalid symbol filter: expected one of '' @ js_join '', '' MEMBER_ACTIVITY_SYMBOLS)
      else (Public_live, bindE (mapE toTimelineEntry
        (select_desc row_key (\<lambda>(_, r).
           (case sy of JStr s \<Rightarrow> er_symbol r = s | _ \<Rightarrow> er_symbol r \<in> set MEMBER_ACTIVITY_SYMBOLS) \<and>
           data_names a r \<and> before_ledger c (er_ledger r)) (limit_of (param q ''limit'')) (db_events db)))
        (\<lambda>es. Inr (Send es))))"

end
