(* ===== verification/Feeds.thy ===== *)
theory Feeds
  imports Routes
begin

text \<open>
  The list endpoints of \<open>src/api/routes/index.ts\<close> with their filters and cursors: loans,
  proposals, notifications, events, interest, documents and the operator views.
\<close>

section \<open>Loans and proposals\<close>

fun loan_status_text :: "loan_status \<Rightarrow> string" where
  "loan_status_text LN_active = ''active''"
| "loan_status_text LN_repaid = ''repaid''"
| "loan_status_text LN_defaulted = ''defaulted''"

fun loan_proposal_status_text :: "loan_proposal_status \<Rightarrow> string" where
  "loan_proposal_status_text LP_pending = ''pending''"
| "loan_proposal_status_text LP_approved = ''approved''"
| "loan_proposal_status_text LP_rejected = ''rejected''"
| "loan_proposal_status_text LP_cancelled = ''cancelled''"
| "loan_proposal_status_text LP_approved_pending_disbursement = ''approved_pending_disbursement''"

fun treasury_proposal_status_text :: "treasury_proposal_status \<Rightarrow> string" where
  "treasury_proposal_status_text TP_pending = ''pending''"
| "treasury_proposal_status_text TP_executed = ''executed''"
| "treasury_proposal_status_text TP_rejected = ''rejected''"
| "treasury_proposal_status_text TP_approved_pending_disbursement = ''approved_pending_disbursement''"

text \<open>An optional equality filter.\<close>

definition opt_is :: "'a option \<Rightarrow> 'a \<Rightarrow> bool" where
  "opt_is f x = (case f of None \<Rightarrow> True | Some y \<Rightarrow> x = y)"

text \<open>The derived fields of a loan that was selected: \<open>NUMERIC\<close> columns arrive as text.\<close>

definition loan_with_derived :: "int \<times> loan_row \<Rightarrow> int \<times> loan_row \<times> loan_derived" where
  "loan_with_derived ir =
     (let r = snd ir in
      (fst ir, r, withLoanDerived (JStr (show_int (ln_total_repayment r))) (JStr (show_int (ln_amount r)))
         (JStr (show_int (ln_outstanding r)))))"

definition loan_filter :: "query_params \<Rightarrow> int \<times> loan_row \<Rightarrow> bool" where
  "loan_filter q = (\<lambda>(_, r). opt_is (text_param (param q ''borrower'')) (ln_borrower r) \<and>
     opt_is (text_param (param q ''status'')) (loan_status_text (ln_status r)))"

text \<open>The selections of a page, apart from the handlers: the cursor, the limit and the table.\<close>

definition loan_page :: "query_params \<Rightarrow> int option \<Rightarrow> nat \<Rightarrow> (int \<times> loan_row) list \<Rightarrow> (int \<times> loan_row) list" where
  "loan_page q before l rows = select_desc fst (\<lambda>ir. loan_filter q ir \<and> before_id before (fst ir)) l rows"

definition get_loans :: "sdk \<Rightarrow> query_params \<Rightarrow> derived \<Rightarrow> (int \<times> loan_row \<times> loan_derived) list answer" where
  "get_loans sdk q d =
     (if invalidLimit (param q ''limit'') then refuse DEFAULT_CACHE_POLICY 400 ''invalid limit parameter''
      else if invalidCursor (param q ''before'') then refuse DEFAULT_CACHE_POLICY 400 ''invalid before cursor''
      else
        let before = cursor (param q ''before''); policy = historicalOrLive (before \<noteq> None); status = param q ''status'' in
        if bad_optional_address sdk (param q ''borrower'') then refuse policy 400 ''invalid Stellar address''
        else if \<not> is_absent status \<and> (case status of JStr s \<Rightarrow> s \<notin> {''active'', ''repaid'', ''defaulted''} | _ \<Rightarrow> True)
        then refuse policy 400 ''invalid status parameter''
        else (policy, bindE (opt_int4 before) (\<lambda>_. Inr (Send (map loan_with_derived
          (loan_page q before (limit_of (param q ''limit'')) (loans d)))))))"

definition get_loan :: "string \<Rightarrow> derived \<Rightarrow> (int \<times> loan_row \<times> loan_derived) answer" where
  "get_loan raw d =
     (case id_param raw of
        None \<Rightarrow> refuse Public_live 400 ''invalid loan id''
      | Some i \<Rightarrow> (Public_live, bindE (pg_int4_param (NInt i)) (\<lambda>i.
          case tget (loans d) i of
            None \<Rightarrow> Inr (Refuse 404 ''loan not found'')
          | Some r \<Rightarrow> Inr (Send (loan_with_derived (i, r))))))"

text \<open>Proposals are answered together with the flag \<open>tallies_weighted: false\<close>, left out here.\<close>

definition get_loan_proposals :: "sdk \<Rightarrow> query_params \<Rightarrow> derived \<Rightarrow> (int \<times> loan_proposal_row) list answer" where
  "get_loan_proposals sdk q d =
     (if invalidLimit (param q ''limit'') then refuse Public_live 400 ''invalid limit parameter''
      else if bad_optional_address sdk (param q ''borrower'') then refuse Public_live 400 ''invalid Stellar address''
      else (Public_live, Inr (Send (select_desc fst
        (\<lambda>(_, r). opt_is (text_param (param q ''borrower'')) (lp_borrower r) \<and>
           opt_is (text_param (param q ''status'')) (loan_proposal_status_text (lp_status r)))
        (limit_of (param q ''limit'')) (loan_proposals d)))))"

definition get_loan_proposal :: "string \<Rightarrow> derived \<Rightarrow> loan_proposal_row answer" where
  "get_loan_proposal raw d =
     (case id_param raw of
        None \<Rightarrow> refuse Public_live 400 ''invalid proposal id''
      | Some i \<Rightarrow> (Public_live, bindE (pg_int4_param (NInt i)) (\<lambda>i.
          case tget (loan_proposals d) i of
            None \<Rightarrow> Inr (Refuse 404 ''loan proposal not found'')
          | Some r \<Rightarrow> Inr (Send r))))"

definition get_treasury_proposals :: "query_params \<Rightarrow> derived \<Rightarrow> (int \<times> treasury_proposal_row) list answer" where
  "get_treasury_proposals q d =
     (if invalidLimit (param q ''limit'') then refuse Public_live 400 ''invalid limit parameter''
      else (Public_live, Inr (Send (select_desc fst
        (\<lambda>(_, r). opt_is (text_param (param q ''status'')) (treasury_proposal_status_text (tp_status r)))
        (limit_of (param q ''limit'')) (treasury_proposals d)))))"

definition get_treasury_proposal :: "string \<Rightarrow> derived \<Rightarrow> treasury_proposal_row answer" where
  "get_treasury_proposal raw d =
     (case id_param raw of
        None \<Rightarrow> refuse Public_live 400 ''invalid proposal id''
      | Some i \<Rightarrow> (Public_live, bindE (pg_int4_param (NInt i)) (\<lambda>i.
          case tget (treasury_proposals d) i of
            None \<Rightarrow> Inr (Refuse 404 ''treasury proposal not found'')
          | Some r \<Rightarrow> Inr (Send r))))"

section \<open>Notifications\<close>

definition unread_values :: "jsval list" where
  "unread_values = [JStr ''true'', JStr ''false'', JBool True, JBool False]"

definition notification_filter :: "query_params \<Rightarrow> int \<times> notification_row \<Rightarrow> bool" where
  "notification_filter q = (\<lambda>(_, n).
     JStr (nt_address n) = param q ''address'' \<and>
     (is_absent (param q ''unread'') \<or> nt_read n = (param q ''unread'' \<in> {JStr ''true'', JBool True})))"

definition notification_page ::
  "query_params \<Rightarrow> int option \<Rightarrow> nat \<Rightarrow> (int \<times> notification_row) list \<Rightarrow> (int \<times> notification_row) list" where
  "notification_page q before l rows = select_desc fst (\<lambda>ir. notification_filter q ir \<and> before_id before (fst ir)) l rows"

definition get_notifications :: "sdk \<Rightarrow> query_params \<Rightarrow> derived \<Rightarrow> (int \<times> notification_row) list answer" where
  "get_notifications sdk q d =
     (if (case param q ''address'' of JStr a \<Rightarrow> a = [] \<or> \<not> validAddress sdk a | _ \<Rightarrow> True)
      then refuse Private_policy 400 ''invalid Stellar address''
      else if invalidLimit (param q ''limit'') then refuse Private_policy 400 ''invalid limit parameter''
      else if invalidCursor (param q ''before'') then refuse Private_policy 400 ''invalid before cursor''
      else if \<not> is_absent (param q ''unread'') \<and> param q ''unread'' \<notin> set unread_values
      then refuse Private_policy 400 ''invalid unread parameter''
      else (Private_policy, Inr (Send (notification_page q (cursor (param q ''before''))
        (limit_of (param q ''limit'')) (with_ids (notifications d))))))"

section \<open>Events\<close>

text \<open>A number bound to a \<open>BIGINT\<close> parameter travels as its printed text.\<close>

definition pg_int8_param :: "jsnum \<Rightarrow> exn + int" where
  "pg_int8_param n =
     (case n of
        NInt i \<Rightarrow>
          if - (2 ^ 63) \<le> i \<and> i < 2 ^ 63 then Inr i
          else Inl (PgError ''22003'' (''value '' @ dquote @ show_int i @ dquote @ '' is out of range for type bigint''))
      | _ \<Rightarrow> Inl (PgError ''22P02'' (''invalid input syntax for type bigint: '' @ dquote @ num_String n @ dquote)))"

definition opt_int8 :: "event_cursor option \<Rightarrow> exn + unit" where
  "opt_int8 c = (case c of None \<Rightarrow> Inr () | Some c \<Rightarrow> bindE (pg_int8_param (ec_ledger c)) (\<lambda>_. Inr ()))"

definition cursor_ledger :: "event_cursor \<Rightarrow> nat" where
  "cursor_ledger c = (case ec_ledger c of NInt i \<Rightarrow> nat i | _ \<Rightarrow> 0)"

definition before_event :: "event_cursor option \<Rightarrow> string \<times> event_row \<Rightarrow> bool" where
  "before_event c ir =
     (case c of
        None \<Rightarrow> True
      | Some c \<Rightarrow> (case ec_id c of
          Some i \<Rightarrow> row_key ir < EventKey (cursor_ledger c) i
        | None \<Rightarrow> er_ledger (snd ir) < cursor_ledger c))"

definition after_event :: "event_cursor option \<Rightarrow> string \<times> event_row \<Rightarrow> bool" where
  "after_event c ir =
     (case c of
        None \<Rightarrow> True
      | Some c \<Rightarrow> (case ec_id c of
          Some i \<Rightarrow> EventKey (cursor_ledger c) i < row_key ir
        | None \<Rightarrow> cursor_ledger c < er_ledger (snd ir)))"

definition ledger_range_error :: string where
  "ledger_range_error = ''invalid ledger range: from_ledger/to_ledger must be non-negative integers, '' @
     ''from_ledger <= to_ledger, and the range must not exceed 10000 ledgers''"

definition in_ledger_range :: "query_params \<Rightarrow> nat \<Rightarrow> bool" where
  "in_ledger_range q l =
     ((case ledgerBound (param q ''from_ledger'') of None \<Rightarrow> True | Some a \<Rightarrow> a \<le> int l) \<and>
      (case ledgerBound (param q ''to_ledger'') of None \<Rightarrow> True | Some b \<Rightarrow> int l \<le> b))"

definition event_filter :: "query_params \<Rightarrow> string \<times> event_row \<Rightarrow> bool" where
  "event_filter q = (\<lambda>(_, r).
     opt_is (text_param (param q ''symbol'')) (er_symbol r) \<and>
     opt_is (text_param (param q ''contract'')) (er_contract_id r) \<and>
     (param q ''decode_error'' = JStr ''true'' \<longrightarrow> er_decode_error r \<noteq> None) \<and>
     in_ledger_range q (er_ledger r))"

definition last_event_id :: "(string \<times> event_row) list \<Rightarrow> string option" where
  "last_event_id es = (if es = [] then None else Some (fst (last es)))"

definition event_page ::
  "query_params \<Rightarrow> event_cursor option \<Rightarrow> event_cursor option \<Rightarrow> nat \<Rightarrow> (string \<times> event_row) list \<Rightarrow> (string \<times> event_row) list" where
  "event_page q before after l rows =
     (if param q ''order'' = JStr ''asc'' then select_asc else select_desc) row_key
       (\<lambda>ir. event_filter q ir \<and> before_event before ir \<and> after_event after ir) l rows"

text \<open>The events of the page and \<open>nextCursor\<close>.\<close>

definition get_events :: "query_params \<Rightarrow> db \<Rightarrow> ((string \<times> event_row) list \<times> string option) answer" where
  "get_events q db =
     (let before = eventCursor (param q ''before''); after = eventCursor (param q ''after'') in
      if invalidLimit (param q ''limit'') then refuse DEFAULT_CACHE_POLICY 400 ''invalid limit parameter''
      else if invalidEventCursor (param q ''before'') then refuse DEFAULT_CACHE_POLICY 400 ''invalid before cursor''
      else if invalidEventCursor (param q ''after'') then refuse DEFAULT_CACHE_POLICY 400 ''invalid after cursor''
      else if before \<noteq> None \<and> after \<noteq> None then refuse DEFAULT_CACHE_POLICY 400 ''cannot use before and after together''
      else if invalidLedgerRange (param q ''from_ledger'') (param q ''to_ledger'')
      then refuse DEFAULT_CACHE_POLICY 400 ledger_range_error
      else (historicalOrLive (before \<noteq> None \<or> after \<noteq> None),
        bindE (opt_int8 before) (\<lambda>_. bindE (opt_int8 after) (\<lambda>_.
        let es = event_page q before after (limit_of (param q ''limit'')) (db_events db)
        in Inr (Send (es, last_event_id es))))))"

definition get_admin_log :: "query_params \<Rightarrow> db \<Rightarrow> (string \<times> event_row) list answer" where
  "get_admin_log q db =
     (let before = cursor (param q ''before'') in
      if invalidLimit (param q ''limit'') then refuse DEFAULT_CACHE_POLICY 400 ''invalid limit parameter''
      else if invalidCursor (param q ''before'') then refuse DEFAULT_CACHE_POLICY 400 ''invalid before cursor''
      else (historicalOrLive (before \<noteq> None), Inr (Send (select_desc (\<lambda>ir. er_ledger (snd ir))
        (\<lambda>(_, r). er_symbol r \<in> set ADMIN_EVENT_SYMBOLS \<and> opt_is (text_param (param q ''contract'')) (er_contract_id r) \<and>
           before_ledger before (er_ledger r)) (limit_of (param q ''limit'')) (db_events db)))))"

section \<open>Interest and documents\<close>

definition interest_page ::
  "int option \<Rightarrow> nat \<Rightarrow> (int \<times> interest_distribution_row) list \<Rightarrow> (int \<times> interest_distribution_row) list" where
  "interest_page before l rows =
     select_desc (\<lambda>(i, r). (idr_ledger r, i)) (\<lambda>(_, r). before_ledger before (idr_ledger r)) l rows"

definition get_interest :: "query_params \<Rightarrow> derived \<Rightarrow> (int \<times> interest_distribution_row) list answer" where
  "get_interest q d =
     (let before = cursor (param q ''before'') in
      if invalidLimit (param q ''limit'') then refuse DEFAULT_CACHE_POLICY 400 ''invalid limit parameter''
      else if invalidCursor (param q ''before'') then refuse DEFAULT_CACHE_POLICY 400 ''invalid before cursor''
      else (historicalOrLive (before \<noteq> None), Inr (Send (interest_page before (limit_of (param q ''limit''))
        (with_ids (interest_distributions d))))))"

definition kind_text :: "proposal_kind \<Rightarrow> string" where
  "kind_text k = (case k of K_loan \<Rightarrow> ''loan'' | K_treasury \<Rightarrow> ''treasury'')"

definition get_documents :: "sdk \<Rightarrow> query_params \<Rightarrow> derived \<Rightarrow> (int \<times> document_row) list answer" where
  "get_documents sdk q d =
     (let before = cursor (param q ''before''); policy = historicalOrLive (before \<noteq> None);
          kind = param q ''kind''; pid = param q ''proposal_id''; caller = param q ''caller'' in
      if invalidLimit (param q ''limit'') then refuse DEFAULT_CACHE_POLICY 400 ''invalid limit parameter''
      else if invalidCursor (param q ''before'') then refuse DEFAULT_CACHE_POLICY 400 ''invalid before cursor''
      else if (kind \<noteq> JUndefined \<or> pid \<noteq> JUndefined) \<and> kind \<notin> {JStr ''loan'', JStr ''treasury''}
      then refuse policy 400 (''kind query param must be '' @ dquote @ ''loan'' @ dquote @ '' or '' @ dquote @ ''treasury'' @ dquote)
      else if pid \<noteq> JUndefined \<and> (case pid of JStr s \<Rightarrow> \<not> all_digits s | _ \<Rightarrow> True)
      then refuse policy 400 ''proposal_id query param is required''
      else if caller \<noteq> JUndefined \<and> (case caller of JStr a \<Rightarrow> \<not> validAddress sdk a | _ \<Rightarrow> True)
      then refuse policy 400 ''invalid Stellar address''
      else (policy,
        bindE (case pid of JStr s \<Rightarrow> bindE (pg_int4_param (str_Number s)) (\<lambda>i. Inr (Some i)) | _ \<Rightarrow> Inr None) (\<lambda>p.
        Inr (Send (select_desc (\<lambda>(i, r). (doc_ledger r, i))
          (\<lambda>(_, r). (kind = JUndefined \<or> kind = JStr (kind_text (doc_kind r))) \<and> opt_is p (doc_proposal_id r) \<and>
             (caller = JUndefined \<or> caller = JStr (doc_caller r)) \<and> before_ledger before (doc_ledger r))
          (limit_of (param q ''limit'')) (with_ids (documents d)))))))"

section \<open>Quarantined events\<close>

text \<open>
  \<open>fid\<close> is the id of the record of an event; the column \<open>error\<close> is not selected. The answer has
  the page and the count in the \<open>X-Total-Count\<close> header.
\<close>

record failed_event_view =
  fv_id :: int
  fv_event_id :: string
  fv_symbol :: string
  fv_ledger :: nat
  fv_created_at :: int
  fv_resolved_at :: "int option"

definition failed_view :: "(string \<Rightarrow> int) \<Rightarrow> string \<times> failed_event_row \<Rightarrow> failed_event_view" where
  "failed_view fid kr =
     \<lparr>fv_id = fid (fst kr), fv_event_id = fst kr, fv_symbol = fe_symbol (snd kr), fv_ledger = fe_ledger (snd kr),
      fv_created_at = fe_created_at (snd kr), fv_resolved_at = fe_resolved_at (snd kr)\<rparr>"

definition failed_filter :: "query_params \<Rightarrow> string \<times> failed_event_row \<Rightarrow> bool" where
  "failed_filter q = (\<lambda>(_, r).
     (param q ''unresolved'' = JStr ''true'' \<longrightarrow> fe_resolved_at r = None) \<and>
     (case param q ''symbol'' of JStr s \<Rightarrow> fe_symbol r = js_trim s | _ \<Rightarrow> True) \<and>
     in_ledger_range q (fe_ledger r))"

definition failed_page ::
  "(string \<Rightarrow> int) \<Rightarrow> query_params \<Rightarrow> int option \<Rightarrow> nat \<Rightarrow> (string \<times> failed_event_row) list \<Rightarrow> (string \<times> failed_event_row) list" where
  "failed_page fid q before l rows =
     select_desc (\<lambda>kr. fid (fst kr)) (\<lambda>kr. failed_filter q kr \<and> before_id before (fid (fst kr))) l rows"

definition get_failed_events ::
  "(string \<Rightarrow> int) \<Rightarrow> query_params \<Rightarrow> db \<Rightarrow> (failed_event_view list \<times> nat) answer" where
  "get_failed_events fid q db =
     (let before = cursor (param q ''before''); sy = param q ''symbol'' in
      if invalidLimit (param q ''limit'') then refuse DEFAULT_CACHE_POLICY 400 ''invalid limit parameter''
      else if invalidCursor (param q ''before'') then refuse DEFAULT_CACHE_POLICY 400 ''invalid before cursor''
      else if sy \<noteq> JUndefined \<and> (case sy of JStr s \<Rightarrow> js_trim s = [] | _ \<Rightarrow> True)
      then refuse DEFAULT_CACHE_POLICY 400 ''invalid symbol filter''
      else if invalidLedgerRange (param q ''from_ledger'') (param q ''to_ledger'')
      then refuse DEFAULT_CACHE_POLICY 400 ledger_range_error
      else (DEFAULT_CACHE_POLICY, Inr (Send
        (map (failed_view fid) (failed_page fid q before (limit_of (param q ''limit'')) (db_failed db)),
         length (filter (failed_filter q) (db_failed db))))))"

end
