(* ===== verification/Actions.thy ===== *)
theory Actions
  imports Feeds
begin

text \<open>
  The endpoints of \<open>src/api/routes/index.ts\<close> that authenticate or change state: the challenge, the
  read flags of notifications, the resolution of quarantined events, the acknowledgement of a
  discontinuity and the audit log. A handler maps the authentication state and the database to
  its answer and their successors.
\<close>

section \<open>Challenge\<close>

definition get_challenge ::
  "sdk \<Rightarrow> (string \<Rightarrow> 's \<Rightarrow> (exn + string) \<times> 's) \<Rightarrow> jsval \<Rightarrow> 's \<Rightarrow> string answer \<times> 's" where
  "get_challenge sdk issue address s =
     (case address of
        JStr a \<Rightarrow>
          if a = [] then (refuse DEFAULT_CACHE_POLICY 400 ''address query param is required'', s)
          else if classifyStellarAddress sdk a \<notin> {Ed25519, Muxed}
          then (refuse DEFAULT_CACHE_POLICY 400 ''invalid Stellar address'', s)
          else (case issue a s of
                  (Inr nonce, s') \<Rightarrow> ((DEFAULT_CACHE_POLICY, Inr (Send nonce)), s')
                | (Inl (NonceStoreCapacityError _), s') \<Rightarrow>
                    (refuse DEFAULT_CACHE_POLICY 503 ''Service temporarily unavailable'', s')
                | (Inl e, s') \<Rightarrow> ((DEFAULT_CACHE_POLICY, Inl e), s'))
      | _ \<Rightarrow>
          if is_absent address then (refuse DEFAULT_CACHE_POLICY 400 ''address query param is required'', s)
          else (refuse DEFAULT_CACHE_POLICY 400 ''invalid Stellar address'', s))"

section \<open>Authenticated handlers\<close>

type_synonym headers = "(string \<times> jsval) list"

text \<open>
  Authentication in front of a handler that gets the address of the header and the proved one;
  \<open>track\<close> tells whether the failure tracker is passed on.
\<close>

definition with_auth ::
  "sdk \<Rightarrow> (string \<Rightarrow> string \<Rightarrow> 's \<Rightarrow> bool \<times> 's) \<Rightarrow> bool \<Rightarrow> headers \<Rightarrow> string option \<Rightarrow> 's auth_state \<Rightarrow> db \<Rightarrow>
     (string \<Rightarrow> string \<Rightarrow> db \<Rightarrow> 'a answer \<times> db) \<Rightarrow> 'a answer \<times> 's auth_state \<times> db" where
  "with_auth sdk consume track hs target s db handler =
     (let keep = (\<lambda>s'. if track then s' else s'\<lparr>au_tracker := au_tracker s\<rparr>) in
      case authenticateRequest sdk consume hs target (if track then s else s\<lparr>au_tracker := None\<rparr>) of
        (Unauthenticated status err, s') \<Rightarrow>
          (refuse DEFAULT_CACHE_POLICY status (if err = [] then ''Authentication required'' else err), keep s', db)
      | (Authenticated a key, s') \<Rightarrow> (case handler a key db of (ans, db') \<Rightarrow> (ans, keep s', db')))"

text \<open>\<open>UPDATE notifications SET read = true WHERE P\<close>.\<close>

definition set_read :: "(int \<times> notification_row \<Rightarrow> bool) \<Rightarrow> db \<Rightarrow> db" where
  "set_read P db =
     db\<lparr>db_derived := db_derived db\<lparr>notifications :=
       map (\<lambda>ir. if P ir then snd ir\<lparr>nt_read := True\<rparr> else snd ir) (with_ids (notifications (db_derived db)))\<rparr>\<rparr>"

definition read_one :: "string \<Rightarrow> string \<Rightarrow> db \<Rightarrow> (int \<times> notification_row) answer \<times> db" where
  "read_one raw key db =
     (case id_param raw of
        None \<Rightarrow> (refuse DEFAULT_CACHE_POLICY 400 ''invalid notification id'', db)
      | Some i \<Rightarrow>
          (case map_of (with_ids (notifications (db_derived db))) i of
             None \<Rightarrow> (refuse DEFAULT_CACHE_POLICY 404 ''notification not found'', db)
           | Some n \<Rightarrow>
               if nt_address n \<noteq> key
               then (refuse DEFAULT_CACHE_POLICY 403 ''Cannot modify notifications for another address'', db)
               else ((DEFAULT_CACHE_POLICY, Inr (Send (i, n\<lparr>nt_read := True\<rparr>))), set_read (\<lambda>(j, _). j = i) db)))"

definition patch_notification_read ::
  "sdk \<Rightarrow> (string \<Rightarrow> string \<Rightarrow> 's \<Rightarrow> bool \<times> 's) \<Rightarrow> headers \<Rightarrow> string \<Rightarrow> 's auth_state \<Rightarrow> db \<Rightarrow>
     (int \<times> notification_row) answer \<times> 's auth_state \<times> db" where
  "patch_notification_read sdk consume hs raw s db =
     with_auth sdk consume True hs None s db (\<lambda>_ key. read_one raw key)"

definition read_all :: "string \<Rightarrow> db \<Rightarrow> nat answer \<times> db" where
  "read_all a db =
     ((DEFAULT_CACHE_POLICY, Inr (Send (length (filter (\<lambda>n. nt_address n = a \<and> \<not> nt_read n) (notifications (db_derived db)))))),
      set_read (\<lambda>(_, n). nt_address n = a \<and> \<not> nt_read n) db)"

definition patch_read_all ::
  "sdk \<Rightarrow> (string \<Rightarrow> string \<Rightarrow> 's \<Rightarrow> bool \<times> 's) \<Rightarrow> headers \<Rightarrow> query_params \<Rightarrow> 's auth_state \<Rightarrow> db \<Rightarrow>
     nat answer \<times> 's auth_state \<times> db" where
  "patch_read_all sdk consume hs q s db =
     (case param q ''address'' of
        JStr a \<Rightarrow>
          if a = [] \<or> \<not> validAddress sdk a then (refuse DEFAULT_CACHE_POLICY 400 ''invalid Stellar address'', s, db)
          else with_auth sdk consume True hs (Some a) s db (\<lambda>_ _. read_all a)
      | _ \<Rightarrow> (refuse DEFAULT_CACHE_POLICY 400 ''invalid Stellar address'', s, db))"

section \<open>Administration\<close>

text \<open>The insert is fire-and-forget: a fault is logged and nothing else happens.\<close>

definition writeAuditLog :: "pg_fault \<Rightarrow> string \<Rightarrow> string \<Rightarrow> string option \<Rightarrow> jsval \<Rightarrow> db \<Rightarrow> db" where
  "writeAuditLog fault admin action ip payload db =
     (if fault \<noteq> None then db
      else db\<lparr>db_audit := db_audit db @
        [\<lparr>au_admin_address = admin, au_action = action, au_ip_address = ip, au_payload = jsonb payload\<rparr>]\<rparr>)"

definition outcome_text :: "replay_outcome \<Rightarrow> string" where
  "outcome_text oc = (case oc of Replayed \<Rightarrow> ''replayed'' | Already_resolved \<Rightarrow> ''already_resolved'' | Still_failing _ \<Rightarrow> ''still_failing'')"

text \<open>The answer is the event id and the status; \<open>still_failing\<close> goes out with status 422.\<close>

definition re_evaluate ::
  "env \<Rightarrow> pg_fault \<Rightarrow> string option \<Rightarrow> string \<Rightarrow> string \<Rightarrow> db \<Rightarrow> (nat \<times> string \<times> string) answer \<times> db" where
  "re_evaluate en fault ip raw admin db =
     (let eventId = js_trim raw in
      if eventId = [] then (refuse DEFAULT_CACHE_POLICY 400 ''invalid event id'', db)
      else case replayFailedEvent en R_resolved eventId db of
             (Inl e, db') \<Rightarrow> ((DEFAULT_CACHE_POLICY, Inl e), db')
           | (Inr (oc, _), db') \<Rightarrow>
               ((DEFAULT_CACHE_POLICY, Inr (Send (case oc of Still_failing _ \<Rightarrow> 422 | _ \<Rightarrow> 200, eventId, outcome_text oc))),
                writeAuditLog fault admin ''resolve_quarantined_event'' ip
                  (JObj [(''eventId'', JStr eventId), (''status'', JStr (outcome_text oc))]) db'))"

definition post_re_evaluate ::
  "sdk \<Rightarrow> (string \<Rightarrow> string \<Rightarrow> 's \<Rightarrow> bool \<times> 's) \<Rightarrow> env \<Rightarrow> pg_fault \<Rightarrow> headers \<Rightarrow> string option \<Rightarrow> string \<Rightarrow> 's auth_state \<Rightarrow> db \<Rightarrow>
     (nat \<times> string \<times> string) answer \<times> 's auth_state \<times> db" where
  "post_re_evaluate sdk consume en fault hs ip raw s db =
     with_auth sdk consume False hs None s db (\<lambda>a _. re_evaluate en fault ip raw a)"

definition MAX_BATCH_RESOLVE_IDS :: nat where "MAX_BATCH_RESOLVE_IDS = 500"

definition positive_id :: "jsval \<Rightarrow> int option" where
  "positive_id v = (case v of JNum (NInt i) \<Rightarrow> if isSafeInteger (NInt i) \<and> 0 < i then Some i else None | _ \<Rightarrow> None)"

definition resolution_of :: "jsval \<Rightarrow> resolution option" where
  "resolution_of v = (if v = JStr ''resolved'' then Some R_resolved else if v = JStr ''ignored'' then Some R_ignored else None)"

definition resolve_ids ::
  "(string \<Rightarrow> int) \<Rightarrow> int \<Rightarrow> resolution \<Rightarrow> string option \<Rightarrow> int list \<Rightarrow> db \<Rightarrow> nat \<times> db" where
  "resolve_ids fid now res note ids db =
     (let hit = (\<lambda>kr. fid (fst kr) \<in> set ids \<and> fe_resolved_at (snd kr) = None) in
      (length (filter hit (db_failed db)),
       db\<lparr>db_failed := map (\<lambda>kr. if hit kr
            then (fst kr, snd kr\<lparr>fe_resolved_at := Some now, fe_resolution := Some res, fe_resolution_note := note\<rparr>)
            else kr) (db_failed db)\<rparr>))"

definition body_get :: "string \<Rightarrow> jsval \<Rightarrow> exn + jsval" where
  "body_get k body =
     (case body of
        JUndefined \<Rightarrow> Inl (JsTypeError (''Cannot read properties of undefined (reading '' @ [CHR 0x27] @ k @ [CHR 0x27] @ '')''))
      | JNull \<Rightarrow> Inl (JsTypeError (''Cannot read properties of null (reading '' @ [CHR 0x27] @ k @ [CHR 0x27] @ '')''))
      | JObj kvs \<Rightarrow> Inr (param kvs k)
      | _ \<Rightarrow> Inr JUndefined)"

definition batch_resolve ::
  "(string \<Rightarrow> int) \<Rightarrow> env \<Rightarrow> pg_fault \<Rightarrow> string option \<Rightarrow> jsval \<Rightarrow> string \<Rightarrow> db \<Rightarrow> nat answer \<times> db" where
  "batch_resolve fid en fault ip body admin db =
     (case body_get ''ids'' body of
        Inl e \<Rightarrow> ((DEFAULT_CACHE_POLICY, Inl e), db)
      | Inr ids \<Rightarrow>
          let bad = (\<lambda>msg. (refuse DEFAULT_CACHE_POLICY 400 msg, db));
              at = (\<lambda>k. case body_get k body of Inr v \<Rightarrow> v | Inl _ \<Rightarrow> JUndefined) in
          case ids of
            JArr vs \<Rightarrow>
              if vs = [] then bad ''ids must be a non-empty array''
              else if MAX_BATCH_RESOLVE_IDS < length vs then bad (''ids must not exceed '' @ show_nat MAX_BATCH_RESOLVE_IDS @ '' entries'')
              else if \<not> list_all (\<lambda>v. positive_id v \<noteq> None) vs then bad ''ids must all be positive integers''
              else (case resolution_of (at ''resolution'') of
                      None \<Rightarrow> bad (''resolution must be '' @ [CHR 0x27] @ ''resolved'' @ [CHR 0x27] @ '' or '' @ [CHR 0x27] @ ''ignored'' @ [CHR 0x27])
                    | Some res \<Rightarrow>
                        (case at ''note'' of
                           JUndefined \<Rightarrow>
                             (case resolve_ids fid (en_now en) res None (map (the \<circ> positive_id) vs) db of
                                (n, db') \<Rightarrow> ((DEFAULT_CACHE_POLICY, Inr (Send n)),
                                  writeAuditLog fault admin ''resolve_quarantined_event'' ip
                                    (JObj [(''ids'', ids), (''resolution'', at ''resolution''), (''note'', JNull), (''resolved'', JNum (NInt (int n)))]) db'))
                         | JStr t \<Rightarrow>
                             (case resolve_ids fid (en_now en) res (Some t) (map (the \<circ> positive_id) vs) db of
                                (n, db') \<Rightarrow> ((DEFAULT_CACHE_POLICY, Inr (Send n)),
                                  writeAuditLog fault admin ''resolve_quarantined_event'' ip
                                    (JObj [(''ids'', ids), (''resolution'', at ''resolution''), (''note'', JStr t), (''resolved'', JNum (NInt (int n)))]) db'))
                         | _ \<Rightarrow> bad ''note must be a string''))
          | _ \<Rightarrow> bad ''ids must be a non-empty array'')"

definition post_batch_resolve ::
  "sdk \<Rightarrow> (string \<Rightarrow> string \<Rightarrow> 's \<Rightarrow> bool \<times> 's) \<Rightarrow> (string \<Rightarrow> int) \<Rightarrow> env \<Rightarrow> pg_fault \<Rightarrow> headers \<Rightarrow> string option \<Rightarrow> jsval \<Rightarrow>
     's auth_state \<Rightarrow> db \<Rightarrow> nat answer \<times> 's auth_state \<times> db" where
  "post_batch_resolve sdk consume fid en fault hs ip body s db =
     with_auth sdk consume False hs None s db (\<lambda>a _. batch_resolve fid en fault ip body a)"

definition post_clear_reorg ::
  "sdk \<Rightarrow> (string \<Rightarrow> string \<Rightarrow> 's \<Rightarrow> bool \<times> 's) \<Rightarrow> (int \<Rightarrow> string) \<Rightarrow> pg_fault \<Rightarrow> int \<Rightarrow> headers \<Rightarrow> string option \<Rightarrow>
     's auth_state \<Rightarrow> db \<Rightarrow> ((nat \<times> reorg_halt_row) option \<times> nat) answer \<times> 's auth_state \<times> db" where
  "post_clear_reorg sdk consume isoTime fault now hs ip s db =
     (let clear = (\<lambda>admin db. case clearRecordedReorg isoTime fault now (Some admin) ip db of
            (r, db') \<Rightarrow> ((DEFAULT_CACHE_POLICY, Inr (Send r)), db')) in
      if text_param (param hs ''authorization'') \<noteq> None then with_auth sdk consume False hs None s db (\<lambda>a _. clear a)
      else case clear (case text_param (param hs ''x-admin-address'') of Some a \<Rightarrow> a | None \<Rightarrow> ''operator'') db of
             (ans, db') \<Rightarrow> (ans, s, db'))"

definition audit_filter :: "query_params \<Rightarrow> int \<times> audit_row \<Rightarrow> bool" where
  "audit_filter q = (\<lambda>(_, r).
     opt_is (text_param (param q ''admin'')) (au_admin_address r) \<and>
     (case param q ''action'' of JStr s \<Rightarrow> js_trim s = [] \<or> au_action r = js_trim s | _ \<Rightarrow> True))"

definition audit_rows :: "query_params \<Rightarrow> int option \<Rightarrow> nat \<Rightarrow> (int \<times> audit_row) list \<Rightarrow> (int \<times> audit_row) list" where
  "audit_rows q before l rows = select_desc fst (\<lambda>ir. audit_filter q ir \<and> before_id before (fst ir)) l rows"

definition audit_page :: "sdk \<Rightarrow> query_params \<Rightarrow> db \<Rightarrow> (int \<times> audit_row) list answer" where
  "audit_page sdk q db =
     (let before = cursor (param q ''before''); admin = param q ''admin''; action = param q ''action'' in
      if invalidLimit (param q ''limit'') then refuse DEFAULT_CACHE_POLICY 400 ''invalid limit parameter''
      else if invalidCursor (param q ''before'') then refuse DEFAULT_CACHE_POLICY 400 ''invalid before cursor''
      else if admin \<notin> {JUndefined, JStr []} \<and> (case admin of JStr a \<Rightarrow> \<not> validAddress sdk a | _ \<Rightarrow> True)
      then refuse DEFAULT_CACHE_POLICY 400 ''invalid Stellar address''
      else if action \<noteq> JUndefined \<and> (case action of JStr _ \<Rightarrow> False | _ \<Rightarrow> True)
      then refuse DEFAULT_CACHE_POLICY 400 ''invalid action filter''
      else (DEFAULT_CACHE_POLICY, Inr (Send (audit_rows q before (limit_of (param q ''limit'')) (with_ids (db_audit db))))))"

definition get_audit_log ::
  "sdk \<Rightarrow> (string \<Rightarrow> string \<Rightarrow> 's \<Rightarrow> bool \<times> 's) \<Rightarrow> headers \<Rightarrow> query_params \<Rightarrow> 's auth_state \<Rightarrow> db \<Rightarrow>
     (int \<times> audit_row) list answer \<times> 's auth_state \<times> db" where
  "get_audit_log sdk consume hs q s db = with_auth sdk consume False hs None s db (\<lambda>_ _ db. (audit_page sdk q db, db))"

end
