(* ===== verification/Pages.thy ===== *)
theory Pages
  imports Actions Auth_Facts
begin

text \<open>
  Following cursors: what a client sees that asks for the next page with the key of the last row
  it got, until a page is empty.
\<close>

section \<open>Keyset pagination\<close>

fun follow :: "('k option \<Rightarrow> 'r list) \<Rightarrow> ('r \<Rightarrow> 'k) \<Rightarrow> nat \<Rightarrow> 'k option \<Rightarrow> 'r list" where
  "follow page key 0 c = []"
| "follow page key (Suc n) c =
     (case page c of [] \<Rightarrow> [] | r # rs \<Rightarrow> (r # rs) @ follow page key n (Some (key (last (r # rs)))))"

definition below :: "('r \<Rightarrow> 'k::linorder) \<Rightarrow> 'k option \<Rightarrow> 'r \<Rightarrow> bool" where
  "below key c r = (case c of None \<Rightarrow> True | Some k \<Rightarrow> key r < k)"

lemma sorted_wrt_desc:
  assumes "distinct (map key rows)"
  shows "sorted_wrt (\<lambda>a b. key b < key a) (rev (sort_key key (filter P rows)))"
proof -
  have "distinct (map key (filter P rows))" using assms by (simp add: distinct_map_filter)
  then have "distinct (map key (sort_key key (filter P rows)))" by (simp add: distinct_map)
  moreover have "sorted (map key (sort_key key (filter P rows)))" by simp
  ultimately have "sorted_wrt (<) (map key (sort_key key (filter P rows)))" by (simp add: strict_sorted_iff)
  then show ?thesis by (simp add: sorted_wrt_rev sorted_wrt_map)
qed

lemma filter_below_last:
  fixes key :: "'r \<Rightarrow> 'k::linorder"
  assumes "sorted_wrt (\<lambda>a b. key b < key a) xs" and "0 < k" and "xs \<noteq> []"
  shows "filter (below key (Some (key (last (take k xs))))) xs = drop k xs"
proof -
  let ?t = "take k xs" and ?d = "drop k xs"
  have ne: "?t \<noteq> []" using assms(2,3) by simp
  have "sorted_wrt (\<lambda>a b. key b < key a) (?t @ ?d)" using assms(1) by simp
  then have s: "sorted_wrt (\<lambda>a b. key b < key a) ?t" "\<forall>a\<in>set ?t. \<forall>b\<in>set ?d. key b < key a"
    unfolding sorted_wrt_append by blast+
  obtain ys y where t: "?t = ys @ [y]" using ne by (metis append_butlast_last_id)
  have "\<not> below key (Some (key (last ?t))) a" if "a \<in> set ?t" for a
    using that s(1) unfolding t below_def by (auto simp: sorted_wrt_append)
  then have "filter (below key (Some (key (last ?t)))) ?t = []" by (simp add: filter_empty_conv)
  moreover have "filter (below key (Some (key (last ?t)))) ?d = ?d"
    using s(2) ne last_in_set [OF ne] by (auto simp: below_def intro!: filter_True)
  ultimately show ?thesis
    by (metis append_take_drop_id filter_append self_append_conv2)
qed

text \<open>
  The contract of a list endpoint with a unique sort key: a page has the matching rows below the
  cursor, the greatest keys first.
\<close>

locale keyset_pages =
  fixes key :: "'r \<Rightarrow> 'k::linorder" and matching :: "'r \<Rightarrow> bool"
    and page :: "'k option \<Rightarrow> nat \<Rightarrow> 'r list \<Rightarrow> 'r list"
  assumes page_select: "page c l rows = select_desc key (\<lambda>r. matching r \<and> below key c r) l rows"
begin

definition rest :: "'k option \<Rightarrow> 'r list \<Rightarrow> 'r list" where
  "rest c rows = rev (sort_key key (filter (\<lambda>r. matching r \<and> below key c r) rows))"

lemma page_rest: "page c l rows = take l (rest c rows)"
  by (simp add: page_select select_desc_def rest_def)

lemma below_trans: "below key c x \<Longrightarrow> below key (Some (key x)) r \<Longrightarrow> below key c r"
  by (auto simp: below_def split: option.splits)

lemma rest_next:
  assumes "distinct (map key rows)" and "0 < l" and "rest c rows \<noteq> []"
  shows "rest (Some (key (last (take l (rest c rows))))) rows = drop l (rest c rows)"
proof -
  define x where "x = last (take l (rest c rows))"
  have "x \<in> set (take l (rest c rows))" unfolding x_def using assms(2,3) by (intro last_in_set) simp
  then have "x \<in> set (rest c rows)" by (rule in_set_takeD)
  then have "below key c x" by (simp add: rest_def)
  then have q: "filter (\<lambda>r. matching r \<and> below key (Some (key x)) r) rows =
      filter (below key (Some (key x))) (filter (\<lambda>r. matching r \<and> below key c r) rows)"
    unfolding filter_filter by (intro filter_cong refl) (blast dest: below_trans)
  have "rest (Some (key x)) rows = filter (below key (Some (key x))) (rest c rows)"
    by (simp only: rest_def q rev_filter [symmetric] filter_sort)
  also have "\<dots> = drop l (rest c rows)"
    using sorted_wrt_desc [OF assms(1)] assms(2,3) unfolding rest_def x_def by (intro filter_below_last)
  finally show ?thesis by (simp only: x_def)
qed

lemma follow_rest:
  assumes "distinct (map key rows)" and "0 < l" and "length (rest c rows) \<le> n"
  shows "follow (\<lambda>c. page c l rows) key n c = rest c rows"
  using assms(3)
proof (induction n arbitrary: c)
  case (Suc n)
  show ?case
  proof (cases "take l (rest c rows)")
    case Nil
    with assms(2) show ?thesis by (simp add: page_rest)
  next
    case (Cons r rs)
    then have ne: "rest c rows \<noteq> []" by auto
    have "rest (Some (key (last (r # rs)))) rows = drop l (rest c rows)"
      using rest_next [OF assms(1,2) ne] Cons by simp
    moreover have "length (drop l (rest c rows)) \<le> n" using Suc.prems assms(2) by simp
    ultimately have "follow (\<lambda>c. page c l rows) key n (Some (key (last (r # rs)))) = drop l (rest c rows)"
      using Suc.IH by metis
    with Cons show ?thesis by (simp add: page_rest) (metis append_Cons append_take_drop_id)
  qed
qed simp

text \<open>Every matching row is listed exactly once, newest first.\<close>

lemma follow_all:
  assumes "distinct (map key rows)" and "0 < l" and "length (filter matching rows) \<le> n"
  shows "follow (\<lambda>c. page c l rows) key n None = rev (sort_key key (filter matching rows))"
  using follow_rest [OF assms(1,2), of None n] assms(3) by (simp add: rest_def below_def)

end

lemma before_id_below: "before_id c i = below id c i"
  by (simp add: before_id_def below_def split: option.split)

interpretation loan_pages: keyset_pages fst "loan_filter q" "loan_page q" for q
  by unfold_locales (simp add: loan_page_def before_id_def below_def)

interpretation notification_pages: keyset_pages fst "notification_filter q" "notification_page q" for q
  by unfold_locales (simp add: notification_page_def before_id_def below_def)

interpretation failed_pages: keyset_pages "\<lambda>kr. fid (fst kr)" "failed_filter q" "failed_page fid q" for fid q
  by unfold_locales (simp add: failed_page_def before_id_def below_def)

interpretation audit_pages: keyset_pages fst "audit_filter q" "audit_rows q" for q
  by unfold_locales (simp add: audit_rows_def before_id_def below_def)

section \<open>Clients of the endpoints\<close>

text \<open>What an answer sends, and a request for the page below a key.\<close>

definition sent :: "'a answer \<Rightarrow> 'a option" where
  "sent a = (case snd a of Inr (Send x) \<Rightarrow> Some x | _ \<Rightarrow> None)"

definition rows_sent :: "'a list answer \<Rightarrow> 'a list" where
  "rows_sent a = (case sent a of Some rows \<Rightarrow> rows | None \<Rightarrow> [])"

definition with_before :: "int option \<Rightarrow> query_params \<Rightarrow> query_params" where
  "with_before c q = (case c of None \<Rightarrow> q | Some k \<Rightarrow> (''before'', JStr (show_int k)) # q)"

lemma sent_simps [simp]:
  "sent (p, Inr (Send x)) = Some x" "sent (p, Inr (Refuse n m)) = None" "sent (p, Inl e) = None"
  by (simp_all add: sent_def)

lemma rows_sent_simps [simp]:
  "rows_sent (p, Inr (Send xs)) = xs" "rows_sent (p, Inr (Refuse n m)) = []" "rows_sent (p, Inl e) = []"
  by (simp_all add: rows_sent_def)

lemma param_with_before [simp]: "k \<noteq> ''before'' \<Longrightarrow> param (with_before c q) k = param q k"
  by (simp add: with_before_def param_def split: option.split)

lemma safe_digits_show_int:
  assumes "0 \<le> k" and "k \<le> 2 ^ 53 - 1"
  shows "safe_digits (js_trim (show_int k)) = Some k"
proof -
  have "show_int k = show_nat (nat k)" using assms(1) by (simp add: show_int_def)
  moreover have "js_trim (show_nat n) = show_nat n" for n
    using is_digit_show_nat [of n] is_ws_digit by (intro js_trim_no_ws) (auto simp: list_all_iff)
  moreover have "str_Number (show_int k) = NInt k" using assms by (intro str_Number_show_int) simp
  ultimately show ?thesis using assms by (simp add: safe_digits_def isSafeInteger_def)
qed

lemma cursor_show_int:
  assumes "0 < k" and "k \<le> 2 ^ 53 - 1"
  shows "cursor (JStr (show_int k)) = Some k"
proof -
  obtain d t where "show_nat (nat k) = digit_char d # t" using show_nat_head by blast
  then have "show_int k \<noteq> []" using assms(1) by (simp add: show_int_def)
  with assms safe_digits_show_int [of k] show ?thesis by (simp add: cursor_def is_absent_def)
qed

lemma cursor_with_before:
  assumes "map_of q ''before'' = None" and "\<And>k. c = Some k \<Longrightarrow> 0 < k \<and> k \<le> 2 ^ 53 - 1"
  shows "cursor (param (with_before c q) ''before'') = c" and "\<not> invalidCursor (param (with_before c q) ''before'')"
  using assms cursor_show_int
  by (auto simp: with_before_def param_def cursor_def is_absent_def invalidCursor_def split: option.split)

lemma follow_cong:
  assumes "C c" and "\<And>c. C c \<Longrightarrow> p1 c = p2 c" and "\<And>c r. C c \<Longrightarrow> r \<in> set (p2 c) \<Longrightarrow> C (Some (key r))"
  shows "follow p1 key n c = follow p2 key n c"
  using assms(1)
proof (induction n arbitrary: c)
  case (Suc n)
  show ?case
  proof (cases "p2 c")
    case Nil
    then show ?thesis using assms(2) [OF Suc.prems] by simp
  next
    case (Cons r rs)
    then have "last (r # rs) \<in> set (p2 c)" by (metis last_in_set list.distinct(1))
    then have "C (Some (key (last (r # rs))))" by (rule assms(3) [OF Suc.prems])
    with Suc.IH Cons assms(2) [OF Suc.prems] show ?thesis by simp
  qed
qed simp

lemma select_desc_subset: "set (select_desc key P l rows) \<subseteq> set rows"
  by (auto simp: select_desc_def dest: in_set_takeD)

lemma limit_of_pos: "\<not> invalidLimit v \<Longrightarrow> 0 < limit_of v \<and> limit_of v \<le> 200"
  by (auto simp: invalidLimit_def limit_of_def parseLimit_def split: if_splits option.splits)

definition loan_client :: "sdk \<Rightarrow> query_params \<Rightarrow> derived \<Rightarrow> int option \<Rightarrow> (int \<times> loan_row) list" where
  "loan_client sdk q d c = map (\<lambda>(i, r, _). (i, r)) (rows_sent (get_loans sdk (with_before c q) d))"

definition notification_client :: "sdk \<Rightarrow> query_params \<Rightarrow> derived \<Rightarrow> int option \<Rightarrow> (int \<times> notification_row) list" where
  "notification_client sdk q d c = rows_sent (get_notifications sdk (with_before c q) d)"

lemma loan_filter_with_before [simp]: "loan_filter (with_before c q) = loan_filter q"
  by (simp add: loan_filter_def)

lemma notification_filter_with_before [simp]: "notification_filter (with_before c q) = notification_filter q"
  by (simp add: notification_filter_def)

lemma loan_client_page:
  assumes "sent (get_loans sdk q d) \<noteq> None" and "map_of q ''before'' = None"
    and "\<And>k. c = Some k \<Longrightarrow> 0 < k \<and> k < int4_max"
  shows "loan_client sdk q d c = loan_page q c (limit_of (param q ''limit'')) (loans d)"
proof -
  have "\<And>k. c = Some k \<Longrightarrow> 0 < k \<and> k \<le> 2 ^ 53 - 1" using assms(3) by (fastforce simp: int4_max_def)
  note cu = cursor_with_before [OF assms(2) this]
  have "opt_int4 c = Inr ()" using assms(3) by (auto simp: opt_int4_def pg_int4_param_def int4_max_def split: option.split)
  moreover have "map (\<lambda>(i, r, _). (i, r)) (map loan_with_derived xs) = xs" for xs
    by (simp add: loan_with_derived_def Let_def comp_def)
  ultimately show ?thesis using assms(1) cu
    by (auto simp: loan_client_def get_loans_def Let_def loan_page_def simp del: map_map split: if_splits)
qed

lemma loans_listed_once:
  assumes "sent (get_loans sdk q d) \<noteq> None" and "map_of q ''before'' = None" and "tuniq (loans d)"
    and "\<And>i. i \<in> set (tkeys (loans d)) \<Longrightarrow> 0 < i \<and> i < int4_max" and "length (filter (loan_filter q) (loans d)) \<le> n"
  shows "follow (loan_client sdk q d) fst n None = rev (sort_key fst (filter (loan_filter q) (loans d)))"
proof -
  let ?l = "limit_of (param q ''limit'')"
  let ?C = "\<lambda>c. \<forall>k. c = Some k \<longrightarrow> 0 < k \<and> k < int4_max"
  have "\<not> invalidLimit (param q ''limit'')" using assms(1) by (auto simp: get_loans_def split: if_splits)
  then have l: "0 < ?l" using limit_of_pos by blast
  have "follow (loan_client sdk q d) fst n None = follow (\<lambda>c. loan_page q c ?l (loans d)) fst n None"
  proof (rule follow_cong [where C = ?C])
    show "loan_client sdk q d c = loan_page q c ?l (loans d)" if "?C c" for c
      using loan_client_page [OF assms(1,2), of c] that by blast
    show "?C (Some (fst r))" if "r \<in> set (loan_page q c ?l (loans d))" for c r
      using that assms(4) select_desc_subset unfolding loan_page_def by (fastforce simp: tkeys_def)
  qed simp
  also have "\<dots> = rev (sort_key fst (filter (loan_filter q) (loans d)))"
    using assms(3,5) l by (intro loan_pages.follow_all) (simp_all add: tuniq_def tkeys_def)
  finally show ?thesis .
qed

lemma with_ids_keys: "map fst (with_ids rows) = map int [1..<Suc (length rows)]"
  by (simp add: with_ids_def)

lemma with_ids_range: "(i, r) \<in> set (with_ids rows) \<Longrightarrow> 0 < i \<and> i \<le> int (length rows)"
  by (auto simp: with_ids_def dest!: set_zip_leftD)

lemma notification_client_page:
  assumes "sent (get_notifications sdk q d) \<noteq> None" and "map_of q ''before'' = None"
    and "\<And>k. c = Some k \<Longrightarrow> 0 < k \<and> k \<le> 2 ^ 53 - 1"
  shows "notification_client sdk q d c = notification_page q c (limit_of (param q ''limit'')) (with_ids (notifications d))"
  using assms(1) cursor_with_before [OF assms(2,3)]
  by (auto simp: notification_client_def get_notifications_def notification_page_def split: if_splits)

lemma notifications_listed_once:
  assumes "sent (get_notifications sdk q d) \<noteq> None" and "map_of q ''before'' = None"
    and "int (length (notifications d)) < 2 ^ 53" and "length (notifications d) \<le> n"
  shows "follow (notification_client sdk q d) fst n None =
    rev (sort_key fst (filter (notification_filter q) (with_ids (notifications d))))"
proof -
  let ?l = "limit_of (param q ''limit'')" and ?rows = "with_ids (notifications d)"
  let ?C = "\<lambda>c. \<forall>k. c = Some k \<longrightarrow> 0 < k \<and> k \<le> (2::int) ^ 53 - 1"
  have "\<not> invalidLimit (param q ''limit'')" using assms(1) by (auto simp: get_notifications_def split: if_splits)
  then have l: "0 < ?l" using limit_of_pos by blast
  have "follow (notification_client sdk q d) fst n None = follow (\<lambda>c. notification_page q c ?l ?rows) fst n None"
  proof (rule follow_cong [where C = ?C])
    show "notification_client sdk q d c = notification_page q c ?l ?rows" if "?C c" for c
      using notification_client_page [OF assms(1,2), of c] that by blast
    show "?C (Some (fst r))" if "r \<in> set (notification_page q c ?l ?rows)" for c r
      using that assms(3) select_desc_subset with_ids_range [of "fst r" "snd r"] unfolding notification_page_def
      by (fastforce simp del: One_nat_def)
  qed simp
  also have "\<dots> = rev (sort_key fst (filter (notification_filter q) ?rows))"
  proof (rule notification_pages.follow_all)
    show "distinct (map fst ?rows)" unfolding with_ids_keys by (simp add: distinct_map del: upt_Suc)
    have "length (filter (notification_filter q) ?rows) \<le> length ?rows" by simp
    also have "\<dots> = length (notifications d)" by (simp add: with_ids_def del: upt_Suc)
    finally show "length (filter (notification_filter q) ?rows) \<le> n" using assms(4) by simp
  qed (rule l)
  finally show ?thesis .
qed

end
