(* ===== verification/Stats.thy ===== *)
theory Stats
  imports Feeds
begin

text \<open>
  Aggregates and probes: \<open>computeStats\<close>, the \<open>/stats\<close> and \<open>/stats/history\<close> handlers of
  \<open>src/api/routes/index.ts\<close>, the history cache (\<open>src/api/history-cache.ts\<close>) and the readiness
  probe of \<open>src/api/server.ts\<close>. Quotients of floating-point numbers are kept as their operands.
\<close>

section \<open>Freshness\<close>

record freshness =
  fr_lastIndexedLedger :: "nat option"
  fr_observedTipLedger :: "nat option"
  fr_ledgersBehind :: "nat option"
  fr_estimatedLagSeconds :: "int option"
  fr_secondsSinceUpdate :: "int option"
  fr_stale :: bool

text \<open>\<open>ORDER BY updated_at ASC NULLS FIRST LIMIT 1\<close>.\<close>

definition worst_cursor :: "db \<Rightarrow> cursor_row option" where
  "worst_cursor db = (case sort_key cu_updated_at (trows (db_cursors db)) of [] \<Rightarrow> None | r # _ \<Rightarrow> Some r)"

definition ledgers_behind :: "nat option \<Rightarrow> nat option \<Rightarrow> nat option" where
  "ledgers_behind lastLedger tip =
     (case (lastLedger, tip) of (Some l, Some t) \<Rightarrow> if l < t then Some (t - l) else None | _ \<Rightarrow> None)"

text \<open>The clock is read twice, \<open>closeTime\<close> is the nominal ledger close time.\<close>

definition freshness_of :: "int \<Rightarrow> int \<Rightarrow> int \<Rightarrow> int \<Rightarrow> cursor_row option \<Rightarrow> freshness" where
  "freshness_of closeTime staleAfterMs now1 now2 c =
     (let l = (case c of Some r \<Rightarrow> cu_last_ledger r | None \<Rightarrow> None);
          t = (case c of Some r \<Rightarrow> cu_observed_tip_ledger r | None \<Rightarrow> None);
          b = ledgers_behind l t
      in \<lparr>fr_lastIndexedLedger = l, fr_observedTipLedger = t, fr_ledgersBehind = b,
          fr_estimatedLagSeconds = map_option (\<lambda>n. int n * closeTime) b,
          fr_secondsSinceUpdate = map_option (\<lambda>r. (now1 - cu_updated_at r) div 1000) c,
          fr_stale = (case c of Some r \<Rightarrow> staleAfterMs < now2 - cu_updated_at r | None \<Rightarrow> False)\<rparr>)"

section \<open>Statistics\<close>

record stats_counts =
  sc_totalMembers :: nat
  sc_activeMembers :: nat
  sc_totalLoanProposals :: nat
  sc_totalLoans :: nat
  sc_activeLoans :: nat
  sc_defaultedLoans :: nat
  sc_totalTreasuryProposals :: nat
  sc_quarantinedEvents :: nat

record stats_amounts =
  sa_totalDefaultedValue :: int
  sa_totalStaked :: int
  sa_totalContribution :: int
  sa_interestCollected :: int
  sa_principalLent :: int
  sa_principalRepaid :: int
  sa_valueDefaulted :: int

record dao_stats =
  ds_counts :: stats_counts
  ds_amounts :: stats_amounts
  ds_stakingRatio :: "(int \<times> int) option" \<comment> \<open>\<open>None\<close> is 0\<close>
  ds_quarantineEscalatedAt :: "int option"
  ds_freshness :: freshness
  ds_reorgHalt :: "reorg_halt_row option"
  ds_connectedStreams :: nat
  ds_notificationFailures :: nat

definition count_rows :: "('r \<Rightarrow> bool) \<Rightarrow> ('k, 'r) tbl \<Rightarrow> nat" where
  "count_rows P t = length (filter P (trows t))"

definition sum_rows :: "('r \<Rightarrow> int) \<Rightarrow> ('r \<Rightarrow> bool) \<Rightarrow> ('k, 'r) tbl \<Rightarrow> int" where
  "sum_rows f P t = sum_list (map f (filter P (trows t)))"

definition compute_counts :: "db \<Rightarrow> stats_counts" where
  "compute_counts db =
     (let d = db_derived db in
      \<lparr>sc_totalMembers = count_rows (\<lambda>m. m_joined_ledger m \<noteq> None) (members d),
       sc_activeMembers = count_rows (\<lambda>m. m_joined_ledger m \<noteq> None \<and> \<not> m_exited m) (members d),
       sc_totalLoanProposals = length (loan_proposals d), sc_totalLoans = length (loans d),
       sc_activeLoans = count_rows (\<lambda>r. ln_status r = LN_active) (loans d),
       sc_defaultedLoans = count_rows (\<lambda>r. ln_status r = LN_defaulted) (loans d),
       sc_totalTreasuryProposals = length (treasury_proposals d),
       sc_quarantinedEvents = count_rows (\<lambda>r. fe_resolved_at r = None) (db_failed db)\<rparr>)"

definition compute_amounts :: "derived \<Rightarrow> stats_amounts" where
  "compute_amounts d =
     \<lparr>sa_totalDefaultedValue = sum_rows ln_outstanding (\<lambda>r. ln_status r = LN_defaulted) (loans d),
      sa_totalStaked = sum_rows m_stake (\<lambda>m. \<not> m_exited m) (members d),
      sa_totalContribution = sum_rows m_contribution (\<lambda>m. \<not> m_exited m) (members d),
      sa_interestCollected = dt_interest_collected (dao_totals d), sa_principalLent = dt_principal_lent (dao_totals d),
      sa_principalRepaid = dt_principal_repaid (dao_totals d), sa_valueDefaulted = dt_value_defaulted (dao_totals d)\<rparr>"

definition escalated_at :: "db \<Rightarrow> int option" where
  "escalated_at db =
     (case rev (sort (List.map_filter qr_escalated_at (trows (db_quarantine db)))) of [] \<Rightarrow> None | t # _ \<Rightarrow> Some t)"

definition computeStats :: "int \<Rightarrow> int \<Rightarrow> int \<Rightarrow> int \<Rightarrow> nat \<Rightarrow> nat \<Rightarrow> db \<Rightarrow> dao_stats" where
  "computeStats closeTime staleAfterMs now1 now2 streams failures db =
     (let am = compute_amounts (db_derived db) in
      \<lparr>ds_counts = compute_counts db, ds_amounts = am,
       ds_stakingRatio = (if sa_totalContribution am = 0 then None else Some (sa_totalStaked am, sa_totalContribution am)),
       ds_quarantineEscalatedAt = escalated_at db,
       ds_freshness = freshness_of closeTime staleAfterMs now1 now2 (worst_cursor db),
       ds_reorgHalt = map_option snd (loadUnclearedReorgHalt db),
       ds_connectedStreams = streams, ds_notificationFailures = failures\<rparr>)"

text \<open>
  One request. The handler reads the name \<open>liveStreams\<close>, which is declared nowhere, after a
  computation and when it falls back to an older value. \<open>compute\<close> is the result of
  \<open>computeStats\<close>, \<open>g\<close> the gate when the request arrives.
\<close>

definition undeclared_liveStreams :: exn where
  "undeclared_liveStreams = PlainError ''liveStreams is not defined''"

definition stats_busy :: string where
  "stats_busy = ''stats temporarily unavailable; retry shortly''"

definition get_stats ::
  "int \<Rightarrow> int \<Rightarrow> int \<Rightarrow> nat \<Rightarrow> nat \<Rightarrow> exn + dao_stats \<Rightarrow> gate \<Rightarrow> (int \<times> dao_stats) option \<Rightarrow>
     dao_stats answer \<times> (int \<times> dao_stats) option" where
  "get_stats ttl now done_at streams failures compute g cache =
     (let miss =
        (if \<not> fst (tryAcquire g) then (refuse Public_live 503 stats_busy, cache)
         else case compute of
                Inr v \<Rightarrow> ((Public_live, Inl undeclared_liveStreams), Some (done_at, v))
              | Inl e \<Rightarrow> ((Public_live, Inl (if cache = None then e else undeclared_liveStreams)), cache))
      in case cache of
           Some (at, v) \<Rightarrow>
             if now - at < ttl
             then ((Public_live, Inr (Send (v\<lparr>ds_connectedStreams := streams, ds_notificationFailures := failures\<rparr>))), cache)
             else miss
         | None \<Rightarrow> miss)"

section \<open>History\<close>

record history_day =
  hd_date :: int
  hd_principalLent :: int
  hd_principalRepaid :: int
  hd_defaults :: int
  hd_valueDefaulted :: int
  hd_cumulativeOriginated :: int
  hd_cumulativeDefaults :: int \<comment> \<open>the rate is their quotient, 0 when nothing was originated\<close>

definition day_value :: "(daily_loan_stats_row \<Rightarrow> int) \<Rightarrow> derived \<Rightarrow> int \<Rightarrow> int" where
  "day_value col d day = (case tget (daily_loan_stats d) day of Some r \<Rightarrow> col r | None \<Rightarrow> 0)"

definition first_day :: "derived \<Rightarrow> int option" where
  "first_day d = (case sort (tkeys (daily_loan_stats d)) of [] \<Rightarrow> None | x # _ \<Rightarrow> Some x)"

definition history_row :: "derived \<Rightarrow> int \<Rightarrow> int \<Rightarrow> history_day" where
  "history_row d first day =
     \<lparr>hd_date = day, hd_principalLent = day_value dl_principal_lent d day, hd_principalRepaid = day_value dl_principal_repaid d day,
      hd_defaults = day_value dl_defaults_count d day, hd_valueDefaulted = day_value dl_value_defaulted d day,
      hd_cumulativeOriginated = sum_list (map (day_value dl_loans_originated d) [first..day]),
      hd_cumulativeDefaults = sum_list (map (day_value dl_defaults_count d) [first..day])\<rparr>"

definition loan_history :: "int \<Rightarrow> derived \<Rightarrow> history_day list" where
  "loan_history today d =
     (case first_day d of None \<Rightarrow> [] | Some first \<Rightarrow> map (history_row d first) [first..today])"

text \<open>
  The cache of an API process: its own value with its expiry, and the value under the key in
  Redis. \<open>up\<close> tells whether Redis is configured and answers.
\<close>

record 'v history_cache =
  hc_local :: "(int \<times> 'v) option"
  hc_redis :: "'v option"

definition HISTORY_CACHE_TTL_SECONDS :: int where "HISTORY_CACHE_TTL_SECONDS = 3600"

definition history_get :: "bool \<Rightarrow> int \<Rightarrow> 'v history_cache \<Rightarrow> 'v option" where
  "history_get up now c =
     (if up \<and> hc_redis c \<noteq> None then hc_redis c
      else case hc_local c of Some (expiresAt, v) \<Rightarrow> if now < expiresAt then Some v else None | None \<Rightarrow> None)"

definition history_set :: "bool \<Rightarrow> int \<Rightarrow> 'a list \<Rightarrow> 'a list history_cache \<Rightarrow> 'a list history_cache" where
  "history_set up now v c =
     (if v = [] then c
      else c\<lparr>hc_local := Some (now + HISTORY_CACHE_TTL_SECONDS * 1000, v), hc_redis := (if up then Some v else hc_redis c)\<rparr>)"

definition history_invalidate :: "bool \<Rightarrow> 'v history_cache \<Rightarrow> 'v history_cache" where
  "history_invalidate up c = \<lparr>hc_local = None, hc_redis = (if up then None else hc_redis c)\<rparr>"

text \<open>\<open>invalidateHistoryCache\<close> makes a new cache object and invalidates that one.\<close>

definition invalidateHistoryCache :: "bool \<Rightarrow> 'v history_cache \<Rightarrow> 'v history_cache" where
  "invalidateHistoryCache up c =
     (let fresh = history_invalidate up \<lparr>hc_local = None, hc_redis = hc_redis c\<rparr> in c\<lparr>hc_redis := hc_redis fresh\<rparr>)"

definition get_stats_history ::
  "bool \<Rightarrow> int \<Rightarrow> int \<Rightarrow> derived \<Rightarrow> history_day list history_cache \<Rightarrow> history_day list answer \<times> history_day list history_cache" where
  "get_stats_history up now today d c =
     (case history_get up now c of
        Some v \<Rightarrow> ((Public_live, Inr (Send v)), c)
      | None \<Rightarrow> let v = loan_history today d in ((Public_live, Inr (Send v)), history_set up now v c))"

section \<open>Readiness\<close>

datatype ping = Answered | Timed_out | Unreachable

datatype ready_body =
    Not_ready string
  | Reorg_detected reorg_halt_row "nat option" "nat option"
  | Cold_start "nat option"
  | Indexer_stale freshness
  | Indexer_ok freshness

fun ready_status :: "ready_body \<Rightarrow> nat" where
  "ready_status (Cold_start _) = 200"
| "ready_status (Indexer_ok _) = 200"
| "ready_status _ = 503"

definition isUndefinedTable :: "exn \<Rightarrow> bool" where
  "isUndefinedTable e = (case e of PgError c _ \<Rightarrow> c = ''42P01'' | _ \<Rightarrow> False)"

text \<open>A query of the probe: a missing table counts as no row.\<close>

definition probe :: "exn + 'r option \<Rightarrow> 'r option option" where
  "probe r = (case r of Inr x \<Rightarrow> Some x | Inl e \<Rightarrow> if isUndefinedTable e then Some None else None)"

text \<open>The columns of the cursor the probe asks for; \<open>updated_at\<close> is declared \<open>NOT NULL\<close>, and checked all the same.\<close>

record cursor_probe =
  pb_last_ledger :: "nat option"
  pb_observed_tip_ledger :: "nat option"
  pb_updated_at :: "int option"

definition probe_row :: "cursor_row \<Rightarrow> cursor_probe" where
  "probe_row r = \<lparr>pb_last_ledger = cu_last_ledger r, pb_observed_tip_ledger = cu_observed_tip_ledger r,
     pb_updated_at = Some (cu_updated_at r)\<rparr>"

definition STELLAR_LEDGER_CLOSE_TIME_SECONDS :: int where "STELLAR_LEDGER_CLOSE_TIME_SECONDS = 5"

definition probe_freshness :: "int \<Rightarrow> int \<Rightarrow> int \<Rightarrow> cursor_probe \<Rightarrow> int \<Rightarrow> freshness" where
  "probe_freshness staleAfterMs now1 now2 r updatedAt =
     (let b = ledgers_behind (pb_last_ledger r) (pb_observed_tip_ledger r)
      in \<lparr>fr_lastIndexedLedger = pb_last_ledger r, fr_observedTipLedger = pb_observed_tip_ledger r, fr_ledgersBehind = b,
          fr_estimatedLagSeconds = map_option (\<lambda>n. int n * STELLAR_LEDGER_CLOSE_TIME_SECONDS) b,
          fr_secondsSinceUpdate = Some ((now1 - updatedAt) div 1000),
          fr_stale = (staleAfterMs < now2 - updatedAt)\<rparr>)"

definition ready ::
  "int \<Rightarrow> int \<Rightarrow> int \<Rightarrow> ping \<Rightarrow> exn + cursor_probe option \<Rightarrow> exn + reorg_halt_row option \<Rightarrow> ready_body" where
  "ready staleAfterMs now1 now2 ping row halt =
     (if ping \<noteq> Answered then Not_ready (if ping = Timed_out then ''postgres_timeout'' else ''postgres_unreachable'')
      else case probe row of
        None \<Rightarrow> Not_ready ''postgres_error''
      | Some c \<Rightarrow>
          (case probe halt of
             None \<Rightarrow> Not_ready ''postgres_error''
           | Some (Some h) \<Rightarrow>
               Reorg_detected h (case c of Some r \<Rightarrow> pb_last_ledger r | None \<Rightarrow> None)
                 (case c of Some r \<Rightarrow> pb_observed_tip_ledger r | None \<Rightarrow> None)
           | Some None \<Rightarrow>
               (case c of
                  None \<Rightarrow> Cold_start None
                | Some r \<Rightarrow>
                    (case (pb_last_ledger r, pb_updated_at r) of
                       (Some l, Some u) \<Rightarrow>
                         let f = probe_freshness staleAfterMs now1 now2 r u in
                         if fr_stale f then Indexer_stale f else Indexer_ok f
                     | _ \<Rightarrow> Cold_start (pb_observed_tip_ledger r)))))"

text \<open>The probe over the tables, each of its two queries with the error it may end in.\<close>

definition ready_db :: "int \<Rightarrow> int \<Rightarrow> int \<Rightarrow> ping \<Rightarrow> exn option \<Rightarrow> exn option \<Rightarrow> db \<Rightarrow> ready_body" where
  "ready_db staleAfterMs now1 now2 ping cursorFault haltFault db =
     ready staleAfterMs now1 now2 ping
       (case cursorFault of Some e \<Rightarrow> Inl e | None \<Rightarrow> Inr (map_option probe_row (worst_cursor db)))
       (case haltFault of Some e \<Rightarrow> Inl e | None \<Rightarrow> Inr (map_option snd (loadUnclearedReorgHalt db)))"

end
