(* ===== verification/Api_Facts.thy ===== *)
theory Api_Facts
  imports Pages Stats
begin

text \<open>Facts about the endpoints: cursors by ledger, ownership, the probe and the aggregates.\<close>

section \<open>Cursors by ledger\<close>

lemma follow_bounded:
  fixes key :: "'r \<Rightarrow> 'k::linorder"
  assumes "\<And>c r. r \<in> set (page (Some c)) \<Longrightarrow> key r < c" and "r \<in> set (follow page key n (Some c))"
  shows "key r < c"
  using assms(2)
proof (induction n arbitrary: c)
  case (Suc n)
  show ?case
  proof (cases "page (Some c)")
    case Nil
    with Suc.prems show ?thesis by simp
  next
    case (Cons x xs)
    then have below: "\<And>y. y \<in> set (x # xs) \<Longrightarrow> key y < c" using assms(1) by metis
    from Suc.prems Cons consider "r \<in> set (x # xs)" | "r \<in> set (follow page key n (Some (key (last (x # xs)))))" by auto
    then show ?thesis
    proof cases
      case 2
      then have "key r < key (last (x # xs))" by (rule Suc.IH)
      also have "\<dots> < c" by (rule below) (rule last_in_set, simp)
      finally show ?thesis .
    qed (rule below)
  qed
qed simp

text \<open>A row that shares its key with the last row of the first page, but is not on it, is lost.\<close>

lemma follow_cuts:
  fixes key :: "'r \<Rightarrow> 'k::linorder"
  assumes "\<And>c r. r \<in> set (page (Some c)) \<Longrightarrow> key r < c" and "page None \<noteq> []" and "r \<notin> set (page None)"
    and "key (last (page None)) \<le> key r"
  shows "r \<notin> set (follow page key n None)"
proof (cases n)
  case (Suc m)
  obtain x xs where p: "page None = x # xs" using assms(2) by (cases "page None") auto
  have "r \<notin> set (follow page key m (Some (key (last (x # xs)))))"
  proof
    assume "r \<in> set (follow page key m (Some (key (last (x # xs)))))"
    then have "key r < key (last (x # xs))" by (rule follow_bounded [where page = page and key = key, rotated]) (rule assms(1))
    with assms(4) p show False by simp
  qed
  with Suc p assms(3) show ?thesis by simp
qed simp

definition interest_client :: "query_params \<Rightarrow> derived \<Rightarrow> int option \<Rightarrow> (int \<times> interest_distribution_row) list" where
  "interest_client q d c = rows_sent (get_interest (with_before c q) d)"

definition ledger_key :: "int \<times> interest_distribution_row \<Rightarrow> int" where
  "ledger_key ir = int (idr_ledger (snd ir))"

lemma cursor_before_text:
  assumes "\<not> invalidCursor (param (with_before (Some c) q) ''before'')"
  shows "cursor (param (with_before (Some c) q) ''before'') = Some c"
proof -
  have "cursor (JStr (show_int c)) \<noteq> None" using assms by (simp add: with_before_def param_def invalidCursor_def)
  then obtain k where k: "safe_digits (js_trim (show_int c)) = Some k" "0 < k"
    by (auto simp: cursor_def split: if_splits option.splits)
  have nonneg: "0 \<le> c"
  proof (rule ccontr)
    assume "\<not> 0 \<le> c"
    then have s: "show_int c = CHR ''-'' # show_nat (nat (- c))" by (simp add: show_int_def)
    have "js_trim (show_int c) = show_int c"
      by (rule js_trim_no_ws) (use s is_digit_show_nat [of "nat (- c)"] is_ws_digit in \<open>auto simp: list_all_iff is_ws_def\<close>)
    with k(1) s show False by (simp add: safe_digits_def all_digits_def is_digit_def split: if_splits)
  qed
  have "js_trim (show_nat n) = show_nat n" for n
    using is_digit_show_nat [of n] is_ws_digit by (intro js_trim_no_ws) (auto simp: list_all_iff)
  then have t: "js_trim (show_int c) = show_int c" using nonneg by (simp add: show_int_def)
  have "k = c"
  proof (cases "c < 10 ^ 21")
    case True
    with nonneg have "str_Number (show_int c) = NInt c" by (intro str_Number_show_int) simp
    with k(1) t show ?thesis by (auto simp: safe_digits_def split: if_splits)
  next
    case False
    obtain d u where d: "show_nat (nat c) = digit_char d # u" "d < 10" "d = 0 \<longrightarrow> u = []" using show_nat_head by blast
    have s: "show_int c = show_nat (nat c)" using nonneg by (simp add: show_int_def)
    have "str_Number (show_nat (nat c)) = unsigned_num False (show_nat (nat c)) (show_nat (nat c))"
      using t s d by (intro str_Number_digits) simp_all
    moreover have "parse_decimal (show_nat (nat c)) = Some (nat c, 0)"
      using all_digits_show_nat [of "nat c"] by (auto simp: parse_decimal_def parse_exponent_def all_digits_def Let_def)
    moreover have "show_nat (nat c) \<noteq> ''Infinity''"
      using is_digit_show_nat [of "nat c"] by (auto simp: is_digit_def)
    ultimately have "\<nexists>i. str_Number (show_int c) = NInt i"
      using False nonneg s by (auto simp: unsigned_num_def decimal_num_def Let_def)
    with k(1) t show ?thesis by (auto simp: safe_digits_def split: if_splits jsnum.splits)
  qed
  with k t nonneg show ?thesis
    by (auto simp: with_before_def param_def cursor_def is_absent_def safe_digits_def all_digits_def)
qed

lemma interest_client_below: "r \<in> set (interest_client q d (Some c)) \<Longrightarrow> ledger_key r < c"
  using cursor_before_text [of c q]
  by (auto simp: interest_client_def get_interest_def Let_def interest_page_def select_desc_def before_ledger_def ledger_key_def
      dest!: in_set_takeD split: if_splits)

section \<open>Read flags\<close>

lemma set_read_other [simp]:
  "db_events (set_read P db) = db_events db" "db_failed (set_read P db) = db_failed db" "db_audit (set_read P db) = db_audit db"
  "db_cursors (set_read P db) = db_cursors db" "db_halts (set_read P db) = db_halts db"
  by (simp_all add: set_read_def)

lemma authenticated_key:
  assumes "authenticateRequest sdk consume hs target s = (Authenticated a key, s')" and "sdk_isValidEd25519PublicKey sdk a"
  shows "key = a"
  using assms
  by (auto simp: authenticateRequest_def Let_def verifySignature_def verify_with_key_def classifyStellarAddress_def
      split: option.splits prod.splits signature_result.splits if_splits bool.splits sum.splits)

text \<open>
  The signature \<open>hs\<close> carries verifies under the key \<open>key\<close>, and the nonce was issued to the
  address and is used up.
\<close>

definition proves :: "sdk \<Rightarrow> int \<Rightarrow> headers \<Rightarrow> string \<Rightarrow> nonce_table \<Rightarrow> nonce_table \<Rightarrow> bool" where
  "proves sdk now hs key t t' \<longleftrightarrow>
     (\<exists>a sg n x. extractAuthHeaders hs = Some (a, sg, n) \<and> sdk_verify sdk key (n @ '':'' @ a) (base64_bytes sg) = Inr True \<and>
        entry_owner t n = Some (a, x) \<and> now < x \<and> entry_owner t' n = None)"

lemma with_auth_proves:
  assumes "with_auth sdk (postgres_consume now) track hs target s db handler = (ans, s', db')" and "db' \<noteq> db"
  shows "\<exists>a key. handler a key db = (ans, db') \<and> proves sdk now hs key (au_store s) (au_store s') \<and>
    target \<in> {None, Some [], Some a} \<and> (sdk_isValidEd25519PublicKey sdk a \<longrightarrow> key = a)"
proof -
  let ?s = "if track then s else s\<lparr>au_tracker := None\<rparr>"
  obtain a key s1 where r: "authenticateRequest sdk (postgres_consume now) hs target ?s = (Authenticated a key, s1)"
    and h: "handler a key db = (ans, db')" and st: "au_store s' = au_store s1"
    using assms by (auto simp: with_auth_def Let_def split: prod.splits auth_result.splits if_splits)
  have "au_store ?s = au_store s" by simp
  with pg.authenticated_owner [OF r] st have "proves sdk now hs key (au_store s) (au_store s') \<and> target \<in> {None, Some [], Some a}"
    unfolding proves_def by auto
  with h authenticated_key [OF r] show ?thesis by blast
qed

lemma with_ids_map: "with_ids rows = map (\<lambda>j. (int j + 1, rows ! j)) [0..<length rows]"
  by (rule nth_equalityI) (simp_all add: with_ids_def add.commute del: upt_Suc)

lemma map_of_with_ids:
  "map_of (with_ids rows) i = Some r \<longleftrightarrow> 0 < i \<and> i \<le> int (length rows) \<and> rows ! nat (i - 1) = r"
proof -
  have d: "distinct (map fst (with_ids rows))" unfolding with_ids_keys by (simp add: distinct_map del: upt_Suc)
  have "map_of (with_ids rows) i = Some r \<longleftrightarrow> (i, r) \<in> set (with_ids rows)" using map_of_eq_Some_iff [OF d] by blast
  also have "\<dots> \<longleftrightarrow> (\<exists>j < length rows. i = int j + 1 \<and> r = rows ! j)"
    unfolding with_ids_map by auto
  also have "\<dots> \<longleftrightarrow> 0 < i \<and> i \<le> int (length rows) \<and> rows ! nat (i - 1) = r"
    by (auto intro!: exI [of _ "nat (i - 1)"])
  finally show ?thesis .
qed

lemma read_one_changes:
  assumes "read_one raw key db = (ans, db')" and "db' \<noteq> db"
  shows "\<exists>i n. id_param raw = Some i \<and> map_of (with_ids (notifications (db_derived db))) i = Some n \<and> nt_address n = key \<and>
    db' = set_read (\<lambda>(j, _). j = i) db"
  using assms by (auto simp: read_one_def split: option.splits if_splits)

text \<open>What \<open>set_read\<close> does to a row.\<close>

lemma set_read_nth:
  assumes "k < length (notifications (db_derived db))"
  shows "notifications (db_derived (set_read P db)) ! k =
    (let n = notifications (db_derived db) ! k in if P (int k + 1, n) then n\<lparr>nt_read := True\<rparr> else n)"
  using assms by (simp add: set_read_def with_ids_map Let_def)

section \<open>Event cursors\<close>

text \<open>
  The cursor of an event whose id starts with a number above every ledger: the page below it is
  the first page again.
\<close>

lemma before_event_toid:
  assumes "eventCursor (JStr i) = Some c" and "ec_id c = Some i'" and "er_ledger (snd ir) < cursor_ledger c"
  shows "before_event (Some c) ir"
  using assms by (simp add: before_event_def row_key_def less_event_key_def)

lemma str_Number_all_digits:
  assumes "all_digits a" and "digits_val a < 10 ^ 21"
  shows "str_Number a = NInt (int (digits_val a))"
proof -
  have t: "js_trim a = a"
    using assms(1) is_ws_digit by (intro js_trim_no_ws) (auto simp: all_digits_def list_all_iff)
  have dig: "\<And>c. c \<in> set a \<Longrightarrow> is_digit c" using assms(1) by (simp add: all_digits_def list_all_iff)
  obtain c r where a: "a = c # r" using assms(1) by (cases a) (auto simp: all_digits_def)
  have c: "c = digit_char (digit_val c)" "digit_val c < 10"
    using dig [of c] a by (auto simp: is_digit_def digit_char_def digit_val_def)
  have "str_Number a = unsigned_num False a a"
  proof (cases "digit_val c = 0 \<and> r \<noteq> []")
    case False
    with t a c show ?thesis by (intro str_Number_digits [of a "digit_val c" r]) auto
  next
    case True
    then obtain e u where r: "r = e # u" by (cases r) auto
    have "is_digit e" using dig a r by simp
    then have "e \<noteq> CHR ''x'' \<and> e \<noteq> CHR ''X'' \<and> e \<noteq> CHR ''o'' \<and> e \<noteq> CHR ''O'' \<and> e \<noteq> CHR ''b'' \<and> e \<noteq> CHR ''B''"
      by (auto simp: is_digit_def)
    moreover have "c = CHR ''0''" using c True by (simp add: digit_char_def char_of_def bit_simps)
    ultimately show ?thesis using t a r by (simp add: str_Number_def Let_def)
  qed
  moreover have "takeWhile is_digit a = a" "dropWhile is_digit a = []" using dig by auto
  then have "parse_decimal a = Some (digits_val a, 0)" using a by (simp add: parse_decimal_def parse_exponent_def Let_def)
  moreover have "a \<noteq> ''Infinity''" using dig [of "CHR ''I''"] by (auto simp: is_digit_def)
  moreover have "\<not> max_double \<le> int (digits_val a)" using assms(2) by (simp add: max_double_def)
  moreover have "int (digits_val a) < 10 ^ 21" using assms(2) by (metis of_nat_less_iff of_nat_numeral of_nat_power)
  ultimately show ?thesis by (simp add: unsigned_num_def decimal_num_def Let_def)
qed

lemma eventCursor_id:
  assumes "all_digits a" and "all_digits b" and "digits_val a < 2 ^ 63"
  shows "eventCursor (JStr (a @ ''-'' @ b)) = Some \<lparr>ec_ledger = NInt (int (digits_val a)), ec_id = Some (a @ ''-'' @ b)\<rparr>"
proof -
  have d: "list_all (\<lambda>c. \<not> is_ws c) (a @ ''-'' @ b)"
    using assms(1,2) is_ws_digit by (auto simp: all_digits_def list_all_iff is_ws_def)
  have na: "CHR ''-'' \<notin> set a" "CHR ''-'' \<notin> set b"
    using assms(1,2) by (auto simp: all_digits_def list_all_iff is_digit_def)
  have "js_split (CHR ''-'') (a @ ''-'' @ b) = [a, b]"
    using js_split_append_sep [OF na(1), of b] js_split_no_sep [OF na(2)] by simp
  moreover have "str_Number a = NInt (int (digits_val a))" using assms(1,3) by (intro str_Number_all_digits) auto
  ultimately show ?thesis using js_trim_no_ws [OF d] assms(1,2)
    by (simp add: eventCursor_def is_absent_def Let_def)
qed

definition event_client :: "query_params \<Rightarrow> db \<Rightarrow> string option \<Rightarrow> ((string \<times> event_row) list \<times> string option) option" where
  "event_client q db c = sent (get_events (case c of None \<Rightarrow> q | Some i \<Rightarrow> (''before'', JStr i) # q) db)"

lemma param_cons [simp]: "param ((k, v) # q) k' = (if k = k' then v else param q k')"
  by (simp add: param_def)

lemma event_page_all_before:
  assumes "\<And>ir. ir \<in> set rows \<Longrightarrow> before_event c ir"
  shows "event_page q c after l rows = event_page q None after l rows"
proof -
  have "filter (\<lambda>ir. event_filter q ir \<and> before_event c ir \<and> after_event after ir) rows =
      filter (\<lambda>ir. event_filter q ir \<and> before_event None ir \<and> after_event after ir) rows"
    using assms by (intro filter_cong) (auto simp: before_event_def [of None])
  then show ?thesis unfolding event_page_def select_asc_def select_desc_def by simp
qed

lemma event_page_repeats:
  assumes "event_client q db None = Some (es, Some i)" and "map_of q ''before'' = None" and "eventCursor (param q ''after'') = None"
    and "eventCursor (JStr i) = Some c" and "ec_id c = Some i" and "opt_int8 (Some c) = Inr ()"
    and "\<And>ir. ir \<in> set (db_events db) \<Longrightarrow> er_ledger (snd ir) < cursor_ledger c"
  shows "event_client q db (Some i) = Some (es, Some i)"
proof -
  let ?q = "(''before'', JStr i) # q" and ?l = "limit_of (param q ''limit'')"
  have nb: "eventCursor (param q ''before'') = None" using assms(2) by (simp add: param_def eventCursor_def is_absent_def)
  have "event_filter ?q = event_filter q" by (simp add: event_filter_def in_ledger_range_def)
  then have "event_page ?q (Some c) None ?l (db_events db) = event_page q (Some c) None ?l (db_events db)"
    by (simp add: event_page_def)
  also have "\<dots> = event_page q None None ?l (db_events db)"
    by (rule event_page_all_before) (rule before_event_toid [OF assms(4,5) assms(7)])
  finally have p: "event_page ?q (Some c) None ?l (db_events db) = event_page q None None ?l (db_events db)" .
  have "\<not> invalidLimit (param q ''limit'')" "\<not> invalidEventCursor (param q ''after'')"
    "\<not> invalidLedgerRange (param q ''from_ledger'') (param q ''to_ledger'')"
    and e: "es = event_page q None None ?l (db_events db)" "last_event_id es = Some i"
    using assms(1,3) nb by (auto simp: event_client_def get_events_def Let_def opt_int8_def split: if_splits)
  then show ?thesis using assms(3,4,6) p
    by (simp add: event_client_def get_events_def Let_def invalidEventCursor_def opt_int8_def)
qed

section \<open>Readiness\<close>

lemma worst_cursor_least:
  assumes "worst_cursor db = Some r"
  shows "r \<in> set (trows (db_cursors db))" and "c \<in> set (trows (db_cursors db)) \<Longrightarrow> cu_updated_at r \<le> cu_updated_at c"
proof -
  let ?s = "sort_key cu_updated_at (trows (db_cursors db))"
  obtain rs where s: "?s = r # rs" using assms by (auto simp: worst_cursor_def split: list.splits)
  have "set ?s = set (trows (db_cursors db))" by simp
  with s show "r \<in> set (trows (db_cursors db))" by (metis list.set_intros(1))
  have "sorted (map cu_updated_at (r # rs))" by (metis s sorted_sort_key)
  moreover assume "c \<in> set (trows (db_cursors db))"
  then have "c \<in> set (r # rs)" using s \<open>set ?s = _\<close> by metis
  ultimately show "cu_updated_at r \<le> cu_updated_at c" by auto
qed

lemmas ready_defs = ready_db_def ready_def probe_def probe_row_def probe_freshness_def Let_def

definition tolerated :: "exn option \<Rightarrow> bool" where
  "tolerated fault = (case fault of None \<Rightarrow> True | Some e \<Rightarrow> isUndefinedTable e)"

text \<open>What the probe looks at in the cursors: the least recently updated one, and all of them through it.\<close>

definition cursors_ready :: "int \<Rightarrow> int \<Rightarrow> db \<Rightarrow> bool" where
  "cursors_ready staleAfterMs now db =
     (case worst_cursor db of
        None \<Rightarrow> True
      | Some r \<Rightarrow> cu_last_ledger r = None \<or> (\<forall>c \<in> set (trows (db_cursors db)). now - cu_updated_at c \<le> staleAfterMs))"

lemma worst_cursor_fresh:
  assumes "worst_cursor db = Some r"
  shows "(\<forall>c \<in> set (trows (db_cursors db)). now - cu_updated_at c \<le> staleAfterMs) \<longleftrightarrow> now - cu_updated_at r \<le> staleAfterMs"
  using worst_cursor_least [OF assms] by fastforce

lemma ready_iff:
  "ready_status (ready_db staleAfterMs now1 now2 ping cursorFault haltFault db) = 200 \<longleftrightarrow>
     ping = Answered \<and> tolerated cursorFault \<and> tolerated haltFault \<and>
     (haltFault = None \<longrightarrow> (\<forall>h \<in> set (db_halts db). rh_cleared_at h \<noteq> None)) \<and>
     (cursorFault = None \<longrightarrow> cursors_ready staleAfterMs now2 db)"
proof -
  have cursors: "cursors_ready staleAfterMs now2 db \<longleftrightarrow> (case worst_cursor db of None \<Rightarrow> True
      | Some r \<Rightarrow> cu_last_ledger r = None \<or> \<not> staleAfterMs < now2 - cu_updated_at r)"
    using worst_cursor_fresh [of db] by (auto simp: cursors_ready_def split: option.splits)
  show ?thesis unfolding uncleared_iff [symmetric] cursors
    by (cases cursorFault; cases haltFault; cases ping; cases "loadUnclearedReorgHalt db"; cases "worst_cursor db")
      (auto simp: ready_defs tolerated_def split: option.splits)
qed

text \<open>
  A contract whose cursor has not indexed a ledger yet and is the least recently updated hides every
  other one: the probe reports a cold start, with 200, however long ago the others were updated.
\<close>

lemma cold_contract_hides_stale_ones:
  assumes "worst_cursor db = Some r" "cu_last_ledger r = None" "\<forall>h \<in> set (db_halts db). rh_cleared_at h \<noteq> None"
  shows "ready_db staleAfterMs now1 now2 Answered None None db = Cold_start (cu_observed_tip_ledger r)"
  using assms uncleared_iff [of db] by (simp add: ready_defs)

section \<open>Aggregates\<close>

lemma sum_day_values:
  assumes "tuniq (daily_loan_stats d)" and "\<And>k. k \<in> set (tkeys (daily_loan_stats d)) \<Longrightarrow> a \<le> k \<and> k \<le> b"
  shows "sum_list (map (day_value col d) [a..b]) = tsum col (daily_loan_stats d)"
proof -
  let ?t = "daily_loan_stats d"
  have "sum_list (map (day_value col d) [a..b]) = (\<Sum>k \<in> {a..b}. day_value col d k)"
    by (simp add: sum_list_distinct_conv_sum_set)
  also have "\<dots> = (\<Sum>k \<in> set (tkeys ?t). day_value col d k)"
  proof (rule sum.mono_neutral_right)
    show "set (tkeys ?t) \<subseteq> {a..b}" using assms(2) by auto
    show "\<forall>k \<in> {a..b} - set (tkeys ?t). day_value col d k = 0"
      by (auto simp: day_value_def tget_in_keys [THEN iffD2])
  qed simp
  also have "\<dots> = sum_list (map (day_value col d) (tkeys ?t))"
    using assms(1) sum_list_distinct_conv_sum_set [of "tkeys ?t" "day_value col d"] by (simp add: tuniq_def tkeys_def)
  also have "map (day_value col d) (tkeys ?t) = map (\<lambda>kr. col (snd kr)) ?t"
    using assms(1) by (auto simp: tkeys_def tuniq_def day_value_def tget_def map_of_is_SomeI)
  finally show ?thesis by (simp add: tsum_def trows_def comp_def)
qed

lemma first_day_least: "first_day d = Some f \<Longrightarrow> k \<in> set (tkeys (daily_loan_stats d)) \<Longrightarrow> f \<le> k"
proof -
  assume f: "first_day d = Some f" and k: "k \<in> set (tkeys (daily_loan_stats d))"
  obtain xs where s: "sort (tkeys (daily_loan_stats d)) = f # xs" using f by (auto simp: first_day_def split: list.splits)
  have "sorted (f # xs)" by (metis s sorted_sort)
  moreover have "k \<in> set (f # xs)" using k s by (metis set_sort)
  ultimately show "f \<le> k" by auto
qed

lemma history_sums:
  assumes "tuniq (daily_loan_stats d)" and "\<And>k. k \<in> set (tkeys (daily_loan_stats d)) \<Longrightarrow> k \<le> today"
  shows "sum_list (map hd_principalLent (loan_history today d)) = tsum dl_principal_lent (daily_loan_stats d)"
    and "sum_list (map hd_principalRepaid (loan_history today d)) = tsum dl_principal_repaid (daily_loan_stats d)"
    and "sum_list (map hd_valueDefaulted (loan_history today d)) = tsum dl_value_defaulted (daily_loan_stats d)"
    and "loan_history today d \<noteq> [] \<Longrightarrow>
      hd_cumulativeOriginated (last (loan_history today d)) = tsum dl_loans_originated (daily_loan_stats d)"
proof -
  let ?t = "daily_loan_stats d"
  have none: "?t = []" if "first_day d = None"
  proof -
    have "sort (tkeys ?t) = []" using that by (auto simp: first_day_def split: list.splits)
    then show ?thesis by (metis Nil_is_map_conv length_0_conv length_sort tkeys_def)
  qed
  have sums: "sum_list (map (day_value col d) [f..today]) = tsum col ?t" if "first_day d = Some f" for col f
    using assms(2) first_day_least [OF that] by (intro sum_day_values [OF assms(1)]) blast
  show "sum_list (map hd_principalLent (loan_history today d)) = tsum dl_principal_lent ?t"
    "sum_list (map hd_principalRepaid (loan_history today d)) = tsum dl_principal_repaid ?t"
    "sum_list (map hd_valueDefaulted (loan_history today d)) = tsum dl_value_defaulted ?t"
    using sums none by (auto simp: loan_history_def history_row_def comp_def tsum_def trows_def split: option.split)
  assume ne: "loan_history today d \<noteq> []"
  then obtain f where f: "first_day d = Some f" "f \<le> today" by (auto simp: loan_history_def split: option.splits)
  then have "last (loan_history today d) = history_row d f today"
    by (simp add: loan_history_def last_map upto_rec2)
  then show "hd_cumulativeOriginated (last (loan_history today d)) = tsum dl_loans_originated ?t"
    using sums [OF f(1)] by (simp add: history_row_def)
qed

text \<open>Only a cached value is ever sent by \<open>/stats\<close>.\<close>

lemma stats_sent_cached:
  assumes "sent (fst (get_stats ttl now at' streams failures compute g cache)) = Some v"
  shows "\<exists>t v0. cache = Some (t, v0) \<and> now - t < ttl"
  using assms by (auto simp: get_stats_def Let_def split: option.splits if_splits sum.splits)

text \<open>The value an API process keeps of the history survives its invalidation.\<close>

lemma history_stays:
  assumes "hc_redis c = None \<or> \<not> up" and "history_get up t c = Some v" and "hc_local c = Some (e, v)" and "t < e"
  shows "history_get up t (invalidateHistoryCache up c) = Some v"
  using assms by (auto simp: history_get_def invalidateHistoryCache_def history_invalidate_def Let_def)

end
