(* ===== verification/Route_Examples.thy ===== *)
theory Route_Examples
  imports Api_Facts Api_Examples Examples
begin

text \<open>Concrete tables on which the theorems about the endpoints are instantiated.\<close>

definition loan_to :: "string \<Rightarrow> loan_row" where
  "loan_to b = \<lparr>ln_borrower = b, ln_amount = 100, ln_outstanding = 30, ln_total_repayment = 110, ln_status = LN_active,
     ln_approved_ledger = Some 5, ln_due_time = None, ln_repaid_ledger = None, ln_defaulted_ledger = None\<rparr>"

definition note_for :: "string \<Rightarrow> bool \<Rightarrow> notification_row" where
  "note_for a b = \<lparr>nt_address = a, nt_type = N_info, nt_title = ''t'', nt_message = ''m'', nt_ledger = 5, nt_tx_hash = None,
     nt_read = b, nt_event_id = ''e''\<rparr>"

definition interest_at :: "nat \<Rightarrow> interest_distribution_row" where
  "interest_at l = \<lparr>idr_event_id = ''e'', idr_ledger = l, idr_amount = 7, idr_active_members = None, idr_tx_hash = None\<rparr>"

definition tables0 :: derived where
  "tables0 = empty_derived\<lparr>
     loans := [(1, loan_to ''GALICE''), (2, loan_to ''GBOB''), (3, loan_to ''GALICE'')],
     notifications := [note_for ''GALICE'' False, note_for ''GBOB'' False, note_for ''GALICE'' True],
     interest_distributions := [interest_at 9, interest_at 9, interest_at 8]\<rparr>"

definition db0 :: db where
  "db0 = empty_db\<lparr>db_derived := tables0\<rparr>"

definition one_per_page :: query_params where
  "one_per_page = [(''address'', JStr ''GALICE''), (''limit'', JStr ''1'')]"

text \<open>An event of ledger 50 under an id of the form the RPC server assigns.\<close>

definition toid :: string where "toid = ''0000214748364800'' @ ''-'' @ ''0000000001''"

definition event_at :: "nat \<Rightarrow> event_row" where
  "event_at l = \<lparr>er_ledger = l, er_closed_at = 0, er_contract_id = ''C'', er_symbol = ''joined'', er_topics = JArr [], er_data = JArr [],
     er_tx_hash = None, er_decode_error = None, er_folded_at = None\<rparr>"

definition log0 :: db where
  "log0 = empty_db\<lparr>db_events := [(toid, event_at 50), (''0000210453397504-0000000001'', event_at 49)]\<rparr>"

definition tailing :: db where
  "tailing = empty_db\<lparr>db_cursors := [(''CA'', \<lparr>cu_paging_token = None, cu_last_ledger = Some 6, cu_last_ledger_hash = None,
     cu_observed_tip_ledger = Some 9, cu_updated_at = 4000\<rparr>)]\<rparr>"

text \<open>Two contracts: the one updated last of all has indexed a ledger, the other none.\<close>

definition cold_cursor :: cursor_row where
  "cold_cursor = \<lparr>cu_paging_token = None, cu_last_ledger = None, cu_last_ledger_hash = None,
     cu_observed_tip_ledger = Some 9, cu_updated_at = 3000\<rparr>"

definition one_cold :: db where
  "one_cold = tailing\<lparr>db_cursors := (''CB'', cold_cursor) # db_cursors tailing\<rparr>"

lemma sent_tables0:
  "sent (get_loans sdk0 one_per_page tables0) \<noteq> None" "sent (get_notifications sdk0 one_per_page tables0) \<noteq> None"
  by code_simp+

end
