(* ===== verification/Further_Observations.thy ===== *)
theory Further_Observations
  imports Observations Route_Examples
begin

text \<open>
  More facts of the indexer, the stores, the stream and the read API, each with a concrete run: limits
  that hold, and places where the code does something else than a comment or a test says.
\<close>

text \<open>
  A page is let through (so the cursor may pass it) only when each of its events is in the raw
  log and either folded or on record as failed and unresolved, provided the failures could be
  recorded.
\<close>

lemma page_let_through_is_processed:
  assumes "ingestPageWithQuarantine scv q en raws l c ix = (Inr u, ix')"
    and "\<forall>raw \<in> set raws. en_record_fault en (re_id raw) = None" and "raw \<in> set raws"
  shows "is_logged (ix_db ix') (re_id raw) \<and>
    (is_folded (ix_db ix') (re_id raw) \<or> unresolved (ix_db ix') (re_id raw))"
  using assms by (rule ingestPageWithQuarantine_processed)

lemma page_let_through_is_processed_example:
  "is_logged (ix_db ixA) ''e1'' \<and> (is_folded (ix_db ixA) ''e1'' \<or> unresolved (ix_db ixA) ''e1'')"
  using page_let_through_is_processed [OF ixA_run, of ev_req]
  by (simp add: good_page_def ev_req_def wire_event_def)

text \<open>
  A rebuild folds an event that was logged but not folded without marking it folded, so the
  same event delivered once more is folded a second time: a vote of weight 3, quarantined
  after a transient fault, counts 3 after the rebuild and 6 after its page arrives again.
\<close>

lemma reindex_then_redelivery_counts_a_vote_twice:
  "votes_for (snd (reindexFromEventLog (healthy 12) 1000 db_quarantined)) = Some 3 \<and>
   is_ok (fst (reindexFromEventLog (healthy 12) 1000 db_quarantined)) \<and>
   votes_for (snd (ingestPage wire (healthy 13) [ev_vote] 0
     (snd (reindexFromEventLog (healthy 12) 1000 db_quarantined)))) = Some 6"
  unfolding votes_for_def reindexFromEventLog_def
    reindex_batches_visit [OF uniq_quarantined, of "healthy 12" 1000]
  by code_simp

text \<open>
  While an expired nonce is presented only by its owner, the in-memory store never holds more than
  its capacity, no address more than 100 nonces, and its per-address count is exact.
\<close>

lemma memory_store_stays_within_its_limits:
  assumes "memory_run cfg s"
  shows "length (ms_store s) \<le> nc_maxEntries cfg \<and> outstanding s a \<le> int MAX_NONCES_PER_ADDRESS \<and>
    int (count_of s a) = outstanding s a"
  using memory_run_outstanding [OF assms] by blast

lemma memory_store_stays_within_its_limits_example:
  "outstanding store1 ''GALICE'' = 1 \<and> int (count_of store1 ''GALICE'') = outstanding store1 ''GALICE''"
proof -
  have "memory_run nonce_cfg store1"
    unfolding store1_def empty_memory_def by (intro memory_run.issue memory_run.start) simp
  from memory_store_stays_within_its_limits [OF this] have "int (count_of store1 ''GALICE'') = outstanding store1 ''GALICE''" by blast
  moreover have "outstanding store1 ''GALICE'' = 1" by code_simp
  ultimately show ?thesis by simp
qed

text \<open>
  The resync broadcast on a discontinuity is sent on all five channels, but clients that are not
  subscribed to the members channel receive nothing of it.
\<close>

lemma resync_reaches_only_member_subscribers:
  assumes "l < 10 ^ 10" and "\<bar>now\<bar> < 10 ^ 20" and "tuniq (sp_clients p)"
    and "tget (sp_clients p) i = Some c" and "\<not> sc_released c" and "Own ''members_changed'' \<notin> set (sc_channels c)"
    and "length (JSON_stringify (reorg_payload l now)) \<le> 8000"
  shows "\<exists>sent p'. nt_sent (broadcastResyncToAllChannels (\<lambda>_. None) (Some (reorg_payload l now)) s) = nt_sent s @ sent \<and>
    map fst sent = map snd STREAM_CHANNELS \<and>
    foldE (\<lambda>(ch, raw). dispatchStreamNotification sock clock ch raw) sent p = Inr p' \<and>
    tget (sp_clients p') i = Some c"
proof -
  let ?v = "reorg_payload l now"
  let ?sent = "map (\<lambda>kc. (snd kc, JSON_stringify ?v)) STREAM_CHANNELS"
  have "int l < 10 ^ 21" using assms(1) by simp
  then have plain: "json_plain ?v" using assms(2) by (intro reorg_payload_plain) simp_all
  have "foldE (\<lambda>(ch, raw). dispatchStreamNotification sock clock ch raw) ?sent p =
      foldE (\<lambda>ch. dispatch_payload sock clock ch ?v) (map snd STREAM_CHANNELS) p"
    by (rule dispatch_all_stringified [OF plain])
  moreover obtain p' where "foldE (\<lambda>ch. dispatch_payload sock clock ch ?v) (map snd STREAM_CHANNELS) p = Inr p'"
    "tget (sp_clients p') i = Some c"
    using broadcast_reaches_first_channel [OF assms(3) reorg_payload_ledger assms(4,6,5), of sock clock _ now "tl (map snd STREAM_CHANNELS)"]
    by (auto simp: STREAM_CHANNELS_def)
  ultimately show ?thesis
    using broadcast_sends_on_every_channel [of ?v s] assms(7) by (auto simp: PG_NOTIFY_MAX_PAYLOAD_BYTES_def STREAM_CHANNELS_def)
qed

lemma resync_reaches_only_member_subscribers_example:
  "\<exists>sent p'. nt_sent (broadcastResyncToAllChannels (\<lambda>_. None) (Some (reorg_payload 7 9)) \<lparr>nt_failures = 0, nt_sent = []\<rparr>) = sent \<and>
    length sent = 5 \<and> foldE (\<lambda>(ch, raw). dispatchStreamNotification (\<lambda>_. all_well) (\<lambda>_. 9) ch raw) sent proc0 = Inr p' \<and>
    tget (sp_clients p') 0 = Some client0"
proof -
  have c: "tuniq (sp_clients proc0)" "tget (sp_clients proc0) 0 = Some client0"
    by (simp_all add: proc0_def tuniq_def tget_def)
  have m: "Own ''members_changed'' \<notin> set (sc_channels client0)" by code_simp
  have n: "length (JSON_stringify (reorg_payload 7 9)) \<le> 8000" by code_simp
  have five: "length xs = 5" if "map fst xs = map snd STREAM_CHANNELS" for xs :: "(string \<times> string) list"
    using arg_cong [OF that, of length] by (simp add: STREAM_CHANNELS_def)
  from resync_reaches_only_member_subscribers [OF _ _ c client_ok_client0(2) m n, of
      "\<lparr>nt_failures = 0, nt_sent = []\<rparr>" "\<lambda>_. all_well" "\<lambda>_. 9"] five
  show ?thesis by auto
qed

text \<open>
  When requests are admitted one after another, the stream never has more connections than the
  global and the per-address limit, and the per-address counts and the gauge are exact.
\<close>

lemma sequential_admission_respects_the_caps:
  assumes "stream_reachable lim p"
  shows "length (sp_clients p) \<le> sl_maxConnections lim \<and> clients_from ip p \<le> int (sl_maxConnectionsPerIp lim) \<and>
    int (ip_count ip p) = clients_from ip p \<and> sp_gauge p = length (sp_clients p)"
  using stream_reachable_inv [OF assms] by (simp add: stream_inv_def tracked_def within_caps_def)

lemma sequential_admission_respects_the_caps_example:
  "\<exists>p. p = snd (stream_endpoint lim1 (\<lambda>_. all_well) 1 True JUndefined ''10.0.0.1'' None empty_proc) \<and>
     length (sp_clients p) = 1 \<and> clients_from ''10.0.0.1'' p \<le> 1"
proof -
  let ?p = "snd (stream_endpoint lim1 (\<lambda>_. all_well) 1 True JUndefined ''10.0.0.1'' None empty_proc)"
  have "stream_reachable lim1 ?p" by (intro stream_reachable.request stream_reachable.init) (simp_all add: empty_proc_def)
  from sequential_admission_respects_the_caps [OF this, of "''10.0.0.1''"] have "clients_from ''10.0.0.1'' ?p \<le> 1"
    by (simp add: lim1_def)
  moreover have "length (sp_clients ?p) = 1" by code_simp
  ultimately show ?thesis by blast
qed

text \<open>
  The interest feed pages by ledger: when the first page ends inside a ledger, the remaining rows of
  that ledger are on no page that follows.
\<close>

lemma cursor_by_ledger_drops_rows:
  assumes "interest_client q d None \<noteq> []" and "r \<in> set (with_ids (interest_distributions d))"
    and "r \<notin> set (interest_client q d None)" and "ledger_key r = ledger_key (last (interest_client q d None))"
  shows "r \<notin> set (follow (interest_client q d) ledger_key n None)"
  using assms interest_client_below by (intro follow_cuts) auto

lemma cursor_by_ledger_drops_rows_example:
  "(1, interest_at 9) \<in> set (with_ids (interest_distributions tables0)) \<and>
   (1, interest_at 9) \<notin> set (follow (interest_client one_per_page tables0) ledger_key 3 None)"
proof -
  have p: "interest_client one_per_page tables0 None = [(2, interest_at 9)]" by code_simp
  have m: "(1, interest_at 9) \<in> set (with_ids (interest_distributions tables0))" by code_simp
  from cursor_by_ledger_drops_rows [of one_per_page tables0 "(1, interest_at 9)" 3] p m show ?thesis
    by (simp add: ledger_key_def)
qed

text \<open>
  The filter \<open>unread=true\<close> of the notification list selects the rows that are read: none of the
  rows it sends is unread.
\<close>

lemma unread_filter_sends_read_rows:
  assumes "param q ''unread'' \<in> {JStr ''true'', JBool True}" and "sent (get_notifications sdk q d) = Some rows"
  shows "\<forall>(i, n) \<in> set rows. nt_read n"
  using assms
  by (auto simp: get_notifications_def notification_page_def select_desc_def notification_filter_def is_absent_def
      dest!: in_set_takeD split: if_splits)

lemma unread_filter_sends_read_rows_example:
  "rows_sent (get_notifications sdk0 [(''address'', JStr ''GALICE''), (''unread'', JStr ''true'')] tables0) =
     [(3, note_for ''GALICE'' True)] \<and> nt_read (note_for ''GALICE'' True)"
proof -
  let ?q = "[(''address'', JStr ''GALICE''), (''unread'', JStr ''true'')]"
  have s: "sent (get_notifications sdk0 ?q tables0) = Some [(3, note_for ''GALICE'' True)]" by code_simp
  from unread_filter_sends_read_rows [OF _ s] show ?thesis by (simp add: rows_sent_def s)
qed

text \<open>
  The event feed reads the number in front of the dash of an event id as a ledger. For an id in which it
  exceeds every ledger, as in the ids of the RPC server, asking for what comes before the last
  event of the first page gives the first page again.
\<close>

lemma event_cursor_repeats_the_first_page:
  assumes "event_client q db None = Some (es, Some i)" and "map_of q ''before'' = None" and "map_of q ''after'' = None"
    and "i = a @ ''-'' @ b" and "all_digits a" and "all_digits b" and "digits_val a < 2 ^ 63"
    and "\<forall>ir \<in> set (db_events db). er_ledger (snd ir) < digits_val a"
  shows "event_client q db (Some i) = Some (es, Some i)"
proof -
  have "eventCursor (param q ''after'') = None" using assms(3) by (simp add: param_def eventCursor_def is_absent_def)
  then show ?thesis
    using assms eventCursor_id [OF assms(5-7)]
    by (intro event_page_repeats [OF assms(1,2)]) (auto simp: opt_int8_def pg_int8_param_def cursor_ledger_def)
qed

lemma event_cursor_repeats_the_first_page_example:
  "event_client [(''limit'', JStr ''1'')] log0 (Some toid) = Some ([(toid, event_at 50)], Some toid)"
proof (rule event_cursor_repeats_the_first_page [where a = "''0000214748364800''" and b = "''0000000001''"])
  show "event_client [(''limit'', JStr ''1'')] log0 None = Some ([(toid, event_at 50)], Some toid)" by code_simp
  show "all_digits ''0000214748364800''" "all_digits ''0000000001''" by (simp_all add: all_digits_def is_digit_def)
  have "digits_val ''0000214748364800'' = 214748364800" by (simp add: digits_val_def digit_val_def)
  then show "digits_val ''0000214748364800'' < 2 ^ 63"
    "\<forall>ir \<in> set (db_events log0). er_ledger (snd ir) < digits_val ''0000214748364800''"
    by (simp_all add: log0_def event_at_def)
qed (simp_all add: toid_def)

text \<open>
  The daily history adds up to the totals of the statistics: in every state the indexer reaches, when no
  event lies in the future, the lent, repaid and defaulted amounts of the days sum to the totals
  and the loans originated up to the last day are all loans.
\<close>

lemma history_adds_up_to_the_totals:
  assumes "(indexer_step scv cfg)\<^sup>*\<^sup>* ix ix'" and "fresh_indexer ix" and "d = db_derived (ix_db ix')"
    and "\<forall>k \<in> set (tkeys (daily_loan_stats d)). k \<le> today"
  shows "sum_list (map hd_principalLent (loan_history today d)) = sa_principalLent (compute_amounts d) \<and>
    sum_list (map hd_principalRepaid (loan_history today d)) = sa_principalRepaid (compute_amounts d) \<and>
    sum_list (map hd_valueDefaulted (loan_history today d)) = sa_valueDefaulted (compute_amounts d) \<and>
    (loan_history today d \<noteq> [] \<longrightarrow>
       hd_cumulativeOriginated (last (loan_history today d)) = int (sc_totalLoans (compute_counts (ix_db ix'))))"
proof -
  have w: "wf_derived d" "totals_agree d" using reachable_invariants [OF assms(1,2)] assms(3) by blast+
  then have u: "tuniq (daily_loan_stats d)" by (simp add: wf_derived_def wf_daily_def)
  have t: "\<And>k. k \<in> set (tkeys (daily_loan_stats d)) \<Longrightarrow> k \<le> today" using assms(4) by blast
  from history_sums [OF u t] w(2) show ?thesis
    by (simp add: totals_agree_def compute_amounts_def compute_counts_def Let_def assms(3))
qed

lemma history_adds_up_to_the_totals_example:
  "sum_list (map hd_principalLent (loan_history 20000 (db_derived (ix_db ix1)))) =
     sa_principalLent (compute_amounts (db_derived (ix_db ix1)))"
proof -
  have "db_derived (ix_db ix1) = db_derived (ix_db ixA)" by (simp add: ix1_is saveCursor_def)
  moreover have "\<forall>k \<in> set (tkeys (daily_loan_stats (db_derived (ix_db ixA)))). k \<le> 20000" by code_simp
  ultimately have "\<forall>k \<in> set (tkeys (daily_loan_stats (db_derived (ix_db ix1)))). k \<le> 20000" by simp
  from history_adds_up_to_the_totals [OF reach_ix1 fresh_ix0 refl this] show ?thesis by blast
qed

text \<open>
  Each contract has its own schedule: after a due poll it waits at most the larger of the poll
  interval and \<open>POLL_MAX_BACKOFF_MS\<close>, a success resets its failure count, a failure adds one,
  and the schedules of the other contracts do not change.
\<close>

lemma schedule_is_bounded_and_independent:
  assumes "poll_contract scv cfg pe hf now after c sc ix = (Inr sc', ix')"
    and "(case tget (sc_nextPollAt sc) c of Some t \<Rightarrow> t | None \<Rightarrow> 0) \<le> now"
  shows "(\<exists>t. tget (sc_nextPollAt sc') c = Some t \<and> after \<le> t \<and>
      t \<le> after + int (max (ic_pollIntervalMs cfg) (ic_maxBackoffMs cfg))) \<and>
    (failures_of c sc' = (if is_ok (fst (fetchOnce scv cfg pe c ix)) then 0 else failures_of c sc + 1)) \<and>
    (\<forall>k. k \<noteq> c \<longrightarrow> tget (sc_nextPollAt sc') k = tget (sc_nextPollAt sc) k \<and> failures_of k sc' = failures_of k sc)"
  using poll_contract_schedule [OF assms] by auto

lemma schedule_is_bounded_and_independent_example:
  "\<exists>sc'. fst (poll_contract wire cfg0 pe0 None 0 1 ''CDAO'' (initial_schedule [''CDAO'']) ix0) = Inr sc' \<and>
     failures_of ''CDAO'' sc' = 0"
proof -
  let ?p = "poll_contract wire cfg0 pe0 None 0 1 ''CDAO'' (initial_schedule [''CDAO'']) ix0"
  have due: "(case tget (sc_nextPollAt (initial_schedule [''CDAO''])) ''CDAO'' of Some t \<Rightarrow> t | None \<Rightarrow> 0) = (0 :: int)"
    by code_simp
  then obtain sc' where p: "?p = (Inr sc', snd ?p)" by (simp add: poll_contract_def fetch0)
  from schedule_is_bounded_and_independent [OF p] due p show ?thesis by (simp add: fetch0) (metis fst_conv)
qed

end
