(* ===== verification/Rpc.thy ===== *)
theory Rpc
  imports JsValue
begin

text \<open>
  Calls to the RPC server (\<open>src/stellar/rpc.ts\<close>): retries with exponential backoff on a rate
  limit, and the best-effort lookup of a ledger's hash. What the \<open>n\<close>-th call of the SDK returns
  or throws is the parameter \<open>call\<close>; the random jitter is one too.
\<close>

section \<open>Rate limits\<close>

text \<open>What the code looks at in a thrown value: numeric \<open>code\<close> and \<open>status\<close> properties and, for
  an \<open>Error\<close>, its message.\<close>

record rpc_error =
  rx_code :: "int option"
  rx_status :: "int option"
  rx_message :: "string option"

fun js_includes :: "string \<Rightarrow> string \<Rightarrow> bool" where
  "js_includes p [] = (p = [])"
| "js_includes p (c # s) = (take (length p) (c # s) = p \<or> js_includes p s)"

definition isRateLimited :: "rpc_error \<Rightarrow> bool" where
  "isRateLimited e =
     (rx_code e = Some 429 \<or> rx_status e = Some 429 \<or>
      (case rx_message e of None \<Rightarrow> False
       | Some m \<Rightarrow> js_includes ''429'' m \<or> js_includes ''rate limit'' (js_toLowerCase m)))"

definition base_delay :: "nat \<Rightarrow> nat" where
  "base_delay attempt = min (1000 * 2 ^ attempt) 32000"

text \<open>The outcome and the delays waited for; \<open>attempt\<close> is the number of retries so far.\<close>

function withRateLimitRetry ::
  "(nat \<Rightarrow> rpc_error + 'a) \<Rightarrow> (nat \<Rightarrow> nat) \<Rightarrow> nat \<Rightarrow> nat \<Rightarrow> (rpc_error + 'a) \<times> nat list" where
  "withRateLimitRetry call jitter maxRetries attempt =
     (case call attempt of
        Inr x \<Rightarrow> (Inr x, [])
      | Inl e \<Rightarrow>
          if \<not> isRateLimited e \<or> maxRetries \<le> attempt then (Inl e, [])
          else apsnd ((#) (base_delay (attempt + 1) + jitter (attempt + 1)))
                 (withRateLimitRetry call jitter maxRetries (attempt + 1)))"
  by pat_completeness auto
termination by (relation "measure (\<lambda>(_, _, m, a). m - a)") auto

declare withRateLimitRetry.simps [simp del]

section \<open>Ledgers\<close>

record ledger_entry =
  le_sequence :: nat
  le_hash :: string

definition getLatestLedger :: "(nat \<Rightarrow> rpc_error + ledger_entry) \<Rightarrow> (nat \<Rightarrow> nat) \<Rightarrow> rpc_error + nat" where
  "getLatestLedger call jitter = map_sum id le_sequence (fst (withRateLimitRetry call jitter 5 0))"

definition getLatestLedgerInfo :: "(nat \<Rightarrow> rpc_error + ledger_entry) \<Rightarrow> (nat \<Rightarrow> nat) \<Rightarrow> rpc_error + nat \<times> string" where
  "getLatestLedgerInfo call jitter = map_sum id (\<lambda>r. (le_sequence r, le_hash r)) (fst (withRateLimitRetry call jitter 5 0))"

text \<open>The first two arguments of \<open>ledgers\<close> are the requested \<open>startLedger\<close> and \<open>limit\<close>.\<close>

definition getLedgers ::
  "(nat \<Rightarrow> nat \<Rightarrow> nat \<Rightarrow> rpc_error + ledger_entry list) \<Rightarrow> (nat \<Rightarrow> nat) \<Rightarrow> nat \<Rightarrow> nat \<Rightarrow> rpc_error + ledger_entry list" where
  "getLedgers ledgers jitter startLedger limit = fst (withRateLimitRetry (ledgers startLedger limit) jitter 5 0)"

definition getLedgerHash ::
  "(nat \<Rightarrow> nat \<Rightarrow> nat \<Rightarrow> rpc_error + ledger_entry list) \<Rightarrow> (nat \<Rightarrow> nat) \<Rightarrow> nat \<Rightarrow> string option" where
  "getLedgerHash ledgers jitter sequence =
     (case getLedgers ledgers jitter sequence 1 of
        Inl _ \<Rightarrow> None
      | Inr [] \<Rightarrow> None
      | Inr (l # _) \<Rightarrow> if le_sequence l = sequence then Some (le_hash l) else None)"

section \<open>Facts\<close>

lemma withRateLimitRetry_bounds:
  assumes "\<And>k. jitter k \<le> 1000" and "attempt \<le> maxRetries"
  shows "length (snd (withRateLimitRetry call jitter maxRetries attempt)) \<le> maxRetries - attempt \<and>
    list_all (\<lambda>d. d \<le> 33000) (snd (withRateLimitRetry call jitter maxRetries attempt))"
  using assms
proof (induction call jitter maxRetries attempt rule: withRateLimitRetry.induct)
  case (1 call jitter maxRetries attempt)
  have d: "base_delay (attempt + 1) + jitter (attempt + 1) \<le> 33000"
    using "1.prems"(1) [of "attempt + 1"] by (simp add: base_delay_def min_def)
  show ?case
  proof (cases "\<exists>e. call attempt = Inl e \<and> isRateLimited e \<and> attempt < maxRetries")
    case True
    then obtain e where e: "call attempt = Inl e" "isRateLimited e" "attempt < maxRetries" by blast
    with "1.IH" [OF e(1) _ "1.prems"(1)] d show ?thesis
      by (subst (1 2) withRateLimitRetry.simps) auto
  next
    case False
    then show ?thesis by (subst (1 2) withRateLimitRetry.simps) (auto split: sum.splits)
  qed
qed

text \<open>The result is the first answer that is not a rate limit, or the last one tried.\<close>

lemma withRateLimitRetry_first:
  assumes "\<And>k. attempt \<le> k \<Longrightarrow> k < n \<Longrightarrow> \<exists>e. call k = Inl e \<and> isRateLimited e" and "attempt \<le> n" and "n \<le> maxRetries"
    and "\<And>e. call n = Inl e \<Longrightarrow> \<not> isRateLimited e \<or> n = maxRetries"
  shows "fst (withRateLimitRetry call jitter maxRetries attempt) = call n"
  using assms
proof (induction "n - attempt" arbitrary: attempt)
  case 0
  then have "attempt = n" by simp
  with 0 show ?case by (subst withRateLimitRetry.simps) (auto split: sum.splits)
next
  case (Suc m)
  then obtain e where "call attempt = Inl e" "isRateLimited e" by (metis le_refl zero_less_Suc zero_less_diff)
  moreover have "fst (withRateLimitRetry call jitter maxRetries (attempt + 1)) = call n"
    using Suc.hyps(2) Suc.prems by (intro Suc.hyps(1)) auto
  ultimately show ?case using Suc.hyps(2) Suc.prems(3) by (subst withRateLimitRetry.simps) auto
qed

lemma getLedgerHash_sound:
  assumes "getLedgerHash ledgers jitter n = Some h"
  shows "\<exists>l ls. getLedgers ledgers jitter n 1 = Inr (l # ls) \<and> le_sequence l = n \<and> le_hash l = h"
  using assms by (auto simp: getLedgerHash_def split: sum.splits list.splits if_splits)

end
