(* ===== verification/Cache.thy ===== *)
theory Cache
  imports Json
begin

text \<open>
  The Redis cache in front of the member list and the member summaries
  (\<open>src/src/cache/redis.ts\<close>): the lazily created client, the cache-aside read with its two
  fallbacks, the invalidations, and the connection events. Redis is a table of texts with
  expiry times in milliseconds; each command of a call may fail. A second part lets lookups,
  queries, stores and invalidations of many callers interleave as steps of one relation, with the
  clock and the database moving between them.
\<close>

named_theorems cache_simps \<open>the commands of the cache\<close>

section \<open>Keys\<close>

definition membersListCacheKey :: "nat \<Rightarrow> string" where
  "membersListCacheKey l = ''members:list:'' @ show_nat l"

definition memberSummaryCacheKey :: "string \<Rightarrow> string" where
  "memberSummaryCacheKey a = ''members:summary:'' @ a"

text \<open>The pattern \<open>members:list:*\<close>.\<close>

definition matches_members_list :: "string \<Rightarrow> bool" where
  "matches_members_list k = js_startsWith k ''members:list:''"

lemma members_list_keys [simp]: "matches_members_list (membersListCacheKey l)"
  by (simp add: matches_members_list_def membersListCacheKey_def js_startsWith_def)

lemma summary_keys_apart [simp]: "\<not> matches_members_list (memberSummaryCacheKey a)"
  by (simp add: matches_members_list_def memberSummaryCacheKey_def js_startsWith_def)

lemma cache_keys_inject [simp]:
  "membersListCacheKey l = membersListCacheKey l' \<longleftrightarrow> l = l'"
  "memberSummaryCacheKey a = memberSummaryCacheKey a' \<longleftrightarrow> a = a'"
  "membersListCacheKey l \<noteq> memberSummaryCacheKey a"
  by (simp_all add: membersListCacheKey_def memberSummaryCacheKey_def)

section \<open>Redis\<close>

type_synonym redis = "(string, string \<times> int) tbl"

definition redis_get :: "int \<Rightarrow> string \<Rightarrow> redis \<Rightarrow> string option" where
  "redis_get now k rd =
     (case tget rd k of None \<Rightarrow> None | Some (text, expiry) \<Rightarrow> if now < expiry then Some text else None)"

text \<open>\<open>SET key text EX ttlSeconds\<close>.\<close>

definition redis_set :: "int \<Rightarrow> string \<Rightarrow> string \<Rightarrow> nat \<Rightarrow> redis \<Rightarrow> redis" where
  "redis_set now k text ttlSeconds rd = tput k (text, now + 1000 * int ttlSeconds) rd"

definition redis_del :: "string list \<Rightarrow> redis \<Rightarrow> redis" where
  "redis_del ks rd = fold tdel ks rd"

lemma tget_redis_del [simp, cache_simps]: "tget (redis_del ks rd) k = (if k \<in> set ks then None else tget rd k)"
  unfolding redis_del_def by (induction ks arbitrary: rd) auto

lemma redis_get_del [simp, cache_simps]:
  "redis_get now k (redis_del ks rd) = (if k \<in> set ks then None else redis_get now k rd)"
  by (simp add: redis_get_def)

lemma redis_get_set [cache_simps]:
  "redis_get now k (redis_set t k' text ttl rd) =
     (if k = k' then (if now < t + 1000 * int ttl then Some text else None) else redis_get now k rd)"
  by (simp add: redis_get_def redis_set_def)

section \<open>The client\<close>

record cache_client =
  cc_redisUrl :: bool \<comment> \<open>whether \<open>REDIS_URL\<close> is set\<close>
  cc_client :: bool
  cc_loggedConnectionFailure :: bool
  cc_lines :: nat \<comment> \<open>failure lines logged\<close>

definition logConnectionFailureOnce :: "cache_client \<Rightarrow> cache_client" where
  "logConnectionFailureOnce c =
     (if cc_loggedConnectionFailure c then c
      else c\<lparr>cc_loggedConnectionFailure := True, cc_lines := cc_lines c + 1\<rparr>)"

text \<open>Whether there is a client, created on the first call that needs one.\<close>

definition getClient :: "cache_client \<Rightarrow> bool \<times> cache_client" where
  "getClient c = (if cc_redisUrl c then (True, c\<lparr>cc_client := True\<rparr>) else (False, c))"

definition on_error :: "cache_client \<Rightarrow> cache_client" where
  "on_error c = logConnectionFailureOnce c"

definition on_ready :: "cache_client \<Rightarrow> cache_client" where
  "on_ready c = c\<lparr>cc_loggedConnectionFailure := False\<rparr>"

definition MAX_RECONNECT_DELAY_MS :: nat where
  "MAX_RECONNECT_DELAY_MS = 5000"

definition retryStrategy :: "nat \<Rightarrow> nat" where
  "retryStrategy n = min (n * 200) MAX_RECONNECT_DELAY_MS"

text \<open>\<open>closeRedis\<close>: when \<open>quit\<close> rejects, the client is kept and the error goes to the caller.\<close>

definition closeRedis :: "exn option \<Rightarrow> cache_client \<Rightarrow> (exn + unit) \<times> cache_client" where
  "closeRedis quit_fault c =
     (case (cc_client c, quit_fault) of
        (True, Some e) \<Rightarrow> (Inl e, c)
      | _ \<Rightarrow> (Inr (), c\<lparr>cc_client := False, cc_loggedConnectionFailure := False\<rparr>))"

section \<open>Reading through the cache\<close>

text \<open>What the commands of one call meet: the time and the fault of each.\<close>

record redis_call =
  rc_get_at :: int
  rc_get_fault :: "exn option"
  rc_set_at :: int
  rc_set_fault :: "exn option"

datatype lookup = Hit jsval | Miss | Unreachable

text \<open>The first \<open>try\<close>: a text that does not parse counts as a failure too.\<close>

definition cache_lookup :: "redis_call \<Rightarrow> string \<Rightarrow> redis \<Rightarrow> lookup" where
  "cache_lookup rc k rd =
     (if rc_get_fault rc \<noteq> None then Unreachable
      else case redis_get (rc_get_at rc) k rd of
             None \<Rightarrow> Miss
           | Some text \<Rightarrow> (case JSON_parse text of None \<Rightarrow> Unreachable | Some v \<Rightarrow> Hit v))"

definition cache_store :: "redis_call \<Rightarrow> string \<Rightarrow> nat \<Rightarrow> jsval \<Rightarrow> cache_client \<times> redis \<Rightarrow> cache_client \<times> redis" where
  "cache_store rc k ttl v cr =
     (if rc_set_fault rc \<noteq> None then (logConnectionFailureOnce (fst cr), snd cr)
      else (fst cr, redis_set (rc_set_at rc) k (JSON_stringify v) ttl (snd cr)))"

definition getOrSetCache ::
  "redis_call \<Rightarrow> string \<Rightarrow> nat \<Rightarrow> exn + jsval \<Rightarrow> cache_client \<times> redis \<Rightarrow> (exn + jsval) \<times> cache_client \<times> redis" where
  "getOrSetCache rc k ttlSeconds fetched cr =
     (let (up, c) = getClient (fst cr); rd = snd cr in
      if \<not> up then (fetched, c, rd)
      else case cache_lookup rc k rd of
             Hit v \<Rightarrow> (Inr v, c, rd)
           | Unreachable \<Rightarrow> (fetched, logConnectionFailureOnce c, rd)
           | Miss \<Rightarrow>
               (case fetched of
                  Inl e \<Rightarrow> (Inl e, c, rd)
                | Inr v \<Rightarrow> (Inr v, cache_store rc k ttlSeconds v (c, rd))))"

section \<open>Invalidation\<close>

definition invalidateCache :: "exn option \<Rightarrow> string list \<Rightarrow> cache_client \<times> redis \<Rightarrow> cache_client \<times> redis" where
  "invalidateCache fault keys cr =
     (let (up, c) = getClient (fst cr) in
      if \<not> up \<or> keys = [] then (c, snd cr)
      else if fault \<noteq> None then (logConnectionFailureOnce c, snd cr)
      else (c, redis_del keys (snd cr)))"

text \<open>
  The loop over \<open>SCAN\<close>: the \<open>n\<close>-th call answers the next cursor and a batch of keys. It ends with
  the cursor \<open>0\<close>, or runs on as long as the server gives another one.
\<close>

partial_function (option) scan_keys ::
  "(nat \<Rightarrow> exn + string \<times> string list) \<Rightarrow> nat \<Rightarrow> string list \<Rightarrow> (exn + string list) option" where
  "scan_keys scan n keys =
     (case scan n of
        Inl e \<Rightarrow> Some (Inl e)
      | Inr (cur, batch) \<Rightarrow>
          if cur = ''0'' then Some (Inr (keys @ batch)) else scan_keys scan (Suc n) (keys @ batch))"

declare scan_keys.simps [code]

definition invalidateMembersListCache ::
  "(nat \<Rightarrow> exn + string \<times> string list) \<Rightarrow> exn option \<Rightarrow> cache_client \<times> redis \<Rightarrow> (cache_client \<times> redis) option" where
  "invalidateMembersListCache scan del_fault cr =
     (let (up, c) = getClient (fst cr) in
      if \<not> up then Some (c, snd cr)
      else map_option (\<lambda>r. case r of
             Inl e \<Rightarrow> (logConnectionFailureOnce c, snd cr)
           | Inr keys \<Rightarrow>
               if keys = [] then (c, snd cr)
               else if del_fault \<noteq> None then (logConnectionFailureOnce c, snd cr)
               else (c, redis_del keys (snd cr))) (scan_keys scan 0 []))"

section \<open>Lemmas\<close>

text \<open>The loop ends with the first cursor \<open>0\<close>, with the batches of all calls.\<close>

lemma scan_keys_ends:
  assumes "\<And>i. i < n \<Longrightarrow> \<exists>c. scan (m + i) = Inr (c, bs i) \<and> c \<noteq> ''0''"
    and "scan (m + n) = Inr (''0'', bs n)"
  shows "scan_keys scan m keys = Some (Inr (keys @ concat (map bs [0..<Suc n])))"
  using assms
proof (induction n arbitrary: m bs keys)
  case 0
  then show ?case by (subst scan_keys.simps) simp
next
  case (Suc n)
  from Suc.prems(1) [of 0] obtain c where c: "scan m = Inr (c, bs 0)" "c \<noteq> ''0''" by auto
  have "scan_keys scan (Suc m) (keys @ bs 0) = Some (Inr ((keys @ bs 0) @ concat (map (\<lambda>i. bs (Suc i)) [0..<Suc n])))"
    using Suc.prems(1) [of "Suc _"] Suc.prems(2) by (intro Suc.IH) auto
  moreover have "map bs [0..<Suc (Suc n)] = bs 0 # map (\<lambda>i. bs (Suc i)) [0..<Suc n]"
    by (simp only: upt_conv_Cons [of 0] map_Suc_upt [symmetric] list.map map_map o_def)
  ultimately show ?case using c by (subst scan_keys.simps) (simp del: upt_Suc)
qed

text \<open>The cache never adds a failure: an error of a cached read is an error of the query itself.\<close>

lemma getOrSetCache_total:
  "fetched = Inr v \<Longrightarrow> \<exists>w. fst (getOrSetCache rc k ttl fetched cr) = Inr w"
  by (auto simp: getOrSetCache_def Let_def split: lookup.splits prod.splits)

lemma getOrSetCache_cases:
  "fst (getOrSetCache rc k ttl fetched cr) = fetched \<or>
   (\<exists>w. cache_lookup rc k (snd cr) = Hit w \<and> fst (getOrSetCache rc k ttl fetched cr) = Inr w)"
  by (auto simp: getOrSetCache_def Let_def split: lookup.splits prod.splits sum.splits)

text \<open>A read just after a store of a plain value gets that value back.\<close>

lemma cached_value_read_back:
  assumes "json_plain v" and "rc_get_fault rc' = None" and "rc_get_at rc' < rc_set_at rc + 1000 * int ttl"
  shows "cache_lookup rc' k (redis_set (rc_set_at rc) k (JSON_stringify v) ttl rd) = Hit v"
  using assms by (simp add: cache_lookup_def redis_get_set JSON_parse_stringify)

end
