(* ===== verification/Cache_Run.thy ===== *)
theory Cache_Run
  imports Cache
begin

text \<open>
  Many callers of the cache at once. A cached read is three steps of its process (the lookup, the
  query, the store), and other readers, writers, invalidations and the clock move between them.
  The result bounds how old an answer from the cache can be, and a run shows that an invalidation
  between the query and the store of a reader does not prevent the stale entry.
\<close>

section \<open>States\<close>

text \<open>A read whose query has run and whose store is outstanding.\<close>

record 'd flight =
  fl_key :: string
  fl_text :: string
  fl_at :: int
  fl_db :: 'd

text \<open>
  The last two fields only record what happened: the database at every moment, and when a key
  was deleted by an invalidation.
\<close>

record 'd cache_sys =
  cs_now :: int
  cs_db :: 'd
  cs_redis :: redis
  cs_flights :: "'d flight list"
  cs_was :: "(int \<times> 'd) list"
  cs_deleted :: "(string \<times> int) list"

definition cache_start :: "int \<Rightarrow> 'd \<Rightarrow> 'd cache_sys" where
  "cache_start now d =
     \<lparr>cs_now = now, cs_db = d, cs_redis = [], cs_flights = [], cs_was = [(now, d)], cs_deleted = []\<rparr>"

section \<open>Steps\<close>

text \<open>
  \<open>fetch k d\<close> is what the query behind key \<open>k\<close> returns on the database \<open>d\<close>, and \<open>ttl\<close> the
  configured lifetime in seconds. A lookup changes nothing, so a query may come at any time (the code
  queries after a lookup that found nothing, which may be long ago); a failed store only ends the read.
\<close>

inductive cache_step :: "(string \<Rightarrow> 'd \<Rightarrow> jsval) \<Rightarrow> nat \<Rightarrow> 'd cache_sys \<Rightarrow> 'd cache_sys \<Rightarrow> bool"
  for fetch :: "string \<Rightarrow> 'd \<Rightarrow> jsval" and ttl :: nat where
  clock: "cs_now s \<le> t \<Longrightarrow> cache_step fetch ttl s (s\<lparr>cs_now := t, cs_was := (t, cs_db s) # cs_was s\<rparr>)"
| commit: "cache_step fetch ttl s (s\<lparr>cs_db := d, cs_was := (cs_now s, d) # cs_was s\<rparr>)"
| query: "cache_step fetch ttl s (s\<lparr>cs_flights :=
      \<lparr>fl_key = k, fl_text = JSON_stringify (fetch k (cs_db s)), fl_at = cs_now s, fl_db = cs_db s\<rparr> # cs_flights s\<rparr>)"
| store: "f \<in> set (cs_flights s) \<Longrightarrow>
    cache_step fetch ttl s (s\<lparr>cs_flights := remove1 f (cs_flights s),
      cs_redis := redis_set (cs_now s) (fl_key f) (fl_text f) ttl (cs_redis s)\<rparr>)"
| give_up: "f \<in> set (cs_flights s) \<Longrightarrow> cache_step fetch ttl s (s\<lparr>cs_flights := remove1 f (cs_flights s)\<rparr>)"
| invalidate: "cache_step fetch ttl s (s\<lparr>cs_redis := redis_del ks (cs_redis s),
      cs_deleted := map (\<lambda>k. (k, cs_now s)) ks @ cs_deleted s\<rparr>)"

inductive_cases cache_stepE: "cache_step fetch ttl s s'"

inductive cache_reach :: "(string \<Rightarrow> 'd \<Rightarrow> jsval) \<Rightarrow> nat \<Rightarrow> 'd cache_sys \<Rightarrow> bool"
  for fetch :: "string \<Rightarrow> 'd \<Rightarrow> jsval" and ttl :: nat where
  start: "cache_reach fetch ttl (cache_start now d)"
| step: "cache_reach fetch ttl s \<Longrightarrow> cache_step fetch ttl s s' \<Longrightarrow> cache_reach fetch ttl s'"

section \<open>Where entries come from\<close>

definition flight_ok :: "(string \<Rightarrow> 'd \<Rightarrow> jsval) \<Rightarrow> 'd cache_sys \<Rightarrow> 'd flight \<Rightarrow> bool" where
  "flight_ok fetch s f \<longleftrightarrow>
     fl_text f = JSON_stringify (fetch (fl_key f) (fl_db f)) \<and> (fl_at f, fl_db f) \<in> set (cs_was s) \<and> fl_at f \<le> cs_now s"

definition entry_from :: "(string \<Rightarrow> 'd \<Rightarrow> jsval) \<Rightarrow> nat \<Rightarrow> 'd cache_sys \<Rightarrow> string \<Rightarrow> string \<times> int \<Rightarrow> int \<Rightarrow> int \<Rightarrow> 'd \<Rightarrow> bool" where
  "entry_from fetch ttl s k en t0 ts d \<longleftrightarrow>
     fst en = JSON_stringify (fetch k d) \<and> (t0, d) \<in> set (cs_was s) \<and> t0 \<le> ts \<and> ts \<le> cs_now s \<and>
     snd en = ts + 1000 * int ttl \<and> (\<forall>ti. (k, ti) \<in> set (cs_deleted s) \<longrightarrow> ti \<le> ts)"

definition cache_inv :: "(string \<Rightarrow> 'd \<Rightarrow> jsval) \<Rightarrow> nat \<Rightarrow> 'd cache_sys \<Rightarrow> bool" where
  "cache_inv fetch ttl s \<longleftrightarrow>
     (cs_now s, cs_db s) \<in> set (cs_was s) \<and>
     (\<forall>f \<in> set (cs_flights s). flight_ok fetch s f) \<and>
     (\<forall>kt \<in> set (cs_deleted s). snd kt \<le> cs_now s) \<and>
     (\<forall>k en. tget (cs_redis s) k = Some en \<longrightarrow> (\<exists>t0 ts d. entry_from fetch ttl s k en t0 ts d))"

lemma cache_invI:
  assumes "(cs_now s, cs_db s) \<in> set (cs_was s)" and "\<And>f. f \<in> set (cs_flights s) \<Longrightarrow> flight_ok fetch s f"
    and "\<And>k ti. (k, ti) \<in> set (cs_deleted s) \<Longrightarrow> ti \<le> cs_now s"
    and "\<And>k en. tget (cs_redis s) k = Some en \<Longrightarrow> \<exists>t0 ts d. entry_from fetch ttl s k en t0 ts d"
  shows "cache_inv fetch ttl s"
  using assms by (auto simp: cache_inv_def)

lemma cache_inv_entry:
  assumes "cache_inv fetch ttl s" and "tget (cs_redis s) k = Some en"
  obtains t0 ts d where "entry_from fetch ttl s k en t0 ts d"
  using assms unfolding cache_inv_def by meson

lemma cache_inv_start: "cache_inv fetch ttl (cache_start now d)"
  by (rule cache_invI) (simp_all add: cache_start_def)

lemma entry_from_later:
  assumes "entry_from fetch ttl s k en t0 ts d" and "set (cs_was s) \<subseteq> set (cs_was s')" and "cs_now s \<le> cs_now s'"
    and "\<And>ti. (k, ti) \<in> set (cs_deleted s') \<Longrightarrow> (k, ti) \<in> set (cs_deleted s)"
  shows "entry_from fetch ttl s' k en t0 ts d"
  using assms unfolding entry_from_def by (meson order.trans subsetD)

lemma cache_inv_step:
  assumes "cache_step fetch ttl s s'" and "cache_inv fetch ttl s"
  shows "cache_inv fetch ttl s'"
  using assms(1)
proof cases
  case (clock t)
  with assms(2) show ?thesis
    unfolding cache_inv_def flight_ok_def entry_from_def by (simp add: clock(1)) (meson order.trans)
next
  case (commit d)
  with assms(2) show ?thesis
    unfolding cache_inv_def flight_ok_def entry_from_def by simp meson
next
  case (query k)
  with assms(2) show ?thesis unfolding cache_inv_def flight_ok_def entry_from_def by simp
next
  case (store f)
  with assms(2) have f: "flight_ok fetch s f" by (simp add: cache_inv_def)
  have new: "entry_from fetch ttl s' (fl_key f) (fl_text f, cs_now s + 1000 * int ttl) (fl_at f) (cs_now s) (fl_db f)"
    using f assms(2) by (auto simp: store(1) entry_from_def flight_ok_def cache_inv_def)
  have old: "entry_from fetch ttl s k en t0 ts d \<Longrightarrow> entry_from fetch ttl s' k en t0 ts d" for k en t0 ts d
    by (erule entry_from_later) (simp_all add: store(1))
  show ?thesis
  proof (rule cache_invI, goal_cases)
    case (2 g)
    then have "g \<in> set (cs_flights s)" using set_remove1_subset [of f "cs_flights s"] by (auto simp: store(1))
    then show ?case using assms(2) by (simp add: cache_inv_def flight_ok_def store(1))
  next
    case (4 k en)
    show ?case
    proof (cases "k = fl_key f")
      case True
      with 4 new show ?thesis by (auto simp: store(1) redis_set_def)
    next
      case False
      with 4 have "tget (cs_redis s) k = Some en" by (simp add: store(1) redis_set_def)
      with assms(2) obtain t0 ts d where "entry_from fetch ttl s k en t0 ts d" by (rule cache_inv_entry)
      then show ?thesis using old by blast
    qed
  qed (use assms(2) in \<open>auto simp: store(1) cache_inv_def\<close>)
next
  case (give_up f)
  with assms(2) show ?thesis
    using set_remove1_subset [of f "cs_flights s"]
    unfolding cache_inv_def flight_ok_def entry_from_def by (simp add: subset_iff)
next
  case (invalidate ks)
  have old: "entry_from fetch ttl s k en t0 ts d \<Longrightarrow> k \<notin> set ks \<Longrightarrow> entry_from fetch ttl s' k en t0 ts d" for k en t0 ts d
    by (erule entry_from_later) (auto simp: invalidate)
  show ?thesis
  proof (rule cache_invI, goal_cases)
    case (4 k en)
    then have "tget (cs_redis s) k = Some en" "k \<notin> set ks" by (simp_all add: invalidate split: if_splits)
    with assms(2) old show ?case by (blast elim: cache_inv_entry)
  qed (use assms(2) in \<open>auto simp: invalidate cache_inv_def flight_ok_def\<close>)
qed

theorem cache_reach_inv: "cache_reach fetch ttl s \<Longrightarrow> cache_inv fetch ttl s"
  by (induction rule: cache_reach.induct) (auto intro: cache_inv_start cache_inv_step)

text \<open>
  An answer from the cache is the query's answer on a database that was current when the reader
  that stored it queried; the store is younger than the lifetime and than every invalidation of
  the key.
\<close>

lemma cached_answer_origin:
  assumes "cache_reach fetch ttl s" and "redis_get (cs_now s) k (cs_redis s) = Some text"
  obtains t0 ts d where "text = JSON_stringify (fetch k d)" and "(t0, d) \<in> set (cs_was s)"
    and "t0 \<le> ts" and "ts \<le> cs_now s" and "cs_now s < ts + 1000 * int ttl"
    and "\<And>ti. (k, ti) \<in> set (cs_deleted s) \<Longrightarrow> ti \<le> ts"
proof -
  from assms(2) obtain expiry where e: "tget (cs_redis s) k = Some (text, expiry)" and n: "cs_now s < expiry"
    by (auto simp: redis_get_def split: option.splits if_splits)
  from cache_reach_inv [OF assms(1)] e obtain t0 ts d where "entry_from fetch ttl s k (text, expiry) t0 ts d"
    by (rule cache_inv_entry)
  with n that show ?thesis by (auto simp: entry_from_def)
qed

section \<open>The code takes these steps\<close>

text \<open>A call of \<open>getOrSetCache\<close> that runs alone leaves Redis as some run of the steps does.\<close>

lemma getOrSetCache_is_a_run:
  assumes "fetched = Inr (fetch k (cs_db s))" and "cs_now s \<le> rc_set_at rc"
  shows "\<exists>s'. (cache_step fetch ttl)\<^sup>*\<^sup>* s s' \<and> cs_db s' = cs_db s \<and>
     cs_redis s' = snd (snd (getOrSetCache rc k ttl fetched (c, cs_redis s)))"
proof (cases "cc_redisUrl c \<and> cache_lookup rc k (cs_redis s) = Miss \<and> rc_set_fault rc = None")
  case False
  then have "snd (snd (getOrSetCache rc k ttl fetched (c, cs_redis s))) = cs_redis s"
    using assms(1) by (auto simp: getOrSetCache_def Let_def getClient_def cache_store_def split: lookup.split)
  then show ?thesis by (intro exI [of _ s]) simp
next
  case True
  let ?f = "\<lparr>fl_key = k, fl_text = JSON_stringify (fetch k (cs_db s)), fl_at = cs_now s, fl_db = cs_db s\<rparr>"
  let ?s1 = "s\<lparr>cs_flights := ?f # cs_flights s\<rparr>"
  let ?s2 = "?s1\<lparr>cs_now := rc_set_at rc, cs_was := (rc_set_at rc, cs_db ?s1) # cs_was ?s1\<rparr>"
  let ?s3 = "?s2\<lparr>cs_flights := remove1 ?f (cs_flights ?s2), cs_redis := redis_set (cs_now ?s2) (fl_key ?f) (fl_text ?f) ttl (cs_redis ?s2)\<rparr>"
  have "cache_step fetch ttl s ?s1" by (rule cache_step.query)
  moreover have "cache_step fetch ttl ?s1 ?s2" using assms(2) by (intro cache_step.clock) simp
  moreover have "cache_step fetch ttl ?s2 ?s3" by (rule cache_step.store) simp
  ultimately have "(cache_step fetch ttl)\<^sup>*\<^sup>* s ?s3"
    by (meson converse_rtranclp_into_rtranclp rtranclp.rtrancl_refl)
  moreover have "cs_redis ?s3 = snd (snd (getOrSetCache rc k ttl fetched (c, cs_redis s)))"
    using True assms(1) by (simp add: getOrSetCache_def getClient_def cache_store_def)
  ultimately show ?thesis by (intro exI [of _ ?s3]) simp
qed

lemma invalidateCache_is_a_run:
  "\<exists>s'. (cache_step fetch ttl)\<^sup>*\<^sup>* s s' \<and> cs_db s' = cs_db s \<and>
     cs_redis s' = snd (invalidateCache fault ks (c, cs_redis s))"
proof (cases "cc_redisUrl c \<and> fault = None")
  case True
  then have "cs_redis (s\<lparr>cs_redis := redis_del ks (cs_redis s), cs_deleted := map (\<lambda>k. (k, cs_now s)) ks @ cs_deleted s\<rparr>) =
      snd (invalidateCache fault ks (c, cs_redis s))"
    by (auto simp: invalidateCache_def getClient_def redis_del_def)
  then show ?thesis
    using r_into_rtranclp [of "cache_step fetch ttl", OF cache_step.invalidate [of fetch ttl s ks]]
    by (intro exI [of _ "s\<lparr>cs_redis := redis_del ks (cs_redis s), cs_deleted := map (\<lambda>k. (k, cs_now s)) ks @ cs_deleted s\<rparr>"]) simp
next
  case False
  then show ?thesis by (intro exI [of _ s]) (auto simp: invalidateCache_def getClient_def)
qed

section \<open>A stale entry that survives an invalidation\<close>

text \<open>
  The reader queries, the writer commits and invalidates, and the reader stores: the entry holds
  the old answer although the last invalidation came after the write.
\<close>

lemma stale_after_invalidation:
  assumes "0 < ttl"
  obtains s where "cache_reach fetch ttl s" and "cs_db s = new" and "(k, cs_now s) \<in> set (cs_deleted s)"
    and "redis_get (cs_now s) k (cs_redis s) = Some (JSON_stringify (fetch k old))"
proof -
  let ?s0 = "cache_start 0 old"
  let ?f = "\<lparr>fl_key = k, fl_text = JSON_stringify (fetch k (cs_db ?s0)), fl_at = cs_now ?s0, fl_db = cs_db ?s0\<rparr>"
  let ?s1 = "?s0\<lparr>cs_flights := ?f # cs_flights ?s0\<rparr>"
  let ?s2 = "?s1\<lparr>cs_db := new, cs_was := (cs_now ?s1, new) # cs_was ?s1\<rparr>"
  let ?s3 = "?s2\<lparr>cs_redis := redis_del [k] (cs_redis ?s2), cs_deleted := map (\<lambda>k. (k, cs_now ?s2)) [k] @ cs_deleted ?s2\<rparr>"
  let ?s4 = "?s3\<lparr>cs_flights := remove1 ?f (cs_flights ?s3),
      cs_redis := redis_set (cs_now ?s3) (fl_key ?f) (fl_text ?f) ttl (cs_redis ?s3)\<rparr>"
  have "cache_reach fetch ttl ?s1"
    by (rule cache_reach.step [OF cache_reach.start]) (rule cache_step.query)
  then have "cache_reach fetch ttl ?s2" by (rule cache_reach.step) (rule cache_step.commit)
  then have "cache_reach fetch ttl ?s3" by (rule cache_reach.step) (rule cache_step.invalidate)
  then have "cache_reach fetch ttl ?s4" by (rule cache_reach.step) (rule cache_step.store, simp)
  then show ?thesis by (rule that) (use assms in \<open>simp_all add: cache_start_def redis_get_set\<close>)
qed

end
