(* ===== verification/Cache_Coherence.thy ===== *)
theory Cache_Coherence
  imports Cache_Run Handlers_Inv Ingest_Facts Routes Examples
begin

text \<open>
  The cached routes and the invalidations that follow a committed event: which events change the
  member list, and which of them delete its cached pages. An event on the members channel does.
  The handlers of \<open>loan_appr\<close>, \<open>loan_rpy\<close> and \<open>loan_dflt\<close> change member rows too, but their channels
  are others, so a cached list keeps the old rows until it expires.
\<close>

named_theorems member_frames \<open>statements that leave the members table alone\<close>

section \<open>The cached routes\<close>

text \<open>\<open>render\<close> turns rows into the JSON value the driver makes of them.\<close>

definition get_members_cached ::
  "((string \<times> member_row) list \<Rightarrow> jsval) \<Rightarrow> nat \<Rightarrow> redis_call \<Rightarrow> query_params \<Rightarrow> derived \<Rightarrow>
   cache_client \<times> redis \<Rightarrow> jsval answer \<times> cache_client \<times> redis" where
  "get_members_cached render ttl rc q d cr =
     (if invalidLimit (param q ''limit'') then (refuse Public_live 400 ''invalid limit parameter'', cr)
      else case getOrSetCache rc (membersListCacheKey (limit_of (param q ''limit''))) ttl
             (Inr (render (select_desc (\<lambda>(_, r). case m_joined_ledger r of Some l \<Rightarrow> l | None \<Rightarrow> 0)
               (\<lambda>(_, r). \<not> m_exited r \<and> m_joined_ledger r \<noteq> None) (limit_of (param q ''limit'')) (members d)))) cr of
             (r, cr') \<Rightarrow> ((Public_live, map_sum id Send r), cr'))"

definition js_falsy :: "jsval \<Rightarrow> bool" where
  "js_falsy v = (v \<in> {JUndefined, JNull, JBool False, JNum (NInt 0), JNum NNaN, JStr []})"

text \<open>A missing member is cached as \<open>null\<close>.\<close>

definition get_member_summary_cached ::
  "sdk \<Rightarrow> (member_summary \<Rightarrow> jsval) \<Rightarrow> (int \<Rightarrow> int \<Rightarrow> int) \<Rightarrow> nat \<Rightarrow> redis_call \<Rightarrow> string \<Rightarrow> derived \<Rightarrow>
   cache_client \<times> redis \<Rightarrow> jsval answer \<times> cache_client \<times> redis" where
  "get_member_summary_cached sdk render share ttl rc a d cr =
     (if \<not> validAddress sdk a then (refuse Private_policy 400 ''invalid Stellar address'', cr)
      else case getOrSetCache rc (memberSummaryCacheKey a) ttl
             (Inr (case fetchMemberSummary share a d of None \<Rightarrow> JNull | Some s \<Rightarrow> render s)) cr of
             (Inl e, cr') \<Rightarrow> ((Private_policy, Inl e), cr')
           | (Inr v, cr') \<Rightarrow>
               (if js_falsy v then refuse Private_policy 404 ''member not found'' else (Private_policy, Inr (Send v)), cr'))"

text \<open>Without Redis the cached routes are the plain ones.\<close>

lemma get_members_uncached:
  assumes "\<not> cc_redisUrl (fst cr)"
  shows "fst (get_members_cached render ttl rc q d cr) =
    (fst (get_members q d), map_sum id (map_reply render) (snd (get_members q d)))"
  using assms by (simp add: get_members_cached_def get_members_def getOrSetCache_def getClient_def Let_def)

section \<open>Invalidation by effects\<close>

text \<open>
  What the commands of one invalidation meet: the answers to \<open>SCAN\<close> over the keys there are, and the
  fault of \<open>DEL\<close>. A fault is swallowed, so no invalidation raises.
\<close>

record redis_meets =
  rm_scan :: "redis \<Rightarrow> nat \<Rightarrow> exn + string \<times> string list"
  rm_del_fault :: "exn option"

definition run_effect :: "redis_meets \<Rightarrow> effect \<Rightarrow> cache_client \<times> redis \<Rightarrow> (cache_client \<times> redis) option" where
  "run_effect m e cr =
     (case e of
        InvalidateMembersList \<Rightarrow> invalidateMembersListCache (rm_scan m (snd cr)) (rm_del_fault m) cr
      | InvalidateMemberSummary a \<Rightarrow> Some (invalidateCache (rm_del_fault m) [memberSummaryCacheKey a] cr)
      | _ \<Rightarrow> Some cr)"

text \<open>The effects of a commit one after the other, each in what it meets. \<open>None\<close>: some \<open>SCAN\<close> never ends.\<close>

fun run_effects :: "(redis_meets \<times> effect) list \<Rightarrow> cache_client \<times> redis \<Rightarrow> (cache_client \<times> redis) option" where
  "run_effects [] cr = Some cr"
| "run_effects ((m, e) # es) cr = (case run_effect m e cr of None \<Rightarrow> None | Some cr' \<Rightarrow> run_effects es cr')"

text \<open>A complete iteration of \<open>SCAN\<close>: it ends, and its batches are together the keys that match.\<close>

definition scan_covers :: "redis_meets \<Rightarrow> bool" where
  "scan_covers m \<longleftrightarrow> (\<forall>rd. \<exists>ks. scan_keys (rm_scan m rd) 0 [] = Some (Inr ks) \<and> set ks = set (filter matches_members_list (tkeys rd)))"

definition deletes :: "effect \<Rightarrow> redis \<Rightarrow> string set" where
  "deletes e rd =
     (case e of
        InvalidateMembersList \<Rightarrow> set (filter matches_members_list (tkeys rd))
      | InvalidateMemberSummary a \<Rightarrow> {memberSummaryCacheKey a}
      | _ \<Rightarrow> {})"

lemma run_effect_deletes:
  assumes "cc_redisUrl c" and "scan_covers m" and "rm_del_fault m = None"
  shows "\<exists>c' rd'. run_effect m e (c, rd) = Some (c', rd') \<and> cc_redisUrl c' \<and>
    (\<forall>k. tget rd' k = (if k \<in> deletes e rd then None else tget rd k))"
proof (cases e)
  case InvalidateMembersList
  obtain ks where ks: "scan_keys (rm_scan m rd) 0 [] = Some (Inr ks)" "set ks = set (filter matches_members_list (tkeys rd))"
    using assms(2) by (auto simp: scan_covers_def)
  then show ?thesis using assms(1,3) InvalidateMembersList
    by (cases "ks = []") (auto simp: run_effect_def invalidateMembersListCache_def getClient_def deletes_def)
qed (use assms in \<open>auto simp: run_effect_def invalidateCache_def getClient_def deletes_def\<close>)

text \<open>Redis is out of reach: \<open>DEL\<close> fails, and an iteration of \<open>SCAN\<close> fails too, unless it has come to its end before.\<close>

definition redis_down :: "redis_meets \<Rightarrow> bool" where
  "redis_down m \<longleftrightarrow> rm_del_fault m \<noteq> None \<and> (\<forall>rd. \<exists>r. scan_keys (rm_scan m rd) 0 [] = Some r)"

lemma run_effect_fault:
  assumes "redis_down m"
  shows "\<exists>c'. run_effect m e (c, rd) = Some (c', rd)"
proof (cases e)
  case InvalidateMembersList
  obtain r where "scan_keys (rm_scan m rd) 0 [] = Some r" using assms by (auto simp: redis_down_def)
  then show ?thesis using assms InvalidateMembersList
    by (cases r) (simp_all add: run_effect_def invalidateMembersListCache_def getClient_def redis_down_def)
qed (use assms in \<open>auto simp: run_effect_def invalidateCache_def getClient_def redis_down_def Let_def\<close>)

text \<open>A failing \<open>SCAN\<close> alone leaves the list in the cache as well.\<close>

lemma run_effect_scan_fault:
  "rm_scan m rd 0 = Inl e \<Longrightarrow> \<exists>c'. run_effect m InvalidateMembersList (c, rd) = Some (c', rd)"
  by (simp add: run_effect_def invalidateMembersListCache_def getClient_def scan_keys.simps)

definition member_key :: "string \<Rightarrow> bool" where
  "member_key k \<longleftrightarrow> matches_members_list k \<or> (\<exists>a. k = memberSummaryCacheKey a)"

lemma deletes_member_keys: "k \<in> deletes e rd \<Longrightarrow> member_key k"
  by (cases e) (auto simp: deletes_def member_key_def)

text \<open>
  Without faults the run ends, deletes keys of members only, and every key of the list when one of the
  effects is an invalidation of the list.
\<close>

lemma run_effects_delete:
  assumes "cc_redisUrl c" and "\<forall>me \<in> set es. scan_covers (fst me) \<and> rm_del_fault (fst me) = None"
  shows "\<exists>c' rd'. run_effects es (c, rd) = Some (c', rd') \<and>
    (\<forall>k. tget rd' k = None \<or> tget rd' k = tget rd k) \<and> (\<forall>k. \<not> member_key k \<longrightarrow> tget rd' k = tget rd k) \<and>
    (InvalidateMembersList \<in> snd ` set es \<longrightarrow> (\<forall>k. matches_members_list k \<longrightarrow> tget rd' k = None))"
  using assms
proof (induction es arbitrary: c rd)
  case (Cons me es)
  obtain m e where me: "me = (m, e)" by (cases me)
  with Cons.prems(2) have "scan_covers m" "rm_del_fault m = None" by auto
  from run_effect_deletes [OF Cons.prems(1) this] obtain c1 rd1 where
    1: "run_effect m e (c, rd) = Some (c1, rd1)" "cc_redisUrl c1"
       "\<And>k. tget rd1 k = (if k \<in> deletes e rd then None else tget rd k)" by metis
  obtain c2 rd2 where
    2: "run_effects es (c1, rd1) = Some (c2, rd2)" "\<And>k. tget rd2 k = None \<or> tget rd2 k = tget rd1 k"
       "\<And>k. \<not> member_key k \<Longrightarrow> tget rd2 k = tget rd1 k"
       "InvalidateMembersList \<in> snd ` set es \<Longrightarrow> \<forall>k. matches_members_list k \<longrightarrow> tget rd2 k = None"
    using Cons.IH [OF 1(2), of rd1] Cons.prems(2) by auto
  have "tget rd2 k = None \<or> tget rd2 k = tget rd k" for k using 1(3) [of k] 2(2) [of k] by (auto split: if_splits)
  moreover have "\<not> member_key k \<Longrightarrow> tget rd2 k = tget rd k" for k
    using 1(3) [of k] 2(3) [of k] deletes_member_keys by (auto split: if_splits)
  moreover have "tget rd2 k = None" if "e = InvalidateMembersList" "matches_members_list k" for k
    using that 1(3) [of k] 2(2) [of k] tget_in_keys [of rd k] by (auto simp: deletes_def split: if_splits)
  ultimately show ?case using 1(1) 2(1,4) me by auto
qed simp

lemma run_effects_fault:
  assumes "\<forall>me \<in> set es. redis_down (fst me)"
  shows "\<exists>c'. run_effects es (c, rd) = Some (c', rd)"
  using assms
proof (induction es arbitrary: c)
  case (Cons me es)
  obtain m e where me: "me = (m, e)" by (cases me)
  with Cons.prems have "redis_down m" by auto
  from run_effect_fault [OF this] obtain c1 where "run_effect m e (c, rd) = Some (c1, rd)" by blast
  with Cons.IH [of c1] Cons.prems me show ?case by auto
qed simp

text \<open>Effects that are not invalidations of the list or of a summary leave the cache alone.\<close>

definition cache_effect :: "effect \<Rightarrow> bool" where
  "cache_effect e = (case e of InvalidateMembersList \<Rightarrow> True | InvalidateMemberSummary a \<Rightarrow> True | _ \<Rightarrow> False)"

lemma run_effects_other: "\<forall>e \<in> snd ` set es. \<not> cache_effect e \<Longrightarrow> run_effects es cr = Some cr"
  by (induction es) (auto simp: run_effect_def cache_effect_def split: effect.splits)

section \<open>Which events change the member list\<close>

definition leaves_members :: "handler \<Rightarrow> bool" where
  "leaves_members h \<longleftrightarrow> (\<forall>ev d d'. h ev d = Inr d' \<longrightarrow> members d' = members d)"

lemma update_frames [member_frames]:
  "update_loan_proposal i f d = Inr d' \<Longrightarrow> members d' = members d"
  "update_treasury_proposal i g d = Inr d' \<Longrightarrow> members d' = members d"
  "add_interest_collected a d = Inr d' \<Longrightarrow> members d' = members d"
  "members (fst (leave_pending_loan i s d)) = members d"
  "members (fst (leave_pending_treasury i t d)) = members d"
  by (auto simp: update_loan_proposal_def update_treasury_proposal_def add_interest_collected_def
      leave_pending_loan_def leave_pending_treasury_def bindE_eq_Inr split: option.splits if_splits)

lemma leave_then_notify:
  assumes "(case p of (d1, Some b) \<Rightarrow> Inr (f b d1) | (d1, None) \<Rightarrow> Inr d1) = Inr d'"
    and "members (fst p) = members d" and "\<And>b d1. members (f b d1) = members d1"
  shows "members d' = members d"
  using assms by (cases p) (auto split: option.splits)

lemma leaves_members_proposals:
  "leaves_members h_loan_req" "leaves_members h_loan_edit" "leaves_members h_loan_vote" "leaves_members h_tre_prop"
  "leaves_members h_tre_vote" "leaves_members h_revealed" "leaves_members h_tre_exec" "leaves_members h_interest"
  by (auto simp: leaves_members_def h_loan_req_def h_loan_edit_def h_loan_vote_def h_tre_prop_def h_tre_vote_def
      h_revealed_def h_tre_exec_def h_interest_def tally_treasury_def bindE_eq_Inr Let_def
      dest!: update_frames(1-3) split: if_splits)

lemma leaves_members_leave:
  "leaves_members h_loan_wait" "leaves_members h_loan_rej" "leaves_members h_loan_exp" "leaves_members h_tre_wait"
  "leaves_members h_tre_rej"
  unfolding leaves_members_def h_loan_wait_def h_loan_rej_def h_loan_exp_def h_tre_wait_def h_tre_rej_def
  by (intro allI impI; elim bindE_InrE; erule leave_then_notify; simp add: update_frames)+

lemma leaves_members_lists: "leaves_members h_committed" "leaves_members h_doc_attn"
  by (auto simp: leaves_members_def h_committed_def h_doc_attn_def bindE_eq_Inr split: if_splits)

lemmas leaves_members_handlers = leaves_members_proposals leaves_members_leave leaves_members_lists

definition member_symbols :: "string list" where
  "member_symbols = [''joined'', ''exited'', ''claimed'', ''staked'', ''unstaked'', ''name_reg'']"

definition loan_state_symbols :: "string list" where
  "loan_state_symbols = [''loan_appr'', ''loan_rpy'', ''loan_dflt'']"

lemma other_handlers_leave_members:
  "list_all (\<lambda>(s, h). s \<in> set member_symbols \<or> s \<in> set loan_state_symbols \<or> leaves_members h) handlers"
  by (simp add: handlers_def member_symbols_def loan_state_symbols_def leaves_members_handlers)

lemma member_symbols_channel: "s \<in> set member_symbols \<Longrightarrow> channels_of s = [channel ''members'']"
proof -
  have "list_all (\<lambda>s. channels_of s = [channel ''members'']) member_symbols" by code_simp
  then show "s \<in> set member_symbols \<Longrightarrow> ?thesis" by (simp add: list_all_iff)
qed

lemma loan_state_channels: "s \<in> set loan_state_symbols \<Longrightarrow> channel ''members'' \<notin> set (channels_of s)"
proof -
  have "list_all (\<lambda>s. channel ''members'' \<notin> set (channels_of s)) loan_state_symbols" by code_simp
  then show "s \<in> set loan_state_symbols \<Longrightarrow> ?thesis" by (simp add: list_all_iff)
qed

lemma changed_members_symbol:
  assumes "applyEvent ev d = Inr (d', cs)" and "members d' \<noteq> members d"
  shows "ev_symbol ev \<in> set member_symbols \<or> ev_symbol ev \<in> set loan_state_symbols"
proof -
  have "run_handler (ev_symbol ev) ev d = Inr d'"
    using assms(1) by (auto simp: applyEvent_def bindE_eq_Inr)
  then show ?thesis
  proof (cases rule: run_handler_cases)
    case 1
    with assms(2) show ?thesis by simp
  next
    case (2 h)
    then have "(ev_symbol ev, h) \<in> set handlers" by (simp add: map_of_SomeD)
    with other_handlers_leave_members 2(2) assms(2) show ?thesis
      by (auto simp: list_all_iff leaves_members_def)
  qed
qed

lemma fold_changes_members:
  "fold_events evs d = Inr d' \<Longrightarrow> members d' \<noteq> members d \<Longrightarrow>
   \<exists>ev \<in> set evs. ev_symbol ev \<in> set member_symbols \<or> ev_symbol ev \<in> set loan_state_symbols"
proof (induction evs arbitrary: d)
  case (Cons ev evs)
  from Cons.prems(1) obtain d1 cs where a: "applyEvent ev d = Inr (d1, cs)" and r: "fold_events evs d1 = Inr d'"
    by (auto simp: bindE_eq_Inr fold_one_Inr)
  show ?case
  proof (cases "members d1 = members d")
    case True
    with Cons.IH [OF r] Cons.prems(2) show ?thesis by auto
  next
    case False
    with changed_members_symbol [OF a] show ?thesis by auto
  qed
qed simp

section \<open>The effects of a page\<close>

lemma pending_of_member:
  assumes "ev \<in> set evs" and "ev_symbol ev \<in> set member_symbols"
  shows "InvalidateMembersList \<in> set (concat (map after_commit (pending_of evs)))"
  using assms
  by (auto simp: pending_of_def member_symbols_channel after_commit_def invalidateMemberCachesAfterCommit_def
      intro!: bexI [of _ ev])

lemma pending_of_loans:
  assumes "\<forall>ev \<in> set evs. ev_symbol ev \<in> set loan_state_symbols" and "e \<in> set (concat (map after_commit (pending_of evs)))"
  shows "\<not> cache_effect e"
proof -
  from assms(2) obtain c ev where "ev \<in> set evs" "c \<in> set (channels_of (ev_symbol ev))" "e \<in> set (after_commit (c, ev))"
    by (auto simp: pending_of_def)
  moreover from calculation have "c \<noteq> channel ''members''" using assms(1) loan_state_channels by auto
  ultimately show ?thesis
    by (auto simp: after_commit_def invalidateMemberCachesAfterCommit_def cache_effect_def)
qed

lemma page_invalidates_the_list:
  assumes "ingestPage scv en raws l db = (Inr es, db')" and "decode_page scv raws = Inr evs"
    and "members (db_derived db') \<noteq> members (db_derived db)"
    and "\<forall>ev \<in> set evs. ev_symbol ev \<notin> set loan_state_symbols"
  shows "InvalidateMembersList \<in> set es"
proof -
  from assms(1,2) have f: "fold_events (fresh (is_folded db) evs) (db_derived db) = Inr (db_derived db')"
    and es: "es = concat (map after_commit (pending_of (fresh (is_folded db) evs)))"
    by (auto elim!: ingestPage_success)
  from fold_changes_members [OF f assms(3)] assms(4) obtain ev where "ev \<in> set (fresh (is_folded db) evs)"
    and "ev_symbol ev \<in> set member_symbols"
    using fresh_subset by blast
  then show ?thesis unfolding es by (rule pending_of_member)
qed

section \<open>A loan event leaves the cached list\<close>

text \<open>The approval of the loan of a member, after the example page.\<close>

definition ev_approved :: "native event_response" where
  "ev_approved = wire_event ''e5'' 7 ''loan_appr'' [VNum (NInt 1), VStr ''GB'', VBigInt 100, VBigInt 900]"

definition approved_events :: "decoded_event list" where
  "approved_events = (case decode_page wire [ev_approved] of Inr evs \<Rightarrow> evs | Inl _ \<Rightarrow> [])"

lemma approved_events_decode:
  "decode_page wire [ev_approved] = Inr approved_events"
  "list_all (\<lambda>ev. ev_symbol ev \<in> set loan_state_symbols) approved_events"
  by code_simp+

lemma approval_page:
  "case ingestPage wire (healthy 10) [ev_approved] 0 db1 of
     (Inr es, db') \<Rightarrow> get_members [] (db_derived db') \<noteq> get_members [] (db_derived db1)
   | (Inl e, _) \<Rightarrow> False"
  by code_simp

text \<open>The list answered from the tables changes, and no cached page of it is deleted.\<close>

lemma approval_leaves_the_cached_list:
  "\<exists>es db'. ingestPage wire (healthy 10) [ev_approved] 0 db1 = (Inr es, db') \<and>
     get_members [] (db_derived db') \<noteq> get_members [] (db_derived db1) \<and> (\<forall>ms cr. run_effects (zip ms es) cr = Some cr)"
proof -
  obtain es db' where p: "ingestPage wire (healthy 10) [ev_approved] 0 db1 = (Inr es, db')"
    and n: "get_members [] (db_derived db') \<noteq> get_members [] (db_derived db1)"
    using approval_page by (auto split: prod.splits sum.splits)
  from p have "es = concat (map after_commit (pending_of (fresh (is_folded db1) approved_events)))"
    using approved_events_decode(1) by (auto elim!: ingestPage_success)
  moreover have "\<forall>ev \<in> set (fresh (is_folded db1) approved_events). ev_symbol ev \<in> set loan_state_symbols"
    using approved_events_decode(2) fresh_subset [of "is_folded db1" approved_events] by (auto simp: list_all_iff)
  ultimately have "\<forall>e \<in> set es. \<not> cache_effect e" using pending_of_loans by blast
  then have "\<forall>ms cr. run_effects (zip ms es) cr = Some cr"
    by (auto intro!: run_effects_other dest: set_zip_rightD)
  with p n show ?thesis by blast
qed

text \<open>A server that answers \<open>SCAN\<close> with one batch.\<close>

definition one_batch :: "exn option \<Rightarrow> redis_meets" where
  "one_batch fault = \<lparr>rm_scan = (\<lambda>rd n. Inr (''0'', filter matches_members_list (tkeys rd))), rm_del_fault = fault\<rparr>"

lemma one_batch_covers: "scan_covers (one_batch fault)" "rm_del_fault (one_batch fault) = fault"
  by (simp_all add: scan_covers_def one_batch_def scan_keys.simps)

definition demo_client :: cache_client where
  "demo_client = \<lparr>cc_redisUrl = True, cc_client = True, cc_loggedConnectionFailure = False, cc_lines = 0\<rparr>"

text \<open>A query to run through the cache: whether there are members.\<close>

definition any_members :: "string \<Rightarrow> derived \<Rightarrow> jsval" where
  "any_members k d = JBool (members d \<noteq> [])"

end
