(* ===== verification/Maintenance.thy ===== *)
theory Maintenance
  imports Store Auth
begin

text \<open>
  The maintenance pass of the worker (\<open>src/src/db/maintenance.ts\<close>) and the clean-up of quarantined
  events (\<open>cleanupExpiredFailedEvents\<close> in \<open>src/src/indexer/poller.ts\<close> with the SQL function it calls).
  Each statement may fail; the time one takes is an input.
\<close>

section \<open>Clean-up of quarantined events\<close>

definition day_ms :: int where
  "day_ms = 86400000"

text \<open>
  \<open>delete_expired_failed_events()\<close>: resolved rows older than the retention time, 30 days unless the
  setting names another.
\<close>

definition expired_failed :: "int \<Rightarrow> int option \<Rightarrow> failed_event_row \<Rightarrow> bool" where
  "expired_failed now retention r =
     (fe_resolved_at r \<noteq> None \<and>
      fe_created_at r < now - day_ms * (case retention of None \<Rightarrow> 30 | Some days \<Rightarrow> days))"

definition delete_expired_failed_events :: "int \<Rightarrow> int option \<Rightarrow> db \<Rightarrow> db" where
  "delete_expired_failed_events now retention db =
     db\<lparr>db_failed := filter (\<lambda>(_, r). \<not> expired_failed now retention r) (db_failed db)\<rparr>"

text \<open>A fault is logged and swallowed.\<close>

definition cleanupExpiredFailedEvents :: "exn option \<Rightarrow> int \<Rightarrow> int option \<Rightarrow> db \<Rightarrow> db" where
  "cleanupExpiredFailedEvents fault now retention db =
     (if fault \<noteq> None then db else delete_expired_failed_events now retention db)"

section \<open>One pass\<close>

definition VACUUM_TABLES :: "string list" where
  "VACUUM_TABLES = [''events'', ''auth_nonces'', ''notifications'']"

record TableMaintenanceResult =
  tm_table :: string
  tm_ok :: bool
  tm_durationMs :: int
  tm_error :: "string option"

record MaintenanceResult =
  mr_startedAt :: int
  mr_durationMs :: int
  mr_tables :: "TableMaintenanceResult list"
  mr_expiredNoncesDeleted :: "nat option"
  mr_expiredNoncesError :: "string option"
  mr_expiredFailedEventsError :: "string option"

text \<open>Clock readings and faults of a pass; \<open>me_vacuum\<close> gives start, end and fault per table.\<close>

record maintenance_env =
  me_start :: int
  me_end :: int
  me_vacuum :: "string \<Rightarrow> int \<times> int \<times> exn option"
  me_dbNow :: int
  me_nonce_fault :: "exn option"
  me_cleanup_fault :: "exn option"
  me_retention :: "int option"

definition vacuumTable :: "maintenance_env \<Rightarrow> string \<Rightarrow> TableMaintenanceResult" where
  "vacuumTable me tb =
     (let (t0, t1, fault) = me_vacuum me tb in
      \<lparr>tm_table = tb, tm_ok = (fault = None), tm_durationMs = t1 - t0, tm_error = map_option error_message fault\<rparr>)"

text \<open>\<open>VACUUM\<close> leaves the rows as they are; the two clean-ups delete rows.\<close>

definition runMaintenance :: "maintenance_env \<Rightarrow> nonce_table \<times> db \<Rightarrow> MaintenanceResult \<times> nonce_table \<times> db" where
  "runMaintenance me nd =
     (let results = map (vacuumTable me) VACUUM_TABLES;
          nonces = (if me_nonce_fault me = None then postgres_cleanup (me_dbNow me) (fst nd) else fst nd);
          db = cleanupExpiredFailedEvents (me_cleanup_fault me) (me_dbNow me) (me_retention me) (snd nd)
      in (\<lparr>mr_startedAt = me_start me, mr_durationMs = me_end me - me_start me, mr_tables = results,
           mr_expiredNoncesDeleted = (if me_nonce_fault me = None then Some (length (fst nd) - length nonces) else None),
           mr_expiredNoncesError = map_option error_message (me_nonce_fault me),
           mr_expiredFailedEventsError = None\<rparr>, nonces, db))"

section \<open>The log of a pass\<close>

text \<open>\<open>isoTime\<close> is \<open>toISOString()\<close>. An error without text prints like none, as the tests on \<open>result.\<dots>Error\<close> do.\<close>

definition table_line :: "TableMaintenanceResult \<Rightarrow> string" where
  "table_line t =
     (if tm_ok t then ''[maintenance] VACUUM (ANALYZE) '' @ tm_table t @ '' succeeded in '' @ show_int (tm_durationMs t) @ ''ms''
      else ''[maintenance] VACUUM (ANALYZE) '' @ tm_table t @ '' failed after '' @ show_int (tm_durationMs t) @ ''ms: '' @
        (case tm_error t of None \<Rightarrow> ''undefined'' | Some m \<Rightarrow> m))"

definition has_text :: "string option \<Rightarrow> bool" where
  "has_text m = (m \<noteq> None \<and> m \<noteq> Some [])"

definition logMaintenanceResult :: "(int \<Rightarrow> string) \<Rightarrow> MaintenanceResult \<Rightarrow> string list" where
  "logMaintenanceResult isoTime r =
     [''[maintenance] run started '' @ isoTime (mr_startedAt r) @ '', finished in '' @ show_int (mr_durationMs r) @ ''ms''] @
     map table_line (mr_tables r) @
     [if has_text (mr_expiredNoncesError r)
      then ''[maintenance] expired auth_nonces cleanup failed: '' @ the (mr_expiredNoncesError r)
      else ''[maintenance] deleted '' @ show_nat (case mr_expiredNoncesDeleted r of None \<Rightarrow> 0 | Some n \<Rightarrow> n) @ '' expired auth_nonces row(s)''] @
     [if has_text (mr_expiredFailedEventsError r)
      then ''[maintenance] expired failed_events cleanup failed: '' @ the (mr_expiredFailedEventsError r)
      else ''[maintenance] expired failed_events cleanup completed successfully'']"

section \<open>What a pass keeps\<close>

text \<open>A nonce that can still be consumed survives the pass, with or without faults.\<close>

lemma runMaintenance_keeps_live_nonces:
  assumes "tget nonces n = Some en" and "me_dbNow me < ne_expiresAt en" and "tuniq nonces"
  shows "tget (fst (snd (runMaintenance me (nonces, db)))) n = Some en"
proof -
  have "map_of (filter (\<lambda>(_, en). \<not> ne_expiresAt en \<le> me_dbNow me) nonces) n = Some en"
    using assms by (auto simp: tget_def tuniq_def distinct_map_filter map_of_eq_Some_iff)
  then show ?thesis using assms(1) by (simp add: runMaintenance_def postgres_cleanup_def tget_def Let_def)
qed

text \<open>Only resolved quarantine rows older than the retention time go; nothing else of the database changes.\<close>

lemma runMaintenance_db:
  "snd (snd (runMaintenance me (nonces, db))) =
     (if me_cleanup_fault me \<noteq> None then db else delete_expired_failed_events (me_dbNow me) (me_retention me) db)"
  by (simp add: runMaintenance_def cleanupExpiredFailedEvents_def Let_def)

lemma unresolved_failures_survive:
  assumes "(i, r) \<in> set (db_failed db)" and "fe_resolved_at r = None"
  shows "(i, r) \<in> set (db_failed (snd (snd (runMaintenance me (nonces, db)))))"
  using assms by (auto simp: runMaintenance_db delete_expired_failed_events_def expired_failed_def)

text \<open>
  A failing clean-up of quarantined events is swallowed inside \<open>cleanupExpiredFailedEvents\<close>, so the
  pass reports success for it: the field and the log line for its error are never used.
\<close>

lemma failed_cleanup_is_reported_as_success:
  "mr_expiredFailedEventsError (fst (runMaintenance me nd)) = None"
  "last (logMaintenanceResult isoTime (fst (runMaintenance me nd))) =
     ''[maintenance] expired failed_events cleanup completed successfully''"
  by (simp_all add: runMaintenance_def logMaintenanceResult_def has_text_def Let_def)

text \<open>A pass at a given time in which no table could be vacuumed.\<close>

definition maintenance_at :: "int \<Rightarrow> maintenance_env" where
  "maintenance_at t = \<lparr>me_start = t, me_end = t, me_vacuum = (\<lambda>_. (t, t, Some (PlainError ''lock timeout''))), me_dbNow = t,
     me_nonce_fault = None, me_cleanup_fault = None, me_retention = None\<rparr>"

end
