(* ===== verification/Migrate.thy ===== *)
theory Migrate
  imports JsValue
begin

text \<open>
  Schema migrations (\<open>src/db/migrate.ts\<close>): the directory listing, the check for duplicate
  versions, the advisory lock with its time limit and the loop over the pending migrations. What
  a migration's SQL does to the database is the parameter \<open>run\<close>, what \<open>schema.sql\<close> does is the
  parameter \<open>baseline\<close>.
\<close>

section \<open>Migration files\<close>

record migration_file =
  mf_version :: nat
  mf_name :: string

definition ends_with :: "string \<Rightarrow> string \<Rightarrow> bool" where
  "ends_with s p = (length p \<le> length s \<and> drop (length s - length p) s = p)"

text \<open>\<open>/^\d+_.*\.sql$/\<close>, where the dot matches no line break.\<close>

definition is_migration_name :: "string \<Rightarrow> bool" where
  "is_migration_name f =
     (let r = dropWhile is_digit f in
      takeWhile is_digit f \<noteq> [] \<and> r \<noteq> [] \<and> hd r = CHR ''_'' \<and> ends_with (tl r) ''.sql'' \<and>
      CHR 0x0A \<notin> set r \<and> CHR 0x0D \<notin> set r)"

fun assertNoDuplicateVersions :: "(nat, string) tbl \<Rightarrow> migration_file list \<Rightarrow> exn + unit" where
  "assertNoDuplicateVersions seenBy [] = Inr ()"
| "assertNoDuplicateVersions seenBy (f # fs) =
     (case tget seenBy (mf_version f) of
        Some prior \<Rightarrow> Inl (PlainError (''duplicate migration version '' @ show_nat (mf_version f) @ '': '' @ prior @
          '' and '' @ mf_name f @ '' both claim it''))
      | None \<Rightarrow> assertNoDuplicateVersions (tput (mf_version f) (mf_name f) seenBy) fs)"

text \<open>\<open>entries\<close> is the directory listing, \<open>Inr None\<close> when there is no such directory.\<close>

definition loadMigrationFiles :: "exn + string list option \<Rightarrow> exn + migration_file list" where
  "loadMigrationFiles entries =
     (case entries of
        Inl e \<Rightarrow> Inl e
      | Inr None \<Rightarrow> Inr []
      | Inr (Some names) \<Rightarrow>
          let files = sort_key mf_version
                (map (\<lambda>f. \<lparr>mf_version = digits_val (takeWhile is_digit f), mf_name = f\<rparr>) (filter is_migration_name names))
          in bindE (assertNoDuplicateVersions [] files) (\<lambda>_. Inr files))"

section \<open>The lock\<close>

text \<open>\<open>clock n\<close> is the time at the \<open>n\<close>-th check, \<open>free n\<close> whether the lock could be taken then.\<close>

partial_function (option) acquireMigrationLockWithTimeout ::
  "(nat \<Rightarrow> int) \<Rightarrow> (nat \<Rightarrow> bool) \<Rightarrow> int \<Rightarrow> int \<Rightarrow> nat \<Rightarrow> bool option" where
  "acquireMigrationLockWithTimeout clock free startTime timeoutMs n =
     (if clock n - startTime < timeoutMs
      then if free n then Some True else acquireMigrationLockWithTimeout clock free startTime timeoutMs (Suc n)
      else Some False)"

declare acquireMigrationLockWithTimeout.simps [code]

text \<open>The loop waits 100 ms between two attempts, so it ends.\<close>

lemma acquire_terminates:
  assumes "\<And>k. clock (Suc k) \<ge> clock k + 100" and "timeoutMs - (clock n - t0) \<le> int m * 100"
  shows "\<exists>b. acquireMigrationLockWithTimeout clock free t0 timeoutMs n = Some b"
  using assms(2)
proof (induction m arbitrary: n)
  case 0
  then have "acquireMigrationLockWithTimeout clock free t0 timeoutMs n = Some False"
    by (subst acquireMigrationLockWithTimeout.simps) simp
  then show ?case by blast
next
  case (Suc m)
  have "timeoutMs - (clock (Suc n) - t0) \<le> int m * 100" using Suc.prems assms(1) [of n] by simp
  from Suc.IH [OF this] show ?case by (subst acquireMigrationLockWithTimeout.simps) auto
qed

section \<open>Applying\<close>

record 's database =
  dt_schema :: 's
  dt_applied :: "(nat, string) tbl" \<comment> \<open>\<open>schema_migrations\<close>\<close>

definition record_applied :: "migration_file \<Rightarrow> 's database \<Rightarrow> 's database" where
  "record_applied m d =
     (if tget (dt_applied d) (mf_version m) = None
      then d\<lparr>dt_applied := tput (mf_version m) (mf_name m) (dt_applied d)\<rparr> else d)"

definition migration_error :: "migration_file \<Rightarrow> exn \<Rightarrow> exn" where
  "migration_error m e = PlainError (''migration '' @ mf_name m @ '' failed: '' @ error_message e)"

fun apply_migrations ::
  "(migration_file \<Rightarrow> 's \<Rightarrow> exn + 's) \<Rightarrow> bool \<Rightarrow> nat list \<Rightarrow> migration_file list \<Rightarrow> 's database \<Rightarrow> (exn + unit) \<times> 's database" where
  "apply_migrations run fresh appliedVersions [] d = (Inr (), d)"
| "apply_migrations run fresh appliedVersions (m # ms) d =
     (if mf_version m \<in> set appliedVersions then apply_migrations run fresh appliedVersions ms d
      else if fresh then apply_migrations run fresh (mf_version m # appliedVersions) ms (record_applied m d)
      else case run m (dt_schema d) of
             Inl e \<Rightarrow> (Inl (migration_error m e), d)
           | Inr s \<Rightarrow> apply_migrations run fresh (mf_version m # appliedVersions) ms (record_applied m (d\<lparr>dt_schema := s\<rparr>)))"

definition lock_timeout_error :: exn where
  "lock_timeout_error = PlainError (''Failed to acquire migration lock within 30 seconds. Another migration may be in progress, '' @
     ''or a previous migration process may have died while holding the lock. '' @
     ''If you are certain no other migration is running, restart the database connection pool '' @
     ''to clear stale session locks.'')"

definition migrate ::
  "(migration_file \<Rightarrow> 's \<Rightarrow> exn + 's) \<Rightarrow> ('s \<Rightarrow> exn + 's) \<Rightarrow> bool \<Rightarrow> exn + string list option \<Rightarrow> 's database \<Rightarrow>
     (exn + unit) \<times> 's database" where
  "migrate run baseline locked entries d =
     (if \<not> locked then (Inl lock_timeout_error, d)
      else case baseline (dt_schema d) of
             Inl e \<Rightarrow> (Inl e, d)
           | Inr s \<Rightarrow>
               (let d1 = d\<lparr>dt_schema := s\<rparr> in
                case loadMigrationFiles entries of
                  Inl e \<Rightarrow> (Inl e, d1)
                | Inr migrations \<Rightarrow>
                    if migrations = [] then (Inr (), d1)
                    else let appliedVersions = tkeys (dt_applied d1) in
                      apply_migrations run (appliedVersions = []) appliedVersions migrations d1))"

section \<open>Facts\<close>

lemma assertNoDuplicateVersions_ok:
  "assertNoDuplicateVersions seen fs = Inr () \<longleftrightarrow> distinct (map mf_version fs) \<and> set (map mf_version fs) \<inter> set (tkeys seen) = {}"
proof (induction fs arbitrary: seen)
  case (Cons f fs)
  have "set (tkeys (tput k v seen)) = insert k (set (tkeys seen))" for k :: nat and v
    by (simp add: tkeys_def tput_def dom_update flip: dom_map_of_conv_image_fst) (simp add: update_conv' dom_map_of_conv_image_fst)
  then show ?case using Cons.IH tget_in_keys [of seen "mf_version f"]
    by (cases "tget seen (mf_version f)") auto
qed simp

lemma loadMigrationFiles_ok:
  assumes "loadMigrationFiles entries = Inr ms"
  shows "sorted (map mf_version ms)" and "distinct (map mf_version ms)"
  using assms
  by (auto simp: loadMigrationFiles_def Let_def bindE_eq_Inr assertNoDuplicateVersions_ok tkeys_def
      split: sum.splits option.splits)

lemma record_applied_keys: "set (tkeys (dt_applied (record_applied m d))) = insert (mf_version m) (set (tkeys (dt_applied d)))"
  using tget_in_keys [of "dt_applied d" "mf_version m"]
  by (auto simp: record_applied_def tput_fresh tkeys_def)

lemma record_applied_schema [simp]: "dt_schema (record_applied m d) = dt_schema d"
  by (simp add: record_applied_def)

definition pending :: "nat list \<Rightarrow> migration_file list \<Rightarrow> migration_file list" where
  "pending vs ms = filter (\<lambda>m. mf_version m \<notin> set vs) ms"

lemma pending_skip:
  assumes "mf_version m \<notin> mf_version ` set ms"
  shows "pending (mf_version m # vs) ms = pending vs ms"
  unfolding pending_def
proof (rule filter_cong)
  fix x assume "x \<in> set ms"
  with assms have "mf_version x \<noteq> mf_version m" by (metis image_eqI)
  then show "(mf_version x \<notin> set (mf_version m # vs)) = (mf_version x \<notin> set vs)" by simp
qed simp

lemma apply_migrations_done:
  assumes "apply_migrations run fresh vs ms d = (Inr (), d')" and "distinct (map mf_version ms)"
    and "set vs = set (tkeys (dt_applied d))"
  shows "set (tkeys (dt_applied d')) = set (tkeys (dt_applied d)) \<union> mf_version ` set ms \<and>
    (if fresh then dt_schema d' = dt_schema d else foldE run (pending vs ms) (dt_schema d) = Inr (dt_schema d'))"
  using assms
proof (induction ms arbitrary: vs d)
  case Nil
  then show ?case by (simp add: pending_def)
next
  case (Cons m ms)
  have skip: "pending (mf_version m # vs) ms = pending vs ms"
    using Cons.prems(2) by (intro pending_skip) simp
  show ?case
  proof (cases "mf_version m \<in> set vs")
    case True
    then show ?thesis using Cons.IH [of vs d] Cons.prems by (auto simp: pending_def split: if_splits)
  next
    case False
    show ?thesis
    proof (cases fresh)
      case True
      then show ?thesis using False Cons.IH [of "mf_version m # vs" "record_applied m d"] Cons.prems record_applied_keys [of m d]
        by auto
    next
      case nf: False
      with False Cons.prems(1) obtain s where s: "run m (dt_schema d) = Inr s"
        "apply_migrations run fresh (mf_version m # vs) ms (record_applied m (d\<lparr>dt_schema := s\<rparr>)) = (Inr (), d')"
        by (auto split: sum.splits)
      have "set (mf_version m # vs) = set (tkeys (dt_applied (record_applied m (d\<lparr>dt_schema := s\<rparr>))))"
        using Cons.prems(3) record_applied_keys [of m "d\<lparr>dt_schema := s\<rparr>"] by simp
      from Cons.IH [OF s(2) _ this] Cons.prems(2,3) skip s(1) nf False record_applied_keys [of m "d\<lparr>dt_schema := s\<rparr>"]
      show ?thesis by (auto simp: pending_def)
    qed
  qed
qed

lemma apply_migrations_none:
  "(\<And>m. m \<in> set ms \<Longrightarrow> mf_version m \<in> set vs) \<Longrightarrow> apply_migrations run fresh vs ms d = (Inr (), d)"
  by (induction ms) simp_all

lemma apply_fresh: "\<exists>d'. apply_migrations run True vs ms d = (Inr (), d')"
  by (induction run "True" vs ms d rule: apply_migrations.induct) auto

text \<open>What a failing migration leaves: the ones before it applied, itself rolled back.\<close>

lemma apply_migrations_failed:
  assumes "apply_migrations run False vs ms d = (Inl e, d')" and "distinct (map mf_version ms)"
    and "set vs = set (tkeys (dt_applied d))"
  shows "\<exists>before m after s e'. pending vs ms = before @ m # after \<and> foldE run before (dt_schema d) = Inr s \<and>
    run m s = Inl e' \<and> e = migration_error m e' \<and> dt_schema d' = s \<and>
    set (tkeys (dt_applied d')) = set (tkeys (dt_applied d)) \<union> mf_version ` set before"
  using assms
proof (induction ms arbitrary: vs d)
  case (Cons m ms)
  have skip: "pending (mf_version m # vs) ms = pending vs ms"
    using Cons.prems(2) by (intro pending_skip) simp
  show ?case
  proof (cases "mf_version m \<in> set vs")
    case True
    then show ?thesis using Cons.IH [of vs d] Cons.prems by (simp add: pending_def)
  next
    case False
    then have p: "pending vs (m # ms) = m # pending vs ms" by (simp add: pending_def)
    show ?thesis
    proof (cases "run m (dt_schema d)")
      case (Inl e')
      with False Cons.prems(1) have "e = migration_error m e'" "d' = d" by auto
      with Inl p show ?thesis by (intro exI [of _ "[]"]) auto
    next
      case (Inr s)
      let ?d = "record_applied m (d\<lparr>dt_schema := s\<rparr>)"
      have k: "set (mf_version m # vs) = set (tkeys (dt_applied ?d))"
        using Cons.prems(3) record_applied_keys [of m "d\<lparr>dt_schema := s\<rparr>"] by simp
      have r: "apply_migrations run False (mf_version m # vs) ms ?d = (Inl e, d')" using Cons.prems(1) False Inr by simp
      from Cons.IH [OF r _ k] Cons.prems(2) skip obtain before m' after s' e' where
        "pending vs ms = before @ m' # after" "foldE run before s = Inr s'" "run m' s' = Inl e'" "e = migration_error m' e'"
        "dt_schema d' = s'" "set (tkeys (dt_applied d')) = set (tkeys (dt_applied ?d)) \<union> mf_version ` set before"
        by auto
      with p Inr record_applied_keys [of m "d\<lparr>dt_schema := s\<rparr>"] show ?thesis
        by (intro exI [of _ "m # before"] exI [of _ m'] exI [of _ after] exI [of _ s'] exI [of _ e']) auto
    qed
  qed
qed simp

section \<open>Files that claim the same version\<close>

definition migration_of :: "string \<Rightarrow> migration_file" where
  "migration_of f = \<lparr>mf_version = digits_val (takeWhile is_digit f), mf_name = f\<rparr>"

lemma duplicate_versions_refused:
  assumes "f \<in> set names" and "g \<in> set names" and "f \<noteq> g" and "is_migration_name f" and "is_migration_name g"
    and "mf_version (migration_of f) = mf_version (migration_of g)"
  shows "\<exists>e. loadMigrationFiles (Inr (Some names)) = Inl e"
proof (cases "loadMigrationFiles (Inr (Some names))")
  case (Inr ms)
  then have ms: "set ms = migration_of ` set (filter is_migration_name names)"
    by (auto simp: loadMigrationFiles_def Let_def bindE_eq_Inr migration_of_def)
  have "inj_on mf_version (set ms)" using loadMigrationFiles_ok(2) [OF Inr] by (simp add: distinct_map)
  moreover have "migration_of f \<in> set ms" "migration_of g \<in> set ms" using assms ms by auto
  ultimately have "migration_of f = migration_of g" using assms(6) by (simp add: inj_on_def)
  with assms(3) show ?thesis by (simp add: migration_of_def)
qed blast

lemma migrate_without_files:
  assumes "loadMigrationFiles entries = Inl e"
  shows "\<exists>e' d'. migrate run baseline locked entries d = (Inl e', d')"
  using assms by (auto simp: migrate_def Let_def split: sum.split)

end
