(* ===== verification/Lifecycle.thy ===== *)
theory Lifecycle
  imports Cache Migrate
begin

text \<open>
  The two processes from start to exit. The worker (\<open>src/src/worker.ts\<close> with \<open>stopIndexer\<close> of
  \<open>src/src/indexer/poller.ts\<close>) is a step relation: signals, the indexer loop, the maintenance loop with
  its timer, the ten-second limit and the shutdown routine take turns in any order, and each await may
  be one that never ends. The API process
  (\<open>src/src/index.ts\<close>) is the sequence of awaits of its shutdown routine. A promise nobody handles that
  rejects ends a Node process with code 1.
\<close>

section \<open>Start\<close>

text \<open>The entry points run the migrations before anything else and exit with 1 when they throw.\<close>

datatype start_outcome = Serving | Exited nat

definition start_process :: "exn + unit \<Rightarrow> start_outcome" where
  "start_process migrated = (case migrated of Inl e \<Rightarrow> Exited 1 | Inr _ \<Rightarrow> Serving)"

text \<open>\<open>process.env.OURDAO_PROCESS_ROLE ||= 'worker'\<close>.\<close>

definition set_worker_role :: "(string \<times> string) list \<Rightarrow> (string \<times> string) list" where
  "set_worker_role env =
     (case map_of env ''OURDAO_PROCESS_ROLE'' of
        Some (c # cs) \<Rightarrow> env
      | _ \<Rightarrow> tput ''OURDAO_PROCESS_ROLE'' ''worker'' env)"

section \<open>The worker\<close>

datatype indexer_phase = Ix_starting | Ix_running | Ix_stopped

datatype maintenance_phase = Mt_pass | Mt_timer | Mt_stopped

datatype shutdown_phase = Sd_none | Sd_indexer | Sd_maintenance | Sd_redis | Sd_pool | Sd_telemetry

record worker =
  wk_indexer :: indexer_phase
  wk_maintenance :: maintenance_phase
  wk_shutdown :: shutdown_phase
  wk_stopAtOnce :: bool \<comment> \<open>\<open>stopIndexer\<close> found no running loop\<close>
  wk_timedOut :: bool
  wk_poolEnds :: nat
  wk_exit :: "nat option"

definition worker_start :: worker where
  "worker_start = \<lparr>wk_indexer = Ix_starting, wk_maintenance = Mt_pass, wk_shutdown = Sd_none, wk_stopAtOnce = False,
     wk_timedOut = False, wk_poolEnds = 0, wk_exit = None\<rparr>"

definition aborted :: "worker \<Rightarrow> bool" where
  "aborted w = (wk_shutdown w \<noteq> Sd_none)"

text \<open>\<open>stopIndexer\<close> resolves at once when the loop is not running.\<close>

definition stopIndexer_at_once :: "indexer_phase \<Rightarrow> bool" where
  "stopIndexer_at_once ix = (ix \<noteq> Ix_running)"

declare stopIndexer_at_once_def [simp]

text \<open>
  The first signal: abort the maintenance loop, whose armed timer is cleared, and ask the indexer
  to stop, which resolves at once when its loop is not running. A later signal does nothing.
\<close>

definition on_signal :: "worker \<Rightarrow> worker" where
  "on_signal w =
     (if wk_shutdown w \<noteq> Sd_none then w
      else w\<lparr>wk_shutdown := Sd_indexer,
             wk_maintenance := (if wk_maintenance w = Mt_timer then Mt_stopped else wk_maintenance w),
             wk_stopAtOnce := stopIndexer_at_once (wk_indexer w)\<rparr>)"

text \<open>
  What may never end: the indexer in its start or its poll, the release of the pool's client it holds there,
  a maintenance pass, the closing of Redis, the flush of spans. \<open>pool.end()\<close> waits for every client.
\<close>

record hangs =
  ha_indexer :: bool
  ha_client :: bool
  ha_maintenance :: bool
  ha_redis :: bool
  ha_telemetry :: bool

definition no_hangs :: hangs where
  "no_hangs = \<lparr>ha_indexer = False, ha_client = False, ha_maintenance = False, ha_redis = False, ha_telemetry = False\<rparr>"

definition client_kept :: "hangs \<Rightarrow> worker \<Rightarrow> bool" where
  "client_kept hg w = (ha_indexer hg \<and> ha_client hg \<and> wk_indexer w \<noteq> Ix_stopped)"

inductive worker_step :: "hangs \<Rightarrow> worker \<Rightarrow> worker \<Rightarrow> bool" for hg :: hangs where
  signal: "wk_exit w = None \<Longrightarrow> worker_step hg w (on_signal w)"
| indexer_up: "wk_exit w = None \<Longrightarrow> wk_indexer w = Ix_starting \<Longrightarrow> \<not> ha_indexer hg \<Longrightarrow>
    worker_step hg w (w\<lparr>wk_indexer := Ix_running\<rparr>)"
| indexer_fatal: "wk_exit w = None \<Longrightarrow> wk_indexer w \<noteq> Ix_stopped \<Longrightarrow> \<not> ha_indexer hg \<Longrightarrow>
    worker_step hg w (w\<lparr>wk_indexer := Ix_stopped, wk_exit := Some 1\<rparr>)"
| indexer_down: "wk_exit w = None \<Longrightarrow> wk_indexer w = Ix_running \<Longrightarrow> aborted w \<Longrightarrow> \<not> wk_stopAtOnce w \<Longrightarrow> \<not> ha_indexer hg \<Longrightarrow>
    worker_step hg w (w\<lparr>wk_indexer := Ix_stopped\<rparr>)"
| timer_fires: "wk_exit w = None \<Longrightarrow> wk_maintenance w = Mt_timer \<Longrightarrow> worker_step hg w (w\<lparr>wk_maintenance := Mt_pass\<rparr>)"
| pass_ends: "wk_exit w = None \<Longrightarrow> wk_maintenance w = Mt_pass \<Longrightarrow> \<not> ha_maintenance hg \<Longrightarrow>
    worker_step hg w (w\<lparr>wk_maintenance := (if aborted w then Mt_stopped else Mt_timer)\<rparr>)"
| indexer_awaited: "wk_exit w = None \<Longrightarrow> wk_shutdown w = Sd_indexer \<Longrightarrow> wk_stopAtOnce w \<or> wk_indexer w \<noteq> Ix_running \<Longrightarrow>
    worker_step hg w (w\<lparr>wk_shutdown := Sd_maintenance\<rparr>)"
| time_limit: "wk_exit w = None \<Longrightarrow> wk_shutdown w = Sd_indexer \<Longrightarrow>
    worker_step hg w (w\<lparr>wk_shutdown := Sd_maintenance, wk_timedOut := True\<rparr>)"
| maintenance_awaited: "wk_exit w = None \<Longrightarrow> wk_shutdown w = Sd_maintenance \<Longrightarrow> wk_maintenance w = Mt_stopped \<Longrightarrow>
    worker_step hg w (w\<lparr>wk_shutdown := Sd_redis\<rparr>)"
| redis_closed: "wk_exit w = None \<Longrightarrow> wk_shutdown w = Sd_redis \<Longrightarrow> \<not> ha_redis hg \<Longrightarrow>
    worker_step hg w (w\<lparr>wk_shutdown := Sd_pool\<rparr>)"
| redis_rejects: "wk_exit w = None \<Longrightarrow> wk_shutdown w = Sd_redis \<Longrightarrow> \<not> ha_redis hg \<Longrightarrow> worker_step hg w (w\<lparr>wk_exit := Some 1\<rparr>)"
| pool_ended: "wk_exit w = None \<Longrightarrow> wk_shutdown w = Sd_pool \<Longrightarrow> \<not> client_kept hg w \<Longrightarrow>
    worker_step hg w (w\<lparr>wk_shutdown := Sd_telemetry, wk_poolEnds := wk_poolEnds w + 1\<rparr>)"
| pool_rejects: "wk_exit w = None \<Longrightarrow> wk_shutdown w = Sd_pool \<Longrightarrow> \<not> client_kept hg w \<Longrightarrow> worker_step hg w (w\<lparr>wk_exit := Some 1\<rparr>)"
| telemetry_rejects: "wk_exit w = None \<Longrightarrow> wk_shutdown w = Sd_telemetry \<Longrightarrow> \<not> ha_telemetry hg \<Longrightarrow>
    worker_step hg w (w\<lparr>wk_exit := Some 1\<rparr>)"
| done_exit: "wk_exit w = None \<Longrightarrow> wk_shutdown w = Sd_telemetry \<Longrightarrow> \<not> ha_telemetry hg \<Longrightarrow> worker_step hg w (w\<lparr>wk_exit := Some 0\<rparr>)"

inductive_cases worker_stepE: "worker_step hg w w'"

text \<open>Something that hangs only takes steps away.\<close>

lemma worker_step_no_hangs: "worker_step hg w w' \<Longrightarrow> worker_step no_hangs w w'"
  by (induction rule: worker_step.induct; rule worker_step.intros; simp add: no_hangs_def client_kept_def)

inductive worker_reach :: "worker \<Rightarrow> bool" where
  start: "worker_reach worker_start"
| step: "worker_reach w \<Longrightarrow> worker_step hg w w' \<Longrightarrow> worker_reach w'"

section \<open>Invariant\<close>

definition past_indexer :: "worker \<Rightarrow> bool" where
  "past_indexer w = (wk_shutdown w \<in> {Sd_maintenance, Sd_redis, Sd_pool, Sd_telemetry})"

definition past_maintenance :: "worker \<Rightarrow> bool" where
  "past_maintenance w = (wk_shutdown w \<in> {Sd_redis, Sd_pool, Sd_telemetry})"

definition worker_inv :: "worker \<Rightarrow> bool" where
  "worker_inv w \<longleftrightarrow>
     (past_indexer w \<longrightarrow> wk_timedOut w \<or> wk_stopAtOnce w \<or> wk_indexer w \<noteq> Ix_running) \<and>
     (past_maintenance w \<longrightarrow> wk_maintenance w = Mt_stopped) \<and>
     (wk_maintenance w = Mt_stopped \<longrightarrow> aborted w) \<and> (wk_maintenance w = Mt_timer \<longrightarrow> \<not> aborted w) \<and>
     (aborted w \<and> wk_indexer w = Ix_starting \<longrightarrow> wk_stopAtOnce w) \<and>
     wk_poolEnds w = (if wk_shutdown w = Sd_telemetry then 1 else 0) \<and>
     (wk_exit w = Some 0 \<longrightarrow> wk_shutdown w = Sd_telemetry)"

lemmas worker_defs = worker_inv_def past_indexer_def past_maintenance_def aborted_def

lemma worker_inv_start: "worker_inv worker_start"
  by (simp add: worker_defs worker_start_def)

lemma worker_inv_step:
  assumes "worker_step hg w w'" and "worker_inv w"
  shows "worker_inv w'"
  using assms(1)
proof cases
  case signal
  with assms(2) show ?thesis
    by (cases "wk_shutdown w"; cases "wk_maintenance w"; cases "wk_indexer w") (simp_all add: worker_defs on_signal_def)
next
  case pass_ends
  with assms(2) show ?thesis by (cases "aborted w") (simp_all add: worker_defs)
qed (use assms(2) in \<open>cases "wk_shutdown w"; simp add: worker_defs\<close>)+

theorem worker_reach_inv: "worker_reach w \<Longrightarrow> worker_inv w"
  by (induction rule: worker_reach.induct) (auto intro: worker_inv_start worker_inv_step)

section \<open>Shutdown ends\<close>

text \<open>Steps of the shutdown: those after the first signal, later signals apart.\<close>

definition shutdown_step :: "hangs \<Rightarrow> worker \<Rightarrow> worker \<Rightarrow> bool" where
  "shutdown_step hg w w' \<longleftrightarrow> worker_step hg w w' \<and> aborted w \<and> w' \<noteq> w"

fun phase_left :: "shutdown_phase \<Rightarrow> nat" where
  "phase_left Sd_none = 6" | "phase_left Sd_indexer = 5" | "phase_left Sd_maintenance = 4"
| "phase_left Sd_redis = 3" | "phase_left Sd_pool = 2" | "phase_left Sd_telemetry = 1"

fun indexer_left :: "indexer_phase \<Rightarrow> nat" where
  "indexer_left Ix_starting = 2" | "indexer_left Ix_running = 1" | "indexer_left Ix_stopped = 0"

fun maintenance_left :: "maintenance_phase \<Rightarrow> nat" where
  "maintenance_left Mt_timer = 2" | "maintenance_left Mt_pass = 1" | "maintenance_left Mt_stopped = 0"

definition work_left :: "worker \<Rightarrow> nat" where
  "work_left w = phase_left (wk_shutdown w) + indexer_left (wk_indexer w) + maintenance_left (wk_maintenance w) +
     (if wk_exit w = None then 1 else 0)"

lemma shutdown_step_decreases: "shutdown_step hg w w' \<Longrightarrow> work_left w' < work_left w"
  unfolding shutdown_step_def
  by (auto elim!: worker_stepE simp: work_left_def aborted_def on_signal_def)

lemma shutdown_step_aborted: "shutdown_step hg w w' \<Longrightarrow> aborted w'"
  unfolding shutdown_step_def by (auto elim!: worker_stepE simp: aborted_def on_signal_def)

text \<open>
  What keeps a shutdown from ending: a pass of the maintenance loop, the closing of Redis or the flush of
  spans that never ends, or a client of the pool the indexer never gives back. An indexer that hangs
  without a client is not among them: the time limit takes care of it.
\<close>

definition blocked :: "hangs \<Rightarrow> worker \<Rightarrow> bool" where
  "blocked hg w \<longleftrightarrow>
     (ha_maintenance hg \<and> wk_maintenance w = Mt_pass \<and> wk_shutdown w \<in> {Sd_indexer, Sd_maintenance}) \<or>
     (ha_redis hg \<and> wk_shutdown w \<in> {Sd_indexer, Sd_maintenance, Sd_redis}) \<or>
     (client_kept hg w \<and> wk_shutdown w \<noteq> Sd_telemetry) \<or>
     ha_telemetry hg"

lemma blocked_step:
  assumes "shutdown_step hg w w'" "worker_inv w" "wk_exit w' \<noteq> Some 1"
  shows "blocked hg w' \<longleftrightarrow> blocked hg w"
proof -
  have s: "worker_step hg w w'" "aborted w" using assms(1) by (simp_all add: shutdown_step_def)
  show ?thesis using s(1)
  proof cases
    case signal
    then show ?thesis using s(2) assms(1) by (simp add: shutdown_step_def on_signal_def aborted_def)
  next
    case timer_fires
    then show ?thesis using s(2) assms(2) by (simp add: worker_inv_def)
  qed (use s(2) assms(2,3) in \<open>auto simp: blocked_def client_kept_def aborted_def worker_inv_def past_maintenance_def past_indexer_def\<close>)
qed

text \<open>Until the process has exited, some step of a shutdown that nothing blocks is possible.\<close>

lemma shutdown_stepI: "worker_step hg w w' \<Longrightarrow> aborted w \<Longrightarrow> work_left w' \<noteq> work_left w \<Longrightarrow> \<exists>w'. shutdown_step hg w w'"
  by (auto simp: shutdown_step_def)

lemmas shutdown_moves = time_limit maintenance_awaited redis_closed pool_ended done_exit pass_ends

lemma shutdown_progress:
  assumes "worker_inv w" and "aborted w" and "wk_exit w = None" and "\<not> blocked hg w"
  shows "\<exists>w'. shutdown_step hg w w'"
proof (cases "wk_shutdown w")
  case Sd_none
  with assms(2) show ?thesis by (simp add: aborted_def)
next
  case Sd_indexer
  with assms show ?thesis by (auto intro!: shutdown_stepI [OF time_limit] simp: work_left_def)
next
  case Sd_maintenance
  show ?thesis
  proof (cases "wk_maintenance w = Mt_stopped")
    case True
    with assms Sd_maintenance show ?thesis by (auto intro!: shutdown_stepI [OF maintenance_awaited] simp: work_left_def)
  next
    case False
    with assms have "wk_maintenance w = Mt_pass" by (cases "wk_maintenance w") (auto simp: worker_inv_def)
    with assms Sd_maintenance show ?thesis
      by (auto intro!: shutdown_stepI [OF pass_ends] simp: work_left_def blocked_def)
  qed
next
  case Sd_redis
  with assms show ?thesis by (auto intro!: shutdown_stepI [OF redis_closed] simp: work_left_def blocked_def)
next
  case Sd_pool
  with assms show ?thesis by (auto intro!: shutdown_stepI [OF pool_ended] simp: work_left_def blocked_def)
next
  case Sd_telemetry
  with assms show ?thesis by (auto intro!: shutdown_stepI [OF done_exit] simp: work_left_def blocked_def)
qed

text \<open>A run of shutdown steps is no longer than the work left, and one that cannot go on has exited.\<close>

inductive shutdown_run :: "hangs \<Rightarrow> worker \<Rightarrow> nat \<Rightarrow> worker \<Rightarrow> bool" for hg :: hangs where
  run_nil: "shutdown_run hg w 0 w"
| run_step: "shutdown_step hg w w1 \<Longrightarrow> shutdown_run hg w1 n w' \<Longrightarrow> shutdown_run hg w (Suc n) w'"

lemma shutdown_run_bounded: "shutdown_run hg w n w' \<Longrightarrow> n + work_left w' \<le> work_left w"
  by (induction rule: shutdown_run.induct) (auto dest!: shutdown_step_decreases)

lemma exit_ends: "shutdown_step hg w w' \<Longrightarrow> wk_exit w = None"
  by (auto simp: shutdown_step_def elim!: worker_stepE)

lemma shutdown_run_exit: "shutdown_run hg w n w' \<Longrightarrow> wk_exit w \<noteq> None \<Longrightarrow> w' = w"
  by (cases rule: shutdown_run.cases) (auto dest: exit_ends)

lemma shutdown_run_inv:
  "shutdown_run hg w n w' \<Longrightarrow> worker_inv w \<Longrightarrow> aborted w \<Longrightarrow>
     worker_inv w' \<and> aborted w' \<and> (wk_exit w' \<noteq> Some 1 \<longrightarrow> (blocked hg w' \<longleftrightarrow> blocked hg w))"
proof (induction rule: shutdown_run.induct)
  case (run_step w w1 n w')
  have i: "worker_inv w1" "aborted w1"
    using run_step worker_inv_step shutdown_step_aborted by (auto simp: shutdown_step_def)
  have "wk_exit w1 = Some 1 \<Longrightarrow> w' = w1" using shutdown_run_exit [OF run_step(2)] by simp
  then show ?case using run_step.IH [OF i] blocked_step [OF run_step(1) run_step.prems(1)] by auto
qed simp

lemma work_left_bound: "aborted w \<Longrightarrow> work_left w \<le> 10"
  unfolding work_left_def aborted_def
  by (cases "wk_shutdown w"; cases "wk_indexer w"; cases "wk_maintenance w") auto

lemma shutdown_run_exists:
  "worker_inv w \<Longrightarrow> aborted w \<Longrightarrow> \<not> blocked hg w \<Longrightarrow> \<exists>n w'. shutdown_run hg w n w' \<and> wk_exit w' \<noteq> None"
proof (induction "work_left w" arbitrary: w rule: less_induct)
  case less
  show ?case
  proof (cases "wk_exit w = None")
    case True
    with less.prems obtain w1 where w1: "shutdown_step hg w w1" using shutdown_progress by blast
    then have i: "worker_inv w1" "aborted w1"
      using less.prems worker_inv_step shutdown_step_aborted by (auto simp: shutdown_step_def)
    show ?thesis
    proof (cases "wk_exit w1 = Some 1")
      case True
      then show ?thesis using run_step [OF w1 run_nil] by auto
    next
      case False
      then have "\<not> blocked hg w1" using blocked_step [OF w1 less.prems(1)] less.prems(3) by simp
      with less.hyps [OF shutdown_step_decreases [OF w1] i] w1 show ?thesis by (blast intro: run_step)
    qed
  qed (blast intro: run_nil)
qed

text \<open>A blocked shutdown never exits with code 0: an exit with 0 follows the flush of spans.\<close>

lemma blocked_never_done:
  assumes "shutdown_run hg w n w'" "worker_inv w" "aborted w" "blocked hg w" "wk_exit w = None"
  shows "wk_exit w' \<noteq> Some 0"
  using assms
proof (induction rule: shutdown_run.induct)
  case (run_step w w1 n w')
  have i: "worker_inv w1" "aborted w1"
    using run_step worker_inv_step shutdown_step_aborted by (auto simp: shutdown_step_def)
  show ?case
  proof (cases "wk_exit w1")
    case None
    then show ?thesis using run_step.IH i blocked_step [OF run_step(1) run_step.prems(1)] run_step.prems(3) by simp
  next
    case (Some c)
    have "worker_step hg w w1" using run_step(1) by (simp add: shutdown_step_def)
    then have "c \<noteq> 0" using Some run_step.prems(3,4) by cases (auto simp: blocked_def client_kept_def on_signal_def split: if_splits)
    with Some shutdown_run_exit [OF run_step(2)] show ?thesis by simp
  qed
qed simp

section \<open>A signal during the start\<close>

text \<open>
  A signal that arrives while \<open>runIndexer\<close> is still in its start-up checks finds no running loop, so
  \<open>stopIndexer\<close> resolves at once: the loop starts afterwards and the pool is closed under it, without
  the time limit having passed.
\<close>

definition late_start :: worker where
  "late_start = worker_start\<lparr>wk_indexer := Ix_running, wk_maintenance := Mt_stopped, wk_shutdown := Sd_telemetry,
     wk_stopAtOnce := True, wk_poolEnds := 1\<rparr>"

lemma late_start_reachable: "worker_reach late_start"
proof -
  let ?w1 = "on_signal worker_start"
  let ?w2 = "?w1\<lparr>wk_shutdown := Sd_maintenance\<rparr>"
  let ?w3 = "?w2\<lparr>wk_maintenance := (if aborted ?w2 then Mt_stopped else Mt_timer)\<rparr>"
  let ?w4 = "?w3\<lparr>wk_shutdown := Sd_redis\<rparr>"
  let ?w5 = "?w4\<lparr>wk_shutdown := Sd_pool\<rparr>"
  let ?w6 = "?w5\<lparr>wk_indexer := Ix_running\<rparr>"
  let ?w7 = "?w6\<lparr>wk_shutdown := Sd_telemetry, wk_poolEnds := wk_poolEnds ?w6 + 1\<rparr>"
  note simps = on_signal_def worker_start_def aborted_def no_hangs_def client_kept_def
  have "worker_reach ?w1" by (rule worker_reach.step [where hg = no_hangs, OF worker_reach.start]) (rule signal, simp add: simps)
  then have "worker_reach ?w2" by (rule worker_reach.step [where hg = no_hangs]) (rule indexer_awaited; simp add: simps)
  then have "worker_reach ?w3" by (rule worker_reach.step [where hg = no_hangs]) (rule pass_ends; simp add: simps)
  then have "worker_reach ?w4" by (rule worker_reach.step [where hg = no_hangs]) (rule maintenance_awaited; simp add: simps)
  then have "worker_reach ?w5" by (rule worker_reach.step [where hg = no_hangs]) (rule redis_closed; simp add: simps)
  then have "worker_reach ?w6" by (rule worker_reach.step [where hg = no_hangs]) (rule indexer_up; simp add: simps)
  then have "worker_reach ?w7" by (rule worker_reach.step [where hg = no_hangs]) (rule pool_ended; simp add: simps)
  moreover have "?w7 = late_start" by (simp add: late_start_def simps)
  ultimately show ?thesis by simp
qed

section \<open>The API process\<close>

datatype api_await = App_close | Drain_clients | Shared_listener | Nonce_store | Close_redis | Pool_end | Telemetry

text \<open>
  The awaits of the shutdown routine in order. The names of the module do not include \<open>closeRedis\<close>,
  so that call throws a \<open>ReferenceError\<close> before anything is awaited. The others end as \<open>await\<close>
  says; the time limit on \<open>App_close\<close> makes a close that hangs a success.
\<close>

definition api_awaits :: "api_await list" where
  "api_awaits = [App_close, Drain_clients, Shared_listener, Nonce_store, Close_redis, Pool_end, Telemetry]"

definition reference_error :: "string \<Rightarrow> exn" where
  "reference_error name = PlainError (name @ '' is not defined'')"

definition api_await_result :: "(api_await \<Rightarrow> exn + unit) \<Rightarrow> api_await \<Rightarrow> exn + unit" where
  "api_await_result await a = (if a = Close_redis then Inl (reference_error ''closeRedis'') else await a)"

text \<open>The calls completed, and the exit code.\<close>

fun run_awaits :: "(api_await \<Rightarrow> exn + unit) \<Rightarrow> api_await list \<Rightarrow> api_await list \<times> nat" where
  "run_awaits res [] = ([], 0)"
| "run_awaits res (a # as) =
     (case res a of Inl e \<Rightarrow> ([], 1) | Inr _ \<Rightarrow> apfst ((#) a) (run_awaits res as))"

record api_process =
  ap_shuttingDown :: bool
  ap_done :: "api_await list"
  ap_exit :: "nat option"

definition api_shutdown :: "(api_await \<Rightarrow> exn + unit) \<Rightarrow> api_process \<Rightarrow> api_process" where
  "api_shutdown await p =
     (if ap_shuttingDown p then p
      else case run_awaits (api_await_result await) api_awaits of
             (done_, code) \<Rightarrow> \<lparr>ap_shuttingDown = True, ap_done = done_, ap_exit = Some code\<rparr>)"

lemma run_awaits_stops:
  assumes "a \<in> set as" and "res a = Inl e"
  shows "snd (run_awaits res as) = 1" and "set (fst (run_awaits res as)) \<subseteq> set (takeWhile (\<lambda>x. x \<noteq> a) as)"
  using assms by (induction as) (auto split: sum.splits)

text \<open>
  The call of \<open>closeRedis\<close> ends every shutdown of the API process with code 1, and the calls after it,
  the end of the pool among them, are never made.
\<close>

lemma api_shutdown_stops_at_redis:
  assumes "\<not> ap_shuttingDown p"
  shows "ap_exit (api_shutdown await p) = Some 1"
    and "set (ap_done (api_shutdown await p)) \<subseteq> {App_close, Drain_clients, Shared_listener, Nonce_store}"
proof -
  have r: "Close_redis \<in> set api_awaits"
    "api_await_result await Close_redis = Inl (reference_error ''closeRedis'')"
    by (simp_all add: api_awaits_def api_await_result_def)
  note stop = run_awaits_stops [where res = "api_await_result await", OF this]
  have "takeWhile (\<lambda>x. x \<noteq> Close_redis) api_awaits = [App_close, Drain_clients, Shared_listener, Nonce_store]"
    by (simp add: api_awaits_def)
  with stop assms show "ap_exit (api_shutdown await p) = Some 1"
    and "set (ap_done (api_shutdown await p)) \<subseteq> {App_close, Drain_clients, Shared_listener, Nonce_store}"
    by (auto simp: api_shutdown_def split: prod.splits)
qed

section \<open>The migration files of the repository\<close>

text \<open>
  Two files carry the version 33, so no process that migrates with them starts.
\<close>

definition clashing_files :: "string list" where
  "clashing_files = [''0033_delete_expired_failed_events_resolved_only.sql'', ''0033_multi_contract_quarantine_state.sql'']"

lemma clashing_files_version:
  "list_all is_migration_name clashing_files" "map (\<lambda>f. mf_version (migration_of f)) clashing_files = [33, 33]"
  "distinct clashing_files"
  by code_simp+

lemma clashing_files_stop_the_start:
  assumes "set clashing_files \<subseteq> set names"
  shows "start_process (fst (migrate run baseline locked (Inr (Some names)) d)) = Exited 1"
proof -
  have "\<exists>e. loadMigrationFiles (Inr (Some names)) = Inl e"
    by (rule duplicate_versions_refused [of "clashing_files ! 0" _ "clashing_files ! 1"])
      (use assms clashing_files_version in \<open>auto simp: clashing_files_def\<close>)
  then obtain e d' where "migrate run baseline locked (Inr (Some names)) d = (Inl e, d')"
    using migrate_without_files by blast
  then show ?thesis by (simp add: start_process_def)
qed

text \<open>
  The worker closes its pool at most once and only after the maintenance loop has stopped, an exit
  with code 0 comes after the pool is closed, and an indexer loop that still runs then is one the time
  limit cut off or one that was not up when the signal came.
\<close>

lemma pool_is_closed_once_after_maintenance:
  assumes "worker_reach w"
  shows "wk_poolEnds w \<le> 1 \<and>
    (wk_poolEnds w = 1 \<longrightarrow> wk_maintenance w = Mt_stopped \<and> (wk_indexer w = Ix_running \<longrightarrow> wk_timedOut w \<or> wk_stopAtOnce w)) \<and>
    (wk_exit w = Some 0 \<longrightarrow> wk_poolEnds w = 1)"
  using worker_reach_inv [OF assms] by (cases "wk_shutdown w"; cases "wk_exit w"; cases "wk_indexer w"; simp add: worker_defs)

lemma pool_is_closed_once_after_maintenance_example:
  "wk_poolEnds late_start = 1 \<and> wk_indexer late_start = Ix_running \<and> \<not> wk_timedOut late_start \<and>
   wk_maintenance late_start = Mt_stopped \<and> wk_stopAtOnce late_start"
proof -
  have "wk_poolEnds late_start = 1" "wk_indexer late_start = Ix_running" "\<not> wk_timedOut late_start"
    by (simp_all add: late_start_def worker_start_def)
  with pool_is_closed_once_after_maintenance [OF late_start_reachable] show ?thesis by simp
qed

end
