(* ===== verification/Config.thy ===== *)
theory Config
  imports JsValue
begin

text \<open>
  Configuration (\<open>src/config.ts\<close>): the readers of environment variables, the list and header
  parsers, the resolved configuration and the contracts the indexer is to tail. Warnings on the
  console are not modelled.
\<close>

section \<open>Readers\<close>

type_synonym process_env = "(string \<times> string) list"

definition cfg_str :: "process_env \<Rightarrow> string \<Rightarrow> string \<Rightarrow> string" where
  "cfg_str env name fallback =
     (case map_of env name of None \<Rightarrow> fallback | Some v \<Rightarrow> if v = [] then fallback else v)"

text \<open>The integer a number is, when \<open>Number.isInteger\<close> holds.\<close>

definition integer_of :: "jsnum \<Rightarrow> int" where
  "integer_of n = (case n of NInt i \<Rightarrow> i
     | NDec m e _ \<Rightarrow> if 0 \<le> e then m * 10 ^ nat e else m div 10 ^ nat (- e) | _ \<Rightarrow> 0)"

definition cfg_int :: "process_env \<Rightarrow> string \<Rightarrow> int \<Rightarrow> int" where
  "cfg_int env name fallback =
     (case map_of env name of
        None \<Rightarrow> fallback
      | Some v \<Rightarrow>
          if v = [] then fallback
          else let n = str_Number (js_trim v) in if isFinite n \<and> isInteger n then integer_of n else fallback)"

definition cfg_bool :: "process_env \<Rightarrow> string \<Rightarrow> bool \<Rightarrow> bool" where
  "cfg_bool env name fallback =
     (case map_of env name of None \<Rightarrow> fallback
      | Some v \<Rightarrow> if v = [] then fallback else v = ''true'' \<or> v = ''1'')"

definition PINO_LEVELS :: "string list" where
  "PINO_LEVELS = [''fatal'', ''error'', ''warn'', ''info'', ''debug'', ''trace'', ''silent'']"

definition logLevel :: "process_env \<Rightarrow> string \<Rightarrow> string \<Rightarrow> string" where
  "logLevel env name fallback =
     (case map_of env name of None \<Rightarrow> fallback
      | Some v \<Rightarrow>
          if v = [] then fallback
          else let level = js_toLowerCase (js_trim v) in if level \<in> set PINO_LEVELS then level else fallback)"

datatype nonce_store_kind = Postgres_store | Memory_store

definition nonceStore :: "process_env \<Rightarrow> string \<Rightarrow> nonce_store_kind \<Rightarrow> nonce_store_kind" where
  "nonceStore env name fallback =
     (case map_of env name of None \<Rightarrow> fallback
      | Some v \<Rightarrow>
          if v = [] then fallback
          else let value = js_toLowerCase (js_trim v) in
            if value = ''postgres'' then Postgres_store
            else if value = ''memory'' then Memory_store else fallback)"

text \<open>The distinct elements in order of first occurrence, as \<open>new Set\<close> keeps them.\<close>

definition js_distinct :: "'a list \<Rightarrow> 'a list" where
  "js_distinct xs = rev (remdups (rev xs))"

definition non_blank_parts :: "string \<Rightarrow> string list" where
  "non_blank_parts s = filter (\<lambda>p. p \<noteq> []) (map js_trim (js_split (CHR '','') s))"

definition parseCorsOrigin :: "string option \<Rightarrow> string" where
  "parseCorsOrigin raw =
     (let trimmed = js_trim (case raw of Some s \<Rightarrow> s | None \<Rightarrow> []) in
      if trimmed = [] then ''http://localhost:3000''
      else if trimmed = ''*'' then ''*''
      else js_join '','' (js_distinct (non_blank_parts trimmed)))"

text \<open>\<open>headers['__proto__'] = value\<close> sets no property.\<close>

definition add_header :: "string \<Rightarrow> (string, string) tbl \<Rightarrow> (string, string) tbl" where
  "add_header entry headers =
     (let piece = js_trim entry; nm = takeWhile (\<lambda>c. c \<noteq> CHR '':'') piece in
      if piece = [] \<or> nm = [] \<or> nm = piece then headers
      else let name = js_trim nm; val = js_trim (drop (length nm + 1) piece) in
        if name = ''__proto__'' then headers else tput name val headers)"

definition parseStellarRpcHeaders :: "string option \<Rightarrow> (string, string) tbl" where
  "parseStellarRpcHeaders raw =
     (let trimmed = js_trim (case raw of Some s \<Rightarrow> s | None \<Rightarrow> []) in
      if trimmed = [] then [] else fold add_header (js_split (CHR '','') trimmed) [])"

section \<open>The resolved configuration\<close>

record http_config =
  ht_port :: int
  ht_host :: string
  ht_corsOrigin :: string
  ht_rateLimitMax :: int
  ht_rateLimitWindowMs :: int
  ht_rateLimitEventsMax :: int
  ht_trustProxy :: string
  ht_statsCacheMs :: int
  ht_statsMaxConcurrent :: int
  ht_statsRetryAfterSeconds :: int
  ht_logLevel :: string
  ht_readyCheckTimeoutMs :: int
  ht_bodyLimitBytes :: int
  ht_requestTimeoutMs :: int
  ht_connectionTimeoutMs :: int
  ht_keepAliveTimeoutMs :: int

record stream_config =
  sf_streamMaxConnections :: int
  sf_streamMaxConnectionsPerIp :: int
  sf_streamIdleTimeoutMs :: int
  sf_streamRetryAfterSeconds :: int

record db_config =
  dc_connectionString :: "string option"
  dc_nonceStore :: nonce_store_kind
  dc_nonceTtlMs :: int
  dc_nonceMaxEntries :: int
  dc_nonceSweepIntervalMs :: int
  dc_poolMax :: int
  dc_connectionTimeoutMs :: int
  dc_statementTimeoutMs :: int
  dc_idleTimeoutMs :: int
  dc_applicationName :: string

record stellar_config =
  st_contractId :: string
  st_contractIds :: "string list"
  st_rpcUrl :: string
  st_rpcHeaders :: "(string, string) tbl"
  st_networkPassphrase :: string
  st_ledgerCloseTimeSeconds :: int

record index_config =
  xc_startLedger :: int
  xc_startLookbackLedgers :: int
  xc_pollIntervalMs :: int
  xc_pageLimit :: int
  xc_maxBackoffMs :: int
  xc_maxDrainPages :: int
  xc_maxDrainMs :: int
  xc_staleAfterMs :: int
  xc_quarantineAfterFailures :: int
  xc_resetOnContractChange :: bool

record config =
  cf_http :: http_config
  cf_stream :: stream_config \<comment> \<open>the \<open>stream*\<close> settings of \<open>http\<close>\<close>
  cf_db :: db_config
  cf_stellar :: stellar_config
  cf_indexer :: index_config
  cf_redisUrl :: "string option"
  cf_historyRedisUrl :: "string option"
  cf_memberCacheTtlSeconds :: int
  cf_maintenanceIntervalMs :: int
  cf_otelEnabled :: bool
  cf_otelEndpoint :: string
  cf_otelServiceName :: string

definition non_empty :: "string \<Rightarrow> string option" where
  "non_empty s = (if s = [] then None else Some s)"

definition resolve_http :: "process_env \<Rightarrow> http_config" where
  "resolve_http env =
     \<lparr>ht_port = cfg_int env ''PORT'' 4000, ht_host = cfg_str env ''HOST'' ''0.0.0.0'',
      ht_corsOrigin = parseCorsOrigin (map_of env ''CORS_ORIGIN''),
      ht_rateLimitMax = cfg_int env ''RATE_LIMIT_MAX'' 100,
      ht_rateLimitWindowMs = cfg_int env ''RATE_LIMIT_WINDOW_MS'' 60000,
      ht_rateLimitEventsMax = cfg_int env ''RATE_LIMIT_EVENTS_MAX'' 30,
      ht_trustProxy = cfg_str env ''TRUST_PROXY'' ''false'',
      ht_statsCacheMs = cfg_int env ''STATS_CACHE_MS'' 5000,
      ht_statsMaxConcurrent = cfg_int env ''STATS_MAX_CONCURRENT'' 1,
      ht_statsRetryAfterSeconds = cfg_int env ''STATS_RETRY_AFTER_SECONDS'' 1,
      ht_logLevel = logLevel env ''LOG_LEVEL'' ''info'',
      ht_readyCheckTimeoutMs = cfg_int env ''READY_CHECK_TIMEOUT_MS'' 3000,
      ht_bodyLimitBytes = cfg_int env ''HTTP_BODY_LIMIT_BYTES'' (16 * 1024),
      ht_requestTimeoutMs = cfg_int env ''HTTP_REQUEST_TIMEOUT_MS'' 30000,
      ht_connectionTimeoutMs = cfg_int env ''HTTP_CONNECTION_TIMEOUT_MS'' 60000,
      ht_keepAliveTimeoutMs = cfg_int env ''HTTP_KEEP_ALIVE_TIMEOUT_MS'' 72000\<rparr>"

definition resolve_stream :: "process_env \<Rightarrow> stream_config" where
  "resolve_stream env =
     \<lparr>sf_streamMaxConnections = cfg_int env ''STREAM_MAX_CONNECTIONS'' 100,
      sf_streamMaxConnectionsPerIp = cfg_int env ''STREAM_MAX_CONNECTIONS_PER_IP'' 10,
      sf_streamIdleTimeoutMs = cfg_int env ''STREAM_IDLE_TIMEOUT_MS'' 60000,
      sf_streamRetryAfterSeconds = cfg_int env ''STREAM_RETRY_AFTER_SECONDS'' 30\<rparr>"

definition resolve_db :: "process_env \<Rightarrow> db_config" where
  "resolve_db env =
     \<lparr>dc_connectionString = non_empty (cfg_str env ''DATABASE_URL'' []),
      dc_nonceStore = nonceStore env ''NONCE_STORE'' Postgres_store,
      dc_nonceTtlMs = cfg_int env ''NONCE_TTL_MS'' (5 * 60 * 1000),
      dc_nonceMaxEntries = cfg_int env ''NONCE_MAX_ENTRIES'' 10000,
      dc_nonceSweepIntervalMs = cfg_int env ''NONCE_SWEEP_INTERVAL_MS'' (60 * 1000),
      dc_poolMax = cfg_int env ''DB_POOL_MAX'' 10,
      dc_connectionTimeoutMs = cfg_int env ''DB_CONNECTION_TIMEOUT_MS'' 5000,
      dc_statementTimeoutMs = cfg_int env ''DB_STATEMENT_TIMEOUT_MS'' 10000,
      dc_idleTimeoutMs = cfg_int env ''DB_IDLE_TIMEOUT_MS'' 30000,
      dc_applicationName =
        (let name = cfg_str env ''DB_APPLICATION_NAME'' [] in
         if name = [] then ''ourdao-'' @ cfg_str env ''OURDAO_PROCESS_ROLE'' ''api'' else name)\<rparr>"

definition resolve_stellar :: "process_env \<Rightarrow> stellar_config" where
  "resolve_stellar env =
     \<lparr>st_contractId = cfg_str env ''CONTRACT_ID'' [],
      st_contractIds = non_blank_parts (cfg_str env ''CONTRACT_IDS'' []),
      st_rpcUrl = cfg_str env ''SOROBAN_RPC_URL'' ''https://soroban-testnet.stellar.org'',
      st_rpcHeaders = parseStellarRpcHeaders (map_of env ''STELLAR_RPC_HEADERS''),
      st_networkPassphrase = cfg_str env ''NETWORK_PASSPHRASE'' ''Test SDF Network ; September 2015'',
      st_ledgerCloseTimeSeconds = cfg_int env ''STELLAR_LEDGER_CLOSE_TIME_SECONDS'' 5\<rparr>"

definition resolve_indexer :: "process_env \<Rightarrow> index_config" where
  "resolve_indexer env =
     \<lparr>xc_startLedger = cfg_int env ''START_LEDGER'' 0,
      xc_startLookbackLedgers = cfg_int env ''START_LOOKBACK_LEDGERS'' 17280,
      xc_pollIntervalMs = cfg_int env ''POLL_INTERVAL_MS'' 5000,
      xc_pageLimit = cfg_int env ''EVENTS_PAGE_LIMIT'' 100,
      xc_maxBackoffMs = cfg_int env ''POLL_MAX_BACKOFF_MS'' 60000,
      xc_maxDrainPages = cfg_int env ''DRAIN_MAX_PAGES'' 20,
      xc_maxDrainMs = cfg_int env ''DRAIN_MAX_MS'' 30000,
      xc_staleAfterMs = cfg_int env ''INDEXER_STALE_AFTER_MS'' 120000,
      xc_quarantineAfterFailures = cfg_int env ''INDEXER_QUARANTINE_AFTER_FAILURES'' 3,
      xc_resetOnContractChange = cfg_bool env ''INDEXER_RESET_ON_CONTRACT_CHANGE'' False\<rparr>"

definition resolveConfig :: "process_env \<Rightarrow> config" where
  "resolveConfig env =
     \<lparr>cf_http = resolve_http env, cf_stream = resolve_stream env, cf_db = resolve_db env,
      cf_stellar = resolve_stellar env, cf_indexer = resolve_indexer env,
      cf_redisUrl = non_empty (cfg_str env ''REDIS_URL'' []),
      cf_historyRedisUrl = non_empty (cfg_str env ''REDIS_URL'' []),
      cf_memberCacheTtlSeconds = cfg_int env ''MEMBER_CACHE_TTL_SECONDS'' 30,
      cf_maintenanceIntervalMs = cfg_int env ''MAINTENANCE_INTERVAL_MS'' (7 * 24 * 60 * 60 * 1000),
      cf_otelEnabled = cfg_bool env ''OTEL_ENABLED'' False,
      cf_otelEndpoint = cfg_str env ''OTEL_EXPORTER_OTLP_ENDPOINT'' ''http://localhost:4318/v1/traces'',
      cf_otelServiceName = cfg_str env ''OTEL_SERVICE_NAME'' ''ourdao-backend''\<rparr>"

section \<open>The contracts to tail\<close>

definition assertContractConfigured :: "config \<Rightarrow> exn + string" where
  "assertContractConfigured cfg =
     (if st_contractId (cf_stellar cfg) = []
      then Inl (PlainError ''CONTRACT_ID is not set. The indexer needs the deployed OurDAO contract id to poll events.'')
      else Inr (st_contractId (cf_stellar cfg)))"

fun duplicates :: "string list \<Rightarrow> string list \<Rightarrow> string list \<Rightarrow> string list" where
  "duplicates seen dupes [] = dupes"
| "duplicates seen dupes (c # cs) =
     duplicates (if c \<in> set seen then seen else seen @ [c])
       (if c \<in> set seen \<and> c \<notin> set dupes then dupes @ [c] else dupes) cs"

definition assertContractsConfigured :: "config \<Rightarrow> exn + string list" where
  "assertContractsConfigured cfg =
     (let ids = st_contractIds (cf_stellar cfg); dupes = duplicates [] [] ids in
      if ids \<noteq> [] then
        if dupes \<noteq> [] then Inl (PlainError (''CONTRACT_IDS lists the same contract id more than once: '' @ js_join '', '' dupes))
        else Inr ids
      else bindE (assertContractConfigured cfg) (\<lambda>c. Inr [c]))"

section \<open>Facts\<close>

lemma duplicates_keep: "set dupes \<subseteq> set (duplicates seen dupes cs)"
  by (induction seen dupes cs rule: duplicates.induct) (auto split: if_splits)

lemma duplicates_none:
  "duplicates seen [] cs = [] \<longleftrightarrow> distinct cs \<and> set seen \<inter> set cs = {}"
proof (induction cs arbitrary: seen)
  case (Cons c cs)
  show ?case
  proof (cases "c \<in> set seen")
    case True
    then have "c \<in> set (duplicates seen [c] cs)" using duplicates_keep [of "[c]" seen cs] by simp
    with True show ?thesis by auto
  next
    case False
    then show ?thesis using Cons.IH [of "seen @ [c]"] by auto
  qed
qed simp

lemma non_blank_parts_ok: "p \<in> set (non_blank_parts s) \<Longrightarrow> p \<noteq> []"
  by (simp add: non_blank_parts_def)

lemma assertContractsConfigured_ok:
  "assertContractsConfigured cfg = Inr cs \<longleftrightarrow>
     (if st_contractIds (cf_stellar cfg) \<noteq> []
      then cs = st_contractIds (cf_stellar cfg) \<and> distinct cs
      else cs = [st_contractId (cf_stellar cfg)] \<and> st_contractId (cf_stellar cfg) \<noteq> [])"
  using duplicates_none [of "[]" "st_contractIds (cf_stellar cfg)"]
  by (auto simp: assertContractsConfigured_def assertContractConfigured_def Let_def)

lemma cfg_int_fallback: "map_of env name \<in> {None, Some []} \<Longrightarrow> cfg_int env name d = d"
  by (auto simp: cfg_int_def)

lemma cfg_int_reads:
  assumes "map_of env name = Some (show_int i)" and "str_Number (show_int i) = NInt i" and "js_trim (show_int i) = show_int i"
    and "show_int i \<noteq> []"
  shows "cfg_int env name d = i"
  using assms by (simp add: cfg_int_def integer_of_def isFinite_def isInteger_def)

text \<open>
  The contracts the indexer tails are a non-empty list of distinct, non-blank ids; it refuses to
  start exactly when \<open>CONTRACT_IDS\<close> repeats an id or neither variable names one.
\<close>

lemma indexed_contracts_are_well_formed:
  "case assertContractsConfigured (resolveConfig env) of
     Inr cs \<Rightarrow> cs \<noteq> [] \<and> distinct cs \<and> [] \<notin> set cs
   | Inl _ \<Rightarrow> (let listed = non_blank_parts (cfg_str env ''CONTRACT_IDS'' []) in
       if listed = [] then cfg_str env ''CONTRACT_ID'' [] = [] else \<not> distinct listed)"
proof -
  let ?cfg = "resolveConfig env"
  have ids: "st_contractIds (cf_stellar ?cfg) = non_blank_parts (cfg_str env ''CONTRACT_IDS'' [])"
    "st_contractId (cf_stellar ?cfg) = cfg_str env ''CONTRACT_ID'' []"
    by (simp_all add: resolveConfig_def resolve_stellar_def)
  show ?thesis
  proof (cases "assertContractsConfigured ?cfg")
    case (Inl e)
    then have "\<nexists>cs. assertContractsConfigured ?cfg = Inr cs" by simp
    with Inl show ?thesis unfolding assertContractsConfigured_ok ids by (auto simp: Let_def split: if_splits)
  next
    case (Inr cs)
    with Inr show ?thesis using assertContractsConfigured_ok [of ?cfg cs] unfolding ids
      by (auto split: if_splits dest: non_blank_parts_ok)
  qed
qed

end
