(* ===== verification/Server.thy ===== *)
theory Server
  imports Http Auth Config Database
begin

text \<open>
  The parts of the HTTP server (\<open>src/src/api/server.ts\<close>, \<open>src/src/api/errors.ts\<close>) around the routes: the
  options of the server, CORS and rate limiting, the probes
  \<open>/health\<close>, \<open>/health/dependencies\<close> and \<open>/version\<close>, and the answer to a request that fails before it
  is dispatched. Names the module does not declare (\<open>rpcServer\<close>, \<open>metricsRegistry\<close>) throw when they
  are read.
\<close>

section \<open>Options\<close>

definition MAX_PARAM_LENGTH :: nat where
  "MAX_PARAM_LENGTH = 100"

record server_options =
  so_logLevel :: string
  so_trustProxy :: bool
  so_bodyLimit :: int
  so_requestTimeout :: int
  so_connectionTimeout :: int
  so_keepAliveTimeout :: int
  so_maxParamLength :: nat

definition server_options_of :: "http_config \<Rightarrow> server_options" where
  "server_options_of h =
     \<lparr>so_logLevel = ht_logLevel h, so_trustProxy = (ht_trustProxy h = ''true''), so_bodyLimit = ht_bodyLimitBytes h,
      so_requestTimeout = ht_requestTimeoutMs h, so_connectionTimeout = ht_connectionTimeoutMs h,
      so_keepAliveTimeout = ht_keepAliveTimeoutMs h, so_maxParamLength = MAX_PARAM_LENGTH\<rparr>"

text \<open>The \<open>origin\<close> option of the CORS plugin: any origin, or a list of exact ones.\<close>

datatype cors_option = Any_origin | Origins "string list"

definition cors_option_of :: "string \<Rightarrow> cors_option" where
  "cors_option_of origins = (if origins = ''*'' then Any_origin else Origins (map js_trim (js_split (CHR '','') origins)))"

fun cors_allows :: "cors_option \<Rightarrow> string \<Rightarrow> bool" where
  "cors_allows Any_origin o' = True"
| "cors_allows (Origins os) o' = (o' \<in> set os)"

text \<open>Error responses reflect exactly the origins the plugin was given.\<close>

lemma error_cors_agrees: "isAllowedCorsOrigin allowed origin = cors_allows (cors_option_of allowed) origin"
  by (auto simp: isAllowedCorsOrigin_def cors_option_of_def list_ex_iff)

section \<open>Rate limiting\<close>

definition rate_limit_key :: "string option \<Rightarrow> string option \<Rightarrow> string" where
  "rate_limit_key ip remoteAddress =
     (case ip of Some i \<Rightarrow> i | None \<Rightarrow> (case remoteAddress of Some r \<Rightarrow> r | None \<Rightarrow> ''unknown''))"

definition rate_limit_allowList :: "string \<Rightarrow> bool" where
  "rate_limit_allowList url = (url \<in> {''/health'', ''/ready'', ''/version'', ''/metrics''})"

section \<open>Probes\<close>

record health_body =
  hb_status :: string
  hb_contract :: "string option"
  hb_auth :: auth_stats

definition get_health :: "stellar_config \<Rightarrow> auth_stats \<Rightarrow> health_body" where
  "get_health st stats =
     \<lparr>hb_status = ''ok'', hb_contract = (if st_contractId st = [] then None else Some (st_contractId st)), hb_auth = stats\<rparr>"

text \<open>
  \<open>Promise.race([work, timeout(ms)])\<close>: \<open>work\<close> ends after some time with a result, or never. The
  result comes with the time waited.
\<close>

definition race :: "int \<Rightarrow> (int \<times> (exn + 'a)) option \<Rightarrow> (exn + 'a) \<times> int" where
  "race ms work =
     (case work of
        Some (t, r) \<Rightarrow> if t < ms then (r, t) else (Inl (PlainError ''timed out''), ms)
      | None \<Rightarrow> (Inl (PlainError ''timed out''), ms))"

datatype dependency_status = Dep_ok | Dep_degraded | Dep_error

record dependency =
  dp_status :: dependency_status
  dp_latencyMs :: int
  dp_error :: "string option"

definition report_dependency :: "('a \<Rightarrow> dependency_status) \<Rightarrow> (exn + 'a) \<times> int \<Rightarrow> dependency" where
  "report_dependency status rt =
     (case rt of
        (Inr v, t) \<Rightarrow> \<lparr>dp_status = status v, dp_latencyMs = t, dp_error = None\<rparr>
      | (Inl e, t) \<Rightarrow> \<lparr>dp_status = Dep_error, dp_latencyMs = t, dp_error = Some (error_message e)\<rparr>)"

definition undeclared :: "string \<Rightarrow> exn" where
  "undeclared name = PlainError (name @ '' is not defined'')"

text \<open>
  Both checks run side by side. Reading \<open>rpcServer\<close> throws before the race is set up, inside the
  \<open>try\<close>.
\<close>

definition get_health_dependencies :: "int \<Rightarrow> (int \<times> (exn + unit)) option \<Rightarrow> dependency \<times> dependency" where
  "get_health_dependencies ms select1 =
     (report_dependency (\<lambda>_. Dep_ok) (race ms select1),
      report_dependency (\<lambda>health. if health = ''healthy'' then Dep_ok else Dep_degraded) (Inl (undeclared ''rpcServer''), 0))"

text \<open>The probe answers within the limit, whatever the database does.\<close>

lemma race_bounded: "0 \<le> ms \<Longrightarrow> (\<And>t r. work = Some (t, r) \<Longrightarrow> 0 \<le> t) \<Longrightarrow> 0 \<le> snd (race ms work) \<and> snd (race ms work) \<le> ms"
  by (auto simp: race_def split: option.splits)

definition readPackageVersion :: "exn + jsval \<Rightarrow> jsval \<times> exn option" where
  "readPackageVersion pkg =
     (case pkg of
        Inl e \<Rightarrow> (JStr ''unknown'', Some e)
      | Inr (JObj kvs) \<Rightarrow> (case map_of kvs ''version'' of Some v \<Rightarrow> (v, None) | None \<Rightarrow> (JUndefined, None))
      | Inr v \<Rightarrow> if is_nullish v then (JStr ''unknown'', Some (JsTypeError ''Cannot read properties of null''))
                 else (JUndefined, None))"

definition get_version :: "jsval \<times> exn option \<Rightarrow> process_env \<Rightarrow> jsval \<times> string \<times> string" where
  "get_version pv env =
     (fst pv, (case map_of env ''SOURCE_COMMIT'' of Some c \<Rightarrow> c | None \<Rightarrow> ''unknown''),
      (case map_of env ''BUILD_DATE'' of Some d \<Rightarrow> d | None \<Rightarrow> ''unknown''))"

definition get_metrics :: "exn + string" where
  "get_metrics = Inl (undeclared ''metricsRegistry'')"

section \<open>Failures before a request exists\<close>

record client_socket =
  sk_destroyed :: bool
  sk_writable :: bool
  sk_written :: string

definition crlf :: string where
  "crlf = [CHR 0x0D, CHR 0x0A]"

text \<open>\<open>statusText\<close> is Node's table \<open>STATUS_CODES\<close>, \<open>uuid\<close> a fresh random id.\<close>

definition client_error_response :: "(int \<Rightarrow> string) \<Rightarrow> int \<Rightarrow> string \<Rightarrow> string" where
  "client_error_response statusText status uuid =
     (let body = json_text (envelope (statusText status) (codeForStatus status) uuid) in
      ''HTTP/1.1 '' @ show_int status @ '' '' @ statusText status @ crlf @
      ''Content-Length: '' @ show_nat (length body) @ crlf @
      ''Content-Type: application/json'' @ crlf @ ''Connection: close'' @ crlf @ crlf @ body)"

definition clientErrorHandler :: "(int \<Rightarrow> string) \<Rightarrow> string \<Rightarrow> string option \<Rightarrow> client_socket \<Rightarrow> client_socket" where
  "clientErrorHandler statusText uuid code sock =
     (if code = Some ''ECONNRESET'' \<or> sk_destroyed sock then sock
      else
        let s1 = (if sk_writable sock
                  then sock\<lparr>sk_written := sk_written sock @ client_error_response statusText (client_error_status code) uuid\<rparr>
                  else sock)
        in s1\<lparr>sk_destroyed := True\<rparr>)"

text \<open>The socket is closed on every path but a reset, and a response carries the length of its body.\<close>

lemma clientErrorHandler_closes:
  "code \<noteq> Some ''ECONNRESET'' \<Longrightarrow> sk_destroyed (clientErrorHandler statusText uuid code sock)"
  by (simp add: clientErrorHandler_def Let_def)

lemma clientErrorHandler_once:
  "clientErrorHandler statusText uuid' code' (clientErrorHandler statusText uuid code sock) =
     clientErrorHandler statusText uuid code sock \<or> code = Some ''ECONNRESET''"
  by (simp add: clientErrorHandler_def Let_def)

end
