(* ===== verification/Regexp.thy ===== *)
theory Regexp
  imports Prelude
begin

text \<open>
  The regular expressions of ECMAScript the program uses, as a backtracking matcher in the form
  of a list of successes: the first element is the match the engine finds, the later ones are
  those it would try next. Captures are kept by group number. A declarative relation says which
  matches exist, and the matcher finds exactly those (\<open>rx_match_complete\<close>).
\<close>

section \<open>Expressions\<close>

datatype rx =
    REmpty
  | RSet "char \<Rightarrow> bool"
  | RSeq rx rx
  | RAlt rx rx
  | RStar rx
  | RGroup nat rx
  | RBound
  | RBol
  | REol
  | RNotAhead rx

text \<open>A position: the character before it, the text after it and the captures so far.\<close>

datatype rx_pos = Pos (rx_prev: "char option") (rx_rest: string) (rx_caps: "(nat \<times> string) list")

definition is_word_char :: "char \<Rightarrow> bool" where
  "is_word_char c = (let n = of_char c :: nat in
     is_digit c \<or> (65 \<le> n \<and> n \<le> 90) \<or> (97 \<le> n \<and> n \<le> 122) \<or> n = 95)"

definition word_at :: "char option \<Rightarrow> bool" where
  "word_at c = (case c of None \<Rightarrow> False | Some x \<Rightarrow> is_word_char x)"

definition next_char :: "string \<Rightarrow> char option" where
  "next_char s = (case s of [] \<Rightarrow> None | c # _ \<Rightarrow> Some c)"

definition at_bound :: "rx_pos \<Rightarrow> bool" where
  "at_bound st = (word_at (rx_prev st) \<noteq> word_at (next_char (rx_rest st)))"

section \<open>Matching\<close>

text \<open>The greedy star: an iteration that consumes nothing is not taken.\<close>

definition rx_progress :: "rx_pos \<Rightarrow> rx_pos \<Rightarrow> bool" where
  "rx_progress st st' = (length (rx_rest st') < length (rx_rest st))"

primrec rx_iter :: "(rx_pos \<Rightarrow> rx_pos list) \<Rightarrow> nat \<Rightarrow> rx_pos \<Rightarrow> rx_pos list" where
  "rx_iter f 0 st = [st]"
| "rx_iter f (Suc n) st = concat (map (rx_iter f n) (filter (rx_progress st) (f st))) @ [st]"

definition capture :: "nat \<Rightarrow> string \<Rightarrow> rx_pos \<Rightarrow> rx_pos" where
  "capture n s st = Pos (rx_prev st) (rx_rest st) ((n, take (length s - length (rx_rest st)) s) # rx_caps st)"

primrec rx_match :: "rx \<Rightarrow> rx_pos \<Rightarrow> rx_pos list" where
  "rx_match REmpty st = [st]"
| "rx_match (RSet P) st =
     (case rx_rest st of [] \<Rightarrow> [] | c # r \<Rightarrow> if P c then [Pos (Some c) r (rx_caps st)] else [])"
| "rx_match (RSeq a b) st = concat (map (rx_match b) (rx_match a st))"
| "rx_match (RAlt a b) st = rx_match a st @ rx_match b st"
| "rx_match (RStar a) st = rx_iter (rx_match a) (length (rx_rest st)) st"
| "rx_match (RGroup n a) st = map (capture n (rx_rest st)) (rx_match a st)"
| "rx_match RBound st = (if at_bound st then [st] else [])"
| "rx_match RBol st = (if rx_prev st = None then [st] else [])"
| "rx_match REol st = (if rx_rest st = [] then [st] else [])"
| "rx_match (RNotAhead a) st = (if rx_match a st = [] then [st] else [])"

text \<open>\<open>exec\<close>: the leftmost position with a match, as the text skipped, the captures and the rest.\<close>

fun rx_search :: "rx \<Rightarrow> char option \<Rightarrow> string \<Rightarrow> (string \<times> (nat \<times> string) list \<times> string) option" where
  "rx_search r p s =
     (case rx_match r (Pos p s []) of
        st # _ \<Rightarrow> Some ([], rx_caps st, rx_rest st)
      | [] \<Rightarrow> (case s of
                 [] \<Rightarrow> None
               | c # s' \<Rightarrow> map_option (apfst ((#) c)) (rx_search r (Some c) s')))"

declare rx_search.simps [simp del]

definition rx_exec :: "rx \<Rightarrow> string \<Rightarrow> (nat \<times> string) list option" where
  "rx_exec r s = map_option (\<lambda>(_, g, _). g) (rx_search r None s)"

definition rx_test :: "rx \<Rightarrow> string \<Rightarrow> bool" where
  "rx_test r s = (rx_search r None s \<noteq> None)"

section \<open>Derived forms\<close>

fun rseq :: "rx list \<Rightarrow> rx" where
  "rseq [] = REmpty"
| "rseq [r] = r"
| "rseq (r # rs) = RSeq r (rseq rs)"

definition RPlus :: "rx \<Rightarrow> rx" where
  "RPlus r = RSeq r (RStar r)"

definition ROpt :: "rx \<Rightarrow> rx" where
  "ROpt r = RAlt r REmpty"

definition RLit :: "string \<Rightarrow> rx" where
  "RLit s = rseq (map (\<lambda>c. RSet (\<lambda>x. x = c)) s)"

text \<open>A literal under the flag \<open>i\<close>; lower case on the bits of a character, for evaluation.\<close>

lemma to_lower_char_bits [code]:
  "to_lower_char (Char b0 b1 b2 b3 b4 b5 b6 b7) =
     (let c = Char b0 b1 b2 b3 b4 b5 b6 b7; n = of_char c :: nat in
      if 65 \<le> n \<and> n \<le> 90 then Char b0 b1 b2 b3 b4 True b6 b7 else c)"
proof -
  let ?c = "Char b0 b1 b2 b3 b4 b5 b6 b7" and ?d = "Char b0 b1 b2 b3 b4 True b6 b7"
  have "(of_char ?c :: nat) + 32 = of_char ?d" if "65 \<le> (of_char ?c :: nat)" "(of_char ?c :: nat) \<le> 90"
    using that by (cases b5; cases b6; cases b7) (simp_all add: of_bool_def split: if_splits)
  then have "char_of ((of_char ?c :: nat) + 32) = ?d" if "65 \<le> (of_char ?c :: nat)" "(of_char ?c :: nat) \<le> 90"
    using that by (simp only: char_of_char)
  then show ?thesis by (simp only: to_lower_char_def Let_def simp_thms if_True if_False split: if_split) simp
qed

definition RLit_i :: "string \<Rightarrow> rx" where
  "RLit_i s = rseq (map (\<lambda>c. RSet (\<lambda>x. to_lower_char x = to_lower_char c)) s)"

section \<open>Declarative matching\<close>

primrec rx_rel :: "rx \<Rightarrow> rx_pos \<Rightarrow> rx_pos \<Rightarrow> bool" where
  "rx_rel REmpty = (=)"
| "rx_rel (RSet P) = (\<lambda>st st'. \<exists>c r. rx_rest st = c # r \<and> P c \<and> st' = Pos (Some c) r (rx_caps st))"
| "rx_rel (RSeq a b) = rx_rel a OO rx_rel b"
| "rx_rel (RAlt a b) = (\<lambda>st st'. rx_rel a st st' \<or> rx_rel b st st')"
| "rx_rel (RStar a) = (\<lambda>st st'. rx_rel a st st' \<and> rx_progress st st')\<^sup>*\<^sup>*"
| "rx_rel (RGroup n a) = (\<lambda>st st'. \<exists>x. rx_rel a st x \<and> st' = capture n (rx_rest st) x)"
| "rx_rel RBound = (\<lambda>st st'. st' = st \<and> at_bound st)"
| "rx_rel RBol = (\<lambda>st st'. st' = st \<and> rx_prev st = None)"
| "rx_rel REol = (\<lambda>st st'. st' = st \<and> rx_rest st = [])"
| "rx_rel (RNotAhead a) = (\<lambda>st st'. st' = st \<and> (\<forall>x. \<not> rx_rel a st x))"

lemma set_rx_iter:
  assumes "length (rx_rest st) \<le> n"
  shows "set (rx_iter f n st) = {st'. (\<lambda>x y. y \<in> set (f x) \<and> rx_progress x y)\<^sup>*\<^sup>* st st'}"
  using assms
proof (induction n arbitrary: st)
  case 0
  then have "\<not> rx_progress st y" for y by (simp add: rx_progress_def)
  then show ?case by (auto elim: converse_rtranclpE)
next
  case (Suc n)
  have IH: "set (rx_iter f n y) = {st'. (\<lambda>x y. y \<in> set (f x) \<and> rx_progress x y)\<^sup>*\<^sup>* y st'}"
    if "rx_progress st y" for y
    using Suc.IH [of y] that Suc.prems by (simp add: rx_progress_def)
  show ?case
    by (auto simp: IH elim: converse_rtranclpE intro: converse_rtranclp_into_rtranclp)
qed

theorem rx_match_complete: "st' \<in> set (rx_match r st) \<longleftrightarrow> rx_rel r st st'"
proof (induction r arbitrary: st st')
  case (RStar r)
  show ?case by (simp add: set_rx_iter RStar.IH)
next
  case (RNotAhead r)
  have "rx_match r st = [] \<longleftrightarrow> (\<forall>x. \<not> rx_rel r st x)" using RNotAhead.IH [of _ st] by (metis list.set_intros(1) list.exhaust empty_iff list.set(1))
  then show ?case by auto
qed (auto simp: relcompp_apply split: list.splits)

section \<open>Rules for concrete expressions\<close>

text \<open>The text a match consumes is a prefix of what was there.\<close>

lemma rx_rel_suffix: "rx_rel r st st' \<Longrightarrow> \<exists>w. rx_rest st = w @ rx_rest st'"
proof (induction r arbitrary: st st')
  case (RSeq a b)
  from RSeq.prems obtain x where "rx_rel a st x" "rx_rel b x st'" by (auto simp: relcompp_apply)
  with RSeq.IH(1) [of st x] RSeq.IH(2) [of x st'] show ?case by (metis append.assoc)
next
  case (RStar r)
  from RStar.prems have "(\<lambda>x y. rx_rel r x y \<and> rx_progress x y)\<^sup>*\<^sup>* st st'" by simp
  then show ?case
    by (induction rule: rtranclp_induct) (auto dest!: RStar.IH)
qed (auto simp: capture_def)

lemma rx_rel_setI: "P c \<Longrightarrow> rx_rel (RSet P) (Pos p (c # r) g) (Pos (Some c) r g)"
  by simp

lemma rx_rel_seqI: "rx_rel a st x \<Longrightarrow> rx_rel b x y \<Longrightarrow> rx_rel (RSeq a b) st y"
  by (auto simp: relcompp_apply)

lemma rx_rel_rseqI: "rx_rel r st x \<Longrightarrow> rx_rel (rseq rs) x y \<Longrightarrow> rx_rel (rseq (r # rs)) st y"
  by (cases rs) (auto simp: relcompp_apply)

lemma rx_rel_rseq_NilI: "rx_rel (rseq []) st st"
  by simp

lemma rx_rel_rseq_Cons: "rx_rel (rseq (r # rs)) = rx_rel r OO rx_rel (rseq rs)"
  by (cases rs) (auto simp: fun_eq_iff)

lemma rx_rel_litD:
  "rx_rel (RLit w) st st' \<Longrightarrow> rx_rest st = w @ rx_rest st' \<and> rx_caps st' = rx_caps st"
proof (induction w arbitrary: st)
  case (Cons c w)
  from Cons.prems obtain x where "rx_rel (RSet (\<lambda>y. y = c)) st x" "rx_rel (RLit w) x st'"
    by (auto simp: RLit_def rx_rel_rseq_Cons simp del: rseq.simps rx_rel.simps)
  with Cons.IH [of x] show ?case by auto
qed (simp add: RLit_def)

lemma rx_rel_plus_set_caps: "rx_rel (RPlus (RSet P)) st st' \<Longrightarrow> rx_caps st' = rx_caps st"
proof -
  have star: "rx_rel (RStar (RSet P)) x y \<Longrightarrow> rx_caps y = rx_caps x" for x y
    by (simp, induction rule: rtranclp_induct) auto
  assume "rx_rel (RPlus (RSet P)) st st'"
  then show ?thesis by (auto simp: RPlus_def relcompp_apply simp del: rx_rel.simps(5) dest!: star)
qed

definition last_char :: "char option \<Rightarrow> string \<Rightarrow> char option" where
  "last_char p w = (if w = [] then p else Some (last w))"

lemma last_char_simps [simp]: "last_char p [] = p" "last_char p (c # w) = last_char (Some c) w"
  by (simp_all add: last_char_def)

lemma rx_rel_star_setI:
  "list_all P w \<Longrightarrow> rx_rel (RStar (RSet P)) (Pos p (w @ r) g) (Pos (last_char p w) r g)"
proof (induction w arbitrary: p)
  case Nil
  then show ?case by simp
next
  case (Cons c w)
  have "rx_rel (RSet P) (Pos p ((c # w) @ r) g) (Pos (Some c) (w @ r) g)" using Cons.prems by simp
  moreover have "rx_progress (Pos p ((c # w) @ r) g) (Pos (Some c) (w @ r) g)" by (simp add: rx_progress_def)
  moreover have "rx_rel (RStar (RSet P)) (Pos (Some c) (w @ r) g) (Pos (last_char (Some c) w) r g)"
    using Cons by simp
  ultimately show ?case
    by (simp add: converse_rtranclp_into_rtranclp del: rx_rel.simps(2))
qed

lemma rx_rel_plus_setI:
  assumes "w \<noteq> []" and "list_all P w"
  shows "rx_rel (RPlus (RSet P)) (Pos p (w @ r) g) (Pos (last_char p w) r g)"
proof -
  obtain c v where w: "w = c # v" using assms(1) by (cases w) auto
  show ?thesis
    unfolding RPlus_def w
    by (rule rx_rel_seqI [where x = "Pos (Some c) (v @ r) g"])
      (use assms w rx_rel_star_setI [of P v "Some c" r g] in simp_all)
qed

lemma rx_rel_litI: "rx_rel (RLit w) (Pos p (w @ r) g) (Pos (last_char p w) r g)"
proof (induction w arbitrary: p)
  case (Cons c w)
  then show ?case
    unfolding RLit_def list.map by (intro rx_rel_rseqI [where x = "Pos (Some c) (w @ r) g"]) (simp_all add: RLit_def)
qed (simp add: RLit_def)

lemma rx_rel_lit_iI:
  "js_toLowerCase w = js_toLowerCase v \<Longrightarrow> rx_rel (RLit_i v) (Pos p (w @ r) g) (Pos (last_char p w) r g)"
proof (induction w arbitrary: v p)
  case Nil
  then show ?case by (simp add: RLit_i_def js_toLowerCase_def)
next
  case (Cons c w)
  then obtain d u where v: "v = d # u" and c: "to_lower_char c = to_lower_char d"
    and u: "js_toLowerCase w = js_toLowerCase u"
    by (auto simp: js_toLowerCase_def Cons_eq_map_conv)
  show ?case
    unfolding RLit_i_def v list.map
    by (rule rx_rel_rseqI [where x = "Pos (Some c) (w @ r) g"])
      (use Cons.IH [OF u, of "Some c"] c in \<open>simp_all add: RLit_i_def\<close>)
qed

lemma all_splits_Cons:
  "(\<forall>u v. c # s = u @ v \<longrightarrow> Q u v) \<longleftrightarrow> Q [] (c # s) \<and> (\<forall>u v. s = u @ v \<longrightarrow> Q (c # u) v)"
  by (auto simp: Cons_eq_append_conv)

lemma rx_search_None:
  "rx_search r p s = None \<longleftrightarrow>
     (\<forall>u v st. s = u @ v \<longrightarrow> \<not> rx_rel r (Pos (last_char p u) v []) st)"
proof (induction s arbitrary: p)
  case Nil
  show ?case
    by (subst rx_search.simps) (auto split: list.splits simp flip: rx_match_complete)
next
  case (Cons c s)
  have "rx_search r p (c # s) = None \<longleftrightarrow>
      (\<forall>st. \<not> rx_rel r (Pos p (c # s) []) st) \<and> rx_search r (Some c) s = None"
    by (subst rx_search.simps) (auto split: list.splits simp flip: rx_match_complete)
  moreover have "(\<forall>u v st. c # s = u @ v \<longrightarrow> \<not> rx_rel r (Pos (last_char p u) v []) st) \<longleftrightarrow>
      (\<forall>st. \<not> rx_rel r (Pos p (c # s) []) st) \<and>
      (\<forall>u v st. s = u @ v \<longrightarrow> \<not> rx_rel r (Pos (last_char (Some c) u) v []) st)"
    using all_splits_Cons [of c s "\<lambda>u v. \<forall>st. \<not> rx_rel r (Pos (last_char p u) v []) st"] by simp
  ultimately show ?case using Cons.IH by simp
qed

text \<open>An expression finds a text when some position of it has a match, and only then.\<close>

theorem rx_test_iff:
  "rx_test r s \<longleftrightarrow> (\<exists>u v st. s = u @ v \<and> rx_rel r (Pos (last_char None u) v []) st)"
  by (auto simp: rx_test_def rx_search_None)

text \<open>An anchored expression is tried at the start only, and its first match is one of its matches.\<close>

lemma rx_exec_at_start:
  assumes "rx_rel r (Pos None s []) st"
  obtains st' where "rx_exec r s = Some (rx_caps st')" and "rx_rel r (Pos None s []) st'"
proof -
  from assms have "st \<in> set (rx_match r (Pos None s []))" by (simp add: rx_match_complete)
  then obtain st' xs where m: "rx_match r (Pos None s []) = st' # xs" by (cases "rx_match r (Pos None s [])") auto
  then have "st' \<in> set (rx_match r (Pos None s []))" by simp
  then have "rx_rel r (Pos None s []) st'" by (simp add: rx_match_complete)
  moreover have "rx_exec r s = Some (rx_caps st')" using m by (simp add: rx_exec_def rx_search.simps)
  ultimately show ?thesis using that by blast
qed

lemma rx_testI: "rx_rel r (Pos (last_char None u) v []) st \<Longrightarrow> rx_test r (u @ v)"
  by (auto simp: rx_test_iff)

end
