(* ===== verification/Migration_Policy.thy ===== *)
theory Migration_Policy
  imports Regexp
begin

text \<open>
  The reversibility policy of migration files (\<open>src/src/db/migration-policy.ts\<close>): the annotation
  on the first line, the statement shapes that need the annotation \<open>breaking\<close>, and the check of
  one file. The main result says that a phrase such as \<open>DROP TABLE\<close>, in any letter case and
  spacing and outside line comments, is refused unless the file is annotated; a second one shows a
  statement with a mandatory column that the last pattern does not see.
\<close>

named_theorems policy_defs \<open>the patterns of the migration policy\<close>

section \<open>The annotation\<close>

datatype MigrationCompat = Backward_compatible | Breaking string

definition newline :: char where
  "newline = CHR 0x0A"

text \<open>The class \<open>.\<close>, without its two non-ASCII line separators.\<close>

definition is_dot :: "char \<Rightarrow> bool" where
  "is_dot c = (c \<noteq> newline \<and> c \<noteq> CHR 0x0D)"

definition breaking_rx :: rx where
  "breaking_rx = rseq [RBol, RLit ''-- compat: breaking ('', RGroup 1 (RPlus (RSet is_dot)), RLit '')'', REol]"

definition parseCompat :: "string \<Rightarrow> MigrationCompat option" where
  "parseCompat sql =
     (let first = js_trim (hd (js_split newline sql)) in
      if first = ''-- compat: backward-compatible'' then Some Backward_compatible
      else case rx_exec breaking_rx first of
             None \<Rightarrow> None
           | Some g \<Rightarrow> map_option Breaking (map_of g 1))"

section \<open>Statement shapes\<close>

definition ws_rx :: rx where
  "ws_rx = RPlus (RSet is_ws)"

definition not_semicolon :: rx where
  "not_semicolon = RStar (RSet (\<lambda>c. c \<noteq> CHR '';''))"

definition drop_rx :: rx where
  "drop_rx = rseq [RBound, RLit_i ''DROP'', ws_rx, RGroup 1 (RAlt (RLit_i ''COLUMN'') (RLit_i ''TABLE'')), RBound]"

definition rename_rx :: rx where
  "rename_rx = rseq [RBound, RLit_i ''RENAME'', RBound]"

definition alter_type_rx :: rx where
  "alter_type_rx = rseq [RBound, RLit_i ''ALTER'', ws_rx, RLit_i ''COLUMN'', ws_rx, RPlus (RSet is_word_char), ws_rx,
     ROpt (RGroup 1 (rseq [RLit_i ''SET'', ws_rx, RLit_i ''DATA'', ws_rx])), RLit_i ''TYPE'', RBound]"

definition set_not_null_rx :: rx where
  "set_not_null_rx = rseq [RBound, RLit_i ''SET'', ws_rx, RLit_i ''NOT'', ws_rx, RLit_i ''NULL'', RBound]"

definition add_constraint_rx :: rx where
  "add_constraint_rx = rseq [RBound, RLit_i ''ADD'', ws_rx, RLit_i ''CONSTRAINT'', RBound]"

definition add_not_null_rx :: rx where
  "add_not_null_rx = rseq [RBound, RLit_i ''ADD'', ws_rx, RLit_i ''COLUMN'', RBound, not_semicolon,
     RBound, RLit_i ''NOT'', ws_rx, RLit_i ''NULL'', RBound,
     RNotAhead (rseq [not_semicolon, RBound, RLit_i ''DEFAULT'', RBound])]"

lemmas [policy_defs] = ws_rx_def drop_rx_def rename_rx_def alter_type_rx_def set_not_null_rx_def add_constraint_rx_def

definition BREAKING_PATTERNS :: "(rx \<times> string) list" where
  "BREAKING_PATTERNS =
     [(drop_rx, ''drops a column or table''),
      (rename_rx, ''renames a column, table or constraint''),
      (alter_type_rx, ''changes a column type''),
      (set_not_null_rx, ''adds NOT NULL to an existing column''),
      (add_constraint_rx, ''adds a constraint to an existing table''),
      (add_not_null_rx, ''adds a NOT NULL column without a default'')]"

lemma dropWhile_tl_shorter [termination_simp]: "length (dropWhile P (tl s)) < Suc (length s)"
  by (metis diff_Suc_1 diff_le_self le_trans length_dropWhile_le length_tl less_Suc_eq_le)

text \<open>\<open>sql.replace(/--[^\n]*/g, '')\<close>: each line comment goes, its line break stays.\<close>

fun stripComments :: "string \<Rightarrow> string" where
  "stripComments [] = []"
| "stripComments (c # s) =
     (if c = CHR ''-'' \<and> s \<noteq> [] \<and> hd s = CHR ''-'' then stripComments (dropWhile (\<lambda>x. x \<noteq> newline) (tl s))
      else c # stripComments s)"

definition breakingReasons :: "string \<Rightarrow> string list" where
  "breakingReasons sql =
     (let body = stripComments sql in map snd (filter (\<lambda>(re, _). rx_test re body) BREAKING_PATTERNS))"

definition checkMigration :: "string \<Rightarrow> string \<Rightarrow> string list" where
  "checkMigration name sql =
     (case parseCompat sql of
        None \<Rightarrow> [name @ '': first line must be '' @ dquote @ ''-- compat: backward-compatible'' @ dquote @
                 '' or '' @ dquote @ ''-- compat: breaking (<reason>)'' @ dquote]
      | Some cm \<Rightarrow>
          (let reasons = breakingReasons sql in
           if cm = Backward_compatible \<and> reasons \<noteq> [] then
             [name @ '': annotated backward-compatible but '' @ js_join ''; '' reasons @ '' '' @ em_dash @
              '' annotate it '' @ dquote @ ''breaking (...)'' @ dquote @ '' or split it (expand/contract)'']
           else []))"

section \<open>Phrases\<close>

text \<open>A text that spells out a list of words, in any letter case, with white space between.\<close>

inductive spells :: "string list \<Rightarrow> string \<Rightarrow> bool" where
  spells_one: "js_toLowerCase t = js_toLowerCase w \<Longrightarrow> spells [w] t"
| spells_more: "js_toLowerCase a = js_toLowerCase w \<Longrightarrow> b \<noteq> [] \<Longrightarrow> list_all is_ws b \<Longrightarrow> spells ws t \<Longrightarrow>
    spells (w # ws) (a @ b @ t)"

inductive_cases spells_NilE [elim!]: "spells [] t"
inductive_cases spells_oneE: "spells [w] t"
inductive_cases spells_moreE: "spells (w # v # ws) t"

fun words_rx :: "string list \<Rightarrow> rx list" where
  "words_rx [] = []"
| "words_rx [w] = [RLit_i w]"
| "words_rx (w # ws) = RLit_i w # ws_rx # words_rx ws"

lemma spells_nonempty: "spells ws t \<Longrightarrow> list_all (\<lambda>w. w \<noteq> []) ws \<Longrightarrow> t \<noteq> []"
  by (induction rule: spells.induct) (auto simp: js_toLowerCase_def)

lemma last_char_append: "last_char p (a @ b) = last_char (last_char p a) b"
  by (simp add: last_char_def)

lemma rx_rel_wordsI:
  "spells ws t \<Longrightarrow> rx_rel (rseq rs) (Pos (last_char p t) v g) st \<Longrightarrow>
   rx_rel (rseq (words_rx ws @ rs)) (Pos p (t @ v) g) st"
proof (induction arbitrary: p rule: spells.induct)
  case (spells_one t w)
  then show ?case by (auto intro: rx_rel_rseqI rx_rel_lit_iI)
next
  case (spells_more a w b ws t)
  from spells_more.hyps(4) obtain x xs where ws: "ws = x # xs" by (cases ws) (auto elim: spells.cases)
  have rest: "rx_rel (rseq (words_rx ws @ rs)) (Pos (last_char (last_char p a) b) (t @ v) g) st"
    using spells_more.IH [of "last_char (last_char p a) b"] spells_more.prems by (simp add: last_char_append)
  have "rx_rel (rseq (ws_rx # words_rx ws @ rs)) (Pos (last_char p a) (b @ t @ v) g) st"
    by (rule rx_rel_rseqI [OF _ rest], simp only: ws_rx_def) (rule rx_rel_plus_setI [OF spells_more.hyps(2,3)])
  from rx_rel_rseqI [OF rx_rel_lit_iI [OF spells_more.hyps(1)] this]
  show ?case by (simp add: ws)
qed

text \<open>The phrases of the policy that are plain sequences of words.\<close>

definition breaking_phrases :: "string list list" where
  "breaking_phrases = [[''DROP'', ''COLUMN''], [''DROP'', ''TABLE''], [''RENAME''], [''SET'', ''NOT'', ''NULL''], [''ADD'', ''CONSTRAINT'']]"

lemma is_word_char_lower: "is_word_char (to_lower_char c) \<longleftrightarrow> is_word_char c"
  by (auto simp: is_word_char_def to_lower_char_def is_digit_def Let_def)

lemma all_word_lower:
  assumes "js_toLowerCase t = js_toLowerCase w" and "list_all is_word_char w"
  shows "list_all is_word_char t"
proof -
  have "list_all is_word_char (js_toLowerCase t)"
    using assms by (simp add: js_toLowerCase_def list_all_iff is_word_char_lower)
  then show ?thesis by (simp add: js_toLowerCase_def list_all_iff is_word_char_lower)
qed

definition plain_words :: "string list \<Rightarrow> bool" where
  "plain_words ws = list_all (\<lambda>w. w \<noteq> [] \<and> list_all is_word_char w) ws"

lemma word_edges:
  assumes "js_toLowerCase t = js_toLowerCase w" and "w \<noteq> []" and "list_all is_word_char w"
  shows "word_at (next_char (t @ v))" and "word_at (last_char p t)"
proof -
  have "t \<noteq> []" using assms(1,2) by (auto simp: js_toLowerCase_def)
  with all_word_lower [OF assms(1,3)]
  show "word_at (next_char (t @ v))" "word_at (last_char p t)"
    by (cases t; simp add: list_all_iff word_at_def next_char_def last_char_def)+
qed

lemma spells_edges:
  "spells ws t \<Longrightarrow> plain_words ws \<Longrightarrow> word_at (next_char (t @ v)) \<and> word_at (last_char p t)"
  by (induction arbitrary: p v rule: spells.induct) (auto simp: plain_words_def last_char_append word_edges)

lemma rx_rel_boundI: "at_bound st \<Longrightarrow> rx_rel RBound st st"
  by simp

text \<open>A phrase between word boundaries is found by the pattern made of its words.\<close>

lemma phrase_found:
  assumes "spells ws t" and "plain_words ws" and "\<not> word_at (last_char None u)" and "\<not> word_at (next_char v)"
  shows "rx_test (rseq (RBound # words_rx ws @ [RBound])) (u @ t @ v)"
proof -
  let ?st = "Pos (last_char None u) (t @ v) []"
  have "at_bound ?st" using assms spells_edges [OF assms(1,2)] by (simp add: at_bound_def)
  moreover have "rx_rel (rseq [RBound]) (Pos (last_char (last_char None u) t) v []) (Pos (last_char (last_char None u) t) v [])"
    using assms spells_edges [OF assms(1,2)] by (simp add: at_bound_def)
  from rx_rel_wordsI [OF assms(1) this]
  have "rx_rel (rseq (words_rx ws @ [RBound])) ?st (Pos (last_char (last_char None u) t) v [])" .
  ultimately show ?thesis by (intro rx_testI) (rule rx_rel_rseqI [OF rx_rel_boundI])
qed

lemma drop_found:
  assumes "spells [''DROP'', k] t" and "k = ''COLUMN'' \<or> k = ''TABLE''"
    and "\<not> word_at (last_char None u)" and "\<not> word_at (next_char v)"
  shows "rx_test drop_rx (u @ t @ v)"
proof -
  from assms(1) obtain a b c where t: "t = a @ b @ c" and a: "js_toLowerCase a = js_toLowerCase ''DROP''"
    and b: "b \<noteq> []" "list_all is_ws b" and c: "js_toLowerCase c = js_toLowerCase k"
    by (auto elim!: spells_moreE spells_oneE)
  let ?p = "last_char (last_char (last_char None u) a) b"
  let ?last = "Pos (last_char ?p c) v []"
  have k: "rx_rel (RAlt (RLit_i ''COLUMN'') (RLit_i ''TABLE'')) (Pos ?p (c @ v) []) ?last"
    using assms(2) rx_rel_lit_iI [OF c, of ?p v "[]"] by auto
  have "word_at (last_char ?p c)"
    by (rule word_edges(2) [OF c]) (use assms(2) in \<open>auto simp: is_word_char_def is_digit_def\<close>)
  then have e: "at_bound (capture 1 (c @ v) ?last)"
    using assms(4) by (simp add: at_bound_def capture_def)
  have s: "at_bound (Pos (last_char None u) (t @ v) [])"
    using assms(3) word_edges(1) [OF a, of "(b @ c) @ v"] by (simp add: at_bound_def t is_word_char_def is_digit_def)
  have "rx_rel drop_rx (Pos (last_char None u) (t @ v) []) (capture 1 (c @ v) ?last)"
    unfolding drop_rx_def ws_rx_def
    apply (rule rx_rel_rseqI [OF rx_rel_boundI [OF s]])
    apply (simp only: t append.assoc)
    apply (rule rx_rel_rseqI [OF rx_rel_lit_iI [OF a]])
    apply (rule rx_rel_rseqI [OF rx_rel_plus_setI [OF b]])
    apply (rule rx_rel_rseqI [where x = "capture 1 (c @ v) ?last"])
    using k e by auto
  then show ?thesis by (rule rx_testI)
qed

lemma breaking_phrase_found:
  assumes "spells ws t" and "ws \<in> set breaking_phrases"
    and "\<not> word_at (last_char None u)" and "\<not> word_at (next_char v)"
  shows "\<exists>(re, why) \<in> set BREAKING_PATTERNS. rx_test re (u @ t @ v)"
proof -
  have "list_all plain_words breaking_phrases" by code_simp
  then have plain: "plain_words ws" using assms(2) by (simp add: list_all_iff)
  note found = phrase_found [OF assms(1) plain assms(3,4)]
  have "ws = [''DROP'', ''COLUMN''] \<or> ws = [''DROP'', ''TABLE''] \<or> ws = [''RENAME''] \<or>
      ws = [''SET'', ''NOT'', ''NULL''] \<or> ws = [''ADD'', ''CONSTRAINT'']"
    using assms(2) by (simp only: breaking_phrases_def list.set insert_iff empty_iff simp_thms)
  then have "\<exists>re \<in> {drop_rx, rename_rx, set_not_null_rx, add_constraint_rx}. rx_test re (u @ t @ v)"
  proof (elim disjE)
    assume "ws = [''DROP'', ''COLUMN'']"
    with drop_found [of "''COLUMN''" t u v] assms show ?thesis by simp
  next
    assume "ws = [''DROP'', ''TABLE'']"
    with drop_found [of "''TABLE''" t u v] assms show ?thesis by simp
  qed (use found in \<open>simp_all add: rename_rx_def set_not_null_rx_def add_constraint_rx_def\<close>)
  then show ?thesis unfolding BREAKING_PATTERNS_def by (simp only: list.set bex_simps prod.case) blast
qed

lemma checkMigration_ok:
  "checkMigration name sql = [] \<longleftrightarrow>
     (\<exists>r. parseCompat sql = Some (Breaking r)) \<or>
     (parseCompat sql = Some Backward_compatible \<and> breakingReasons sql = [])"
  by (auto simp: checkMigration_def Let_def split: option.splits MigrationCompat.splits)
    (metis MigrationCompat.exhaust)+

lemma breakingReasons_Nil:
  "breakingReasons sql = [] \<longleftrightarrow> (\<forall>(re, why) \<in> set BREAKING_PATTERNS. \<not> rx_test re (stripComments sql))"
  by (auto simp: breakingReasons_def filter_empty_conv)

text \<open>
  A breaking phrase outside line comments is refused unless the file is annotated as breaking.
\<close>

lemma breaking_phrase_annotated:
  assumes "checkMigration name sql = []" and "stripComments sql = u @ t @ v"
    and "spells ws t" and "ws \<in> set breaking_phrases"
    and "\<not> word_at (last_char None u)" and "\<not> word_at (next_char v)"
  shows "\<exists>r. parseCompat sql = Some (Breaking r)"
  using assms breaking_phrase_found [OF assms(3-6)]
  by (auto simp: checkMigration_ok breakingReasons_Nil)

section \<open>The annotation, read back\<close>

definition breaking_line :: "string \<Rightarrow> string" where
  "breaking_line r = ''-- compat: breaking ('' @ r @ '')''"

lemma breaking_rx_caps:
  assumes "rx_rel breaking_rx (Pos None (breaking_line r) []) st"
  shows "rx_caps st = [(1, r)]"
proof -
  from assms obtain a b c where a: "rx_rel (RLit ''-- compat: breaking ('') (Pos None (breaking_line r) []) a"
    and b: "rx_rel (RPlus (RSet is_dot)) a b" and c: "rx_rel (RLit '')'') (capture 1 (rx_rest a) b) c"
    and e: "st = c" "rx_rest c = []"
    by (auto simp: breaking_rx_def rx_rel_rseq_Cons relcompp_apply simp del: rseq.simps rx_rel.simps(3))
      (simp_all add: rx_rel_rseq_Cons relcompp_apply)
  from rx_rel_litD [OF a] have "rx_rest a = r @ '')''" and "rx_caps a = []" by (simp_all add: breaking_line_def)
  moreover from rx_rel_litD [OF c] e have "rx_rest b = '')''" and "rx_caps st = rx_caps (capture 1 (rx_rest a) b)"
    by (simp_all add: capture_def)
  ultimately show ?thesis using rx_rel_plus_set_caps [OF b] by (simp add: capture_def)
qed

lemma breaking_rx_found:
  assumes "r \<noteq> []" and "list_all is_dot r"
  shows "\<exists>st. rx_rel breaking_rx (Pos None (breaking_line r) []) st"
proof -
  let ?p = "last_char None ''-- compat: breaking (''"
  let ?s1 = "Pos ?p (r @ '')'') []"
  let ?s2 = "Pos (last_char ?p r) '')'' []"
  have "rx_rel (RGroup 1 (RPlus (RSet is_dot))) ?s1 (capture 1 (r @ '')'') ?s2)"
    using rx_rel_plus_setI [OF assms, of ?p "'')''" "[]"] by auto
  moreover have "rx_rel (RLit '')'') (capture 1 (r @ '')'') ?s2) (Pos (Some (CHR '')'')) [] [(1, r)])"
    using rx_rel_litI [of "'')''" "last_char ?p r" "[]" "[(1, r)]"] by (simp add: capture_def)
  moreover have "rx_rel (RLit ''-- compat: breaking ('') (Pos None (breaking_line r) []) ?s1"
    unfolding breaking_line_def by (rule rx_rel_litI)
  moreover have "rx_rel (rseq [REol]) (Pos (Some (CHR '')'')) [] [(1, r)]) (Pos (Some (CHR '')'')) [] [(1, r)])"
    by simp
  moreover have "rx_rel RBol (Pos None (breaking_line r) []) (Pos None (breaking_line r) [])" by simp
  ultimately show ?thesis unfolding breaking_rx_def by (blast intro: rx_rel_rseqI)
qed

text \<open>A file that starts with the line \<open>-- compat: breaking (r)\<close> is read as breaking for the reason \<open>r\<close>.\<close>

lemma parseCompat_breaking_line:
  assumes "r \<noteq> []" and "list_all is_dot r"
  shows "parseCompat (breaking_line r @ newline # rest) = Some (Breaking r)"
proof -
  have "newline \<notin> set (breaking_line r)"
    using assms(2) by (auto simp: breaking_line_def list_all_iff is_dot_def newline_def)
  then have "hd (js_split newline (breaking_line r @ newline # rest)) = breaking_line r"
    by (simp add: js_split_append_sep)
  moreover have "js_trim (breaking_line r) = breaking_line r"
    by (simp add: breaking_line_def js_trim_def is_ws_def)
  moreover have "breaking_line r \<noteq> ''-- compat: backward-compatible''"
    by (simp add: breaking_line_def)
  moreover from breaking_rx_found [OF assms] obtain st where "rx_exec breaking_rx (breaking_line r) = Some (rx_caps st)"
    and "rx_rel breaking_rx (Pos None (breaking_line r) []) st"
    by (blast elim: rx_exec_at_start)
  ultimately show ?thesis by (simp add: parseCompat_def breaking_rx_caps)
qed

section \<open>A mandatory column the policy does not see\<close>

text \<open>
  The look-ahead for \<open>DEFAULT\<close> runs to the end of the statement, so the default of another column
  of the same statement hides a mandatory column without one.
\<close>

definition hidden_mandatory_column :: string where
  "hidden_mandatory_column = ''-- compat: backward-compatible'' @ newline #
     ''ALTER TABLE t ADD COLUMN a INT NOT NULL,ADD b INT DEFAULT 0''"

lemma hidden_mandatory_column_add: "\<not> rx_test add_not_null_rx (stripComments hidden_mandatory_column)"
  by code_simp

lemma hidden_mandatory_column_rest:
  "\<not> rx_test drop_rx (stripComments hidden_mandatory_column)"
  "\<not> rx_test rename_rx (stripComments hidden_mandatory_column)"
  "\<not> rx_test alter_type_rx (stripComments hidden_mandatory_column)"
  "\<not> rx_test set_not_null_rx (stripComments hidden_mandatory_column)"
  "\<not> rx_test add_constraint_rx (stripComments hidden_mandatory_column)"
  by code_simp+

lemma hidden_mandatory_column_accepted: "checkMigration name hidden_mandatory_column = []"
proof -
  have "parseCompat hidden_mandatory_column = Some Backward_compatible" by code_simp
  moreover have "breakingReasons hidden_mandatory_column = []"
    using hidden_mandatory_column_add hidden_mandatory_column_rest
    by (simp add: breakingReasons_Nil BREAKING_PATTERNS_def)
  ultimately show ?thesis by (simp add: checkMigration_ok)
qed

text \<open>A destructive migration with its annotation.\<close>

definition drop_sql :: string where
  "drop_sql = ''-- compat: breaking (x)'' @ newline # ''drop  Table t''"

text \<open>
  A migration the policy accepts and whose SQL, outside line comments, spells out \<open>DROP COLUMN\<close>,
  \<open>DROP TABLE\<close>, \<open>RENAME\<close>, \<open>SET NOT NULL\<close> or \<open>ADD CONSTRAINT\<close>, in any letter case and spacing, is
  annotated as breaking on its first line.
\<close>

lemma breaking_migration_is_annotated:
  assumes "checkMigration name sql = []" and "stripComments sql = u @ t @ v"
    and "spells ws t" and "ws \<in> set breaking_phrases"
    and "\<not> word_at (last_char None u)" and "\<not> word_at (next_char v)"
  shows "\<exists>r. parseCompat sql = Some (Breaking r)"
  using assms by (rule breaking_phrase_annotated)

lemma breaking_migration_is_annotated_example:
  "checkMigration ''0001_x'' drop_sql = [] \<and> (\<exists>r. parseCompat drop_sql = Some (Breaking r))"
proof -
  have c: "checkMigration ''0001_x'' drop_sql = []"
  proof -
    have "parseCompat drop_sql = Some (Breaking ''x'')"
      using parseCompat_breaking_line [of "''x''" "''drop  Table t''"]
      by (simp add: drop_sql_def breaking_line_def is_dot_def newline_def)
    then show ?thesis by (simp add: checkMigration_ok)
  qed
  have s: "spells [''DROP'', ''TABLE''] (''drop'' @ ''  '' @ ''Table'')"
    by (rule spells_more [OF _ _ _ spells_one]) code_simp+
  have w: "[''DROP'', ''TABLE''] \<in> set breaking_phrases" "\<not> word_at (last_char None [newline])" "\<not> word_at (next_char '' t'')"
    by code_simp+
  have "stripComments drop_sql = [newline] @ (''drop'' @ ''  '' @ ''Table'') @ '' t''" by code_simp
  from breaking_migration_is_annotated [OF c this s w] c show ?thesis by blast
qed

end
