(* ===== verification/Protection.thy ===== *)
theory Protection
  imports Stream Config Regexp
begin

text \<open>
  The branch-protection policy (\<open>src/scripts/branch-protection.ts\<close>): the facts read from a
  ruleset or from classic protection, the floor the committed definition has to meet, the drift
  between two sets of facts, the checks of the code owners and of the workflow file, and the
  three commands. The file system, the environment, \<open>path.resolve\<close> and the GitHub API are fields
  of the record \<open>gh_env\<close>; an answer of the API may depend on every request sent so far. The lines
  printed on success are not modelled.
\<close>

named_theorems facts_simps \<open>the fields of protection facts\<close>

section \<open>Constants and shapes\<close>

definition RULESET_NAME :: string where
  "RULESET_NAME = ''main-protection''"

definition REQUIRED_CHECK_CONTEXTS :: "string list" where
  "REQUIRED_CHECK_CONTEXTS = [''build-and-test (22)'', ''build-and-test (24)'', ''docker-build'']"

definition MIN_APPROVALS :: jsnum where
  "MIN_APPROVALS = NInt 1"

type_synonym props = "(string \<times> jsval) list"

definition pget :: "props \<Rightarrow> string \<Rightarrow> jsval" where
  "pget ob k = (case map_of ob k of None \<Rightarrow> JUndefined | Some v \<Rightarrow> v)"

definition asRecord :: "jsval \<Rightarrow> props" where
  "asRecord v = (case v of JObj kvs \<Rightarrow> kvs | _ \<Rightarrow> [])"

definition asArray :: "jsval \<Rightarrow> jsval list" where
  "asArray v = (case v of JArr vs \<Rightarrow> vs | _ \<Rightarrow> [])"

definition asNumber :: "jsval \<Rightarrow> jsnum" where
  "asNumber v = (case v of JNum n \<Rightarrow> if isFinite n then n else NInt 0 | _ \<Rightarrow> NInt 0)"

fun string_of :: "jsval \<Rightarrow> string list" where
  "string_of (JStr s) = [s]"
| "string_of _ = []"

definition asStringArray :: "jsval \<Rightarrow> string list" where
  "asStringArray v = concat (map string_of (asArray v))"

definition non_empty_strings :: "jsval list \<Rightarrow> string list" where
  "non_empty_strings vs = filter (\<lambda>s. s \<noteq> []) (concat (map string_of vs))"

record ProtectionFacts =
  pf_enforcement :: string
  pf_requiresPullRequest :: bool
  pf_requiredApprovals :: jsnum
  pf_requiresCodeOwnerReview :: bool
  pf_dismissesStaleReviews :: bool
  pf_requiredChecks :: "string list"
  pf_blocksDeletion :: bool
  pf_blocksForcePush :: bool
  pf_bypassActors :: nat

section \<open>Reading the facts\<close>

text \<open>\<open>rules.find((rule) => rule?.type === type)\<close>.\<close>

definition ruleOf :: "jsval list \<Rightarrow> string \<Rightarrow> props option" where
  "ruleOf rules ty = map_option asRecord (find (\<lambda>r. pget (asRecord r) ''type'' = JStr ty) rules)"

definition rule_parameters :: "jsval list \<Rightarrow> string \<Rightarrow> props" where
  "rule_parameters rules ty =
     (case ruleOf rules ty of None \<Rightarrow> [] | Some r \<Rightarrow> asRecord (pget r ''parameters''))"

definition check_context :: "jsval \<Rightarrow> jsval" where
  "check_context entry = (case entry of JStr _ \<Rightarrow> entry | _ \<Rightarrow> pget (asRecord entry) ''context'')"

definition factsFromRuleset :: "props \<Rightarrow> ProtectionFacts" where
  "factsFromRuleset def =
     (let rules = asArray (pget def ''rules'');
          pullRequest = rule_parameters rules ''pull_request'';
          statusChecks = rule_parameters rules ''required_status_checks'';
          contexts = non_empty_strings (map check_context (asArray (pget statusChecks ''required_status_checks'')))
      in \<lparr>pf_enforcement = (case pget def ''enforcement'' of JStr s \<Rightarrow> s | _ \<Rightarrow> ''missing''),
          pf_requiresPullRequest = (ruleOf rules ''pull_request'' \<noteq> None),
          pf_requiredApprovals = asNumber (pget pullRequest ''required_approving_review_count''),
          pf_requiresCodeOwnerReview = (pget pullRequest ''require_code_owner_review'' = JBool True),
          pf_dismissesStaleReviews = (pget pullRequest ''dismiss_stale_reviews_on_push'' = JBool True),
          pf_requiredChecks = contexts,
          pf_blocksDeletion = (ruleOf rules ''deletion'' \<noteq> None),
          pf_blocksForcePush = (ruleOf rules ''non_fast_forward'' \<noteq> None),
          pf_bypassActors = length (asArray (pget def ''bypass_actors''))\<rparr>)"

definition typeof_object :: "jsval \<Rightarrow> bool" where
  "typeof_object v = (case v of JNull \<Rightarrow> True | JArr _ \<Rightarrow> True | JObj _ \<Rightarrow> True | _ \<Rightarrow> False)"

definition factsFromClassicProtection :: "jsval \<Rightarrow> ProtectionFacts" where
  "factsFromClassicProtection protection =
     (let body = asRecord protection;
          reviews = asRecord (pget body ''required_pull_request_reviews'');
          statusChecks = asRecord (pget body ''required_status_checks'');
          contexts = non_empty_strings (map JStr (asStringArray (pget statusChecks ''contexts'')) @
                       map (\<lambda>e. pget (asRecord e) ''context'') (asArray (pget statusChecks ''checks'')))
      in \<lparr>pf_enforcement = (if typeof_object (pget body ''enforce_admins'') then ''active'' else ''missing''),
          pf_requiresPullRequest = (reviews \<noteq> []),
          pf_requiredApprovals = asNumber (pget reviews ''required_approving_review_count''),
          pf_requiresCodeOwnerReview = (pget reviews ''require_code_owner_reviews'' = JBool True),
          pf_dismissesStaleReviews = (pget reviews ''dismiss_stale_reviews'' = JBool True),
          pf_requiredChecks = contexts,
          pf_blocksDeletion = (pget (asRecord (pget body ''allow_deletions'')) ''enabled'' = JBool False),
          pf_blocksForcePush = (pget (asRecord (pget body ''allow_force_pushes'')) ''enabled'' = JBool False),
          pf_bypassActors = (if pget (asRecord (pget body ''enforce_admins'')) ''enabled'' = JBool True then 0 else 1)\<rparr>)"

section \<open>The policy floor\<close>

definition quoted :: "string \<Rightarrow> string" where
  "quoted s = dquote @ s @ dquote"

text \<open>\<open>if (c) problems.push(m)\<close>.\<close>

definition report :: "bool \<Rightarrow> string \<Rightarrow> string list" where
  "report c m = (if c then [m] else [])"

lemma report_eq_Nil [simp]: "report c m = [] \<longleftrightarrow> \<not> c"
  by (simp add: report_def)

definition targets_default_branch :: "props \<Rightarrow> bool" where
  "targets_default_branch def =
     list_ex (\<lambda>r. r = ''~DEFAULT_BRANCH'' \<or> r = ''refs/heads/main'')
       (asStringArray (pget (asRecord (pget (asRecord (pget def ''conditions'')) ''ref_name'')) ''include''))"

definition validateDefinition :: "props \<Rightarrow> string list" where
  "validateDefinition def =
     (let facts = factsFromRuleset def in
      report (pget def ''name'' \<noteq> JStr RULESET_NAME)
        (''ruleset name must be '' @ quoted RULESET_NAME @ '' (got '' @ quoted (js_String (pget def ''name'')) @ '')'') @
      report (pget def ''target'' \<noteq> JStr ''branch'')
        (''ruleset target must be '' @ quoted ''branch'' @ '' (got '' @ quoted (js_String (pget def ''target'')) @ '')'') @
      report (pf_enforcement facts \<noteq> ''active'')
        (''ruleset must be enforced (enforcement: '' @ quoted ''active'' @ '', got '' @ quoted (pf_enforcement facts) @ '')'') @
      report (\<not> targets_default_branch def)
        ''ruleset must target the default branch (~DEFAULT_BRANCH or refs/heads/main)'' @
      report (0 < pf_bypassActors facts)
        (''ruleset must not grant bypass ('' @ show_nat (pf_bypassActors facts) @
         '' bypass actor(s)); a bypass lets a red CI run or a missing review land on main'') @
      report (\<not> pf_blocksDeletion facts)
        (''ruleset must block branch deletion (rule type '' @ quoted ''deletion'' @ '')'') @
      report (\<not> pf_blocksForcePush facts)
        (''ruleset must block force-pushes (rule type '' @ quoted ''non_fast_forward'' @ '')'') @
      report (\<not> pf_requiresPullRequest facts)
        (''ruleset must require a pull request before merging (rule type '' @ quoted ''pull_request'' @ '')'') @
      report (num_less (pf_requiredApprovals facts) MIN_APPROVALS)
        (''pull requests must require at least '' @ num_String MIN_APPROVALS @
         '' approving review(s) (required_approving_review_count: '' @ num_String (pf_requiredApprovals facts) @ '')'') @
      report (\<not> pf_requiresCodeOwnerReview facts)
        (''pull requests must require a code-owner review (require_code_owner_review: true) '' @ em_dash @
         '' the src/auth.ts acceptance criterion'') @
      concat (map (\<lambda>c. report (c \<notin> set (pf_requiredChecks facts))
                (''required status checks must include '' @ quoted c)) REQUIRED_CHECK_CONTEXTS))"

section \<open>Drift\<close>

definition show_bool :: "bool \<Rightarrow> string" where
  "show_bool b = (if b then ''true'' else ''false'')"

definition flag_drift :: "string \<Rightarrow> bool \<Rightarrow> bool \<Rightarrow> string list" where
  "flag_drift what expected actual =
     report (actual \<noteq> expected) (what @ '': expected '' @ show_bool expected @ '', found '' @ show_bool actual)"

definition describeDrift :: "ProtectionFacts \<Rightarrow> ProtectionFacts \<Rightarrow> string list" where
  "describeDrift expected actual =
     flag_drift ''pull request requirement'' (pf_requiresPullRequest expected) (pf_requiresPullRequest actual) @
     report (num_less (pf_requiredApprovals actual) (pf_requiredApprovals expected))
       (''required approvals: expected at least '' @ num_String (pf_requiredApprovals expected) @
        '', found '' @ num_String (pf_requiredApprovals actual)) @
     flag_drift ''code-owner review'' (pf_requiresCodeOwnerReview expected) (pf_requiresCodeOwnerReview actual) @
     flag_drift ''dismiss stale reviews on push'' (pf_dismissesStaleReviews expected) (pf_dismissesStaleReviews actual) @
     flag_drift ''deletion blocked'' (pf_blocksDeletion expected) (pf_blocksDeletion actual) @
     flag_drift ''force-push blocked'' (pf_blocksForcePush expected) (pf_blocksForcePush actual) @
     report (pf_bypassActors actual \<noteq> pf_bypassActors expected)
       (''bypass actors: expected '' @ show_nat (pf_bypassActors expected) @ '', found '' @ show_nat (pf_bypassActors actual)) @
     concat (map (\<lambda>c. report (c \<notin> set (pf_requiredChecks actual))
       (''required status check missing: '' @ quoted c)) (pf_requiredChecks expected)) @
     concat (map (\<lambda>c. report (c \<notin> set (pf_requiredChecks expected))
       (''unexpected required status check: '' @ quoted c @ '' (not in the committed definition)'')) (pf_requiredChecks actual))"

section \<open>Code owners\<close>

text \<open>\<open>text.split(/\r?\n/)\<close>: a carriage return before a line feed belongs to the separator.\<close>

definition chomp :: "string \<Rightarrow> string" where
  "chomp s = (if s \<noteq> [] \<and> last s = CHR 0x0D then butlast s else s)"

definition split_lines :: "string \<Rightarrow> string list" where
  "split_lines s = (let ls = js_split (CHR 0x0A) s in map chomp (butlast ls) @ [last ls])"

definition dot_char :: "char \<Rightarrow> bool" where
  "dot_char c = (c \<noteq> CHR 0x0A \<and> c \<noteq> CHR 0x0D)"

text \<open>\<open>raw.replace(/#.*$/, '').trim()\<close>.\<close>

definition without_comment :: "string \<Rightarrow> string" where
  "without_comment raw =
     js_trim (case rx_search (rseq [RLit ''#'', RStar (RSet dot_char), REol]) None raw of
                None \<Rightarrow> raw | Some (before, _, after) \<Rightarrow> before @ after)"

text \<open>\<open>line.split(/\s+/)\<close> on a trimmed line: the maximal runs of other characters.\<close>

fun split_spaces :: "string \<Rightarrow> string list" where
  "split_spaces [] = [[]]"
| "split_spaces (c # s) =
     (if is_ws c then (if s \<noteq> [] \<and> is_ws (hd s) then split_spaces s else [] # split_spaces s)
      else case split_spaces s of [] \<Rightarrow> [[c]] | w # ws \<Rightarrow> (c # w) # ws)"

definition is_placeholder :: "string \<Rightarrow> bool" where
  "is_placeholder owner = rx_test (RLit_i ''placeholder'') owner"

definition line_placeholders :: "nat \<Rightarrow> string \<Rightarrow> string list" where
  "line_placeholders index raw =
     (let line = without_comment raw in
      if line = [] then []
      else case split_spaces line of
             [] \<Rightarrow> []
           | pattern # owners \<Rightarrow>
               (let placeholders = filter is_placeholder owners in
                report (owners \<noteq> [] \<and> placeholders \<noteq> [])
                  (pattern @ '' -> '' @ js_join '', '' placeholders @ '' (CODEOWNERS:'' @ show_nat (index + 1) @ '')'')))"

definition findCodeOwnersPlaceholders :: "string \<Rightarrow> string list" where
  "findCodeOwnersPlaceholders text =
     concat (map (\<lambda>(i, raw). line_placeholders i raw) (List.enumerate 0 (split_lines text)))"

definition validateCodeOwners :: "string \<Rightarrow> string list" where
  "validateCodeOwners text =
     report (filter (\<lambda>line. line \<noteq> []) (map without_comment (split_lines text)) = [])
       ''CODEOWNERS is empty: enabling require_code_owner_review would make every pull request unmergeable'' @
     map (\<lambda>p. ''CODEOWNERS still names a placeholder owner: '' @ p @ '' '' @ em_dash @ '' fix issue #413 first'')
       (findCodeOwnersPlaceholders text)"

section \<open>The workflow file\<close>

definition is_id_char :: "char \<Rightarrow> bool" where
  "is_id_char c = (is_word_char c \<or> c = CHR ''-'')"

definition spaces_rx :: rx where
  "spaces_rx = RStar (RSet is_ws)"

definition job_key_rx :: rx where
  "job_key_rx = rseq [RBol, RLit ''  '', RGroup 1 (RPlus (RSet is_id_char)), RLit '':'', spaces_rx, REol]"

definition workflowJobIds :: "string \<Rightarrow> string list" where
  "workflowJobIds ciYaml =
     concat (map (\<lambda>line. case rx_exec job_key_rx line of
                           None \<Rightarrow> []
                         | Some g \<Rightarrow> (case map_of g 1 of None \<Rightarrow> [] | Some j \<Rightarrow> [j])) (split_lines ciYaml))"

definition matrix_rx :: rx where
  "matrix_rx = rseq [RBol, spaces_rx, RLit ''matrix:'', spaces_rx, REol]"

definition inline_rx :: rx where
  "inline_rx = rseq [RLit ''node-version:'', spaces_rx, RLit ''['', RGroup 1 (RStar (RSet (\<lambda>c. c \<noteq> CHR '']''))), RLit '']'']"

definition is_quote :: "char \<Rightarrow> bool" where
  "is_quote c = (c = CHR 0x22 \<or> c = CHR 0x27)"

definition single_rx :: rx where
  "single_rx = rseq [RLit ''node-version:'', spaces_rx, ROpt (RSet is_quote),
     RGroup 1 (RPlus (RSet (\<lambda>c. is_word_char c \<or> c = CHR ''.''))), ROpt (RSet is_quote), spaces_rx, REol]"

text \<open>\<open>value.replace(/^["']|["']$/g, '')\<close>: a leading and a trailing quote go.\<close>

definition unquote :: "string \<Rightarrow> string" where
  "unquote s =
     (let t = (if s \<noteq> [] \<and> is_quote (hd s) then tl s else s) in
      if t \<noteq> [] \<and> is_quote (last t) then butlast t else t)"

definition inline_values :: "string \<Rightarrow> string list" where
  "inline_values v = filter (\<lambda>x. x \<noteq> []) (map (\<lambda>w. unquote (js_trim w)) (js_split (CHR '','') v))"

text \<open>The loop over the lines after the key of the job; the flag is \<open>insideMatrix\<close>.\<close>

fun matrix_loop :: "bool \<Rightarrow> string list \<Rightarrow> string list" where
  "matrix_loop inside [] = []"
| "matrix_loop inside (line # rest) =
     (if rx_test job_key_rx line then []
      else if rx_test matrix_rx line then matrix_loop True rest
      else if \<not> inside then matrix_loop inside rest
      else case rx_exec inline_rx line of
             Some g \<Rightarrow> (case map_of g 1 of Some v \<Rightarrow> inline_values v | None \<Rightarrow> []) @ matrix_loop inside rest
           | None \<Rightarrow>
               (case rx_exec single_rx line of
                  Some g \<Rightarrow> (case map_of g 1 of Some v \<Rightarrow> [v] | None \<Rightarrow> []) @ matrix_loop inside rest
                | None \<Rightarrow> matrix_loop inside rest))"

definition matrixValuesForJob :: "string \<Rightarrow> string \<Rightarrow> string list" where
  "matrixValuesForJob ciYaml job =
     (case dropWhile (\<lambda>line. \<not> rx_test (rseq [RBol, RLit (''  '' @ job @ '':''), spaces_rx, REol]) line) (split_lines ciYaml) of
        [] \<Rightarrow> []
      | _ # rest \<Rightarrow> matrix_loop False rest)"

definition context_rx :: rx where
  "context_rx = rseq [RBol, RGroup 1 (RPlus (RSet is_id_char)), spaces_rx,
     ROpt (rseq [RLit ''('', RGroup 2 (RPlus (RSet (\<lambda>c. c \<noteq> CHR '')''))), RLit '')'']), REol]"

definition context_problems :: "string \<Rightarrow> string \<Rightarrow> string list" where
  "context_problems ciYaml ctx =
     (case rx_exec context_rx ctx of
        None \<Rightarrow> [quoted ctx @ '' is not a valid status-check name'']
      | Some g \<Rightarrow>
          (case map_of g 1 of
             None \<Rightarrow> [quoted ctx @ '' is not a valid status-check name'']
           | Some job \<Rightarrow>
               if job \<notin> set (workflowJobIds ciYaml)
               then [quoted ctx @ '' does not match a job in .github/workflows/ci.yml (no job named '' @ quoted job @ '')'']
               else case map_of g 2 of
                      None \<Rightarrow> []
                    | Some m \<Rightarrow>
                        (let values = matrixValuesForJob ciYaml job in
                         report (values \<noteq> [] \<and> m \<notin> set values)
                           (quoted ctx @ '': ci.yml runs '' @ quoted job @ '' with matrix values ['' @ js_join '', '' values @
                            '']; '' @ quoted m @ '' would never report''))))"

definition checkWorkflowCheckContexts :: "string list \<Rightarrow> string \<Rightarrow> string list" where
  "checkWorkflowCheckContexts contexts ciYaml =
     (if workflowJobIds ciYaml = [] then [''could not read any job ids from .github/workflows/ci.yml'']
      else concat (map (context_problems ciYaml) contexts))"

section \<open>Arguments\<close>

datatype gh_command = Check | Verify | Apply

datatype http_method = GET | POST | PUT

record gh_request =
  rq_token :: string
  rq_method :: http_method
  rq_path :: string
  rq_body :: "jsval option"

text \<open>
  The surroundings of the script: environment variables, files, \<open>path.resolve\<close>, the text of a
  parse error, and the answer (status and body text) to the last of a list of requests.
\<close>

record gh_env =
  ge_vars :: process_env
  ge_file :: "string \<Rightarrow> string option"
  ge_resolve :: "string \<Rightarrow> string"
  ge_json_error :: "string \<Rightarrow> string"
  ge_answer :: "gh_request list \<Rightarrow> exn + nat \<times> string"

definition DEFAULT_DEFINITION_PATH :: string where
  "DEFAULT_DEFINITION_PATH = ''.github/rulesets/main.json''"

definition DEFAULT_CODEOWNERS_PATH :: string where
  "DEFAULT_CODEOWNERS_PATH = ''.github/CODEOWNERS''"

definition DEFAULT_CI_WORKFLOW_PATH :: string where
  "DEFAULT_CI_WORKFLOW_PATH = ''.github/workflows/ci.yml''"

record CliOptions =
  co_command :: gh_command
  co_repo :: "string option"
  co_definitionPath :: string
  co_token :: "string option"
  co_dryRun :: bool
  co_force :: bool

definition takeValue :: "string list \<Rightarrow> string \<Rightarrow> exn + string \<times> string list" where
  "takeValue args flag =
     (case args of
        v # rest \<Rightarrow> if js_startsWith v ''--'' then Inl (PlainError (flag @ '' needs a value'')) else Inr (v, rest)
      | [] \<Rightarrow> Inl (PlainError (flag @ '' needs a value'')))"

lemma takeValue_shorter: "takeValue args flag = Inr (v, rest) \<Longrightarrow> length rest < length args"
  by (auto simp: takeValue_def split: list.splits if_splits)

function parse_options :: "(string \<Rightarrow> string) \<Rightarrow> string list \<Rightarrow> CliOptions \<Rightarrow> exn + CliOptions" where
  "parse_options resolve [] op = Inr op"
| "parse_options resolve (arg # args) op =
     (if arg = ''--repo'' then
        (case takeValue args arg of
           Inl e \<Rightarrow> Inl e
         | Inr (v, rest) \<Rightarrow> parse_options resolve rest (op\<lparr>co_repo := Some v\<rparr>))
      else if arg = ''--definition'' then
        (case takeValue args arg of
           Inl e \<Rightarrow> Inl e
         | Inr (v, rest) \<Rightarrow> parse_options resolve rest (op\<lparr>co_definitionPath := resolve v\<rparr>))
      else if arg = ''--dry-run'' then parse_options resolve args (op\<lparr>co_dryRun := True\<rparr>)
      else if arg = ''--force'' then parse_options resolve args (op\<lparr>co_force := True\<rparr>)
      else Inl (PlainError (''unknown option '' @ quoted arg)))"
  by pat_completeness auto
termination
  by (relation "measure (\<lambda>(_, args, _). length args)") (auto dest: takeValue_shorter)

definition command_of :: "string \<Rightarrow> gh_command option" where
  "command_of s = (if s = ''check'' then Some Check else if s = ''verify'' then Some Verify
     else if s = ''apply'' then Some Apply else None)"

definition non_blank :: "string option \<Rightarrow> string option" where
  "non_blank v = (case v of Some [] \<Rightarrow> None | _ \<Rightarrow> v)"

definition parseArgs :: "gh_env \<Rightarrow> string list \<Rightarrow> exn + CliOptions" where
  "parseArgs ge argv =
     (let command = (case argv of [] \<Rightarrow> [] | c # _ \<Rightarrow> c);
          token = (case map_of (ge_vars ge) ''GH_TOKEN'' of Some t \<Rightarrow> Some t | None \<Rightarrow> map_of (ge_vars ge) ''GITHUB_TOKEN'')
      in case command_of command of
           None \<Rightarrow> Inl (PlainError (''unknown command '' @ quoted command @ '' '' @ em_dash @ '' expected check, verify or apply''))
         | Some c \<Rightarrow>
             parse_options (ge_resolve ge) (tl argv)
               \<lparr>co_command = c, co_repo = non_blank (map_of (ge_vars ge) ''GITHUB_REPOSITORY''),
                co_definitionPath = DEFAULT_DEFINITION_PATH, co_token = non_blank token, co_dryRun = False, co_force = False\<rparr>)"

section \<open>Files and requests\<close>

definition readText :: "gh_env \<Rightarrow> string \<Rightarrow> string \<Rightarrow> exn + string" where
  "readText ge filePath label =
     (case ge_file ge filePath of
        Some t \<Rightarrow> Inr t
      | None \<Rightarrow> Inl (PlainError (''could not read '' @ label @ '' at '' @ filePath)))"

definition readDefinition :: "gh_env \<Rightarrow> string \<Rightarrow> exn + props" where
  "readDefinition ge filePath =
     bindE (readText ge filePath ''the ruleset definition'') (\<lambda>text.
       case JSON_parse text of
         None \<Rightarrow> Inl (PlainError (filePath @ '' is not valid JSON: '' @ ge_json_error ge text))
       | Some (JObj kvs) \<Rightarrow> Inr kvs
       | Some _ \<Rightarrow> Inl (PlainError (filePath @ '' must contain a JSON object'')))"

record GitHubResponse =
  gr_status :: nat
  gr_body :: jsval

definition safeJson :: "string \<Rightarrow> jsval" where
  "safeJson text = (case JSON_parse text of Some v \<Rightarrow> v | None \<Rightarrow> JStr text)"

text \<open>The script's state is the list of requests it has sent.\<close>

type_synonym 'a gh = "gh_request list \<Rightarrow> (exn + 'a) \<times> gh_request list"

definition bindG :: "'a gh \<Rightarrow> ('a \<Rightarrow> 'b gh) \<Rightarrow> 'b gh" where
  "bindG m f h = (case m h of (Inl e, h') \<Rightarrow> (Inl e, h') | (Inr x, h') \<Rightarrow> f x h')"

definition liftG :: "exn + 'a \<Rightarrow> 'a gh" where
  "liftG r h = (r, h)"

definition githubRequest :: "gh_env \<Rightarrow> gh_request \<Rightarrow> GitHubResponse gh" where
  "githubRequest ge rq h =
     (map_sum id (\<lambda>(status, text). \<lparr>gr_status = status, gr_body = (if text \<noteq> [] then safeJson text else JUndefined)\<rparr>)
        (ge_answer ge (h @ [rq])), h @ [rq])"

definition repo_rx :: rx where
  "repo_rx = (let part = RPlus (RSet (\<lambda>c. c \<noteq> CHR ''/'' \<and> \<not> is_ws c)) in rseq [RBol, part, RLit ''/'', part, REol])"

definition requireRepo :: "CliOptions \<Rightarrow> exn + string" where
  "requireRepo op =
     (case co_repo op of
        None \<Rightarrow> Inl (PlainError ''no repository: pass --repo owner/name or set GITHUB_REPOSITORY'')
      | Some repo \<Rightarrow>
          if rx_test repo_rx repo then Inr repo
          else Inl (PlainError (quoted ''--repo'' @ '' must look like owner/name (got '' @ quoted repo @ '')'')))"

definition requireToken :: "CliOptions \<Rightarrow> exn + string" where
  "requireToken op =
     (case co_token op of
        None \<Rightarrow> Inl (PlainError ''no token: set GH_TOKEN or GITHUB_TOKEN (read access to verify, admin to apply)'')
      | Some t \<Rightarrow> Inr t)"

definition rulesets_path :: "string \<Rightarrow> string" where
  "rulesets_path repo = ''/repos/'' @ repo @ ''/rulesets''"

definition ruleset_path :: "string \<Rightarrow> jsnum \<Rightarrow> string" where
  "ruleset_path repo i = rulesets_path repo @ ''/'' @ num_String i"

definition gh_failure :: "string \<Rightarrow> string \<Rightarrow> string \<Rightarrow> GitHubResponse \<Rightarrow> exn" where
  "gh_failure what path hint r =
     PlainError (what @ '' '' @ path @ '' failed with '' @ show_nat (gr_status r) @ hint @ '': '' @ JSON_stringify (gr_body r))"

definition get_request :: "string \<Rightarrow> string \<Rightarrow> gh_request" where
  "get_request token path = \<lparr>rq_token = token, rq_method = GET, rq_path = path, rq_body = None\<rparr>"

definition own_ruleset_id :: "jsval \<Rightarrow> jsnum option" where
  "own_ruleset_id body =
     (case find (\<lambda>e. pget e ''name'' = JStr RULESET_NAME) (map asRecord (asArray body)) of
        None \<Rightarrow> None
      | Some e \<Rightarrow> (case pget e ''id'' of JNum n \<Rightarrow> Some n | _ \<Rightarrow> None))"

definition findRulesetId :: "gh_env \<Rightarrow> CliOptions \<Rightarrow> string \<Rightarrow> jsnum option gh" where
  "findRulesetId ge op repo =
     bindG (liftG (requireToken op)) (\<lambda>token.
     bindG (githubRequest ge (get_request token (rulesets_path repo @ ''?per_page=100''))) (\<lambda>r.
       if gr_status r \<noteq> 200 then liftG (Inl (gh_failure ''GET'' (rulesets_path repo) [] r))
       else liftG (Inr (own_ruleset_id (gr_body r)))))"

section \<open>The commands\<close>

text \<open>An exit code with the problems printed.\<close>

definition runCheck :: "gh_env \<Rightarrow> CliOptions \<Rightarrow> exn + nat \<times> string list" where
  "runCheck ge op =
     bindE (readDefinition ge (co_definitionPath op)) (\<lambda>def.
     bindE (readText ge DEFAULT_CI_WORKFLOW_PATH ''.github/workflows/ci.yml'') (\<lambda>ciYaml.
       let problems = validateDefinition def @ checkWorkflowCheckContexts REQUIRED_CHECK_CONTEXTS ciYaml in
     bindE (readText ge DEFAULT_CODEOWNERS_PATH ''.github/CODEOWNERS'') (\<lambda>codeOwners.
       let warnings = validateCodeOwners codeOwners in
       if problems \<noteq> [] then Inr (1, problems) else Inr (0, warnings))))"

text \<open>Reading a property of \<open>undefined\<close> or \<open>null\<close> throws; other values have none of the names used.\<close>

definition props_of :: "jsval \<Rightarrow> exn + props" where
  "props_of v =
     (if is_nullish v then Inl (JsTypeError (''Cannot read properties of '' @ js_String v @ '' (reading '' @ [CHR 0x27] @ ''rules'' @ [CHR 0x27] @ '')''))
      else Inr (asRecord v))"

definition live_facts :: "gh_env \<Rightarrow> CliOptions \<Rightarrow> string \<Rightarrow> string \<Rightarrow> ProtectionFacts option gh" where
  "live_facts ge op repo token =
     bindG (findRulesetId ge op repo) (\<lambda>rid.
       case rid of
         None \<Rightarrow> liftG (Inr None)
       | Some i \<Rightarrow>
           bindG (githubRequest ge (get_request token (ruleset_path repo i))) (\<lambda>detail.
             if gr_status detail \<noteq> 200 then liftG (Inl (gh_failure ''GET'' (ruleset_path repo i) [] detail))
             else bindG (liftG (props_of (gr_body detail))) (\<lambda>kvs. liftG (Inr (Some (factsFromRuleset kvs))))))"

definition protection_path :: "string \<Rightarrow> string" where
  "protection_path repo = ''/repos/'' @ repo @ ''/branches/main/protection''"

definition classic_facts :: "gh_env \<Rightarrow> string \<Rightarrow> string \<Rightarrow> ProtectionFacts option gh" where
  "classic_facts ge repo token =
     bindG (githubRequest ge (get_request token (protection_path repo))) (\<lambda>r.
       if gr_status r = 200 then liftG (Inr (Some (factsFromClassicProtection (gr_body r))))
       else if gr_status r \<noteq> 404 then liftG (Inl (gh_failure ''GET'' (protection_path repo) [] r))
       else liftG (Inr None))"

definition runVerify :: "gh_env \<Rightarrow> CliOptions \<Rightarrow> (nat \<times> string list) gh" where
  "runVerify ge op =
     bindG (liftG (requireRepo op)) (\<lambda>repo.
     bindG (liftG (requireToken op)) (\<lambda>token.
     bindG (liftG (readDefinition ge (co_definitionPath op))) (\<lambda>def.
     bindG (live_facts ge op repo token) (\<lambda>live.
     bindG (classic_facts ge repo token) (\<lambda>classic.
       let expected = factsFromRuleset def;
           drift = (case (live, classic) of
                      (Some l, _) \<Rightarrow> describeDrift expected l
                    | (None, Some c) \<Rightarrow> describeDrift expected c
                    | (None, None) \<Rightarrow> [quoted ''main'' @ '' has neither a repository ruleset nor classic branch protection''])
       in liftG (Inr (if drift \<noteq> [] then (1, drift) else (0, []))))))))"

text \<open>\<open>{ ...definition, bypass_actors: definition.bypass_actors ?? [] }\<close>.\<close>

definition apply_payload :: "props \<Rightarrow> jsval" where
  "apply_payload def =
     JObj (tput ''bypass_actors'' (let b = pget def ''bypass_actors'' in if is_nullish b then JArr [] else b) def)"

definition code_owner_problems :: "gh_env \<Rightarrow> CliOptions \<Rightarrow> exn + string list" where
  "code_owner_problems ge op =
     (if co_force op then Inr []
      else map_sum id validateCodeOwners (readText ge DEFAULT_CODEOWNERS_PATH ''.github/CODEOWNERS''))"

definition apply_request :: "string \<Rightarrow> string \<Rightarrow> jsval \<Rightarrow> jsnum option \<Rightarrow> gh_request" where
  "apply_request token repo payload existing =
     (case existing of
        None \<Rightarrow> \<lparr>rq_token = token, rq_method = POST, rq_path = rulesets_path repo, rq_body = Some payload\<rparr>
      | Some i \<Rightarrow> \<lparr>rq_token = token, rq_method = PUT, rq_path = ruleset_path repo i, rq_body = Some payload\<rparr>)"

definition runApply :: "gh_env \<Rightarrow> CliOptions \<Rightarrow> (nat \<times> string list) gh" where
  "runApply ge op =
     bindG (liftG (requireRepo op)) (\<lambda>repo.
     bindG (liftG (requireToken op)) (\<lambda>token.
     bindG (liftG (readDefinition ge (co_definitionPath op))) (\<lambda>def.
       let problems = validateDefinition def in
       if problems \<noteq> [] then liftG (Inr (1, problems))
       else
     bindG (liftG (code_owner_problems ge op)) (\<lambda>owners.
       if owners \<noteq> [] then liftG (Inr (1, owners))
       else if co_dryRun op then liftG (Inr (0, []))
       else
     bindG (findRulesetId ge op repo) (\<lambda>existing.
     bindG (githubRequest ge (apply_request token repo (apply_payload def) existing)) (\<lambda>r.
       if gr_status r \<noteq> 200 \<and> gr_status r \<noteq> 201 then
         liftG (Inl (gh_failure (if existing = None then ''POST'' else ''PUT'') (rulesets_path repo)
           (if gr_status r = 403 \<or> gr_status r = 404 then '' (the rulesets API needs a repository admin token)'' else []) r))
       else liftG (Inr (0, []))))))))"

definition gh_main :: "gh_env \<Rightarrow> string list \<Rightarrow> (nat \<times> string list) gh" where
  "gh_main ge argv =
     (if ''--help'' \<in> set argv \<or> ''-h'' \<in> set argv then liftG (Inr (0, []))
      else bindG (liftG (parseArgs ge argv)) (\<lambda>op.
        case co_command op of
          Apply \<Rightarrow> runApply ge op
        | Verify \<Rightarrow> runVerify ge op
        | Check \<Rightarrow> liftG (runCheck ge op)))"

text \<open>The exit code of the process: a thrown error is printed and gives 1.\<close>

definition gh_exit :: "gh_env \<Rightarrow> string list \<Rightarrow> nat \<times> gh_request list" where
  "gh_exit ge argv = (case gh_main ge argv [] of (Inl e, h) \<Rightarrow> (1, h) | (Inr (c, _), h) \<Rightarrow> (c, h))"

section \<open>What the checks establish\<close>

text \<open>The protection the policy asks for, on any set of facts; enforcement is a separate matter.\<close>

definition meets_floor :: "ProtectionFacts \<Rightarrow> bool" where
  "meets_floor f \<longleftrightarrow>
     pf_requiresPullRequest f \<and> \<not> num_less (pf_requiredApprovals f) MIN_APPROVALS \<and> pf_requiresCodeOwnerReview f \<and>
     set REQUIRED_CHECK_CONTEXTS \<subseteq> set (pf_requiredChecks f) \<and> pf_blocksDeletion f \<and> pf_blocksForcePush f \<and>
     pf_bypassActors f = 0"

lemma bindG_Inr: "bindG m f h = (Inr y, h') \<longleftrightarrow> (\<exists>x h1. m h = (Inr x, h1) \<and> f x h1 = (Inr y, h'))"
  by (auto simp: bindG_def split: prod.splits sum.splits)

lemma liftG_eq [simp]: "liftG r h = (x, h') \<longleftrightarrow> r = x \<and> h = h'"
  by (auto simp: liftG_def)

lemma validateDefinition_floor:
  "validateDefinition def = [] \<Longrightarrow>
     meets_floor (factsFromRuleset def) \<and> pf_enforcement (factsFromRuleset def) = ''active'' \<and> targets_default_branch def"
  by (simp add: validateDefinition_def meets_floor_def Let_def concat_eq_Nil_conv subset_iff)

text \<open>Approvals are finite numbers, on which the comparison is a strict weak order.\<close>

lemma asNumber_finite: "isFinite (asNumber v)"
  by (simp add: asNumber_def isFinite_def split: jsval.split jsnum.split)

lemma facts_approvals_finite [simp]:
  "isFinite (pf_requiredApprovals (factsFromRuleset d))"
  "isFinite (pf_requiredApprovals (factsFromClassicProtection v))"
  by (simp_all add: factsFromRuleset_def factsFromClassicProtection_def Let_def asNumber_finite)

lemma scaled_less_at:
  assumes "x \<le> e" and "x \<le> e'"
  shows "scaled_less (m, e) (m', e') \<longleftrightarrow> m * 10 ^ nat (e - x) < m' * 10 ^ nat (e' - x)"
proof -
  let ?d = "min e e'"
  have "nat (e - x) = nat (e - ?d) + nat (?d - x)" "nat (e' - x) = nat (e' - ?d) + nat (?d - x)"
    using assms by linarith+
  moreover have "(0 :: int) < 10 ^ nat (?d - x)" by simp
  ultimately show ?thesis
    by (simp add: scaled_less_def Let_def power_add mult.assoc [symmetric])
qed

definition num_parts :: "jsnum \<Rightarrow> int \<times> int" where
  "num_parts n = (case n of NInt i \<Rightarrow> (i, 0) | NDec m e _ \<Rightarrow> (m, e) | _ \<Rightarrow> (0, 0))"

lemma num_less_parts:
  "isFinite a \<Longrightarrow> isFinite b \<Longrightarrow> num_less a b = scaled_less (num_parts a) (num_parts b)"
  by (cases a; cases b) (simp_all add: isFinite_def num_parts_def scaled_less_def)

lemma num_not_less_trans:
  assumes "isFinite a" "isFinite b" "isFinite c" and "\<not> num_less a b" and "\<not> num_less b c"
  shows "\<not> num_less a c"
proof -
  obtain m e m' e' m'' e'' where p: "num_parts a = (m, e)" "num_parts b = (m', e')" "num_parts c = (m'', e'')"
    by (meson surj_pair)
  let ?x = "min e (min e' e'')"
  have "?x \<le> e" "?x \<le> e'" "?x \<le> e''" by simp_all
  note at = scaled_less_at [OF this(1,2), of m m'] scaled_less_at [OF this(2,3), of m' m''] scaled_less_at [OF this(1,3), of m m'']
  have "\<not> scaled_less (m, e) (m', e')" "\<not> scaled_less (m', e') (m'', e'')"
    using assms by (simp_all only: num_less_parts p not_False_eq_True)
  then have "\<not> scaled_less (m, e) (m'', e'')" unfolding at by linarith
  then show ?thesis using assms(1,3) by (simp only: num_less_parts p not_False_eq_True)
qed

lemma drift_free_keeps_floor:
  assumes "meets_floor expected" and "describeDrift expected actual = []"
    and "isFinite (pf_requiredApprovals expected)" and "isFinite (pf_requiredApprovals actual)"
  shows "meets_floor actual"
proof -
  have "\<not> num_less (pf_requiredApprovals actual) MIN_APPROVALS"
    by (rule num_not_less_trans [where b = "pf_requiredApprovals expected"])
      (use assms in \<open>simp_all add: meets_floor_def describeDrift_def MIN_APPROVALS_def isFinite_def\<close>)
  with assms(1,2) show ?thesis
    by (auto simp: meets_floor_def describeDrift_def flag_drift_def concat_eq_Nil_conv)
qed

lemma live_facts_finite:
  "live_facts ge op repo token h = (Inr (Some f), h') \<Longrightarrow> isFinite (pf_requiredApprovals f)"
  by (auto simp: live_facts_def bindG_Inr split: option.splits if_splits)

lemma classic_facts_finite:
  "classic_facts ge repo token h = (Inr (Some f), h') \<Longrightarrow> isFinite (pf_requiredApprovals f)"
  by (auto simp: classic_facts_def bindG_Inr split: if_splits)

lemma runVerify_ok:
  assumes "runVerify ge op h = (Inr (0, ps), h')" and "readDefinition ge (co_definitionPath op) = Inr def"
  obtains repo token live classic h1 f where
    "requireRepo op = Inr repo" "requireToken op = Inr token"
    "live_facts ge op repo token h = (Inr live, h1)" "classic_facts ge repo token h1 = (Inr classic, h')"
    "live = Some f \<or> live = None \<and> classic = Some f" "describeDrift (factsFromRuleset def) f = []"
  using assms unfolding runVerify_def bindG_Inr liftG_eq Let_def
  by (auto split: if_splits option.splits)

text \<open>Requests other than reads are only sent by the last step of the command \<open>apply\<close>.\<close>

definition only_reads :: "gh_request list \<Rightarrow> bool" where
  "only_reads h = list_all (\<lambda>q. rq_method q = GET) h"

lemma findRulesetId_reads:
  "findRulesetId ge op repo h = (r, h') \<Longrightarrow> only_reads h \<Longrightarrow> only_reads h'"
  by (auto simp: findRulesetId_def bindG_def liftG_def githubRequest_def get_request_def only_reads_def
      split: sum.splits if_splits)

lemma runApply_sends:
  assumes "runApply ge op h = (r, h')" and "only_reads h" and "\<not> only_reads h'"
  obtains def h1 token repo existing where
    "readDefinition ge (co_definitionPath op) = Inr def" "validateDefinition def = []"
    "code_owner_problems ge op = Inr []" "\<not> co_dryRun op"
    "requireRepo op = Inr repo" "requireToken op = Inr token"
    "only_reads h1" "h' = h1 @ [apply_request token repo (apply_payload def) existing]"
proof -
  from assms(2,3) have "h' \<noteq> h" by auto
  with assms(1) obtain repo token def existing h1 where
    d: "requireRepo op = Inr repo" "requireToken op = Inr token" "readDefinition ge (co_definitionPath op) = Inr def"
      "validateDefinition def = []" "code_owner_problems ge op = Inr []" "\<not> co_dryRun op"
    and f: "findRulesetId ge op repo h = (existing, h1)"
    and r: "case existing of
        Inl e \<Rightarrow> h' = h1
      | Inr ex \<Rightarrow> h' = h1 @ [apply_request token repo (apply_payload def) ex]"
    by (auto simp: runApply_def bindG_def liftG_def githubRequest_def Let_def split: sum.splits prod.splits if_splits)
  have "only_reads h1" using findRulesetId_reads [OF f assms(2)] .
  with assms(3) r d that show ?thesis by (auto split: sum.splits)
qed

section \<open>What the comparison leaves out\<close>

lemma num_less_irrefl: "isFinite n \<Longrightarrow> \<not> num_less n n"
  by (simp add: num_less_parts scaled_less_def)

lemma describeDrift_refl:
  "isFinite (pf_requiredApprovals f) \<Longrightarrow> describeDrift f f = []"
  by (simp add: describeDrift_def flag_drift_def num_less_irrefl concat_eq_Nil_conv)

lemma describeDrift_enforcement: "describeDrift e (f\<lparr>pf_enforcement := x\<rparr>) = describeDrift e f"
  by (simp add: describeDrift_def)

lemma pget_tput: "pget (tput k v d) k' = (if k' = k then v else pget d k')"
  by (simp add: pget_def flip: tget_def)

lemma facts_with_enforcement:
  "factsFromRuleset (tput ''enforcement'' (JStr x) d) = (factsFromRuleset d)\<lparr>pf_enforcement := x\<rparr>"
  by (simp add: factsFromRuleset_def Let_def pget_tput)

lemma facts_of_payload:
  "apply_payload d = JObj kvs \<Longrightarrow> factsFromRuleset kvs = factsFromRuleset d"
  by (auto simp: apply_payload_def factsFromRuleset_def Let_def pget_tput is_nullish_def asArray_def split: if_splits)

text \<open>The definition \<open>apply\<close> sends shows no drift when it is read back.\<close>

lemma applied_definition_has_no_drift:
  "apply_payload d = JObj kvs \<Longrightarrow> describeDrift (factsFromRuleset d) (factsFromRuleset kvs) = []"
  by (simp add: facts_of_payload describeDrift_refl)

end
