(* ===== verification/Protection_Example.thy ===== *)
theory Protection_Example
  imports Protection
begin

text \<open>
  The ruleset the repository ships, a repository on the host that answers with a given live
  ruleset, and what \<open>verify\<close> says of them: the definition as committed passes, and so does the
  same ruleset switched off.
\<close>

section \<open>The committed definition\<close>

text \<open>The file \<open>.github/rulesets/main.json\<close>.\<close>

definition committed_definition :: props where
  "committed_definition =
     [(''name'', JStr ''main-protection''), (''target'', JStr ''branch''), (''enforcement'', JStr ''active''),
      (''conditions'', JObj [(''ref_name'', JObj [(''include'', JArr [JStr ''~DEFAULT_BRANCH'']), (''exclude'', JArr [])])]),
      (''bypass_actors'', JArr []),
      (''rules'', JArr
        [JObj [(''type'', JStr ''deletion'')],
         JObj [(''type'', JStr ''non_fast_forward'')],
         JObj [(''type'', JStr ''pull_request''), (''parameters'', JObj
           [(''required_approving_review_count'', JNum (NInt 1)), (''dismiss_stale_reviews_on_push'', JBool True),
            (''require_code_owner_review'', JBool True), (''require_last_push_approval'', JBool False),
            (''required_review_thread_resolution'', JBool False),
            (''allowed_merge_methods'', JArr [JStr ''merge'', JStr ''squash'', JStr ''rebase''])])],
         JObj [(''type'', JStr ''required_status_checks''), (''parameters'', JObj
           [(''strict_required_status_checks_policy'', JBool False), (''do_not_enforce_on_create'', JBool False),
            (''required_status_checks'', JArr
              [JObj [(''context'', JStr ''build-and-test (22)'')], JObj [(''context'', JStr ''build-and-test (24)'')],
               JObj [(''context'', JStr ''docker-build'')]])])]])]"

lemma committed_definition_valid: "validateDefinition committed_definition = []"
  by code_simp

lemma committed_definition_plain: "json_plain (JObj committed_definition)"
  by code_simp

text \<open>A repository without the ruleset but with the same rules as a ruleset answer.\<close>

definition listing :: jsval where
  "listing = JArr [JObj [(''id'', JNum (NInt 7)), (''name'', JStr ''main-protection'')]]"

definition demo_env :: "jsval \<Rightarrow> gh_env" where
  "demo_env live =
     \<lparr>ge_vars = [(''GH_TOKEN'', ''t''), (''GITHUB_REPOSITORY'', ''o/r'')],
      ge_file = (\<lambda>p. if p = DEFAULT_DEFINITION_PATH then Some (json_text (JObj committed_definition))
                    else if p = DEFAULT_CODEOWNERS_PATH then Some ''src/ @me'' else None),
      ge_resolve = id, ge_json_error = (\<lambda>_. []),
      ge_answer = (\<lambda>h. if rq_method (last h) \<noteq> GET then Inr (200, [])
                      else if rq_path (last h) = ''/repos/o/r/rulesets?per_page=100'' then Inr (200, json_text listing)
                      else if rq_path (last h) = ''/repos/o/r/rulesets/7'' then Inr (200, json_text live)
                      else Inr (404, []))\<rparr>"

definition demo_options :: "gh_command \<Rightarrow> CliOptions" where
  "demo_options c = \<lparr>co_command = c, co_repo = Some ''o/r'', co_definitionPath = DEFAULT_DEFINITION_PATH,
     co_token = Some ''t'', co_dryRun = False, co_force = False\<rparr>"

lemma JSON_parse_text: "json_plain v \<Longrightarrow> JSON_parse (json_text v) = Some v"
  using JSON_parse_stringify [of v] by (cases v) (simp_all add: JSON_stringify_def)

lemma json_text_not_Nil: "json_plain v \<Longrightarrow> json_text v \<noteq> []"
  using json_text_opens [of v] by auto

lemma listing_plain: "json_plain listing" and listing_id: "own_ruleset_id listing = Some (NInt 7)"
  by code_simp+

lemma demo_definition: "readDefinition (demo_env live) DEFAULT_DEFINITION_PATH = Inr committed_definition"
  by (simp add: readDefinition_def readText_def demo_env_def JSON_parse_text [OF committed_definition_plain] del: json_text.simps)

text \<open>The three requests \<open>verify\<close> makes and their answers.\<close>

lemma safeJson_text: "json_plain v \<Longrightarrow> safeJson (json_text v) = v"
  by (simp add: safeJson_def JSON_parse_text)

lemma demo_answers:
  "githubRequest (demo_env live) (get_request t ''/repos/o/r/rulesets?per_page=100'') h =
     (Inr \<lparr>gr_status = 200, gr_body = listing\<rparr>, h @ [get_request t ''/repos/o/r/rulesets?per_page=100''])"
  "json_plain live \<Longrightarrow> githubRequest (demo_env live) (get_request t ''/repos/o/r/rulesets/7'') h =
     (Inr \<lparr>gr_status = 200, gr_body = live\<rparr>, h @ [get_request t ''/repos/o/r/rulesets/7''])"
  "githubRequest (demo_env live) (get_request t ''/repos/o/r/branches/main/protection'') h =
     (Inr \<lparr>gr_status = 404, gr_body = JUndefined\<rparr>, h @ [get_request t ''/repos/o/r/branches/main/protection''])"
  by (simp_all add: githubRequest_def get_request_def demo_env_def json_text_not_Nil safeJson_text listing_plain
      del: json_text.simps)

lemma demo_required: "requireRepo (demo_options c) = Inr ''o/r''" "requireToken (demo_options c) = Inr ''t''"
proof -
  have "rx_test repo_rx ''o/r''" by code_simp
  then show "requireRepo (demo_options c) = Inr ''o/r''" "requireToken (demo_options c) = Inr ''t''"
    by (simp_all add: requireRepo_def requireToken_def demo_options_def)
qed

lemma demo_find:
  "findRulesetId (demo_env live) (demo_options c) ''o/r'' h =
     (Inr (Some (NInt 7)), h @ [get_request ''t'' ''/repos/o/r/rulesets?per_page=100''])"
  by (simp add: findRulesetId_def bindG_def liftG_def demo_required rulesets_path_def demo_answers listing_id)

lemma ruleset_path_7: "ruleset_path ''o/r'' (NInt 7) = ''/repos/o/r/rulesets/7''"
  by code_simp

lemma demo_live:
  assumes "json_plain (JObj kvs)"
  shows "\<exists>h'. live_facts (demo_env (JObj kvs)) (demo_options c) ''o/r'' ''t'' h = (Inr (Some (factsFromRuleset kvs)), h')"
  by (simp add: live_facts_def bindG_def liftG_def demo_find ruleset_path_7 demo_answers(2) [OF assms] props_of_def
      is_nullish_def asRecord_def)

lemma demo_verify:
  assumes "json_plain (JObj kvs)" and "describeDrift (factsFromRuleset committed_definition) (factsFromRuleset kvs) = []"
  shows "\<exists>h'. runVerify (demo_env (JObj kvs)) (demo_options Verify) [] = (Inr (0, []), h')"
proof -
  obtain h1 where l: "live_facts (demo_env (JObj kvs)) (demo_options Verify) ''o/r'' ''t'' [] = (Inr (Some (factsFromRuleset kvs)), h1)"
    using demo_live [OF assms(1)] by blast
  have "\<exists>h2. classic_facts (demo_env (JObj kvs)) ''o/r'' ''t'' h1 = (Inr None, h2)"
    by (simp add: classic_facts_def bindG_def liftG_def protection_path_def demo_answers)
  moreover have "co_definitionPath (demo_options Verify) = DEFAULT_DEFINITION_PATH" by (simp add: demo_options_def)
  ultimately show ?thesis using l assms(2) demo_definition [of "JObj kvs"]
    by (auto simp: runVerify_def bindG_def liftG_def demo_required Let_def)
qed

lemma demo_owners: "code_owner_problems (demo_env live) (demo_options c) = Inr []"
proof -
  have "validateCodeOwners ''src/ @me'' = []" by code_simp
  moreover have "DEFAULT_CODEOWNERS_PATH \<noteq> DEFAULT_DEFINITION_PATH" by code_simp
  ultimately show ?thesis by (simp add: code_owner_problems_def demo_options_def readText_def demo_env_def)
qed

lemma demo_apply: "\<exists>h'. runApply (demo_env live) (demo_options Apply) [] = (Inr (0, []), h') \<and> \<not> only_reads h'"
proof -
  let ?rq = "apply_request ''t'' ''o/r'' (apply_payload committed_definition) (Some (NInt 7))"
  have rq: "rq_method ?rq = PUT" by (simp add: apply_request_def)
  then have put: "githubRequest (demo_env live) ?rq h = (Inr \<lparr>gr_status = 200, gr_body = JUndefined\<rparr>, h @ [?rq])" for h
    by (simp add: githubRequest_def demo_env_def)
  have o: "co_definitionPath (demo_options Apply) = DEFAULT_DEFINITION_PATH" "\<not> co_dryRun (demo_options Apply)"
    by (simp_all add: demo_options_def)
  show ?thesis
    by (simp add: runApply_def bindG_def liftG_def demo_required o demo_definition committed_definition_valid
        demo_owners demo_find put only_reads_def rq)
qed

text \<open>
  A live ruleset that is switched off passes: the comparison does not look at the enforcement.
\<close>

lemma disabled_ruleset_verifies:
  "\<exists>h'. runVerify (demo_env (JObj (tput ''enforcement'' (JStr ''disabled'') committed_definition))) (demo_options Verify) [] = (Inr (0, []), h')"
proof (rule demo_verify)
  show "json_plain (JObj (tput ''enforcement'' (JStr ''disabled'') committed_definition))" by code_simp
  show "describeDrift (factsFromRuleset committed_definition)
      (factsFromRuleset (tput ''enforcement'' (JStr ''disabled'') committed_definition)) = []"
    by (simp add: facts_with_enforcement describeDrift_enforcement describeDrift_refl)
qed

text \<open>Keys of other sections of a workflow count as jobs, so a check named after one is accepted.\<close>

lemma workflow_keys_outside_jobs: "checkWorkflowCheckContexts [''push''] (''on:'' @ [CHR 0x0A] @ ''  push:'') = []"
  by code_simp

text \<open>
  \<open>branch-protection apply\<close> changes the repository by one request at most, its last, and only with
  a definition that passed all checks, with code owners that did (or \<open>--force\<close>), and without \<open>--dry-run\<close>;
  the body it sends shows no drift from the definition.
\<close>

lemma apply_sends_only_checked_definitions:
  assumes "runApply ge op h = (r, h')" and "only_reads h" and "\<not> only_reads h'"
  shows "\<exists>def h1 token repo existing kvs. readDefinition ge (co_definitionPath op) = Inr def \<and>
    validateDefinition def = [] \<and> code_owner_problems ge op = Inr [] \<and> \<not> co_dryRun op \<and>
    only_reads h1 \<and> h' = h1 @ [apply_request token repo (JObj kvs) existing] \<and>
    describeDrift (factsFromRuleset def) (factsFromRuleset kvs) = []"
proof -
  from assms obtain def h1 token repo existing where a: "readDefinition ge (co_definitionPath op) = Inr def"
    "validateDefinition def = []" "code_owner_problems ge op = Inr []" "\<not> co_dryRun op" "only_reads h1"
    "h' = h1 @ [apply_request token repo (apply_payload def) existing]"
    by (rule runApply_sends)
  moreover obtain kvs where k: "apply_payload def = JObj kvs" by (simp add: apply_payload_def)
  ultimately show ?thesis using applied_definition_has_no_drift [OF k] by (metis (no_types))
qed

lemma apply_sends_only_checked_definitions_example:
  "\<exists>r h' def h1 token repo existing kvs. runApply (demo_env JNull) (demo_options Apply) [] = (r, h') \<and>
     validateDefinition def = [] \<and> h' = h1 @ [apply_request token repo (JObj kvs) existing] \<and>
     describeDrift (factsFromRuleset def) (factsFromRuleset kvs) = []"
proof -
  let ?op = "demo_options Apply"
  obtain r h' where a: "runApply (demo_env JNull) ?op [] = (r, h')" "\<not> only_reads h'"
    using demo_apply by blast
  from apply_sends_only_checked_definitions [OF a(1) _ a(2)] a(1) show ?thesis
    by (simp add: only_reads_def) blast
qed

end
