(* ===== verification/Scripts.thy ===== *)
theory Scripts
  imports Json Config
begin

text \<open>
  Smaller tools of the repository: the license check (\<open>src/scripts/check-licenses.ts\<close>), the removal of
  left-over test schemas (\<open>src/scripts/clean-test-schemas.ts\<close>), and the level filter and address
  shortening of the logger (\<open>src/src/lib/logger.ts\<close>). Printed lines are modelled where they are the result.
\<close>

section \<open>Licenses\<close>

definition APPROVED_LICENSES :: "string list" where
  "APPROVED_LICENSES = [''MIT'', ''ISC'', ''Apache-2.0'', ''BSD-3-Clause'', ''BSD-2-Clause'', ''BlueOak-1.0.0'', ''MPL-2.0'',
     ''CC0-1.0'', ''CC-BY-3.0'', ''(MIT AND CC-BY-3.0)'']"

definition DISALLOWED_LICENSES :: "string list" where
  "DISALLOWED_LICENSES = [''GPL-2.0'', ''GPL-3.0'', ''LGPL-2.0'', ''LGPL-3.0'', ''AGPL-3.0'', ''UNLICENSED'']"

text \<open>\<open>info.licenses || 'UNLICENSED'\<close>; the tool reports several licenses as an array.\<close>

definition license_of :: "jsval \<Rightarrow> jsval" where
  "license_of l = (if l \<in> {JUndefined, JNull, JBool False, JNum (NInt 0), JNum NNaN, JStr []} then JStr ''UNLICENSED'' else l)"

definition set_has :: "string list \<Rightarrow> jsval \<Rightarrow> bool" where
  "set_has s v = (case v of JStr x \<Rightarrow> x \<in> set s | _ \<Rightarrow> False)"

record violation =
  vi_pkg :: string
  vi_license :: string
  vi_reason :: string

definition package_violations :: "string \<times> jsval \<Rightarrow> violation list" where
  "package_violations pl =
     (let license = license_of (snd pl); text = js_String license in
      if set_has DISALLOWED_LICENSES license then
        [\<lparr>vi_pkg = fst pl, vi_license = text, vi_reason = ''Disallowed license: '' @ text @ '' is not compatible with MIT''\<rparr>]
      else if \<not> set_has APPROVED_LICENSES license then
        [\<lparr>vi_pkg = fst pl, vi_license = text, vi_reason = ''License not on approved list: '' @ text @ '' requires review''\<rparr>]
      else [])"

definition checked_packages :: "(string \<times> jsval) list \<Rightarrow> (string \<times> jsval) list" where
  "checked_packages licenses = filter (\<lambda>(pkg, _). \<not> js_startsWith pkg ''ourdao-backend@'') licenses"

text \<open>The summary counts packages by the text of their license.\<close>

definition license_summary :: "(string \<times> jsval) list \<Rightarrow> (string, nat) tbl" where
  "license_summary licenses =
     fold (\<lambda>(_, l) t. tupsert (js_String (license_of l)) 1 (\<lambda>n. n + 1) t) (checked_packages licenses) []"

definition license_violations :: "(string \<times> jsval) list \<Rightarrow> violation list" where
  "license_violations licenses = concat (map package_violations (checked_packages licenses))"

text \<open>The exit code; \<open>report\<close> is the output of the license checker, parsed, or a failure to run it.\<close>

definition check_licenses :: "exn + (string \<times> jsval) list \<Rightarrow> nat \<times> violation list" where
  "check_licenses report =
     (case report of
        Inl e \<Rightarrow> (1, [])
      | Inr licenses \<Rightarrow> (if license_violations licenses \<noteq> [] then (1, license_violations licenses) else (0, [])))"

lemma license_lists_disjoint: "set APPROVED_LICENSES \<inter> set DISALLOWED_LICENSES = {}"
  by code_simp

lemma set_has_iff: "set_has xs v \<longleftrightarrow> (\<exists>s \<in> set xs. v = JStr s)"
  by (cases v) (auto simp: set_has_def)

lemma package_violations_Nil:
  "package_violations (pkg, l) = [] \<longleftrightarrow> set_has APPROVED_LICENSES (license_of l)"
proof -
  have "set_has APPROVED_LICENSES v \<Longrightarrow> \<not> set_has DISALLOWED_LICENSES v" for v
    using license_lists_disjoint by (cases v) (auto simp: set_has_def)
  then show ?thesis by (auto simp: package_violations_def Let_def)
qed

text \<open>
  The check passes exactly when every dependency but the package itself names one license that is
  on the approved list.
\<close>

theorem license_check_passes:
  "fst (check_licenses (Inr licenses)) = 0 \<longleftrightarrow>
     (\<forall>(pkg, l) \<in> set licenses. js_startsWith pkg ''ourdao-backend@'' \<or> (\<exists>s \<in> set APPROVED_LICENSES. license_of l = JStr s))"
proof -
  have "fst (check_licenses (Inr licenses)) = 0 \<longleftrightarrow> (\<forall>p \<in> set (checked_packages licenses). package_violations p = [])"
    by (auto simp: check_licenses_def license_violations_def)
  also have "\<dots> \<longleftrightarrow> (\<forall>(pkg, l) \<in> set (checked_packages licenses). set_has APPROVED_LICENSES (license_of l))"
    by (auto simp: package_violations_Nil)
  also have "\<dots> \<longleftrightarrow> (\<forall>(pkg, l) \<in> set licenses. js_startsWith pkg ''ourdao-backend@'' \<or> set_has APPROVED_LICENSES (license_of l))"
    by (auto simp: checked_packages_def)
  finally show ?thesis by (simp only: set_has_iff)
qed

text \<open>The counts of the summary add up to the packages checked.\<close>

lemma summary_counts:
  "tsum int (fold (\<lambda>(_, l) t. tupsert (js_String (license_of l)) 1 (\<lambda>n. n + 1) t) ps t) = tsum int t + int (length ps)"
  by (induction ps arbitrary: t) (auto simp: tsum_tupsert split: option.split)

lemma license_summary_total: "tsum int (license_summary licenses) = int (length (checked_packages licenses))"
  unfolding license_summary_def summary_counts by simp

section \<open>Test schemas\<close>

text \<open>\<open>LIKE\<close> without escapes: \<open>%\<close> matches any text, \<open>_\<close> any one character.\<close>

fun sql_like :: "string \<Rightarrow> string \<Rightarrow> bool" where
  "sql_like [] s = (s = [])"
| "sql_like (p # ps) s =
     (if p = CHR ''%'' then list_ex (\<lambda>n. sql_like ps (drop n s)) [0..<Suc (length s)]
      else s \<noteq> [] \<and> (p = CHR ''_'' \<or> p = hd s) \<and> sql_like ps (tl s))"

definition TEST_SCHEMA_PATTERN :: string where
  "TEST_SCHEMA_PATTERN = ''test_worker_%''"

text \<open>
  The schemas found are dropped one by one; the first failure ends the script with code 1, and the
  schemas dropped before it stay dropped.
\<close>

fun drop_schemas :: "(string \<Rightarrow> bool) \<Rightarrow> string list \<Rightarrow> string list \<Rightarrow> nat \<times> string list" where
  "drop_schemas fails [] schemas = (0, schemas)"
| "drop_schemas fails (s # rows) schemas =
     (if fails s then (1, schemas) else drop_schemas fails rows (filter (\<lambda>x. x \<noteq> s) schemas))"

definition clean_test_schemas :: "bool \<Rightarrow> (string \<Rightarrow> bool) \<Rightarrow> string list \<Rightarrow> nat \<times> string list" where
  "clean_test_schemas query_fails fails schemas =
     (if query_fails then (1, schemas)
      else drop_schemas fails (sort (filter (sql_like TEST_SCHEMA_PATTERN) schemas)) schemas)"

lemma drop_schemas_ok:
  "drop_schemas fails rows schemas = (0, left) \<Longrightarrow> left = filter (\<lambda>x. x \<notin> set rows) schemas"
proof (induction rows arbitrary: schemas)
  case (Cons s rows)
  from Cons.prems have "drop_schemas fails rows (filter (\<lambda>x. x \<noteq> s) schemas) = (0, left)" by (simp split: if_splits)
  from Cons.IH [OF this] show ?case by simp
qed simp

lemma drop_schemas_within:
  "drop_schemas fails rows schemas = (c, left) \<Longrightarrow> set left \<subseteq> set schemas \<and> set schemas - set rows \<subseteq> set left"
  by (induction rows arbitrary: schemas) (fastforce split: if_splits)+

text \<open>Whatever fails, no schema outside the pattern is lost, and after an exit with 0 all inside it are gone.\<close>

lemma clean_keeps_other_schemas:
  assumes "clean_test_schemas qf fails schemas = (c, left)" and "s \<in> set schemas" and "\<not> sql_like TEST_SCHEMA_PATTERN s"
  shows "s \<in> set left"
  using assms drop_schemas_within [of fails "sort (filter (sql_like TEST_SCHEMA_PATTERN) schemas)" schemas c left]
  by (auto simp: clean_test_schemas_def split: if_splits)

text \<open>A schema that starts with \<open>test_worker_\<close> is dropped, but the underscores match other characters too.\<close>

lemma like_percent: "sql_like ''%'' s"
proof -
  have "sql_like [] (drop (length s) s)" by simp
  then show ?thesis by (auto simp: list_ex_iff intro!: bexI [of _ "length s"])
qed

lemma worker_schemas_dropped:
  assumes "clean_test_schemas qf fails schemas = (0, left)"
  shows "''test_worker_'' @ w \<notin> set left"
proof -
  have "sql_like TEST_SCHEMA_PATTERN (''test_worker_'' @ w)"
    using like_percent [of w] by (simp add: TEST_SCHEMA_PATTERN_def)
  with assms show ?thesis by (auto simp: clean_test_schemas_def split: if_splits dest!: drop_schemas_ok)
qed

lemma other_schema_dropped: "clean_test_schemas False (\<lambda>_. False) [''test_workers''] = (0, [])"
  by code_simp

section \<open>Log levels and addresses\<close>

definition LEVELS :: "(string \<times> nat) list" where
  "LEVELS = [(''silent'', 0), (''fatal'', 1), (''error'', 2), (''warn'', 3), (''info'', 4), (''debug'', 5), (''trace'', 6)]"

definition currentLevel :: "string \<Rightarrow> nat" where
  "currentLevel configured = (case map_of LEVELS configured of Some n \<Rightarrow> n | None \<Rightarrow> 4)"

definition log_emitted :: "string \<Rightarrow> string \<Rightarrow> bool" where
  "log_emitted configured level =
     (\<not> currentLevel configured < (case map_of LEVELS level of Some n \<Rightarrow> n | None \<Rightarrow> 0))"

definition formatAddress :: "string \<Rightarrow> string" where
  "formatAddress a = (if length a \<le> 12 then a else take 4 a @ ''...'' @ drop (length a - 4) a)"

lemma formatAddress_short: "length (formatAddress a) \<le> 12"
  by (simp add: formatAddress_def)

end
