(* ===== verification/Sse_Client.thy ===== *)
theory Sse_Client
  imports Stream Json
begin

text \<open>
  The reader of the event stream in the load test (\<open>src/scripts/load-test-stream.ts\<close>): a buffer that is
  cut at blank lines as chunks arrive. However the bytes the server writes are cut into chunks, the
  reader hands over the frames of the messages, each once and in order.
\<close>

section \<open>The reader\<close>

abbreviation line_feed :: char where
  "line_feed \<equiv> CHR 0x0A"

text \<open>\<open>buf.indexOf('\n\n')\<close> with the two slices around it.\<close>

fun cut_frame :: "string \<Rightarrow> (string \<times> string) option" where
  "cut_frame (a # b # s) =
     (if a = line_feed \<and> b = line_feed then Some ([], s) else map_option (apfst ((#) a)) (cut_frame (b # s)))"
| "cut_frame _ = None"

lemma cut_frame_shorter: "cut_frame buf = Some (f, rest) \<Longrightarrow> length rest < length buf"
  by (induction buf arbitrary: f rule: cut_frame.induct) (fastforce split: if_splits)+

text \<open>The inner loop: the raw frames of a buffer and what is left of it.\<close>

function take_frames :: "string \<Rightarrow> string list \<times> string" where
  "take_frames buf =
     (case cut_frame buf of None \<Rightarrow> ([], buf) | Some (f, rest) \<Rightarrow> apfst ((#) f) (take_frames rest))"
  by auto
termination
  by (relation "measure length") (auto dest: cut_frame_shorter)

declare take_frames.simps [simp del]

text \<open>The handler of \<open>data\<close> events.\<close>

definition on_data :: "string \<Rightarrow> string list \<times> string \<Rightarrow> string list \<times> string" where
  "on_data chunk fb = (case take_frames (snd fb @ chunk) of (fs, buf) \<Rightarrow> (fst fb @ fs, buf))"

definition read_chunks :: "string list \<Rightarrow> string list \<times> string" where
  "read_chunks chunks = fold on_data chunks ([], [])"

section \<open>Chunks do not matter\<close>

lemma cut_frame_append: "cut_frame a = Some (f, rest) \<Longrightarrow> cut_frame (a @ b) = Some (f, rest @ b)"
  by (induction a arbitrary: f rule: cut_frame.induct) (fastforce split: if_splits)+

lemma take_frames_append:
  "take_frames (a @ b) = apfst ((@) (fst (take_frames a))) (take_frames (snd (take_frames a) @ b))"
proof (induction a rule: take_frames.induct)
  case (1 a)
  show ?case
  proof (cases "cut_frame a")
    case None
    then show ?thesis by (cases "take_frames (a @ b)") (simp add: take_frames.simps [of a])
  next
    case (Some fr)
    then obtain f rest where fr: "cut_frame a = Some (f, rest)" by (cases fr) auto
    with 1 [OF fr refl] cut_frame_append [OF fr, of b] show ?thesis
      by (simp add: take_frames.simps [of a] take_frames.simps [of "a @ b"] prod.map_comp o_def)
        (simp add: prod.expand)
  qed
qed

lemma take_frames_rest: "take_frames (snd (take_frames buf)) = ([], snd (take_frames buf))"
proof (induction buf rule: take_frames.induct)
  case (1 buf)
  then show ?case by (cases "cut_frame buf") (auto simp: take_frames.simps [of buf])
qed

lemma fold_on_data:
  "take_frames buf = ([], buf) \<Longrightarrow> fold on_data chunks (fs, buf) = apfst ((@) fs) (take_frames (buf @ concat chunks))"
proof (induction chunks arbitrary: fs buf)
  case (Cons c chunks)
  obtain gs rest where g: "take_frames (buf @ c) = (gs, rest)" by (cases "take_frames (buf @ c)")
  with take_frames_rest [of "buf @ c"] have "take_frames rest = ([], rest)" by simp
  from Cons.IH [OF this, of "fs @ gs"] g take_frames_append [of "buf @ c" "concat chunks"]
  show ?case by (cases "take_frames (rest @ concat chunks)") (simp add: on_data_def)
qed simp

lemma read_chunks_concat: "read_chunks chunks = take_frames (concat chunks)"
  unfolding read_chunks_def
  by (cases "take_frames (concat chunks)") (simp add: fold_on_data take_frames.simps [of "[]"])

section \<open>Frames of the server\<close>

text \<open>A raw frame without a blank line inside or a line end at its end.\<close>

fun one_frame :: "string \<Rightarrow> bool" where
  "one_frame (a # b # s) = (\<not> (a = line_feed \<and> b = line_feed) \<and> one_frame (b # s))"
| "one_frame [a] = (a \<noteq> line_feed)"
| "one_frame [] = True"

lemma cut_one_frame: "one_frame f \<Longrightarrow> cut_frame (f @ nl @ nl @ s) = Some (f, s)"
  by (induction f rule: one_frame.induct) (auto simp: nl_def)

lemma take_clean_frames: "list_all one_frame fs \<Longrightarrow> take_frames (concat (map (\<lambda>f. f @ nl @ nl) fs)) = (fs, [])"
proof (induction fs)
  case (Cons f fs)
  then show ?case by (subst take_frames.simps) (simp add: cut_one_frame)
qed (simp add: take_frames.simps)

text \<open>Printed values have no line ends.\<close>

lemma hex_digit_line: "n < 16 \<Longrightarrow> line_feed \<noteq> hex_digit n"
proof
  assume "n < 16" and "line_feed = hex_digit n"
  then have "hex_val line_feed = Some n" using hex_val_hex_digit by simp
  moreover have "hex_val line_feed = None" by code_simp
  ultimately show False by simp
qed

lemma json_escape_line: "line_feed \<notin> set (json_escape c)"
  using hex_digit_line [of "of_char c div 16"] hex_digit_line [of "of_char c mod 16"]
  by (auto simp: json_escape_def Let_def)

lemma json_quote_line: "line_feed \<notin> set (json_quote s)"
  using json_escape_line by (auto simp: json_quote_def dquote_def)

lemma show_int_line: "line_feed \<notin> set (show_int i)"
proof -
  have "line_feed \<notin> set (show_nat n)" for n
    using all_digits_show_nat [of n] by (auto simp: all_digits_def list_all_iff is_digit_def)
  then show ?thesis by (simp add: show_int_def)
qed

lemma js_join_line: "line_feed \<notin> set sep \<Longrightarrow> \<forall>w \<in> set ws. line_feed \<notin> set w \<Longrightarrow> line_feed \<notin> set (js_join sep ws)"
  by (induction sep ws rule: js_join.induct) auto

lemma json_text_line: "json_plain v \<Longrightarrow> line_feed \<notin> set (json_text v)"
proof (induction v)
  case (JNum n)
  then show ?case by (cases n) (simp_all add: num_String_def show_int_line)
next
  case (JStr s)
  then show ?case by (simp add: json_quote_line)
next
  case (JArr vs)
  have "line_feed \<notin> set (js_join '','' (map json_text vs))"
    by (rule js_join_line) (use JArr in \<open>auto simp: list_all_iff\<close>)
  then show ?case by simp
next
  case (JObj kvs)
  have "line_feed \<notin> set (js_join '','' (concat (map (\<lambda>kv. if snd kv = JUndefined then []
      else [json_quote (fst kv) @ '':'' @ json_text (snd kv)]) kvs)))"
    by (rule js_join_line) (use JObj json_quote_line in \<open>fastforce simp: list_all_iff split: if_splits\<close>)+
  then show ?case by simp
qed simp_all

section \<open>Round trip\<close>

definition raw_frame :: "jsnum \<times> stream_message \<Rightarrow> string" where
  "raw_frame lm =
     ''event: '' @ sm_type (snd lm) @ nl @ ''id: '' @ num_String (fst lm) @ nl @ ''data: '' @
     json_text (JObj [(''type'', JStr (sm_type (snd lm))),
       (''channel'', case sm_channel (snd lm) of Some ch \<Rightarrow> JStr ch | None \<Rightarrow> JUndefined),
       (''payload'', sm_payload (snd lm)), (''timestamp'', JNum (NInt (sm_timestamp (snd lm))))])"

lemma frame_text_raw: "frame_text (fst lm) (snd lm) = raw_frame lm @ nl @ nl"
  by (simp add: frame_text_def raw_frame_def)

text \<open>Messages of the server: an integer id, a type on one line, a payload of JSON or none.\<close>

definition sendable :: "jsnum \<times> stream_message \<Rightarrow> bool" where
  "sendable lm = ((\<exists>i. fst lm = NInt i) \<and> line_feed \<notin> set (sm_type (snd lm)) \<and>
     (sm_payload (snd lm) = JUndefined \<or> json_plain (sm_payload (snd lm))))"

lemma one_frame_line: "x \<noteq> [] \<Longrightarrow> line_feed \<notin> set x \<Longrightarrow> one_frame x"
  by (induction x rule: one_frame.induct) auto

lemma one_frame_lines:
  "line_feed \<notin> set x \<Longrightarrow> one_frame (c # y) \<Longrightarrow> c \<noteq> line_feed \<Longrightarrow> one_frame (x @ line_feed # c # y)"
  by (induction x rule: one_frame.induct) auto

lemma raw_frame_clean:
  assumes "sendable lm"
  shows "one_frame (raw_frame lm)"
proof -
  obtain i where i: "fst lm = NInt i" using assms by (auto simp: sendable_def)
  let ?data = "json_text (JObj [(''type'', JStr (sm_type (snd lm))),
       (''channel'', case sm_channel (snd lm) of Some ch \<Rightarrow> JStr ch | None \<Rightarrow> JUndefined),
       (''payload'', sm_payload (snd lm)), (''timestamp'', JNum (NInt (sm_timestamp (snd lm))))])"
  have d: "line_feed \<notin> set ?data"
    using assms json_text_line [of "sm_payload (snd lm)"]
    by (auto simp: sendable_def json_quote_line num_String_def show_int_line isFinite_def split: option.splits)
  have "one_frame (''data: '' @ ?data)" by (rule one_frame_line) (use d in simp_all)
  then have "one_frame ((''id: '' @ num_String (fst lm)) @ line_feed # CHR ''d'' # ''ata: '' @ ?data)"
    by (intro one_frame_lines) (simp_all add: i num_String_def show_int_line)
  then have "one_frame ((''event: '' @ sm_type (snd lm)) @ line_feed # CHR ''i'' # ''d: '' @ num_String (fst lm) @ line_feed # ''data: '' @ ?data)"
    using assms by (intro one_frame_lines) (simp_all add: sendable_def)
  then show ?thesis by (simp add: raw_frame_def nl_def del: json_text.simps)
qed

text \<open>However the frames of the server are cut into chunks, the reader gets them back.\<close>

theorem stream_read_back:
  assumes "concat chunks = concat (map (\<lambda>(l, m). frame_text l m) sent)" and "list_all sendable sent"
  shows "read_chunks chunks = (map raw_frame sent, [])"
proof -
  have "map (\<lambda>(l, m). frame_text l m) sent = map ((\<lambda>f. f @ nl @ nl) \<circ> raw_frame) sent"
    using frame_text_raw by (auto simp: case_prod_unfold)
  then have "concat chunks = concat (map (\<lambda>f. f @ nl @ nl) (map raw_frame sent))"
    by (simp only: assms(1) map_map)
  moreover have "list_all one_frame (map raw_frame sent)"
    using assms(2) raw_frame_clean by (auto simp: list_all_iff)
  ultimately show ?thesis by (simp only: read_chunks_concat take_clean_frames)
qed

end
