(* ===== verification/Step_System.thy ===== *)
theory Step_System
  imports Main
begin

text \<open>
  Two contracts that the step relations of the development share: an invariant kept by every step,
  and a detailed relation whose every step is a run of an abstract one.
\<close>

locale step_system =
  fixes initial :: "'s \<Rightarrow> bool"
    and step :: "'s \<Rightarrow> 's \<Rightarrow> bool"
    and inv :: "'s \<Rightarrow> bool"
  assumes inv_initial: "initial s \<Longrightarrow> inv s"
    and inv_step: "inv s \<Longrightarrow> step s s' \<Longrightarrow> inv s'"
begin

lemma inv_run:
  assumes "step\<^sup>*\<^sup>* s s'" "inv s"
  shows "inv s'"
  using assms by (induction rule: rtranclp_induct) (auto intro: inv_step)

lemma inv_reachable: "step\<^sup>*\<^sup>* s s' \<Longrightarrow> initial s \<Longrightarrow> inv s'"
  by (rule inv_run [OF _ inv_initial])

text \<open>What every step from a state of the invariant keeps, every run keeps.\<close>

lemma kept_run:
  assumes "step\<^sup>*\<^sup>* s s'" "inv s" "P s" "\<And>t t'. inv t \<Longrightarrow> P t \<Longrightarrow> step t t' \<Longrightarrow> P t'"
  shows "P s'"
proof -
  from assms have "inv s' \<and> P s'"
    by (induction rule: rtranclp_induct) (auto intro: inv_step)
  then show ?thesis ..
qed

end

locale step_simulation =
  fixes concrete :: "'c \<Rightarrow> 'c \<Rightarrow> bool"
    and abstract :: "'a \<Rightarrow> 'a \<Rightarrow> bool"
    and abs :: "'c \<Rightarrow> 'a"
  assumes simulates: "concrete s s' \<Longrightarrow> abstract\<^sup>*\<^sup>* (abs s) (abs s')"
begin

lemma run_simulated:
  assumes "concrete\<^sup>*\<^sup>* s s'"
  shows "abstract\<^sup>*\<^sup>* (abs s) (abs s')"
  using assms by (induction rule: rtranclp_induct) (auto dest: simulates)

end

end
