(* ===== verification/Poll_Loop.thy ===== *)
theory Poll_Loop
  imports System Step_System
begin

text \<open>
  The loop of \<open>runIndexer\<close> with its abort signal, its sleep and \<open>stopIndexer\<close>
  (\<open>src/src/indexer/poller.ts\<close>). A poll begins with one step and ends with another, and so does a sleep;
  between any two steps the clock advances, the signal arrives and other processes use the database. What a
  poll does to the database it does at its end, in an environment of its own. The log of the polls is a
  ghost: no step reads it.
\<close>

section \<open>The loop\<close>

datatype loop_phase =
    Loop_top
  | In_tick int "string list" \<comment> \<open>\<open>now\<close> and the contracts the \<open>for\<close> has not come to\<close>
  | Polling int string "string list" int \<comment> \<open>the same, the contract whose \<open>fetchOnce\<close> is awaited, and since when\<close>
  | Asleep int \<comment> \<open>until this time\<close>
  | Loop_ended "exn option" \<comment> \<open>\<open>finally\<close> has run: returned, or threw\<close>

record poll_entry =
  pl_contract :: string
  pl_start :: int
  pl_end :: int
  pl_failures :: nat \<comment> \<open>consecutive failures of the contract, this poll included\<close>

record loop =
  lo_indexer :: indexer
  lo_schedule :: schedule
  lo_phase :: loop_phase
  lo_aborted :: bool
  lo_clock :: int
  lo_polls :: "poll_entry list"

definition loop_start :: "string list \<Rightarrow> int \<Rightarrow> indexer \<Rightarrow> loop" where
  "loop_start contractIds clock ix =
     \<lparr>lo_indexer = ix, lo_schedule = initial_schedule contractIds, lo_phase = Loop_top,
      lo_aborted = False, lo_clock = clock, lo_polls = []\<rparr>"

text \<open>\<open>runIndexer\<close> up to its loop: the start-up checks, then \<open>running\<close>, a new signal and an empty schedule.\<close>

definition runIndexer ::
  "(int \<Rightarrow> string) \<Rightarrow> indexer_config \<Rightarrow> bool \<Rightarrow> bool \<Rightarrow> exn + string list \<Rightarrow> int \<Rightarrow> indexer \<Rightarrow> exn + string list \<times> loop" where
  "runIndexer isoTime cfg alreadyRunning lockFree configured clock ix =
     bindE (startIndexer isoTime cfg alreadyRunning lockFree configured (ix_db ix)) (\<lambda>(contractIds, db).
       Inr (contractIds, loop_start contractIds clock (ix\<lparr>ix_db := db\<rparr>)))"

text \<open>Diagnostics, and the resets tests and the rebuild use.\<close>

definition getCursorWriteFailures :: "indexer \<Rightarrow> (string, cursor_write_failure) tbl" where
  "getCursorWriteFailures ix = ix_cursorWriteFailures ix"

definition resetCursorWriteFailuresForTests :: "indexer \<Rightarrow> indexer" where
  "resetCursorWriteFailuresForTests ix = ix\<lparr>ix_cursorWriteFailures := []\<rparr>"

definition resetQuarantineStateInMemory :: "indexer \<Rightarrow> indexer" where
  "resetQuarantineStateInMemory ix = ix\<lparr>ix_quarantineStates := [], ix_quarantineStatesLoaded := []\<rparr>"

definition next_poll :: "string \<Rightarrow> schedule \<Rightarrow> int" where
  "next_poll c sc = (case tget (sc_nextPollAt sc) c of Some t \<Rightarrow> t | None \<Rightarrow> 0)"

text \<open>\<open>running\<close>, which \<open>finally\<close> resets.\<close>

definition loop_running :: "loop \<Rightarrow> bool" where
  "loop_running L = (case lo_phase L of Loop_ended r \<Rightarrow> False | _ \<Rightarrow> True)"

text \<open>
  \<open>sleep(ms, signal)\<close>: it resolves at once when the signal is or becomes aborted, and when the
  timer fires.
\<close>

definition sleep_resolved :: "int \<Rightarrow> loop \<Rightarrow> bool" where
  "sleep_resolved deadline L = (lo_aborted L \<or> deadline \<le> lo_clock L)"

text \<open>\<open>stopIndexer\<close> aborts the signal of a running loop; its promise resolves when \<open>running\<close> is false.\<close>

definition stopIndexer :: "loop \<Rightarrow> loop" where
  "stopIndexer L = (if loop_running L then L\<lparr>lo_aborted := True\<rparr> else L)"

definition stopIndexer_resolved :: "loop \<Rightarrow> bool" where
  "stopIndexer_resolved L = (\<not> loop_running L)"

inductive loop_own ::
  "('scv \<Rightarrow> string + native) \<Rightarrow> indexer_config \<Rightarrow> string list \<Rightarrow> loop \<Rightarrow> loop \<Rightarrow> bool"
  for scv :: "'scv \<Rightarrow> string + native" and cfg :: indexer_config and contractIds :: "string list" where
  leave: "lo_phase L = Loop_top \<Longrightarrow> lo_aborted L \<Longrightarrow>
    loop_own scv cfg contractIds L (L\<lparr>lo_phase := Loop_ended None\<rparr>)"
| enter: "lo_phase L = Loop_top \<Longrightarrow> \<not> lo_aborted L \<Longrightarrow>
    loop_own scv cfg contractIds L (L\<lparr>lo_phase := In_tick (lo_clock L) contractIds\<rparr>)"
| break: "lo_phase L = In_tick now (c # cs) \<Longrightarrow> lo_aborted L \<Longrightarrow>
    loop_own scv cfg contractIds L (L\<lparr>lo_phase := Asleep (lo_clock L + int (ic_pollIntervalMs cfg))\<rparr>)"
| not_due: "lo_phase L = In_tick now (c # cs) \<Longrightarrow> \<not> lo_aborted L \<Longrightarrow> now < next_poll c (lo_schedule L) \<Longrightarrow>
    loop_own scv cfg contractIds L (L\<lparr>lo_phase := In_tick now cs\<rparr>)"
| begin_poll: "lo_phase L = In_tick now (c # cs) \<Longrightarrow> \<not> lo_aborted L \<Longrightarrow> next_poll c (lo_schedule L) \<le> now \<Longrightarrow>
    loop_own scv cfg contractIds L (L\<lparr>lo_phase := Polling now c cs (lo_clock L)\<rparr>)"
| polled: "lo_phase L = Polling now c cs start \<Longrightarrow>
    poll_contract scv cfg pe haltFault now after c (lo_schedule L) (lo_indexer L) = (Inr sc, ix) \<Longrightarrow>
    lo_clock L \<le> after \<Longrightarrow> (\<exists>n. pe_aborted pe n) \<longrightarrow> lo_aborted L \<Longrightarrow>
    loop_own scv cfg contractIds L
      (L\<lparr>lo_indexer := ix, lo_schedule := sc, lo_phase := In_tick now cs, lo_clock := after,
         lo_polls := lo_polls L @ [\<lparr>pl_contract = c, pl_start = start, pl_end = after, pl_failures = failures_of c sc\<rparr>]\<rparr>)"
| halted: "lo_phase L = Polling now c cs start \<Longrightarrow>
    poll_contract scv cfg pe haltFault now after c (lo_schedule L) (lo_indexer L) = (Inl err, ix) \<Longrightarrow>
    lo_clock L \<le> after \<Longrightarrow> (\<exists>n. pe_aborted pe n) \<longrightarrow> lo_aborted L \<Longrightarrow>
    loop_own scv cfg contractIds L
      (L\<lparr>lo_indexer := ix, lo_phase := Loop_ended (Some err), lo_clock := after\<rparr>)"
| tick_ends: "lo_phase L = In_tick now [] \<Longrightarrow>
    loop_own scv cfg contractIds L (L\<lparr>lo_phase := Asleep (lo_clock L + int (ic_pollIntervalMs cfg))\<rparr>)"
| wake: "lo_phase L = Asleep deadline \<Longrightarrow> sleep_resolved deadline L \<Longrightarrow>
    loop_own scv cfg contractIds L (L\<lparr>lo_phase := Loop_top\<rparr>)"

text \<open>What happens around it; another process does not touch the memory of this one.\<close>

definition same_memory :: "indexer \<Rightarrow> indexer \<Rightarrow> bool" where
  "same_memory a b = (ix_quarantineStates b = ix_quarantineStates a \<and>
     ix_quarantineStatesLoaded b = ix_quarantineStatesLoaded a \<and>
     ix_cursorWriteFailures b = ix_cursorWriteFailures a)"

inductive loop_outside ::
  "('scv \<Rightarrow> string + native) \<Rightarrow> indexer_config \<Rightarrow> loop \<Rightarrow> loop \<Rightarrow> bool"
  for scv :: "'scv \<Rightarrow> string + native" and cfg :: indexer_config where
  stop: "loop_outside scv cfg L (stopIndexer L)"
| clock: "lo_clock L \<le> t \<Longrightarrow> loop_outside scv cfg L (L\<lparr>lo_clock := t\<rparr>)"
| others: "indexer_step scv cfg (lo_indexer L) ix \<Longrightarrow> same_memory (lo_indexer L) ix \<Longrightarrow>
    loop_outside scv cfg L (L\<lparr>lo_indexer := ix\<rparr>)"

definition loop_step ::
  "('scv \<Rightarrow> string + native) \<Rightarrow> indexer_config \<Rightarrow> string list \<Rightarrow> loop \<Rightarrow> loop \<Rightarrow> bool" where
  "loop_step scv cfg contractIds L L' = (loop_own scv cfg contractIds L L' \<or> loop_outside scv cfg L L')"

inductive_cases loop_ownE: "loop_own scv cfg contractIds L L'"
inductive_cases loop_outsideE: "loop_outside scv cfg L L'"

lemma loop_step_cases [consumes 1, case_names own outside]:
  assumes "loop_step scv cfg contractIds L L'"
  obtains "loop_own scv cfg contractIds L L'" | "loop_outside scv cfg L L'"
  using assms by (auto simp: loop_step_def)

section \<open>The loop is a run of the indexer\<close>

lemma loop_step_simulates:
  assumes "loop_step scv cfg contractIds L L'"
  shows "(indexer_step scv cfg)\<^sup>*\<^sup>* (lo_indexer L) (lo_indexer L')"
  using assms
proof (cases rule: loop_step_cases)
  case own
  then show ?thesis
  proof cases
    case (polled now c cs start pe haltFault after sc ix)
    then show ?thesis using indexer_step.poll [OF polled(3)] by simp
  next
    case (halted now c cs start pe haltFault after err ix)
    then show ?thesis using indexer_step.poll [OF halted(3)] by simp
  qed simp_all
next
  case outside
  then show ?thesis by cases (auto simp: stopIndexer_def)
qed

interpretation loop_sim: step_simulation "loop_step scv cfg contractIds" "indexer_step scv cfg" lo_indexer
  for scv :: "'scv \<Rightarrow> string + native" and cfg :: indexer_config and contractIds :: "string list"
  by unfold_locales (rule loop_step_simulates)

section \<open>Invariant of the loop\<close>

text \<open>
  The schedule in terms of the log: the next poll of a contract is due a full delay after its last
  one ended, the contracts the tick has passed are not due, and only a discontinuity ends the loop
  with an error.
\<close>

definition delay_after :: "indexer_config \<Rightarrow> nat \<Rightarrow> nat" where
  "delay_after cfg failures = (if failures = 0 then ic_pollIntervalMs cfg else backoff_delay cfg failures)"

definition polls_of :: "string \<Rightarrow> poll_entry list \<Rightarrow> poll_entry list" where
  "polls_of c ps = filter (\<lambda>p. pl_contract p = c) ps"

definition spaced :: "indexer_config \<Rightarrow> poll_entry list \<Rightarrow> bool" where
  "spaced cfg ps = sorted_wrt (\<lambda>p q. pl_end p + int (delay_after cfg (pl_failures p)) \<le> pl_start q) ps"

definition failures_counted :: "poll_entry list \<Rightarrow> bool" where
  "failures_counted ps = successively (\<lambda>p q. pl_failures q = 0 \<or> pl_failures q = pl_failures p + 1) ps"

definition last_failures :: "poll_entry list \<Rightarrow> nat" where
  "last_failures ps = (if ps = [] then 0 else pl_failures (last ps))"

definition due_after :: "indexer_config \<Rightarrow> poll_entry list \<Rightarrow> int" where
  "due_after cfg ps = (if ps = [] then 0 else pl_end (last ps) + int (delay_after cfg (pl_failures (last ps))))"

definition log_inv :: "indexer_config \<Rightarrow> schedule \<Rightarrow> poll_entry list \<Rightarrow> bool" where
  "log_inv cfg sc ps \<longleftrightarrow>
     (\<forall>c. spaced cfg (polls_of c ps) \<and> failures_counted (polls_of c ps) \<and> failures_of c sc = last_failures (polls_of c ps) \<and>
        next_poll c sc = due_after cfg (polls_of c ps) \<and>
        (\<forall>p \<in> set (polls_of c ps). pl_end p + int (delay_after cfg (pl_failures p)) \<le> next_poll c sc))"

definition waits :: "indexer_config \<Rightarrow> bool" where
  "waits cfg = (0 < ic_pollIntervalMs cfg \<and> 0 < ic_maxBackoffMs cfg)"

definition phase_inv :: "indexer_config \<Rightarrow> string list \<Rightarrow> loop \<Rightarrow> bool" where
  "phase_inv cfg contractIds L =
     (0 \<le> lo_clock L \<and> (case lo_phase L of
        In_tick now todo \<Rightarrow> 0 \<le> now \<and> now \<le> lo_clock L \<and> (waits cfg \<longrightarrow> (\<exists>passed. contractIds = passed @ todo \<and>
          (\<forall>c \<in> set passed. now < next_poll c (lo_schedule L))))
      | Polling now c todo start \<Rightarrow> 0 \<le> now \<and> now \<le> start \<and> start \<le> lo_clock L \<and> next_poll c (lo_schedule L) \<le> now \<and>
          (waits cfg \<longrightarrow> (\<exists>passed. contractIds = passed @ c # todo \<and> (\<forall>c \<in> set passed. now < next_poll c (lo_schedule L))))
      | Loop_ended (Some e) \<Rightarrow> is_reorg e
      | Loop_ended None \<Rightarrow> lo_aborted L
      | _ \<Rightarrow> True))"

definition loop_inv :: "indexer_config \<Rightarrow> string list \<Rightarrow> loop \<Rightarrow> bool" where
  "loop_inv cfg contractIds L = (log_inv cfg (lo_schedule L) (lo_polls L) \<and> phase_inv cfg contractIds L)"

lemma waits_delay: "waits cfg \<Longrightarrow> 0 < delay_after cfg n"
  by (simp add: waits_def delay_after_def backoff_delay_def)

lemma fold_tput_zero: "tget t c \<in> {None, Some 0} \<Longrightarrow> tget (fold (\<lambda>c. tput c (0::int)) cs t) c \<in> {None, Some 0}"
  by (induction cs arbitrary: t) auto

lemma next_poll_initial [simp]: "next_poll c (initial_schedule cs) = 0"
  using fold_tput_zero [of "[]" c cs] by (auto simp: next_poll_def initial_schedule_def)

lemma failures_of_initial [simp]: "failures_of c (initial_schedule cs) = 0"
  by (simp add: failures_of_def initial_schedule_def)

lemma log_inv_initial: "log_inv cfg (initial_schedule cs) []"
  by (simp add: log_inv_def polls_of_def spaced_def failures_counted_def last_failures_def due_after_def)

lemma polls_of_snoc: "polls_of c (ps @ [p]) = (if pl_contract p = c then polls_of c ps @ [p] else polls_of c ps)"
  by (simp add: polls_of_def)

text \<open>What one poll that does not halt does to the schedule.\<close>

lemma poll_contract_delay:
  assumes "poll_contract scv cfg pe hf now after c sc ix = (Inr sc', ix')" "next_poll c sc \<le> now"
  shows "next_poll c sc' = after + int (delay_after cfg (failures_of c sc'))"
    and "failures_of c sc' = 0 \<or> failures_of c sc' = failures_of c sc + 1"
    and "k \<noteq> c \<Longrightarrow> next_poll k sc' = next_poll k sc \<and> failures_of k sc' = failures_of k sc"
  using assms
  by (auto simp: poll_contract_def next_poll_def delay_after_def Let_def failures_of_def
      split: if_splits prod.splits sum.splits)

lemma log_inv_poll:
  assumes "log_inv cfg sc ps" "next_poll c sc \<le> start" "start \<le> after"
    and "next_poll c sc' = after + int (delay_after cfg (failures_of c sc'))"
    and "failures_of c sc' = 0 \<or> failures_of c sc' = failures_of c sc + 1"
    and "\<And>k. k \<noteq> c \<Longrightarrow> next_poll k sc' = next_poll k sc \<and> failures_of k sc' = failures_of k sc"
  shows "log_inv cfg sc' (ps @ [\<lparr>pl_contract = c, pl_start = start, pl_end = after, pl_failures = failures_of c sc'\<rparr>])"
  unfolding log_inv_def
proof
  fix k
  note old = assms(1) [unfolded log_inv_def, rule_format, of k]
  let ?new = "\<lparr>pl_contract = c, pl_start = start, pl_end = after, pl_failures = failures_of c sc'\<rparr>"
  show "spaced cfg (polls_of k (ps @ [?new])) \<and> failures_counted (polls_of k (ps @ [?new])) \<and>
      failures_of k sc' = last_failures (polls_of k (ps @ [?new])) \<and>
      next_poll k sc' = due_after cfg (polls_of k (ps @ [?new])) \<and>
      (\<forall>p \<in> set (polls_of k (ps @ [?new])). pl_end p + int (delay_after cfg (pl_failures p)) \<le> next_poll k sc')"
  proof (cases "k = c")
    case False
    then show ?thesis using old assms(6) [OF False] by (auto simp: polls_of_snoc)
  next
    case True
    have early: "pl_end p + int (delay_after cfg (pl_failures p)) \<le> start" if "p \<in> set (polls_of c ps)" for p
      using old that assms(2) True by (meson order_trans)
    have "failures_counted (polls_of c ps @ [?new])"
      using old assms(5) True by (auto simp: failures_counted_def successively_append_iff last_failures_def split: if_splits)
    moreover have "spaced cfg (polls_of c ps @ [?new])"
      using old early True by (auto simp: spaced_def sorted_wrt_append)
    ultimately show ?thesis
      using True early assms(3,4) by (fastforce simp: polls_of_snoc last_failures_def due_after_def)
  qed
qed

lemma poll_contract_error_is_reorg:
  "poll_contract scv cfg pe hf now after c sc ix = (Inl e, ix') \<Longrightarrow> is_reorg e"
  by (auto simp: poll_contract_def Let_def split: if_splits prod.splits sum.splits)

lemma loop_inv_own:
  assumes "loop_own scv cfg contractIds L L'" "loop_inv cfg contractIds L"
  shows "loop_inv cfg contractIds L'"
  using assms(1)
proof cases
  case (polled now c cs start pe haltFault after sc ix)
  have ph: "0 \<le> now" "now \<le> start" "start \<le> lo_clock L" "next_poll c (lo_schedule L) \<le> now"
    using assms(2) polled(2) by (auto simp: loop_inv_def phase_inv_def)
  note d = poll_contract_delay [OF polled(3) ph(4)]
  have "log_inv cfg sc (lo_polls L @ [\<lparr>pl_contract = c, pl_start = start, pl_end = after,
      pl_failures = failures_of c sc\<rparr>])"
    by (rule log_inv_poll [where sc = "lo_schedule L"]) (use assms(2) polled(4) ph d in \<open>auto simp: loop_inv_def\<close>)
  moreover have "phase_inv cfg contractIds L'"
  proof -
    have "\<exists>passed. contractIds = passed @ cs \<and> (\<forall>k \<in> set passed. now < next_poll k sc)" if w: "waits cfg"
    proof -
      obtain passed where p: "contractIds = passed @ c # cs" "\<forall>k \<in> set passed. now < next_poll k (lo_schedule L)"
        using assms(2) polled(2) w by (auto simp: loop_inv_def phase_inv_def)
      have "now < next_poll k sc" if "k \<in> set (passed @ [c])" for k
        using that p(2) d(1) d(3) [of k] waits_delay [OF w, of "failures_of c sc"] ph polled(4)
        by (cases "k = c") auto
      then show ?thesis using p(1) by (intro exI [of _ "passed @ [c]"]) auto
    qed
    with ph polled(1,4) show ?thesis by (simp add: phase_inv_def)
  qed
  ultimately show ?thesis using polled(1) by (simp add: loop_inv_def)
next
  case (halted now c cs start pe haltFault after err ix)
  then show ?thesis
    using assms(2) poll_contract_error_is_reorg [OF halted(3)] by (auto simp: loop_inv_def phase_inv_def)
next
  case (not_due now c cs)
  have "\<exists>passed. contractIds = passed @ cs \<and> (\<forall>k \<in> set passed. now < next_poll k (lo_schedule L))"
    if "waits cfg"
  proof -
    obtain passed where "contractIds = passed @ c # cs" "\<forall>k \<in> set passed. now < next_poll k (lo_schedule L)"
      using assms(2) not_due(2) \<open>waits cfg\<close> by (auto simp: loop_inv_def phase_inv_def)
    then show ?thesis using not_due(4) by (intro exI [of _ "passed @ [c]"]) auto
  qed
  with not_due show ?thesis using assms(2) by (simp add: loop_inv_def phase_inv_def)
qed (use assms(2) in \<open>auto simp: loop_inv_def phase_inv_def\<close>)

lemma loop_inv_outside:
  assumes "loop_outside scv cfg L L'" "loop_inv cfg contractIds L"
  shows "loop_inv cfg contractIds L'"
  using assms
  by cases (auto simp: loop_inv_def phase_inv_def stopIndexer_def loop_running_def split: loop_phase.splits option.splits)

definition starts_loop :: "string list \<Rightarrow> loop \<Rightarrow> bool" where
  "starts_loop contractIds L = (\<exists>clock ix. 0 \<le> clock \<and> L = loop_start contractIds clock ix)"

interpretation loop_sys: step_system "starts_loop contractIds" "loop_step scv cfg contractIds" "loop_inv cfg contractIds"
  for scv :: "'scv \<Rightarrow> string + native" and cfg :: indexer_config and contractIds :: "string list"
proof unfold_locales
  fix L
  assume "starts_loop contractIds L"
  then show "loop_inv cfg contractIds L"
    by (auto simp: starts_loop_def loop_start_def loop_inv_def phase_inv_def log_inv_initial)
next
  fix L L'
  assume "loop_inv cfg contractIds L" "loop_step scv cfg contractIds L L'"
  then show "loop_inv cfg contractIds L'"
    by (auto elim: loop_step_cases intro: loop_inv_own loop_inv_outside)
qed

section \<open>Shutdown\<close>

text \<open>A run of the loop among other steps, with the number of its own steps.\<close>

inductive loop_run ::
  "('scv \<Rightarrow> string + native) \<Rightarrow> indexer_config \<Rightarrow> string list \<Rightarrow> nat \<Rightarrow> loop \<Rightarrow> loop \<Rightarrow> bool"
  for scv :: "'scv \<Rightarrow> string + native" and cfg :: indexer_config and contractIds :: "string list" where
  none: "loop_run scv cfg contractIds 0 L L"
| own: "loop_run scv cfg contractIds n L M \<Longrightarrow> loop_own scv cfg contractIds M N \<Longrightarrow>
    loop_run scv cfg contractIds (n + 1) L N"
| outside: "loop_run scv cfg contractIds n L M \<Longrightarrow> loop_outside scv cfg M N \<Longrightarrow> loop_run scv cfg contractIds n L N"

definition steps_left :: "loop \<Rightarrow> nat" where
  "steps_left L = (case lo_phase L of Polling now c todo start \<Rightarrow> 4 | In_tick now todo \<Rightarrow> 3 | Asleep d \<Rightarrow> 2 | Loop_top \<Rightarrow> 1
     | Loop_ended r \<Rightarrow> 0)"

text \<open>The poll that is under way, and whether the loop has been ended by an error.\<close>

definition poll_under_way :: "loop \<Rightarrow> (string \<times> int) option" where
  "poll_under_way L = (case lo_phase L of Polling now c todo start \<Rightarrow> Some (c, start) | _ \<Rightarrow> None)"

definition loop_threw :: "loop \<Rightarrow> bool" where
  "loop_threw L = (case lo_phase L of Loop_ended (Some e) \<Rightarrow> True | _ \<Rightarrow> False)"

lemmas loop_phase_defs = steps_left_def poll_under_way_def loop_threw_def loop_running_def

text \<open>
  What has become of the polls since \<open>L\<close>, in which the loop was asked to stop: no new one has begun, and
  the one under way is still so, or has ended and been recorded, or has ended the loop by its error.
\<close>

definition no_new_poll :: "loop \<Rightarrow> loop \<Rightarrow> bool" where
  "no_new_poll L L' \<longleftrightarrow>
     (case poll_under_way L of
        None \<Rightarrow> lo_polls L' = lo_polls L \<and> poll_under_way L' = None \<and> \<not> loop_threw L'
      | Some (c, start) \<Rightarrow>
          lo_polls L' = lo_polls L \<and> (if loop_threw L' then poll_under_way L' = None else poll_under_way L' = Some (c, start)) \<or>
          poll_under_way L' = None \<and> \<not> loop_threw L' \<and>
          (\<exists>p. lo_polls L' = lo_polls L @ [p] \<and> pl_contract p = c \<and> pl_start p = start))"

lemma aborted_own:
  assumes "loop_own scv cfg contractIds L L'" "lo_aborted L"
  shows "lo_aborted L'" "steps_left L' + 1 \<le> steps_left L" "no_new_poll L L'"
  using assms by (cases; simp add: loop_phase_defs no_new_poll_def)+

lemma aborted_outside:
  assumes "loop_outside scv cfg L L'" "lo_aborted L"
  shows "lo_aborted L' \<and> lo_polls L' = lo_polls L \<and> lo_phase L' = lo_phase L"
  using assms by cases (simp_all add: stopIndexer_def)

lemma no_new_poll_trans:
  assumes "no_new_poll L M" "no_new_poll M N" "loop_threw M \<Longrightarrow> N = M"
  shows "no_new_poll L N"
  using assms by (cases "poll_under_way N") (auto simp: no_new_poll_def split: option.splits if_splits)

lemma own_not_threw: "loop_own scv cfg contractIds L L' \<Longrightarrow> \<not> loop_threw L"
  by (auto simp: loop_threw_def elim!: loop_ownE)

lemma aborted_progress:
  assumes "lo_aborted L"
  shows "loop_running L \<longleftrightarrow> (\<exists>L'. loop_own scv cfg contractIds L L')"
proof
  assume "loop_running L"
  then show "\<exists>L'. loop_own scv cfg contractIds L L'"
  proof (cases "lo_phase L")
    case Loop_top
    then show ?thesis using assms loop_own.leave by blast
  next
    case (In_tick now todo)
    then show ?thesis using assms loop_own.break loop_own.tick_ends by (cases todo) blast+
  next
    case (Polling now c todo start)
    obtain r ix where p: "poll_contract scv cfg undefined None now (lo_clock L) c (lo_schedule L) (lo_indexer L) = (r, ix)"
      by (metis surj_pair)
    then show ?thesis
    proof (cases r)
      case (Inl e)
      then show ?thesis using loop_own.halted [OF Polling p [unfolded Inl]] assms by blast
    next
      case (Inr sc)
      then show ?thesis using loop_own.polled [OF Polling p [unfolded Inr]] assms by blast
    qed
  next
    case (Asleep d)
    then show ?thesis using assms loop_own.wake unfolding sleep_resolved_def by blast
  qed (simp add: loop_running_def)
next
  assume "\<exists>L'. loop_own scv cfg contractIds L L'"
  then show "loop_running L" by (auto simp: loop_running_def elim!: loop_ownE)
qed

lemma aborted_run:
  assumes "loop_run scv cfg contractIds n L L'" "lo_aborted L" "\<not> loop_threw L"
  shows "lo_aborted L' \<and> n + steps_left L' \<le> steps_left L \<and> no_new_poll L L'"
  using assms
proof induction
  case (none L)
  then show ?case by (auto simp: no_new_poll_def loop_phase_defs split: loop_phase.splits option.splits)
next
  case (own n L M N)
  then have IH: "lo_aborted M" "n + steps_left M \<le> steps_left L" "no_new_poll L M" by auto
  have "no_new_poll L N"
    by (rule no_new_poll_trans [OF IH(3) aborted_own(3) [OF own(2) IH(1)]]) (use own_not_threw [OF own(2)] in simp)
  then show ?case using aborted_own(1,2) [OF own(2) IH(1)] IH(2) by simp
next
  case (outside n L M N)
  then have IH: "lo_aborted M" "n + steps_left M \<le> steps_left L" "no_new_poll L M" by auto
  have same: "lo_aborted N" "lo_polls N = lo_polls M" "lo_phase N = lo_phase M"
    using aborted_outside [OF outside(2) IH(1)] by simp_all
  then have "poll_under_way N = poll_under_way M" "loop_threw N = loop_threw M" "steps_left N = steps_left M"
    by (simp_all add: loop_phase_defs)
  moreover from this have "no_new_poll L N = no_new_poll L M" using same(2) by (auto simp: no_new_poll_def split: option.splits)
  ultimately show ?case using IH same(1) by simp
qed

text \<open>Only a discontinuity ends the loop by an error.\<close>

definition threw_reorg :: "loop \<Rightarrow> bool" where
  "threw_reorg L = (case lo_phase L of Loop_ended (Some e) \<Rightarrow> is_reorg e | _ \<Rightarrow> True)"

lemma run_threw_reorg: "loop_run scv cfg contractIds n L L' \<Longrightarrow> threw_reorg L \<Longrightarrow> threw_reorg L'"
proof (induction rule: loop_run.induct)
  case (own n L M N)
  from own(2) show ?case by cases (simp_all add: threw_reorg_def poll_contract_error_is_reorg)
next
  case (outside n L M N)
  then show ?case by (auto simp: threw_reorg_def stopIndexer_def elim!: loop_outsideE)
qed simp

lemma stopped_loop_ends:
  assumes "loop_running L" "loop_run scv cfg contractIds n (stopIndexer L) L'"
  shows "n \<le> 4" "no_new_poll L L'"
    "stopIndexer_resolved L' \<longleftrightarrow> (\<nexists>L''. loop_own scv cfg contractIds L' L'')"
    "stopIndexer_resolved L' \<longleftrightarrow> lo_phase L' = Loop_ended None \<or> loop_threw L'"
    "threw_reorg L'"
proof -
  have s: "lo_aborted (stopIndexer L)" "\<not> loop_threw (stopIndexer L)" "no_new_poll (stopIndexer L) = no_new_poll L" "steps_left (stopIndexer L) \<le> 4"
    using assms(1) by (auto simp: stopIndexer_def loop_phase_defs no_new_poll_def fun_eq_iff split: loop_phase.splits)
  note r = aborted_run [OF assms(2) s(1,2)]
  show "n \<le> 4" "no_new_poll L L'" using r s by auto
  show "stopIndexer_resolved L' \<longleftrightarrow> (\<nexists>L''. loop_own scv cfg contractIds L' L'')"
    using aborted_progress [of L' scv cfg contractIds] r by (simp add: stopIndexer_resolved_def)
  show "stopIndexer_resolved L' \<longleftrightarrow> lo_phase L' = Loop_ended None \<or> loop_threw L'"
    by (auto simp: stopIndexer_resolved_def loop_phase_defs split: loop_phase.splits option.splits)
  have "threw_reorg (stopIndexer L)"
    using assms(1) by (auto simp: threw_reorg_def stopIndexer_def loop_running_def split: loop_phase.splits option.splits)
  with assms(2) show "threw_reorg L'" by (rule run_threw_reorg)
qed

section \<open>What holds whenever the loop runs\<close>

lemma polls_keep_their_distance:
  assumes "starts_loop contractIds L0" "(loop_step scv cfg contractIds)\<^sup>*\<^sup>* L0 L"
    and "i < j" "j < length (polls_of c (lo_polls L))"
  shows "pl_end (polls_of c (lo_polls L) ! i) + int (delay_after cfg (pl_failures (polls_of c (lo_polls L) ! i)))
    \<le> pl_start (polls_of c (lo_polls L) ! j)"
proof -
  have "spaced cfg (polls_of c (lo_polls L))"
    using loop_sys.inv_reachable [OF assms(2,1)] by (simp add: loop_inv_def log_inv_def)
  then show ?thesis using assms(3,4) by (auto simp: spaced_def sorted_wrt_iff_nth_less)
qed

lemma tick_polls_what_is_due:
  assumes "starts_loop contractIds L0" "(loop_step scv cfg contractIds)\<^sup>*\<^sup>* L0 L" "waits cfg"
    and "lo_phase L = In_tick now []" "c \<in> set contractIds"
  shows "polls_of c (lo_polls L) \<noteq> [] \<and>
    now < pl_end (last (polls_of c (lo_polls L))) + int (delay_after cfg (pl_failures (last (polls_of c (lo_polls L)))))"
proof -
  have "loop_inv cfg contractIds L" using loop_sys.inv_reachable [OF assms(2,1)] .
  then have "next_poll c (lo_schedule L) = due_after cfg (polls_of c (lo_polls L))" "0 \<le> now"
    "now < next_poll c (lo_schedule L)"
    using assms(3-5) by (auto simp: loop_inv_def log_inv_def phase_inv_def)
  then show ?thesis by (auto simp: due_after_def split: if_splits)
qed

lemma loop_folds_once:
  assumes "fresh_indexer (lo_indexer L0)" "(loop_step scv cfg contractIds)\<^sup>*\<^sup>* L0 L"
  shows "\<exists>h. fold_events h empty_derived = Inr (unread (db_derived (ix_db (lo_indexer L)))) \<and>
    distinct (map ev_id h) \<and> (\<forall>i. is_folded (ix_db (lo_indexer L)) i \<longleftrightarrow> i \<in> ev_id ` set h)"
  by (rule reachable_history [OF loop_sim.run_simulated [OF assms(2)] assms(1)])

section \<open>Halting and starting again\<close>

text \<open>
  A poll that ends the loop leaves a halt record behind, unless its insert failed; while one is there
  \<open>runIndexer\<close> refuses to start.
\<close>

lemma halted_poll_recorded:
  assumes "poll_contract scv cfg pe None now after c sc ix = (Inl err, ix')"
  shows "loadUnclearedReorgHalt (ix_db ix') \<noteq> None"
  using assms recordReorgHalt_blocks
  by (auto simp: poll_contract_def Let_def emit_def split: if_splits prod.splits sum.splits)

lemma runIndexer_refuses:
  assumes "loadUnclearedReorgHalt (ix_db ix) \<noteq> None"
  shows "\<exists>e. runIndexer isoTime cfg alreadyRunning lockFree configured clock ix = Inl e"
  using assms by (auto simp: runIndexer_def startIndexer_def split: option.splits prod.splits)

lemma runIndexer_starts_loop:
  assumes "runIndexer isoTime cfg alreadyRunning lockFree configured clock ix = Inr (contractIds, L)" "0 \<le> clock"
  shows "starts_loop contractIds L" "\<not> alreadyRunning" "loop_running L"
  using assms
  by (auto simp: runIndexer_def startIndexer_def starts_loop_def loop_running_def loop_start_def bindE_eq_Inr
      split: if_splits option.splits prod.splits)

end
