(* ===== verification/Worker_Process.thy ===== *)
theory Worker_Process
  imports Poll_Loop Lifecycle
begin

text \<open>
  The worker process with the loop it runs: the steps of \<open>Lifecycle\<close>, which know three phases of the
  indexer, and those of \<open>Poll_Loop\<close>, put together the way \<open>src/src/worker.ts\<close> and \<open>runIndexer\<close> share the abort
  signal and the flag \<open>running\<close>. Each composed step is a run of the worker and one of the loop, so the
  facts of both hold of the whole, and the pool is closed after the last poll.
\<close>

section \<open>The composed steps\<close>

record process =
  pr_worker :: worker
  pr_loop :: "loop option" \<comment> \<open>\<open>None\<close> until \<open>runIndexer\<close> has passed its start-up checks\<close>

definition process_start :: process where
  "process_start = \<lparr>pr_worker = worker_start, pr_loop = None\<rparr>"

text \<open>The steps of the worker that do not concern the indexer: its phase and the signal stay.\<close>

definition own_worker_step :: "worker \<Rightarrow> worker \<Rightarrow> bool" where
  "own_worker_step w w' = (worker_step no_hangs w w' \<and> wk_indexer w' = wk_indexer w \<and> aborted w' = aborted w \<and>
     wk_stopAtOnce w' = wk_stopAtOnce w)"

inductive process_step ::
  "('scv \<Rightarrow> string + native) \<Rightarrow> indexer_config \<Rightarrow> string list \<Rightarrow> process \<Rightarrow> process \<Rightarrow> bool"
  for scv :: "'scv \<Rightarrow> string + native" and cfg :: indexer_config and contractIds :: "string list" where
  loop_goes_on: "wk_exit (pr_worker p) = None \<Longrightarrow> pr_loop p = Some L \<Longrightarrow> loop_own scv cfg contractIds L L' \<Longrightarrow>
    process_step scv cfg contractIds p (p\<lparr>pr_loop := Some L'\<rparr>)"
| environment: "wk_exit (pr_worker p) = None \<Longrightarrow> pr_loop p = Some L \<Longrightarrow> loop_outside scv cfg L L' \<Longrightarrow>
    lo_aborted L' = lo_aborted L \<Longrightarrow> process_step scv cfg contractIds p (p\<lparr>pr_loop := Some L'\<rparr>)"
| loop_starts: "wk_exit (pr_worker p) = None \<Longrightarrow> wk_indexer (pr_worker p) = Ix_starting \<Longrightarrow> starts_loop contractIds L \<Longrightarrow>
    process_step scv cfg contractIds p \<lparr>pr_worker = (pr_worker p)\<lparr>wk_indexer := Ix_running\<rparr>, pr_loop = Some L\<rparr>"
| start_fails: "wk_exit (pr_worker p) = None \<Longrightarrow> wk_indexer (pr_worker p) = Ix_starting \<Longrightarrow>
    process_step scv cfg contractIds p (p\<lparr>pr_worker := (pr_worker p)\<lparr>wk_indexer := Ix_stopped, wk_exit := Some 1\<rparr>\<rparr>)"
| first_signal: "wk_exit (pr_worker p) = None \<Longrightarrow> \<not> aborted (pr_worker p) \<Longrightarrow>
    process_step scv cfg contractIds p \<lparr>pr_worker = on_signal (pr_worker p), pr_loop = map_option stopIndexer (pr_loop p)\<rparr>"
| loop_returned: "wk_exit (pr_worker p) = None \<Longrightarrow> wk_indexer (pr_worker p) = Ix_running \<Longrightarrow> pr_loop p = Some L \<Longrightarrow>
    lo_phase L = Loop_ended None \<Longrightarrow>
    process_step scv cfg contractIds p (p\<lparr>pr_worker := (pr_worker p)\<lparr>wk_indexer := Ix_stopped\<rparr>\<rparr>)"
| loop_threw: "wk_exit (pr_worker p) = None \<Longrightarrow> wk_indexer (pr_worker p) = Ix_running \<Longrightarrow> pr_loop p = Some L \<Longrightarrow>
    lo_phase L = Loop_ended (Some e) \<Longrightarrow>
    process_step scv cfg contractIds p (p\<lparr>pr_worker := (pr_worker p)\<lparr>wk_indexer := Ix_stopped, wk_exit := Some 1\<rparr>\<rparr>)"
| worker_goes_on: "own_worker_step (pr_worker p) w \<Longrightarrow> process_step scv cfg contractIds p (p\<lparr>pr_worker := w\<rparr>)"

section \<open>Coupling\<close>

text \<open>What the worker knows of the loop.\<close>

definition coupled :: "worker \<Rightarrow> loop \<Rightarrow> bool" where
  "coupled w L \<longleftrightarrow>
     wk_indexer w \<noteq> Ix_starting \<and>
     (lo_aborted L \<longrightarrow> aborted w \<and> \<not> wk_stopAtOnce w) \<and>
     (wk_indexer w = Ix_running \<and> aborted w \<and> \<not> wk_stopAtOnce w \<longrightarrow> lo_aborted L \<or> \<not> loop_running L) \<and>
     (wk_indexer w = Ix_stopped \<longrightarrow> \<not> loop_running L)"

definition process_inv :: "indexer_config \<Rightarrow> string list \<Rightarrow> process \<Rightarrow> bool" where
  "process_inv cfg contractIds p \<longleftrightarrow>
     worker_inv (pr_worker p) \<and>
     (case pr_loop p of
        None \<Rightarrow> wk_indexer (pr_worker p) \<noteq> Ix_running
      | Some L \<Rightarrow> loop_inv cfg contractIds L \<and> coupled (pr_worker p) L)"

lemma aborted_update [simp]:
  "aborted (w\<lparr>wk_indexer := x\<rparr>) = aborted w" "aborted (w\<lparr>wk_exit := y\<rparr>) = aborted w"
  by (simp_all add: aborted_def)

lemma on_signal_aborted [simp]: "aborted (on_signal w)"
  by (simp add: aborted_def on_signal_def)

lemma on_signal_first:
  "\<not> aborted w \<Longrightarrow> wk_indexer (on_signal w) = wk_indexer w \<and>
     (wk_stopAtOnce (on_signal w) \<longleftrightarrow> wk_indexer w \<noteq> Ix_running)"
  by (simp add: on_signal_def aborted_def)

lemma ended_stays: "loop_own scv cfg contractIds L L' \<Longrightarrow> loop_running L"
  by (auto simp: loop_running_def elim!: loop_ownE)

lemma outside_keeps:
  "loop_outside scv cfg L L' \<Longrightarrow> lo_phase L' = lo_phase L \<and> lo_polls L' = lo_polls L \<and> (lo_aborted L \<longrightarrow> lo_aborted L')"
  by (auto simp: stopIndexer_def elim!: loop_outsideE)

lemma own_worker_step_exit: "own_worker_step w w' \<Longrightarrow> wk_exit w = None"
  by (auto simp: own_worker_step_def elim!: worker_stepE)

text \<open>The composed step, seen from the worker.\<close>

lemma process_step_worker:
  assumes "process_step scv cfg contractIds p p'" "process_inv cfg contractIds p"
  shows "pr_worker p' = pr_worker p \<or> worker_step no_hangs (pr_worker p) (pr_worker p')"
  using assms(1)
proof cases
  case loop_starts
  then show ?thesis using worker_step.indexer_up by (simp add: no_hangs_def)
next
  case start_fails
  then show ?thesis using worker_step.indexer_fatal by (simp add: no_hangs_def)
next
  case first_signal
  then show ?thesis using worker_step.signal by simp
next
  case (loop_returned L)
  then have "lo_aborted L" "coupled (pr_worker p) L"
    using assms(2) by (simp_all add: process_inv_def loop_inv_def phase_inv_def)
  then show ?thesis using loop_returned worker_step.indexer_down by (simp add: coupled_def no_hangs_def)
next
  case loop_threw
  then show ?thesis using worker_step.indexer_fatal by (simp add: no_hangs_def)
next
  case worker_goes_on
  then show ?thesis by (simp add: own_worker_step_def)
qed simp_all

lemma own_keeps_signal: "loop_own scv cfg contractIds L L' \<Longrightarrow> lo_aborted L' = lo_aborted L"
  by (auto elim!: loop_ownE)

lemma coupled_loop:
  assumes "coupled w L" "loop_own scv cfg contractIds L L'" "wk_indexer w \<noteq> Ix_stopped"
  shows "coupled w L'"
  using assms(1,3) ended_stays [OF assms(2)] unfolding coupled_def own_keeps_signal [OF assms(2)] by blast

lemma process_inv_step:
  assumes "process_inv cfg contractIds p" "process_step scv cfg contractIds p p'"
  shows "process_inv cfg contractIds p'"
proof -
  have w: "worker_inv (pr_worker p')"
    using process_step_worker [OF assms(2,1)] assms(1) worker_inv_step by (auto simp: process_inv_def)
  have "case pr_loop p' of
        None \<Rightarrow> wk_indexer (pr_worker p') \<noteq> Ix_running
      | Some L \<Rightarrow> loop_inv cfg contractIds L \<and> coupled (pr_worker p') L"
    using assms(2)
  proof cases
    case (loop_goes_on L L')
    have "loop_inv cfg contractIds L" "coupled (pr_worker p) L"
      using assms(1) loop_goes_on(3) by (simp_all add: process_inv_def)
    moreover from this have "wk_indexer (pr_worker p) \<noteq> Ix_stopped"
      using ended_stays [OF loop_goes_on(4)] by (simp add: coupled_def)
    ultimately have "loop_inv cfg contractIds L'" "coupled (pr_worker p) L'"
      using loop_inv_own [OF loop_goes_on(4)] coupled_loop [OF _ loop_goes_on(4)] by blast+
    then show ?thesis by (simp add: loop_goes_on(1))
  next
    case (environment L L')
    then have "loop_inv cfg contractIds L" "coupled (pr_worker p) L"
      using assms(1) by (auto simp: process_inv_def)
    then show ?thesis
      using environment loop_inv_outside [OF environment(4)] outside_keeps [OF environment(4)]
      by (auto simp: coupled_def loop_running_def)
  next
    case (loop_starts L)
    then have "loop_inv cfg contractIds L" using loop_sys.inv_initial by blast
    moreover have "\<not> lo_aborted L" using loop_starts(4) by (auto simp: starts_loop_def loop_start_def)
    moreover have "aborted (pr_worker p) \<Longrightarrow> wk_stopAtOnce (pr_worker p)"
      using assms(1) loop_starts(3) by (simp add: process_inv_def worker_inv_def)
    ultimately show ?thesis using loop_starts(1) by (auto simp: coupled_def)
  next
    case start_fails
    then show ?thesis using assms(1) by (auto simp: process_inv_def coupled_def split: option.splits)
  next
    case first_signal
    show ?thesis
    proof (cases "pr_loop p")
      case None
      then show ?thesis using first_signal assms(1) on_signal_first [OF first_signal(3)] by (simp add: process_inv_def)
    next
      case (Some L)
      then have "loop_inv cfg contractIds L" "coupled (pr_worker p) L" using assms(1) by (auto simp: process_inv_def)
      moreover have "loop_outside scv cfg L (stopIndexer L)" by (rule loop_outside.stop)
      ultimately show ?thesis
        using Some first_signal loop_inv_outside [of scv cfg L "stopIndexer L"] on_signal_first [OF first_signal(3)]
        by (cases "wk_indexer (pr_worker p)") (auto simp: coupled_def stopIndexer_def loop_running_def)
    qed
  next
    case (loop_returned L)
    then show ?thesis using assms(1) by (auto simp: process_inv_def coupled_def loop_running_def)
  next
    case (loop_threw L e)
    then show ?thesis using assms(1) by (auto simp: process_inv_def coupled_def loop_running_def)
  next
    case (worker_goes_on w)
    then show ?thesis using assms(1) by (auto simp: process_inv_def coupled_def own_worker_step_def split: option.splits)
  qed
  with w show ?thesis by (simp add: process_inv_def)
qed

lemma process_inv_start: "process_inv cfg contractIds process_start"
  using worker_inv_start by (simp add: process_inv_def process_start_def worker_start_def)

interpretation process_sys: step_system "\<lambda>p. p = process_start" "process_step scv cfg contractIds" "process_inv cfg contractIds"
  for scv :: "'scv \<Rightarrow> string + native" and cfg :: indexer_config and contractIds :: "string list"
  by unfold_locales (auto intro: process_inv_start process_inv_step)

section \<open>Both views of a run\<close>

text \<open>The loop of a process that has one only makes steps of the loop.\<close>

lemma process_step_loop:
  assumes "process_step scv cfg contractIds p p'" "pr_loop p = Some L" "process_inv cfg contractIds p"
  shows "\<exists>L'. pr_loop p' = Some L' \<and> (loop_step scv cfg contractIds)\<^sup>*\<^sup>* L L'"
  using assms(1)
proof cases
  case (loop_starts L')
  then show ?thesis using assms(2,3) by (auto simp: process_inv_def coupled_def)
next
  case first_signal
  have "loop_step scv cfg contractIds L (stopIndexer L)" by (simp add: loop_step_def loop_outside.stop)
  with first_signal assms(2) show ?thesis by auto
qed (use assms(2) in \<open>auto simp: loop_step_def\<close>)

lemma process_run_worker:
  assumes "(process_step scv cfg contractIds)\<^sup>*\<^sup>* p p'" "process_inv cfg contractIds p"
  shows "(worker_step no_hangs)\<^sup>*\<^sup>* (pr_worker p) (pr_worker p')"
  using assms
proof (induction rule: rtranclp_induct)
  case (step y z)
  then show ?case
    using process_step_worker [OF step(2) process_sys.inv_run [OF step(1) step(4)]]
    by (auto intro: rtranclp.rtrancl_into_rtrancl)
qed simp

text \<open>Every state of a process comes with a loop that \<open>runIndexer\<close> started and ran.\<close>

lemma process_run_loop:
  assumes "(process_step scv cfg contractIds)\<^sup>*\<^sup>* process_start p" "pr_loop p = Some L"
  shows "\<exists>L0. starts_loop contractIds L0 \<and> (loop_step scv cfg contractIds)\<^sup>*\<^sup>* L0 L"
  using assms
proof (induction arbitrary: L rule: rtranclp_induct)
  case base
  then show ?case by (simp add: process_start_def)
next
  case (step p q)
  have inv: "process_inv cfg contractIds p" by (rule process_sys.inv_run [OF step(1) process_inv_start])
  show ?case
  proof (cases "pr_loop p")
    case (Some M)
    with step process_step_loop [OF step(2) Some inv] show ?thesis by (metis option.inject rtranclp_trans)
  next
    case None
    from step(2) have "starts_loop contractIds L" using None step.prems by cases auto
    then show ?thesis by blast
  qed
qed

section \<open>The pool outlives the loop\<close>

text \<open>
  When the pool has been closed without the time limit having passed and the signal found a running
  loop, that loop has ended.
\<close>

lemma pool_closed_after_loop:
  assumes "process_inv cfg contractIds p" "0 < wk_poolEnds (pr_worker p)" "\<not> wk_timedOut (pr_worker p)"
    "\<not> wk_stopAtOnce (pr_worker p)" "pr_loop p = Some L"
  shows "\<not> loop_running L"
proof -
  have "wk_shutdown (pr_worker p) = Sd_telemetry" "worker_inv (pr_worker p)"
    using assms(1,2) by (auto simp: process_inv_def worker_inv_def split: if_splits)
  then have "wk_indexer (pr_worker p) \<noteq> Ix_running"
    using assms(3,4) by (auto simp: worker_inv_def past_indexer_def)
  then show ?thesis
    using assms(1,5) by (cases "wk_indexer (pr_worker p)") (auto simp: process_inv_def coupled_def)
qed

text \<open>A loop that has ended polls no more, whatever the process still does.\<close>

lemma ended_loop_quiet:
  assumes "(process_step scv cfg contractIds)\<^sup>*\<^sup>* p p'" "process_inv cfg contractIds p" "pr_loop p = Some L" "\<not> loop_running L"
  shows "\<exists>L'. pr_loop p' = Some L' \<and> lo_polls L' = lo_polls L \<and> \<not> loop_running L'"
proof -
  have keep: "\<exists>L'. pr_loop p' = Some L' \<and> lo_polls L' = lo_polls L \<and> \<not> loop_running L'"
    if "process_step scv cfg contractIds q p'" "process_inv cfg contractIds q"
      "\<exists>L'. pr_loop q = Some L' \<and> lo_polls L' = lo_polls L \<and> \<not> loop_running L'" for q p'
    using that(1)
  proof cases
    case (loop_goes_on M M')
    then show ?thesis using that(3) ended_stays [OF loop_goes_on(4)] by simp
  next
    case (environment M M')
    then show ?thesis using that(3) outside_keeps [OF environment(4)] by (auto simp: loop_running_def)
  next
    case first_signal
    then show ?thesis using that(3) by (auto simp: stopIndexer_def)
  next
    case (loop_starts M)
    then show ?thesis using that(2,3) by (auto simp: process_inv_def coupled_def)
  qed (use that(3) in auto)
  have "\<exists>L'. pr_loop p = Some L' \<and> lo_polls L' = lo_polls L \<and> \<not> loop_running L'" using assms(3,4) by simp
  then show ?thesis by (rule process_sys.kept_run [OF assms(1,2)]) (rule keep)
qed

end
