(* ===== verification/Commands.thy ===== *)
theory Commands
  imports System Lifecycle
begin

text \<open>
  The commands an operator runs: \<open>npm run replay-failed\<close>, \<open>reindex\<close>, \<open>reorg:clear\<close> and \<open>migrate\<close>, the
  parts of \<open>src/src/indexer/replay.ts\<close>, \<open>reindex.ts\<close>, \<open>clear-reorg.ts\<close> and \<open>src/src/db/migrate.ts\<close> that
  run when the module is the program. A command ends with an exit code, 0 when its work and the end of
  the pool succeeded, 1 when either threw, 130 on an interrupt.
\<close>

section \<open>Exit codes\<close>

text \<open>\<open>work.then(() => pool.end()).catch(() => process.exit(1))\<close>.\<close>

definition exit_code :: "exn + 'a \<Rightarrow> exn + unit \<Rightarrow> nat" where
  "exit_code work poolEnd =
     (case work of Inl e \<Rightarrow> 1 | Inr r \<Rightarrow> (case poolEnd of Inl e \<Rightarrow> 1 | Inr u \<Rightarrow> 0))"

text \<open>
  When \<open>SIGINT\<close> arrives. The handler exits at once, the connection breaks and Postgres rolls an open
  transaction back.
\<close>

datatype sigint = No_sigint | Before_commit | After_commit

section \<open>replay-failed\<close>

text \<open>\<open>process.argv.indexOf('--id')\<close> and the argument after it, which must not be empty to count.\<close>

fun id_argument :: "string list \<Rightarrow> string option" where
  "id_argument [] = None"
| "id_argument (a # as) =
     (if a = ''--id'' then (case as of [] \<Rightarrow> None | i # r \<Rightarrow> if i = [] then None else Some i)
      else id_argument as)"

definition replay_run ::
  "env \<Rightarrow> string list \<Rightarrow> db \<Rightarrow> (exn + (string \<times> replay_outcome) list) \<times> db" where
  "replay_run en argv db =
     (case id_argument argv of
        Some i \<Rightarrow> (case replayFailedEvent en R_resolved i db of
                     (Inl e, db') \<Rightarrow> (Inl e, db')
                   | (Inr (oc, es), db') \<Rightarrow> (Inr [(i, oc)], db'))
      | None \<Rightarrow> replayAllUnresolvedFailedEvents en db)"

definition replay_outcome_text :: "replay_outcome \<Rightarrow> string" where
  "replay_outcome_text oc = (case oc of Replayed \<Rightarrow> ''replayed'' | Already_resolved \<Rightarrow> ''already_resolved''
     | Still_failing m \<Rightarrow> ''still_failing '' @ em_dash @ '' '' @ m)"

definition is_failing :: "replay_outcome \<Rightarrow> bool" where
  "is_failing oc = (case oc of Still_failing m \<Rightarrow> True | _ \<Rightarrow> False)"

definition replay_lines :: "(string \<times> replay_outcome) list \<Rightarrow> string list" where
  "replay_lines ocs =
     map (\<lambda>(i, oc). ''[replay] '' @ i @ '': '' @ replay_outcome_text oc) ocs @
     [''[replay] done '' @ em_dash @ '' '' @ show_nat (length ocs) @ '' event(s) processed, '' @
      show_nat (length (filter (is_failing \<circ> snd) ocs)) @ '' still failing'']"

definition replay_command ::
  "env \<Rightarrow> exn + unit \<Rightarrow> string list \<Rightarrow> db \<Rightarrow> (nat \<times> string list) \<times> db" where
  "replay_command en poolEnd argv db =
     (case replay_run en argv db of
        (r, db') \<Rightarrow> ((exit_code r poolEnd, case r of Inl e \<Rightarrow> [] | Inr ocs \<Rightarrow> replay_lines ocs), db'))"

section \<open>reindex, reorg:clear and migrate\<close>

definition reindex_command ::
  "env \<Rightarrow> nat \<Rightarrow> sigint \<Rightarrow> exn + unit \<Rightarrow> db \<Rightarrow> nat \<times> db" where
  "reindex_command en batchSize interrupt poolEnd db =
     (case interrupt of
        Before_commit \<Rightarrow> (130, db)
      | After_commit \<Rightarrow> (130, snd (reindexFromEventLog en batchSize db))
      | No_sigint \<Rightarrow> (case reindexFromEventLog en batchSize db of (r, db') \<Rightarrow> (exit_code r poolEnd, db')))"

definition clear_reorg_command ::
  "(int \<Rightarrow> string) \<Rightarrow> pg_fault \<Rightarrow> int \<Rightarrow> exn + unit \<Rightarrow> db \<Rightarrow> nat \<times> db" where
  "clear_reorg_command isoTime auditFault now poolEnd db =
     (case clearRecordedReorg isoTime auditFault now None None db of (r, db') \<Rightarrow>
        (exit_code (Inr r :: exn + _) poolEnd, db'))"

definition migrate_command ::
  "(migration_file \<Rightarrow> 's \<Rightarrow> exn + 's) \<Rightarrow> ('s \<Rightarrow> exn + 's) \<Rightarrow> bool \<Rightarrow> exn + string list option \<Rightarrow> exn + unit \<Rightarrow>
   's database \<Rightarrow> nat \<times> 's database" where
  "migrate_command run baseline locked entries poolEnd d =
     (case migrate run baseline locked entries d of (r, d') \<Rightarrow> (exit_code r poolEnd, d'))"

section \<open>Facts\<close>

lemma exit_code_zero: "exit_code r p = 0 \<longleftrightarrow> (\<exists>v. r = Inr v) \<and> p = Inr ()"
  by (auto simp: exit_code_def split: sum.splits)

lemma is_failing_iff: "is_failing oc \<longleftrightarrow> (\<exists>m. oc = Still_failing m)"
  by (cases oc) (simp_all add: is_failing_def)

lemma replay_unresolved:
  assumes "replayFailedEvent en res i db = (Inr (oc, es), db')"
  shows "unresolved db' j = (unresolved db j \<and> (j = i \<longrightarrow> is_failing oc))"
proof (cases oc)
  case Replayed
  with assms have "replayFailedEvent en res i db = (Inr (Replayed, es), db')" by simp
  then show ?thesis by (rule replay_replayed) (simp add: is_failing_def Replayed)
next
  case Already_resolved
  with assms show ?thesis
    by (auto simp: replayFailedEvent_def is_failing_def split: if_splits option.splits sum.splits prod.splits)
next
  case (Still_failing m)
  with assms show ?thesis
    by (auto simp: replayFailedEvent_def is_failing_def unresolved_def split: if_splits option.splits sum.splits prod.splits)
qed

lemma replay_each_ids: "replay_each en is db = (Inr ocs, db') \<Longrightarrow> map fst ocs = is"
  by (induction "is" arbitrary: db ocs db') (auto split: prod.splits sum.splits)

lemma replay_each_unresolved:
  assumes "replay_each en is db = (Inr ocs, db')" "distinct is"
  shows "unresolved db' j = (unresolved db j \<and> (j \<in> set is \<longrightarrow> (\<exists>oc. (j, oc) \<in> set ocs \<and> is_failing oc)))"
  using assms
proof (induction "is" arbitrary: db ocs)
  case (Cons i "is")
  then obtain oc es db1 rest where one: "replayFailedEvent en R_resolved i db = (Inr (oc, es), db1)"
    and more: "replay_each en is db1 = (Inr rest, db')" and ocs: "ocs = (i, oc) # rest"
    by (auto split: prod.splits sum.splits)
  have "(i, x) \<notin> set rest" for x
    using replay_each_ids [OF more] Cons.prems(2) by force
  with Cons.IH [OF more] Cons.prems(2) show ?case
    by (auto simp: ocs replay_unresolved [OF one, of j])
qed simp

lemma unresolved_ids_set:
  assumes "tuniq (db_failed db)"
  shows "set (unresolved_ids db) = {i. unresolved db i}"
proof -
  have "(i, r) \<in> set (db_failed db) \<longleftrightarrow> tget (db_failed db) i = Some r" for i r
    using assms by (simp add: tget_def tuniq_def map_of_eq_Some_iff)
  then show ?thesis by (auto simp: unresolved_ids_def unresolved_def image_iff Bex_def split: option.splits)
qed

lemma unresolved_ids_distinct: "tuniq (db_failed db) \<Longrightarrow> distinct (unresolved_ids db)"
  by (simp add: unresolved_ids_def tuniq_def distinct_map_filter)

text \<open>What a run without arguments reports as still failing is what remains to be done.\<close>

lemma replay_all_reports_what_remains:
  assumes "replayAllUnresolvedFailedEvents en db = (Inr ocs, db')" "tuniq (db_failed db)"
  shows "unresolved db' j \<longleftrightarrow> (\<exists>m. (j, Still_failing m) \<in> set ocs)"
proof -
  note run = assms(1) [unfolded replayAllUnresolvedFailedEvents_def]
  have "unresolved db' j = (unresolved db j \<and> (\<exists>oc. (j, oc) \<in> set ocs \<and> is_failing oc))"
    using replay_each_unresolved [OF run unresolved_ids_distinct [OF assms(2)]] unresolved_ids_set [OF assms(2)] by auto
  moreover have "(j, oc) \<in> set ocs \<Longrightarrow> unresolved db j" for oc
  proof -
    assume "(j, oc) \<in> set ocs"
    then have "j \<in> set (map fst ocs)" by force
    then show "unresolved db j" using replay_each_ids [OF run] unresolved_ids_set [OF assms(2)] by simp
  qed
  ultimately show ?thesis unfolding is_failing_iff by blast
qed

lemma extends_replay_each: "replay_each en is db = (r, db') \<Longrightarrow> extends db db'"
proof (induction "is" arbitrary: db r)
  case (Cons i "is")
  obtain r1 db1 where one: "replayFailedEvent en R_resolved i db = (r1, db1)" by fastforce
  show ?case
  proof (cases r1)
    case (Inl e)
    with Cons.prems one extends_replay [OF one] show ?thesis by simp
  next
    case (Inr oc)
    then obtain r2 where "replay_each en is db1 = (r2, db')"
      using Cons.prems one by (cases oc) (auto split: prod.splits sum.splits)
    then show ?thesis using Cons.IH extends_replay [OF one] extends_trans by blast
  qed
qed simp

lemma extends_replay_run:
  assumes "replay_run en argv db = (r, db')"
  shows "extends db db'"
proof (cases "id_argument argv")
  case None
  with assms show ?thesis
    by (simp add: replay_run_def replayAllUnresolvedFailedEvents_def extends_replay_each)
next
  case (Some i)
  obtain r1 db1 where one: "replayFailedEvent en R_resolved i db = (r1, db1)" by fastforce
  with Some assms have "db' = db1" by (auto simp: replay_run_def split: sum.splits)
  with extends_replay [OF one] show ?thesis by simp
qed

text \<open>
  A rebuild that is interrupted or fails changes nothing: the exit code is 0 only after the commit.
\<close>

lemma reindex_fails_clean: "reindexFromEventLog en b db = (Inl e, db') \<Longrightarrow> db' = db"
  by (auto simp: reindexFromEventLog_def Let_def split: if_splits sum.splits)

lemma reindex_command_all_or_nothing:
  assumes "reindex_command en b interrupt poolEnd db = (code, db')"
  shows "db' = db \<or> (\<exists>n es. reindexFromEventLog en b db = (Inr (n, es), db'))"
    and "code = 0 \<Longrightarrow> \<exists>n es. reindexFromEventLog en b db = (Inr (n, es), db')"
    and "code \<in> {0, 1, 130}"
proof -
  obtain r d where run: "reindexFromEventLog en b db = (r, d)" by fastforce
  show "db' = db \<or> (\<exists>n es. reindexFromEventLog en b db = (Inr (n, es), db'))"
    "code = 0 \<Longrightarrow> \<exists>n es. reindexFromEventLog en b db = (Inr (n, es), db')" "code \<in> {0, 1, 130}"
    using assms run reindex_fails_clean
    by (cases r; cases interrupt; auto simp: reindex_command_def exit_code_def split: sum.splits)+
qed

lemma clear_reorg_command_unblocks:
  assumes "clear_reorg_command isoTime af now poolEnd db = (code, db')"
  shows "loadUnclearedReorgHalt db' = None" and "code = 0 \<longleftrightarrow> poolEnd = Inr ()"
proof -
  obtain h n d where run: "clearRecordedReorg isoTime af now None None db = ((h, n), d)"
    by (metis prod.exhaust)
  with assms have c: "db' = d" "code = exit_code (Inr (h, n) :: exn + _) poolEnd"
    by (auto simp: clear_reorg_command_def)
  show "loadUnclearedReorgHalt db' = None" using clearRecordedReorg_result(1) [OF run] c(1) by simp
  show "code = 0 \<longleftrightarrow> poolEnd = Inr ()" by (simp add: c(2) exit_code_zero)
qed

section \<open>Behaviour worth knowing\<close>

text \<open>\<open>--id\<close> as the last argument, or with an empty value, replays every unresolved event.\<close>

lemma id_without_value_replays_all:
  "''--id'' \<notin> set args \<Longrightarrow> id_argument (args @ [''--id'']) = None \<and> id_argument (args @ [''--id'', []]) = None"
  by (induction args) auto

text \<open>
  The argument is an event id: the number of a \<open>failed_events\<close> row names no record, so the command
  reports \<open>already_resolved\<close>, exits with 0 and changes nothing.
\<close>

lemma row_number_replays_nothing:
  assumes "en_lock_free en" "\<not> unresolved db i" "i \<noteq> []"
  shows "replay_command en (Inr ()) [''--id'', i] db =
    ((0, replay_lines [(i, Already_resolved)]), db)"
  using assms by (simp add: replay_command_def replay_run_def replayFailedEvent_def exit_code_def)

text \<open>The exit code does not tell whether events still fail.\<close>

lemma still_failing_exits_zero:
  "replay_run en argv db = (Inr ocs, db') \<Longrightarrow>
    replay_command en (Inr ()) argv db = ((0, replay_lines ocs), db')"
  by (simp add: replay_command_def exit_code_def)

end
