(* ===== verification/Response_Schemas.thy ===== *)
theory Response_Schemas
  imports Stats
begin

text \<open>
  The response and querystring schemas the routes of \<open>src/src/api/routes/index.ts\<close> declare, as data, and
  the JSON the handlers answer with: the columns of a row as the interfaces of \<open>src/src/types.ts\<close> name
  them. Postgres integers are numbers (the pool parses \<open>BIGINT\<close> as one), \<open>NUMERIC\<close> amounts decimal
  strings, instants the text \<open>isoTime\<close> of a \<open>Date\<close>. Two questions are asked of an answer: does it conform
  to the schema declared for its status, and does the schema declare every field of it, as a serializer
  built from the schema writes the declared fields only.
\<close>

section \<open>Schemas\<close>

datatype schema =
    Sc_any
  | Sc_string
  | Sc_enum "string list"
  | Sc_date_time \<comment> \<open>\<open>type: 'string', format: 'date-time'\<close>\<close>
  | Sc_date
  | Sc_integer
  | Sc_number
  | Sc_boolean
  | Sc_nullable schema \<comment> \<open>\<open>type: [t, 'null']\<close> or \<open>nullable: true\<close>\<close>
  | Sc_array schema
  | Sc_object "string list" "(string \<times> schema) list" \<comment> \<open>required names and properties\<close>

text \<open>Validity of a value; a format is an annotation.\<close>

fun conforms :: "schema \<Rightarrow> jsval \<Rightarrow> bool" where
  "conforms Sc_any v = True"
| "conforms Sc_string v = (case v of JStr s \<Rightarrow> True | _ \<Rightarrow> False)"
| "conforms (Sc_enum ss) v = (case v of JStr s \<Rightarrow> s \<in> set ss | _ \<Rightarrow> False)"
| "conforms Sc_date_time v = (case v of JStr s \<Rightarrow> True | _ \<Rightarrow> False)"
| "conforms Sc_date v = (case v of JStr s \<Rightarrow> True | _ \<Rightarrow> False)"
| "conforms Sc_integer v = (case v of JNum n \<Rightarrow> isInteger n | _ \<Rightarrow> False)"
| "conforms Sc_number v = (case v of JNum n \<Rightarrow> isFinite n | _ \<Rightarrow> False)"
| "conforms Sc_boolean v = (case v of JBool b \<Rightarrow> True | _ \<Rightarrow> False)"
| "conforms (Sc_nullable s) v = (v = JNull \<or> conforms s v)"
| "conforms (Sc_array s) v = (case v of JArr vs \<Rightarrow> list_all (conforms s) vs | _ \<Rightarrow> False)"
| "conforms (Sc_object req props) v =
     (case v of
        JObj kvs \<Rightarrow> list_all (\<lambda>k. map_of kvs k \<noteq> None) req \<and>
          list_all (\<lambda>ks. case map_of kvs (fst ks) of None \<Rightarrow> True | Some x \<Rightarrow> conforms (snd ks) x) props
      | _ \<Rightarrow> False)"

text \<open>Every field of an object is declared, at every depth the schema describes.\<close>

fun declares :: "schema \<Rightarrow> jsval \<Rightarrow> bool" where
  "declares (Sc_nullable s) v = (v = JNull \<or> declares s v)"
| "declares (Sc_array s) v = (case v of JArr vs \<Rightarrow> list_all (declares s) vs | _ \<Rightarrow> True)"
| "declares (Sc_object req props) v =
     (case v of
        JObj kvs \<Rightarrow> set (map fst kvs) \<subseteq> set (map fst props) \<and>
          list_all (\<lambda>ks. case map_of kvs (fst ks) of None \<Rightarrow> True | Some x \<Rightarrow> declares (snd ks) x) props
      | _ \<Rightarrow> True)"
| "declares _ v = True"

type_synonym responses = "(nat \<times> schema) list"

definition error_schema :: schema where
  "error_schema = Sc_object [] [(''error'', Sc_string)]"

definition notification_schema :: schema where
  "notification_schema = Sc_object []
        [(''id'', Sc_integer), (''address'', Sc_string),
         (''type'', Sc_enum [''success'', ''error'', ''warning'', ''info'']), (''title'', Sc_string),
         (''message'', Sc_string), (''ledger'', Sc_nullable Sc_integer), (''tx_hash'', Sc_nullable Sc_string),
         (''read'', Sc_boolean), (''event_id'', Sc_nullable Sc_string), (''created_at'', Sc_string)]"

definition notifications_responses :: responses where
  "notifications_responses = [(200, Sc_array notification_schema), (400, error_schema)]"

definition event_schema :: schema where
  "event_schema = Sc_object []
        [(''id'', Sc_string), (''ledger'', Sc_integer), (''closed_at'', Sc_string), (''contract_id'', Sc_string),
         (''symbol'', Sc_string), (''topics'', Sc_any), (''data'', Sc_any), (''tx_hash'', Sc_nullable Sc_string),
         (''decode_error'', Sc_nullable Sc_string), (''created_at'', Sc_string)]"

definition events_responses :: responses where
  "events_responses = [(200, Sc_array event_schema), (400, error_schema)]"

definition admin_log_querystring :: schema where
  "admin_log_querystring = Sc_object []
     [(''limit'', Sc_string), (''before'', Sc_string), (''contract'', Sc_string)]"

definition admin_event_schema :: schema where
  "admin_event_schema = Sc_object []
        [(''id'', Sc_string), (''ledger'', Sc_integer), (''closed_at'', Sc_date_time), (''contract_id'', Sc_string),
         (''symbol'', Sc_string), (''topics'', Sc_any), (''data'', Sc_any), (''tx_hash'', Sc_nullable Sc_string),
         (''decode_error'', Sc_nullable Sc_string), (''created_at'', Sc_date_time)]"

definition admin_log_responses :: responses where
  "admin_log_responses = [(200, Sc_array admin_event_schema), (400, error_schema)]"

definition failed_events_querystring :: schema where
  "failed_events_querystring = Sc_object []
     [(''limit'', Sc_string), (''before'', Sc_string), (''unresolved'', Sc_enum [''true'', ''false'']),
      (''symbol'', Sc_string), (''from_ledger'', Sc_string), (''to_ledger'', Sc_string)]"

definition failed_event_schema :: schema where
  "failed_event_schema = Sc_object []
        [(''id'', Sc_integer), (''event_id'', Sc_string), (''symbol'', Sc_string), (''ledger'', Sc_integer),
         (''created_at'', Sc_date_time), (''resolved_at'', Sc_nullable Sc_date_time)]"

definition failed_events_responses :: responses where
  "failed_events_responses = [(200, Sc_array failed_event_schema), (400, error_schema)]"

definition stats_schema :: schema where
  "stats_schema = Sc_object []
        [(''totalMembers'', Sc_integer), (''activeMembers'', Sc_integer), (''totalLoanProposals'', Sc_integer),
         (''totalLoans'', Sc_integer), (''activeLoans'', Sc_integer), (''defaultedLoans'', Sc_integer),
         (''totalDefaultedValue'', Sc_string), (''totalTreasuryProposals'', Sc_integer), (''totalStaked'', Sc_string),
         (''totalContribution'', Sc_string), (''stakingRatio'', Sc_number), (''interestCollected'', Sc_string),
         (''principalLent'', Sc_string), (''principalRepaid'', Sc_string), (''valueDefaulted'', Sc_string),
         (''quarantinedEvents'', Sc_integer), (''connectedStreams'', Sc_integer), (''notificationFailures'', Sc_integer),
         (''reorgHalt'', Sc_nullable (Sc_object [] [(''reason'', Sc_string), (''detail'', Sc_string)]))]"

definition stats_responses :: responses where
  "stats_responses = [(200, stats_schema), (503, error_schema)]"

definition history_day_schema :: schema where
  "history_day_schema = Sc_object
     [''date'', ''principalLent'', ''principalRepaid'', ''defaults'', ''valueDefaulted'', ''cumulativeDefaultRatePercent'']
     [(''date'', Sc_date), (''principalLent'', Sc_string), (''principalRepaid'', Sc_string), (''defaults'', Sc_integer),
      (''valueDefaulted'', Sc_string), (''cumulativeDefaultRatePercent'', Sc_number)]"

definition stats_history_responses :: responses where
  "stats_history_responses = [(200, Sc_object [''data''] [(''data'', Sc_array history_day_schema)])]"

section \<open>Bodies\<close>

abbreviation j_int :: "int \<Rightarrow> jsval" where "j_int i \<equiv> JNum (NInt i)"
abbreviation j_nat :: "nat \<Rightarrow> jsval" where "j_nat n \<equiv> JNum (NInt (int n))"

definition notification_type_text :: "notification_type \<Rightarrow> string" where
  "notification_type_text t = (case t of N_success \<Rightarrow> ''success'' | N_error \<Rightarrow> ''error''
     | N_warning \<Rightarrow> ''warning'' | N_info \<Rightarrow> ''info'')"

text \<open>\<open>SELECT *\<close>; \<open>created i\<close> is the instant of the insert of row \<open>i\<close>.\<close>

definition notification_json :: "(int \<Rightarrow> string) \<Rightarrow> (int \<Rightarrow> int) \<Rightarrow> int \<times> notification_row \<Rightarrow> jsval" where
  "notification_json isoTime created = (\<lambda>(i, n). JObj
     [(''id'', j_int i), (''address'', JStr (nt_address n)), (''type'', JStr (notification_type_text (nt_type n))),
      (''title'', JStr (nt_title n)), (''message'', JStr (nt_message n)), (''ledger'', j_nat (nt_ledger n)),
      (''tx_hash'', opt_json JStr (nt_tx_hash n)), (''read'', JBool (nt_read n)), (''event_id'', JStr (nt_event_id n)),
      (''created_at'', JStr (isoTime (created i)))])"

definition event_json :: "(int \<Rightarrow> string) \<Rightarrow> (string \<Rightarrow> int) \<Rightarrow> string \<times> event_row \<Rightarrow> jsval" where
  "event_json isoTime created = (\<lambda>(i, r). JObj
     [(''id'', JStr i), (''ledger'', j_nat (er_ledger r)), (''closed_at'', JStr (isoTime (er_closed_at r))),
      (''contract_id'', JStr (er_contract_id r)), (''symbol'', JStr (er_symbol r)), (''topics'', er_topics r),
      (''data'', er_data r), (''tx_hash'', opt_json JStr (er_tx_hash r)),
      (''decode_error'', opt_json JStr (er_decode_error r)), (''created_at'', JStr (isoTime (created i))),
      (''folded_at'', opt_json (\<lambda>t. JStr (isoTime t)) (er_folded_at r))])"

definition events_json :: "(int \<Rightarrow> string) \<Rightarrow> (string \<Rightarrow> int) \<Rightarrow> (string \<times> event_row) list \<times> string option \<Rightarrow> jsval" where
  "events_json isoTime created = (\<lambda>(es, nextCursor). JObj
     ((''events'', JArr (map (event_json isoTime created) es)) #
      (case nextCursor of None \<Rightarrow> [] | Some c \<Rightarrow> [(''nextCursor'', JStr c)])))"

definition failed_event_json :: "(int \<Rightarrow> string) \<Rightarrow> failed_event_view \<Rightarrow> jsval" where
  "failed_event_json isoTime v = JObj
     [(''id'', j_int (fv_id v)), (''event_id'', JStr (fv_event_id v)), (''symbol'', JStr (fv_symbol v)),
      (''ledger'', j_nat (fv_ledger v)), (''created_at'', JStr (isoTime (fv_created_at v))),
      (''resolved_at'', opt_json (\<lambda>t. JStr (isoTime t)) (fv_resolved_at v))]"

text \<open>\<open>quot a b\<close> is the floating-point quotient.\<close>

definition reorg_halt_json :: "(int \<Rightarrow> string) \<Rightarrow> reorg_halt_row \<Rightarrow> jsval" where
  "reorg_halt_json isoTime h = JObj
     [(''detectedAt'', JStr (isoTime (rh_detected_at h))), (''contractId'', JStr (rh_contract_id h)),
      (''lastLedger'', opt_json j_nat (rh_last_ledger h)), (''detail'', JStr (rh_detail h))]"

definition ratio_num :: "(int \<Rightarrow> int \<Rightarrow> jsnum) \<Rightarrow> (int \<times> int) option \<Rightarrow> jsnum" where
  "ratio_num quot r = (case r of None \<Rightarrow> NInt 0 | Some (x, y) \<Rightarrow> quot x y)"

definition dao_stats_json :: "(int \<Rightarrow> string) \<Rightarrow> (int \<Rightarrow> int \<Rightarrow> jsnum) \<Rightarrow> dao_stats \<Rightarrow> jsval" where
  "dao_stats_json isoTime quot s =
     (let c = ds_counts s; a = ds_amounts s; f = ds_freshness s in JObj
     [(''totalMembers'', j_nat (sc_totalMembers c)), (''activeMembers'', j_nat (sc_activeMembers c)),
      (''totalLoanProposals'', j_nat (sc_totalLoanProposals c)), (''totalLoans'', j_nat (sc_totalLoans c)),
      (''activeLoans'', j_nat (sc_activeLoans c)), (''defaultedLoans'', j_nat (sc_defaultedLoans c)),
      (''totalDefaultedValue'', JStr (show_int (sa_totalDefaultedValue a))),
      (''totalTreasuryProposals'', j_nat (sc_totalTreasuryProposals c)),
      (''totalStaked'', JStr (show_int (sa_totalStaked a))),
      (''totalContribution'', JStr (show_int (sa_totalContribution a))),
      (''stakingRatio'', JNum (ratio_num quot (ds_stakingRatio s))),
      (''interestCollected'', JStr (show_int (sa_interestCollected a))),
      (''principalLent'', JStr (show_int (sa_principalLent a))),
      (''principalRepaid'', JStr (show_int (sa_principalRepaid a))),
      (''valueDefaulted'', JStr (show_int (sa_valueDefaulted a))),
      (''quarantinedEvents'', j_nat (sc_quarantinedEvents c)),
      (''quarantineEscalatedAt'', opt_json (\<lambda>t. JStr (isoTime t)) (ds_quarantineEscalatedAt s)),
      (''lastIndexedLedger'', opt_json j_nat (fr_lastIndexedLedger f)),
      (''observedTipLedger'', opt_json j_nat (fr_observedTipLedger f)),
      (''ledgersBehind'', opt_json j_nat (fr_ledgersBehind f)),
      (''estimatedLagSeconds'', opt_json j_int (fr_estimatedLagSeconds f)),
      (''secondsSinceUpdate'', opt_json j_int (fr_secondsSinceUpdate f)),
      (''indexerStale'', JBool (fr_stale f)), (''reorgDetected'', JBool (ds_reorgHalt s \<noteq> None)),
      (''reorgHalt'', opt_json (reorg_halt_json isoTime) (ds_reorgHalt s)),
      (''connectedStreams'', j_nat (ds_connectedStreams s)),
      (''notificationFailures'', j_nat (ds_notificationFailures s))])"

text \<open>\<open>rate d o\<close> is \<open>Number(((d / o) * 100).toFixed(4))\<close>, \<open>dayText\<close> the text of a date.\<close>

definition history_day_json :: "(int \<Rightarrow> string) \<Rightarrow> (int \<Rightarrow> int \<Rightarrow> jsnum) \<Rightarrow> history_day \<Rightarrow> jsval" where
  "history_day_json dayText rate h = JObj
     [(''date'', JStr (dayText (hd_date h))), (''principalLent'', JStr (show_int (hd_principalLent h))),
      (''principalRepaid'', JStr (show_int (hd_principalRepaid h))), (''defaults'', j_int (hd_defaults h)),
      (''valueDefaulted'', JStr (show_int (hd_valueDefaulted h))),
      (''cumulativeDefaultRatePercent'',
        if hd_cumulativeOriginated h = 0 then j_int 0
        else JNum (rate (hd_cumulativeDefaults h) (hd_cumulativeOriginated h)))]"

definition stats_history_json :: "(int \<Rightarrow> string) \<Rightarrow> (int \<Rightarrow> int \<Rightarrow> jsnum) \<Rightarrow> history_day list \<Rightarrow> jsval" where
  "stats_history_json dayText rate hs = JObj [(''data'', JArr (map (history_day_json dayText rate) hs))]"

text \<open>Status and body of an answer of the handler; a thrown error goes to the error handler instead.\<close>

definition response :: "('a \<Rightarrow> jsval) \<Rightarrow> 'a answer \<Rightarrow> (nat \<times> jsval) option" where
  "response json ans =
     (case snd ans of
        Inr (Send x) \<Rightarrow> Some (200, json x)
      | Inr (Refuse status msg) \<Rightarrow> Some (status, JObj [(''error'', JStr msg)])
      | Inl e \<Rightarrow> None)"

definition documented :: "responses \<Rightarrow> nat \<times> jsval \<Rightarrow> bool" where
  "documented rs r = (case map_of rs (fst r) of Some s \<Rightarrow> conforms s (snd r) | None \<Rightarrow> False)"

definition complete :: "responses \<Rightarrow> nat \<times> jsval \<Rightarrow> bool" where
  "complete rs r = (case map_of rs (fst r) of Some s \<Rightarrow> declares s (snd r) | None \<Rightarrow> False)"

text \<open>A request whose query does not fit the declared schema is refused before the handler runs.\<close>

definition validated :: "schema \<Rightarrow> cache_policy \<Rightarrow> string \<Rightarrow> query_params \<Rightarrow> 'a answer \<Rightarrow> 'a answer" where
  "validated s policy message q ans = (if conforms s (JObj q) then ans else refuse policy 400 message)"

section \<open>Types of the bodies\<close>

lemma conforms_array [simp]: "conforms (Sc_array s) (JArr vs) = (\<forall>v \<in> set vs. conforms s v)"
  by (simp add: list_all_iff)

lemma declares_array [simp]: "declares (Sc_array s) (JArr vs) = (\<forall>v \<in> set vs. declares s v)"
  by (simp add: list_all_iff)

text \<open>A nullable column is typed when its value is; the unfolded disjunction is never needed.\<close>

lemma nullable_typed [simp]:
  "(\<And>x. conforms s (f x)) \<Longrightarrow> conforms (Sc_nullable s) (opt_json f v)"
  "(\<And>x. declares s (f x)) \<Longrightarrow> declares (Sc_nullable s) (opt_json f v)"
  by (cases v; simp add: opt_json_def)+

lemma nullable_present [simp]:
  "conforms s v \<Longrightarrow> conforms (Sc_nullable s) v" "declares s v \<Longrightarrow> declares (Sc_nullable s) v"
  by simp_all

declare conforms.simps(9) [simp del] declares.simps(1) [simp del]

lemma notification_type_text_enum [simp]:
  "notification_type_text t \<in> {''success'', ''error'', ''warning'', ''info''}"
  by (cases t) (simp_all add: notification_type_text_def)

text \<open>One row against the schema of its route; the lemmas on whole answers follow from these.\<close>

lemma notification_json_typed:
  "conforms notification_schema (notification_json isoTime created n)"
  "declares notification_schema (notification_json isoTime created n)"
  using notification_type_text_enum [of "nt_type (snd n)"]
  by (cases n; simp add: notification_schema_def notification_json_def isInteger_def del: insert_iff notification_type_text_enum)
    (cases n; simp add: notification_schema_def notification_json_def)

lemma event_json_typed:
  "conforms admin_event_schema (event_json isoTime created e)"
  "\<not> declares admin_event_schema (event_json isoTime created e)"
  by (cases e; simp add: admin_event_schema_def event_json_def isInteger_def)+

lemma failed_event_json_typed:
  "conforms failed_event_schema (failed_event_json isoTime v)" "declares failed_event_schema (failed_event_json isoTime v)"
  by (simp_all add: failed_event_schema_def failed_event_json_def isInteger_def)

text \<open>
  The floating-point quotients: finite for a numerator a double can hold and a denominator that is not
  zero (which is then at least 1, or infinite with the quotient 0). Not for all integers: \<open>Number\<close>
  of a numerator beyond the range is infinite.
\<close>

definition finite_quotients :: "(int \<Rightarrow> int \<Rightarrow> jsnum) \<Rightarrow> bool" where
  "finite_quotients q \<longleftrightarrow> (\<forall>x y. \<bar>x\<bar> < 10 ^ 300 \<and> y \<noteq> 0 \<longrightarrow> isFinite (q x y))"

text \<open>Tables as the handlers leave them, with fewer rows than a disk has room for.\<close>

definition ordinary_tables :: "derived \<Rightarrow> bool" where
  "ordinary_tables d \<longleftrightarrow> wf_derived d \<and> length (members d) < 10 ^ 200 \<and> length (daily_loan_stats d) < 10 ^ 200"

definition history_small :: "history_day list \<Rightarrow> bool" where
  "history_small hs \<longleftrightarrow> (\<forall>h \<in> set hs. \<bar>hd_cumulativeDefaults h\<bar> < 10 ^ 300)"

lemma sum_list_bound:
  assumes "\<forall>x \<in> set xs. 0 \<le> x \<and> x \<le> (B::int)"
  shows "0 \<le> sum_list xs \<and> sum_list xs \<le> int (length xs) * B"
  using assms by (induction xs) (auto simp: algebra_simps)

lemma filter_sum_bound:
  assumes "\<forall>x \<in> set xs. 0 \<le> f x \<and> f x \<le> (B::int)" "0 \<le> B"
  shows "0 \<le> sum_list (map f (filter P xs)) \<and> sum_list (map f (filter P xs)) \<le> int (length xs) * B"
proof -
  have "0 \<le> sum_list (map f (filter P xs)) \<and> sum_list (map f (filter P xs)) \<le> int (length (filter P xs)) * B"
    using sum_list_bound [of "map f (filter P xs)" B] assms(1) by simp
  moreover have "int (length (filter P xs)) * B \<le> int (length xs) * B"
    using assms(2) by (intro mult_right_mono) simp_all
  ultimately show ?thesis by linarith
qed

lemma rows_bound: "n < 10 ^ 200 \<Longrightarrow> int n * 10 ^ 40 < 10 ^ 300"
proof -
  assume "n < 10 ^ 200"
  then have "int n < 10 ^ 200" using of_nat_less_iff [of n "10 ^ 200", where 'a = int] by simp
  then have "int n * 10 ^ 40 \<le> 10 ^ 200 * 10 ^ 40" by (intro mult_right_mono) simp_all
  also have "\<dots> < (10::int) ^ 300" by simp
  finally show ?thesis .
qed

lemma staked_bound:
  assumes "ordinary_tables d"
  shows "\<bar>sa_totalStaked (compute_amounts d)\<bar> < 10 ^ 300"
proof -
  have "list_all member_ok (trows (members d))"
    using assms by (simp add: ordinary_tables_def wf_derived_def wf_parts_defs tall_def trows_def)
  then have "\<forall>m \<in> set (trows (members d)). 0 \<le> m_stake m \<and> m_stake m \<le> 10 ^ 40"
    by (auto simp: list_all_iff member_ok_def numeric_ok_def numeric_max_def)
  from filter_sum_bound [OF this, of "\<lambda>m. \<not> m_exited m"] rows_bound [of "length (members d)"] assms
  show ?thesis by (simp add: compute_amounts_def sum_rows_def ordinary_tables_def trows_def)
qed

lemma cumulative_bound:
  assumes "ordinary_tables d"
  shows "\<bar>sum_list (map (day_value dl_defaults_count d) [a..b])\<bar> < 10 ^ 300"
proof -
  let ?t = "daily_loan_stats d" and ?v = "day_value dl_defaults_count d"
  have v: "0 \<le> ?v k \<and> ?v k \<le> 10 ^ 40" for k
    using assms by (auto simp: ordinary_tables_def day_value_def daily_ok_def int4_ok_def int4_max_def split: option.splits dest!: wf_get(5))
  have "sum_list (map ?v [a..b]) = (\<Sum>k \<in> {a..b}. ?v k)" by (simp add: sum_list_distinct_conv_sum_set)
  also have "\<dots> = (\<Sum>k \<in> {a..b} \<inter> set (tkeys ?t). ?v k)"
    by (rule sum.mono_neutral_right) (auto simp: day_value_def tget_in_keys [THEN iffD2])
  finally have e: "sum_list (map ?v [a..b]) = (\<Sum>k \<in> {a..b} \<inter> set (tkeys ?t). ?v k)" .
  have "(\<Sum>k \<in> {a..b} \<inter> set (tkeys ?t). ?v k) \<le> of_nat (card ({a..b} \<inter> set (tkeys ?t))) * 10 ^ 40"
    by (rule sum_bounded_above) (use v in simp)
  also have "\<dots> \<le> int (length ?t) * 10 ^ 40"
  proof (intro mult_right_mono)
    have "card ({a..b} \<inter> set (tkeys ?t)) \<le> card (set (tkeys ?t))" by (intro card_mono) auto
    also have "\<dots> \<le> length ?t" using card_length [of "tkeys ?t"] by (simp add: tkeys_def)
    finally show "int (card ({a..b} \<inter> set (tkeys ?t))) \<le> int (length ?t)" by simp
  qed simp
  also have "\<dots> < 10 ^ 300" using assms rows_bound by (simp add: ordinary_tables_def)
  finally have "sum_list (map ?v [a..b]) < 10 ^ 300" using e by simp
  moreover have "0 \<le> sum_list (map ?v [a..b])" unfolding e by (intro sum_nonneg) (use v in simp)
  ultimately show ?thesis by simp
qed

lemma loan_history_small: "ordinary_tables d \<Longrightarrow> history_small (loan_history today d)"
  using cumulative_bound by (auto simp: history_small_def loan_history_def history_row_def split: option.splits)

lemma history_day_json_typed:
  assumes "finite_quotients rate" "\<bar>hd_cumulativeDefaults h\<bar> < 10 ^ 300"
  shows "conforms history_day_schema (history_day_json dayText rate h)"
    and "declares history_day_schema (history_day_json dayText rate h)"
proof -
  have f: "hd_cumulativeOriginated h \<noteq> 0 \<Longrightarrow> isFinite (rate (hd_cumulativeDefaults h) (hd_cumulativeOriginated h))"
    using assms by (simp add: finite_quotients_def)
  show "conforms history_day_schema (history_day_json dayText rate h)"
    and "declares history_day_schema (history_day_json dayText rate h)"
    using f by (cases "hd_cumulativeOriginated h = 0"; simp add: history_day_schema_def history_day_json_def isInteger_def;
      simp add: isFinite_def)+
qed

text \<open>The ratio of a computed value has a denominator that is not zero.\<close>

definition ratio_ok :: "dao_stats \<Rightarrow> bool" where
  "ratio_ok s = (case ds_stakingRatio s of None \<Rightarrow> True | Some (x, y) \<Rightarrow> \<bar>x\<bar> < 10 ^ 300 \<and> y \<noteq> 0)"

lemma computeStats_ratio_ok:
  "ordinary_tables (db_derived db) \<Longrightarrow> ratio_ok (computeStats closeTime staleAfterMs now1 now2 streams failures db)"
  using staked_bound [of "db_derived db"] by (simp add: ratio_ok_def computeStats_def Let_def)

lemma ratio_ok_live [simp]:
  "ratio_ok (s\<lparr>ds_connectedStreams := a, ds_notificationFailures := b\<rparr>) = ratio_ok s"
  by (simp add: ratio_ok_def)

lemma ratio_num_finite:
  assumes "finite_quotients quot" "ratio_ok s"
  shows "isFinite (ratio_num quot (ds_stakingRatio s))"
  using assms by (auto simp: ratio_num_def ratio_ok_def finite_quotients_def split: option.splits) (simp add: isFinite_def)

lemma stats_json_typed:
  assumes "finite_quotients quot" "ratio_ok s"
  shows "conforms stats_schema (dao_stats_json isoTime quot s)"
  using ratio_num_finite [of quot s, OF assms]
  by (simp add: stats_schema_def dao_stats_json_def Let_def reorg_halt_json_def isInteger_def)

lemma refusal_typed [simp]: "conforms error_schema (JObj [(''error'', JStr m)])" "declares error_schema (JObj [(''error'', JStr m)])"
  by (simp_all add: error_schema_def)

section \<open>Answers of the handlers\<close>

text \<open>An answer is a body of the handler with status 200, or a refusal with one of the given statuses.\<close>

definition answers :: "nat list \<Rightarrow> 'a answer \<Rightarrow> bool" where
  "answers statuses ans = (case snd ans of Inr (Refuse status m) \<Rightarrow> status \<in> set statuses | _ \<Rightarrow> True)"

lemma answers_documented:
  assumes "answers statuses ans" "response json ans = Some r"
    and "\<And>st. st \<in> set statuses \<Longrightarrow> map_of rs st = Some error_schema"
    and "map_of rs 200 = Some s" "\<And>x. snd ans = Inr (Send x) \<Longrightarrow> conforms s (json x)"
  shows "documented rs r"
  using assms by (auto simp: answers_def response_def documented_def split: sum.splits reply.splits)

lemma answers_complete:
  assumes "answers statuses ans" "response json ans = Some r"
    and "\<And>st. st \<in> set statuses \<Longrightarrow> map_of rs st = Some error_schema"
    and "map_of rs 200 = Some s" "\<And>x. snd ans = Inr (Send x) \<Longrightarrow> declares s (json x)"
  shows "complete rs r"
  using assms by (auto simp: answers_def response_def complete_def split: sum.splits reply.splits)

lemma get_notifications_answers: "answers [400] (get_notifications sdk q d)"
  by (simp add: answers_def get_notifications_def split: if_splits)

lemma get_admin_log_answers: "answers [400] (validated s p m q (get_admin_log q db))"
  by (simp add: answers_def validated_def get_admin_log_def Let_def split: if_splits)

lemma get_failed_events_answers: "answers [400] (validated s p m q (get_failed_events fid q db))"
  by (simp add: answers_def validated_def get_failed_events_def Let_def split: if_splits)

lemma get_stats_answers: "answers [503] (fst (get_stats ttl now done_at streams failures compute g cache))"
  by (simp add: answers_def get_stats_def Let_def split: option.splits sum.splits prod.splits)

lemma get_stats_history_answers: "answers [] (fst (get_stats_history up now today d c))"
  by (simp add: answers_def get_stats_history_def Let_def split: option.splits)

lemma notifications_documented:
  assumes "response (\<lambda>rows. JArr (map (notification_json isoTime created) rows)) (get_notifications sdk q d) = Some r"
  shows "documented notifications_responses r \<and> complete notifications_responses r"
proof
  show "documented notifications_responses r"
    by (rule answers_documented [OF get_notifications_answers assms, where s = "Sc_array notification_schema"])
      (simp_all add: notifications_responses_def notification_json_typed del: conforms.simps)
  show "complete notifications_responses r"
    by (rule answers_complete [OF get_notifications_answers assms, where s = "Sc_array notification_schema"])
      (simp_all add: notifications_responses_def notification_json_typed del: declares.simps)
qed

lemma admin_log_documented:
  assumes "response (\<lambda>rows. JArr (map (event_json isoTime created) rows))
      (validated admin_log_querystring DEFAULT_CACHE_POLICY message q (get_admin_log q db)) = Some r"
  shows "documented admin_log_responses r"
  by (rule answers_documented [OF get_admin_log_answers assms, where s = "Sc_array admin_event_schema"])
    (simp_all add: admin_log_responses_def event_json_typed del: conforms.simps)

lemma failed_events_documented:
  assumes "response (\<lambda>p. JArr (map (failed_event_json isoTime) (fst p)))
      (validated failed_events_querystring DEFAULT_CACHE_POLICY message q (get_failed_events fid q db)) = Some r"
  shows "documented failed_events_responses r \<and> complete failed_events_responses r"
proof
  show "documented failed_events_responses r"
    by (rule answers_documented [OF get_failed_events_answers assms, where s = "Sc_array failed_event_schema"])
      (simp_all add: failed_events_responses_def failed_event_json_typed del: conforms.simps)
  show "complete failed_events_responses r"
    by (rule answers_complete [OF get_failed_events_answers assms, where s = "Sc_array failed_event_schema"])
      (simp_all add: failed_events_responses_def failed_event_json_typed del: declares.simps)
qed

definition stats_history_schema :: schema where
  "stats_history_schema = Sc_object [''data''] [(''data'', Sc_array history_day_schema)]"

lemma stats_history_json_typed:
  assumes "finite_quotients rate" "history_small hs"
  shows "conforms stats_history_schema (stats_history_json dayText rate hs)"
    and "declares stats_history_schema (stats_history_json dayText rate hs)"
  using assms(2)
  by (simp_all add: stats_history_schema_def stats_history_json_def list_all_iff history_small_def history_day_json_typed [OF assms(1)])

text \<open>What the caches hold: histories and statistics these handlers computed, from ordinary tables.\<close>

definition history_computed :: "history_day list history_cache \<Rightarrow> bool" where
  "history_computed c \<longleftrightarrow> (\<forall>v. (\<exists>t. hc_local c = Some (t, v)) \<or> hc_redis c = Some v \<longrightarrow>
     (\<exists>today d. v = loan_history today d \<and> ordinary_tables d))"

definition stats_computed :: "(int \<times> dao_stats) option \<Rightarrow> bool" where
  "stats_computed cache \<longleftrightarrow> (\<forall>at w. cache = Some (at, w) \<longrightarrow>
     (\<exists>closeTime staleAfterMs now1 now2 streams failures db.
        w = computeStats closeTime staleAfterMs now1 now2 streams failures db \<and> ordinary_tables (db_derived db)))"

lemma sent_history_small:
  assumes "snd (fst (get_stats_history up now today d c)) = Inr (Send v)" "history_computed c" "ordinary_tables d"
  shows "history_small v"
proof -
  have "(\<exists>today d. v = loan_history today d \<and> ordinary_tables d)"
  proof (cases "history_get up now c")
    case None
    then show ?thesis using assms by (auto simp: get_stats_history_def Let_def)
  next
    case (Some w)
    then have "w = v" using assms(1) by (simp add: get_stats_history_def)
    with Some have "(\<exists>t. hc_local c = Some (t, v)) \<or> hc_redis c = Some v"
      by (auto simp: history_get_def split: if_splits option.splits)
    then show ?thesis using assms(2) unfolding history_computed_def by blast
  qed
  then show ?thesis using loan_history_small by blast
qed

lemma stats_history_documented:
  assumes "finite_quotients rate" "history_computed c" "ordinary_tables d"
    and "response (stats_history_json dayText rate) (fst (get_stats_history up now today d c)) = Some r"
  shows "documented stats_history_responses r \<and> complete stats_history_responses r"
proof
  note typed = stats_history_json_typed [OF assms(1) sent_history_small [OF _ assms(2,3)]]
  show "documented stats_history_responses r"
    by (rule answers_documented [OF get_stats_history_answers assms(4), where s = stats_history_schema])
      (simp_all add: stats_history_responses_def stats_history_schema_def [symmetric] typed del: conforms.simps)
  show "complete stats_history_responses r"
    by (rule answers_complete [OF get_stats_history_answers assms(4), where s = stats_history_schema])
      (simp_all add: stats_history_responses_def stats_history_schema_def [symmetric] typed del: declares.simps)
qed

lemma get_stats_ratio_ok:
  assumes "snd (fst (get_stats ttl now done_at streams failures compute g cache)) = Inr (Send v)" "stats_computed cache"
  shows "ratio_ok v"
  using assms computeStats_ratio_ok
  by (fastforce simp: get_stats_def Let_def stats_computed_def split: option.splits sum.splits if_splits)

lemma stats_documented:
  assumes "finite_quotients quot" "stats_computed cache"
    and "response (dao_stats_json isoTime quot) (fst (get_stats ttl now done_at streams failures compute g cache)) = Some r"
  shows "documented stats_responses r"
  by (rule answers_documented [OF get_stats_answers assms(3), where s = stats_schema])
    (simp_all add: stats_responses_def stats_json_typed [of quot, OF assms(1) get_stats_ratio_ok [OF _ assms(2)]]
      del: conforms.simps)

text \<open>A value is only ever sent from the cache: a request that computes one ends in an error.\<close>

lemma stats_miss_is_an_error:
  assumes "cache = None \<or> (\<exists>at w. cache = Some (at, w) \<and> ttl \<le> now - at)"
    and "response (dao_stats_json isoTime quot) (fst (get_stats ttl now done_at streams failures compute g cache)) = Some r"
  shows "r = (503, JObj [(''error'', JStr stats_busy)])"
  using assms by (auto simp: get_stats_def response_def Let_def split: sum.splits if_splits)

section \<open>Where the schemas and the answers part\<close>

text \<open>
  \<open>/events\<close> declares an array; the handler answers with an object, so no page it sends conforms.
\<close>

lemma events_never_documented:
  assumes "response (events_json isoTime created) (get_events q db) = Some (200, b)"
  shows "\<not> documented events_responses (200, b)"
  using assms
  by (auto simp: response_def get_events_def documented_def Let_def events_responses_def events_json_def bindE_def
      split: if_splits sum.splits prod.splits)

text \<open>
  \<open>/stats\<close> declares neither the freshness figures nor \<open>quarantineEscalatedAt\<close>, \<open>indexerStale\<close> and
  \<open>reorgDetected\<close>, and \<open>reorgHalt\<close> with a \<open>reason\<close> it never has; \<open>/admin/log\<close> does not declare \<open>folded_at\<close>.
\<close>

definition undeclared_fields :: "responses \<Rightarrow> jsval \<Rightarrow> string list" where
  "undeclared_fields rs v =
     (case (map_of rs 200, v) of
        (Some (Sc_object req props), JObj kvs) \<Rightarrow> filter (\<lambda>k. k \<notin> set (map fst props)) (map fst kvs)
      | _ \<Rightarrow> [])"

lemma stats_undeclared:
  "undeclared_fields stats_responses (dao_stats_json isoTime quot s) =
     [''quarantineEscalatedAt'', ''lastIndexedLedger'', ''observedTipLedger'', ''ledgersBehind'',
      ''estimatedLagSeconds'', ''secondsSinceUpdate'', ''indexerStale'', ''reorgDetected'']"
  by (simp add: undeclared_fields_def stats_responses_def stats_schema_def dao_stats_json_def Let_def)

lemma admin_log_drops_folded_at:
  assumes "response (\<lambda>rows. JArr (map (event_json isoTime created) rows)) ans = Some (200, JArr vs)" "vs \<noteq> []"
  shows "\<not> complete admin_log_responses (200, JArr vs)"
  using assms
  by (auto simp: response_def complete_def admin_log_responses_def event_json_typed neq_Nil_conv split: sum.splits reply.splits)

section \<open>Validated queries\<close>

lemma validated_param:
  assumes "conforms (Sc_object [] props) (JObj q)" "map_of props k = Some s"
  shows "param q k = JUndefined \<or> conforms s (param q k)"
  using assms map_of_SomeD [OF assms(2)] by (fastforce simp: param_def list_all_iff split: option.splits)

lemma failed_events_query_strings:
  assumes "conforms failed_events_querystring (JObj q)"
  shows "param q ''unresolved'' \<in> {JUndefined, JStr ''true'', JStr ''false''}"
    and "param q ''symbol'' = JUndefined \<or> (\<exists>s. param q ''symbol'' = JStr s)"
  using validated_param [OF assms [unfolded failed_events_querystring_def], of "''unresolved''"]
    validated_param [OF assms [unfolded failed_events_querystring_def], of "''symbol''"]
  by (auto split: jsval.splits)

end
