(* ===== verification/Bodies.thy ===== *)
theory Bodies
  imports Response_Schemas Actions
begin

text \<open>
  The JSON bodies of the rows that have no declared schema (\<open>src/types.ts\<close>). Amounts are decimal
  strings there \<open>so they survive JSON\<close>: a client reads every amount back exactly. The member summary
  is built by Postgres itself, with amounts as JSON numbers, and loses digits.
\<close>

section \<open>Rows\<close>

definition amount_json :: "int \<Rightarrow> jsval" where
  "amount_json i = JStr (show_int i)"

text \<open>The columns of a row; \<open>am\<close> is how an amount arrives and \<open>time\<close> how a timestamp does.\<close>

definition member_fields :: "(int \<Rightarrow> jsval) \<Rightarrow> (int \<Rightarrow> string) \<Rightarrow> int \<Rightarrow> string \<times> member_row \<Rightarrow> fields" where
  "member_fields am time updated = (\<lambda>(a, m).
     [(''address'', JStr a), (''joined_ledger'', opt_json j_nat (m_joined_ledger m)),
      (''contribution'', am (m_contribution m)), (''exited'', JBool (m_exited m)),
      (''exit_share'', opt_json am (m_exit_share m)), (''exited_ledger'', opt_json j_nat (m_exited_ledger m)),
      (''pending_claimed'', am (m_pending_claimed m)), (''stake'', am (m_stake m)),
      (''has_active_loan'', JBool (m_has_active_loan m)), (''name'', opt_json JStr (m_name m)),
      (''defaults_count'', j_int (m_defaults_count m)), (''updated_at'', JStr (time updated))])"

definition loan_fields :: "(int \<Rightarrow> jsval) \<Rightarrow> (int \<Rightarrow> string) \<Rightarrow> int \<Rightarrow> int \<times> loan_row \<Rightarrow> fields" where
  "loan_fields am time updated = (\<lambda>(i, r).
     [(''id'', j_int i), (''borrower'', JStr (ln_borrower r)), (''amount'', am (ln_amount r)),
      (''outstanding'', am (ln_outstanding r)), (''total_repayment'', am (ln_total_repayment r)),
      (''status'', JStr (loan_status_text (ln_status r))), (''approved_ledger'', opt_json j_nat (ln_approved_ledger r)),
      (''due_time'', opt_json (\<lambda>t. JStr (time t)) (ln_due_time r)),
      (''repaid_ledger'', opt_json j_nat (ln_repaid_ledger r)),
      (''defaulted_ledger'', opt_json j_nat (ln_defaulted_ledger r)), (''updated_at'', JStr (time updated))])"

definition derived_fields :: "loan_derived \<Rightarrow> fields" where
  "derived_fields ld =
     [(''interest_charge'', opt_json JStr (ld_interest_charge ld)), (''repaid_amount'', opt_json JStr (ld_repaid_amount ld)),
      (''repayment_progress_bps'', opt_json j_int (ld_repayment_progress_bps ld))]"

definition member_json :: "(int \<Rightarrow> string) \<Rightarrow> int \<Rightarrow> string \<times> member_row \<Rightarrow> jsval" where
  "member_json isoTime updated am = JObj (member_fields amount_json isoTime updated am)"

definition loan_json :: "(int \<Rightarrow> string) \<Rightarrow> int \<Rightarrow> int \<times> loan_row \<times> loan_derived \<Rightarrow> jsval" where
  "loan_json isoTime updated = (\<lambda>(i, r, ld). JObj (loan_fields amount_json isoTime updated (i, r) @ derived_fields ld))"

definition loan_proposal_json :: "(int \<Rightarrow> string) \<Rightarrow> int \<Rightarrow> int \<times> loan_proposal_row \<Rightarrow> jsval" where
  "loan_proposal_json isoTime updated = (\<lambda>(i, r). JObj
     [(''id'', j_int i), (''borrower'', JStr (lp_borrower r)), (''amount'', amount_json (lp_amount r)),
      (''total_repayment'', amount_json (lp_total_repayment r)),
      (''status'', JStr (loan_proposal_status_text (lp_status r))), (''votes_for'', amount_json (lp_votes_for r)),
      (''votes_against'', amount_json (lp_votes_against r)), (''voter_count'', j_int (lp_voter_count r)),
      (''created_ledger'', opt_json j_nat (lp_created_ledger r)), (''updated_at'', JStr (isoTime updated)),
      (''tallies_weighted'', JBool False)])"

definition treasury_proposal_json :: "(int \<Rightarrow> string) \<Rightarrow> int \<Rightarrow> int \<times> treasury_proposal_row \<Rightarrow> jsval" where
  "treasury_proposal_json isoTime updated = (\<lambda>(i, r). JObj
     [(''id'', j_int i), (''amount'', amount_json (tp_amount r)), (''destination'', JStr (tp_destination r)),
      (''private'', JBool (tp_private r)), (''status'', JStr (treasury_proposal_status_text (tp_status r))),
      (''votes_for'', amount_json (tp_votes_for r)), (''votes_against'', amount_json (tp_votes_against r)),
      (''voter_count'', j_int (tp_voter_count r)), (''created_ledger'', opt_json j_nat (tp_created_ledger r)),
      (''executed_ledger'', opt_json j_nat (tp_executed_ledger r)), (''updated_at'', JStr (isoTime updated)),
      (''tallies_weighted'', JBool False)])"

definition interest_json :: "(int \<Rightarrow> string) \<Rightarrow> (int \<Rightarrow> int) \<Rightarrow> int \<times> interest_distribution_row \<Rightarrow> jsval" where
  "interest_json isoTime created = (\<lambda>(i, r). JObj
     [(''id'', j_int i), (''ledger'', j_nat (idr_ledger r)), (''amount'', amount_json (idr_amount r)),
      (''active_members'', opt_json j_int (idr_active_members r)), (''tx_hash'', opt_json JStr (idr_tx_hash r)),
      (''created_at'', JStr (isoTime (created i)))])"

definition document_json :: "(int \<Rightarrow> string) \<Rightarrow> (int \<Rightarrow> int) \<Rightarrow> int \<times> document_row \<Rightarrow> jsval" where
  "document_json isoTime attached = (\<lambda>(i, r). JObj
     [(''id'', j_int i), (''proposal_id'', j_int (doc_proposal_id r)), (''kind'', JStr (kind_text (doc_kind r))),
      (''caller'', JStr (doc_caller r)), (''ledger'', j_nat (doc_ledger r)), (''tx_hash'', opt_json JStr (doc_tx_hash r)),
      (''attached_at'', JStr (isoTime (attached i)))])"

definition audit_json :: "(int \<Rightarrow> string) \<Rightarrow> (int \<Rightarrow> int) \<Rightarrow> int \<times> audit_row \<Rightarrow> jsval" where
  "audit_json isoTime created = (\<lambda>(i, r). JObj
     [(''id'', j_int i), (''admin_address'', JStr (au_admin_address r)), (''action'', JStr (au_action r)),
      (''ip_address'', opt_json JStr (au_ip_address r)), (''payload'', au_payload r),
      (''created_at'', JStr (isoTime (created i)))])"

definition timeline_json :: "(int \<Rightarrow> string) \<Rightarrow> timeline_entry \<Rightarrow> jsval" where
  "timeline_json isoTime e = JObj
     [(''id'', JStr (tl_id e)), (''symbol'', JStr (tl_symbol e)), (''ledger'', j_nat (tl_ledger e)),
      (''timestamp'', JStr (isoTime (tl_timestamp e))), (''tx_hash'', opt_json JStr (tl_tx_hash e)),
      (''fields'', JObj (tl_fields e))]"

section \<open>Reading a body back\<close>

text \<open>What a client gets for an amount, under the rule of \<open>parseIntegerAmount\<close>.\<close>

definition amount_of :: "string \<Rightarrow> jsval \<Rightarrow> int option" where
  "amount_of k v = (case v of JObj kvs \<Rightarrow> Option.bind (map_of kvs k) parseIntegerAmount | _ \<Rightarrow> None)"

definition received :: "jsval \<Rightarrow> jsval option" where
  "received body = JSON_parse (JSON_stringify body)"

text \<open>A value of a \<open>BIGINT\<close> or \<open>INTEGER\<close> column.\<close>

definition column_int :: "int \<Rightarrow> bool" where
  "column_int i = (\<bar>i\<bar> \<le> 2 ^ 63)"

definition ledger_column :: "nat option \<Rightarrow> bool" where
  "ledger_column l = (case l of None \<Rightarrow> True | Some n \<Rightarrow> column_int (int n))"

lemma column_int_plain [simp]: "column_int i \<Longrightarrow> json_plain (j_int i)"
  by (simp add: column_int_def)

lemma opt_json_plain [simp]: "(\<And>x. v = Some x \<Longrightarrow> json_plain (f x)) \<Longrightarrow> json_plain (opt_json f v)"
  by (cases v) (simp_all add: opt_json_def)

lemma ledger_column_plain [simp]: "ledger_column l \<Longrightarrow> json_plain (opt_json j_nat l)"
  by (cases l) (simp_all add: ledger_column_def opt_json_def column_int_def)

lemma received_plain: "json_plain body \<Longrightarrow> received body = Some body"
  by (simp add: received_def JSON_parse_stringify)

lemma amount_json_read [simp]: "parseIntegerAmount (amount_json i) = Some i"
  by (simp add: amount_json_def parseIntegerAmount_text)

definition loan_columns :: "int \<times> loan_row \<Rightarrow> bool" where
  "loan_columns = (\<lambda>(i, r). column_int i \<and> ledger_column (ln_approved_ledger r) \<and>
     ledger_column (ln_repaid_ledger r) \<and> ledger_column (ln_defaulted_ledger r))"

definition member_columns :: "member_row \<Rightarrow> bool" where
  "member_columns m = (column_int (m_defaults_count m) \<and> ledger_column (m_joined_ledger m) \<and> ledger_column (m_exited_ledger m))"

definition proposal_columns :: "int \<times> loan_proposal_row \<Rightarrow> bool" where
  "proposal_columns = (\<lambda>(i, r). column_int i \<and> column_int (lp_voter_count r) \<and> ledger_column (lp_created_ledger r))"

definition treasury_columns :: "int \<times> treasury_proposal_row \<Rightarrow> bool" where
  "treasury_columns = (\<lambda>(i, r). column_int i \<and> column_int (tp_voter_count r) \<and> ledger_column (tp_created_ledger r) \<and>
     ledger_column (tp_executed_ledger r))"

definition interest_columns :: "int \<times> interest_distribution_row \<Rightarrow> bool" where
  "interest_columns = (\<lambda>(i, r). column_int i \<and> column_int (int (idr_ledger r)) \<and>
     (case idr_active_members r of None \<Rightarrow> True | Some n \<Rightarrow> column_int n))"

lemma derived_bps_small:
  "ld_repayment_progress_bps (withLoanDerived t a u) = Some b \<Longrightarrow> column_int b"
proof -
  have "column_int (repaymentProgressBps x y)" for x y
    using repaymentProgressBps_range [of x y] by (simp add: column_int_def)
  then show "ld_repayment_progress_bps (withLoanDerived t a u) = Some b \<Longrightarrow> column_int b"
    by (auto simp: withLoanDerived_def split: option.splits)
qed

lemma amount_plain [simp]: "json_plain (amount_json i)"
  by (simp add: amount_json_def)

lemma loan_received:
  assumes "loan_columns (i, r)"
  shows "received (loan_json isoTime updated (loan_with_derived (i, r))) = Some (loan_json isoTime updated (loan_with_derived (i, r)))"
proof (rule received_plain)
  show "json_plain (loan_json isoTime updated (loan_with_derived (i, r)))"
    using assms by (simp add: loan_json_def loan_fields_def derived_fields_def loan_with_derived_def loan_columns_def Let_def
        derived_bps_small del: json_plain.simps(4))
qed

lemma member_received:
  assumes "member_columns m"
  shows "received (member_json isoTime updated (a, m)) = Some (member_json isoTime updated (a, m))"
  using assms by (intro received_plain) (simp add: member_json_def member_fields_def member_columns_def del: json_plain.simps(4))

lemma loan_proposal_received:
  assumes "proposal_columns (i, r)"
  shows "received (loan_proposal_json isoTime updated (i, r)) = Some (loan_proposal_json isoTime updated (i, r))"
  using assms by (intro received_plain) (simp add: loan_proposal_json_def proposal_columns_def del: json_plain.simps(4))

lemma treasury_proposal_received:
  assumes "treasury_columns (i, r)"
  shows "received (treasury_proposal_json isoTime updated (i, r)) = Some (treasury_proposal_json isoTime updated (i, r))"
  using assms by (intro received_plain) (simp add: treasury_proposal_json_def treasury_columns_def del: json_plain.simps(4))

lemma interest_received:
  assumes "interest_columns (i, r)"
  shows "received (interest_json isoTime created (i, r)) = Some (interest_json isoTime created (i, r))"
  using assms by (intro received_plain) (auto simp: interest_json_def interest_columns_def opt_json_def simp del: json_plain.simps(4) split: option.splits)

text \<open>Every amount of a row that a route sends is read back exactly, whatever its size.\<close>

lemma loan_amounts:
  "amount_of ''amount'' (loan_json isoTime updated (i, r, ld)) = Some (ln_amount r)"
  "amount_of ''outstanding'' (loan_json isoTime updated (i, r, ld)) = Some (ln_outstanding r)"
  "amount_of ''total_repayment'' (loan_json isoTime updated (i, r, ld)) = Some (ln_total_repayment r)"
  by (simp_all add: amount_of_def loan_json_def loan_fields_def)

lemma loan_derived_amounts:
  "amount_of ''interest_charge'' (loan_json isoTime updated (loan_with_derived (i, r))) = Some (ln_total_repayment r - ln_amount r)"
  "amount_of ''repaid_amount'' (loan_json isoTime updated (loan_with_derived (i, r))) = Some (ln_total_repayment r - ln_outstanding r)"
  by (simp_all add: amount_of_def loan_json_def loan_fields_def derived_fields_def loan_with_derived_def
      withLoanDerived_def parseIntegerAmount_text opt_json_def Let_def)

lemma member_amounts:
  "amount_of ''contribution'' (member_json isoTime updated (a, m)) = Some (m_contribution m)"
  "amount_of ''stake'' (member_json isoTime updated (a, m)) = Some (m_stake m)"
  "amount_of ''pending_claimed'' (member_json isoTime updated (a, m)) = Some (m_pending_claimed m)"
  "amount_of ''exit_share'' (member_json isoTime updated (a, m)) = m_exit_share m"
  by (cases "m_exit_share m"; simp add: amount_of_def member_json_def member_fields_def opt_json_def parseIntegerAmount_def [of JNull])+

lemma proposal_amounts:
  "amount_of ''amount'' (loan_proposal_json isoTime updated (i, r)) = Some (lp_amount r)"
  "amount_of ''total_repayment'' (loan_proposal_json isoTime updated (i, r)) = Some (lp_total_repayment r)"
  "amount_of ''votes_for'' (loan_proposal_json isoTime updated (i, r)) = Some (lp_votes_for r)"
  "amount_of ''votes_against'' (loan_proposal_json isoTime updated (i, r)) = Some (lp_votes_against r)"
  by (simp_all add: amount_of_def loan_proposal_json_def)

lemma treasury_amounts:
  "amount_of ''amount'' (treasury_proposal_json isoTime updated (i, q)) = Some (tp_amount q)"
  "amount_of ''votes_for'' (treasury_proposal_json isoTime updated (i, q)) = Some (tp_votes_for q)"
  "amount_of ''votes_against'' (treasury_proposal_json isoTime updated (i, q)) = Some (tp_votes_against q)"
  by (simp_all add: amount_of_def treasury_proposal_json_def)

lemma interest_amount: "amount_of ''amount'' (interest_json isoTime created (i, r)) = Some (idr_amount r)"
  by (simp add: amount_of_def interest_json_def)

lemmas body_amounts = loan_amounts loan_derived_amounts member_amounts proposal_amounts treasury_amounts interest_amount

section \<open>The member summary\<close>

text \<open>
  \<open>row_to_json\<close> prints a \<open>NUMERIC\<close> column as a JSON number, which the driver reads as a double: \<open>double_of\<close> rounds
  an integer to 53 significant bits, to even in a tie.
\<close>

function excess_bits :: "nat \<Rightarrow> nat" where
  "excess_bits n = (if n < 2 ^ 53 then 0 else Suc (excess_bits (n div 2)))"
  by pat_completeness auto
termination by (relation "measure id") auto

declare excess_bits.simps [simp del]

definition double_nat :: "nat \<Rightarrow> nat" where
  "double_nat n =
     (let ulp = 2 ^ excess_bits n; q = n div ulp; r = n mod ulp in
      if 2 * r < ulp \<or> 2 * r = ulp \<and> even q then q * ulp else (q + 1) * ulp)"

definition double_of :: "int \<Rightarrow> int" where
  "double_of i = (if i < 0 then - int (double_nat (nat (- i))) else int (double_nat (nat i)))"

definition rounded_json :: "int \<Rightarrow> jsval" where
  "rounded_json i = j_int (double_of i)"

definition member_summary_json :: "(int \<Rightarrow> string) \<Rightarrow> int \<Rightarrow> string \<Rightarrow> member_summary \<Rightarrow> jsval" where
  "member_summary_json pgTime updated a s = JObj
     [(''member'', JObj (member_fields rounded_json pgTime updated (a, sm_member s))),
      (''loans'', JArr (map (\<lambda>(i, r, ld). JObj (loan_fields rounded_json pgTime updated (i, r) @ derived_fields ld)) (sm_loans s))),
      (''loans_total_count'', j_nat (sm_loans_total_count s)), (''loans_truncated'', JBool (sm_loans_truncated s)),
      (''unread_notifications'', j_nat (sm_unread_notifications s)),
      (''position'', JObj
        [(''contribution_share_bps'', amount_json (sm_contribution_share_bps s)),
         (''stake_share_bps'', amount_json (sm_stake_share_bps s)),
         (''repaid_loans_count'', j_nat (sm_repaid_loans_count s)),
         (''defaulted_loans_count'', j_nat (sm_defaulted_loans_count s)),
         (''defaulted_loans_value'', amount_json (sm_defaulted_loans_value s))])]"

lemma double_nat_small: "n < 2 ^ 53 \<Longrightarrow> double_nat n = n"
  by (simp add: double_nat_def excess_bits.simps)

lemma excess_bits_leading: "2 ^ 52 \<le> n \<Longrightarrow> 2 ^ 52 \<le> n div 2 ^ excess_bits n"
proof (induction n rule: excess_bits.induct)
  case (1 n)
  show ?case
  proof (cases "n < 2 ^ 53")
    case False
    then have "(2::nat) ^ 52 \<le> n div 2" by simp
    with 1 False have "2 ^ 52 \<le> n div 2 div 2 ^ excess_bits (n div 2)" by blast
    with False show ?thesis by (simp add: excess_bits.simps [of n] div_mult2_eq)
  qed (use 1 in \<open>simp add: excess_bits.simps\<close>)
qed

lemma double_nat_large:
  assumes "2 ^ 53 \<le> n"
  shows "2 ^ 53 \<le> double_nat n"
proof -
  have l: "2 ^ 52 \<le> n div 2 ^ excess_bits n" by (rule excess_bits_leading) (use assms in simp)
  have "2 dvd (2::nat) ^ excess_bits n" using assms by (simp add: excess_bits.simps)
  then have "2 \<le> (2::nat) ^ excess_bits n" by (simp add: dvd_imp_le)
  with l have "2 ^ 52 * 2 \<le> (n div 2 ^ excess_bits n) * 2 ^ excess_bits n" by (rule mult_le_mono)
  then show ?thesis by (simp add: double_nat_def Let_def)
qed

text \<open>So an amount is exact in the summary while it is a safe integer, and stays unsafe when it is not.\<close>

lemma double_of_safe: "isSafeInteger (NInt i) \<Longrightarrow> double_of i = i"
  by (auto simp: isSafeInteger_def double_of_def double_nat_small nat_less_iff)

lemma double_of_unsafe: "\<not> isSafeInteger (NInt i) \<Longrightarrow> \<not> isSafeInteger (NInt (double_of i))"
proof -
  assume u: "\<not> isSafeInteger (NInt i)"
  have "2 ^ 53 \<le> (if i < 0 then nat (- i) else nat i)" using u by (auto simp: isSafeInteger_def le_nat_iff)
  then have "2 ^ 53 \<le> double_nat (if i < 0 then nat (- i) else nat i)" by (rule double_nat_large)
  then show ?thesis by (auto simp: isSafeInteger_def double_of_def)
qed

lemma rounded_json_read: "parseIntegerAmount (rounded_json i) = (if isSafeInteger (NInt i) then Some i else None)"
  using double_of_safe [of i] double_of_unsafe [of i]
  by (simp add: parseIntegerAmount_def rounded_json_def)

definition exact_if_safe :: "int \<Rightarrow> int option" where
  "exact_if_safe i = (if isSafeInteger (NInt i) then Some i else None)"

definition json_get :: "string \<Rightarrow> jsval \<Rightarrow> jsval" where
  "json_get k v = (case v of JObj kvs \<Rightarrow> (case map_of kvs k of Some x \<Rightarrow> x | None \<Rightarrow> JUndefined) | _ \<Rightarrow> JUndefined)"

definition json_elements :: "jsval \<Rightarrow> jsval list" where
  "json_elements v = (case v of JArr vs \<Rightarrow> vs | _ \<Rightarrow> [])"

text \<open>The amounts of the summary: those of the member and of its loans are numbers, the value of its defaults is text.\<close>

lemma summary_member_amounts:
  "amount_of ''contribution'' (json_get ''member'' (member_summary_json t u a s)) = exact_if_safe (m_contribution (sm_member s))"
  "amount_of ''pending_claimed'' (json_get ''member'' (member_summary_json t u a s)) = exact_if_safe (m_pending_claimed (sm_member s))"
  "amount_of ''stake'' (json_get ''member'' (member_summary_json t u a s)) = exact_if_safe (m_stake (sm_member s))"
  "amount_of ''exit_share'' (json_get ''member'' (member_summary_json t u a s)) = Option.bind (m_exit_share (sm_member s)) exact_if_safe"
  by (cases "m_exit_share (sm_member s)"; simp add: amount_of_def json_get_def member_summary_json_def member_fields_def
      opt_json_def rounded_json_read exact_if_safe_def parseIntegerAmount_def [of JNull])+

definition loan_amounts_if_safe :: "int \<times> loan_row \<times> loan_derived \<Rightarrow> jsval \<Rightarrow> bool" where
  "loan_amounts_if_safe = (\<lambda>(i, r, ld) v. amount_of ''amount'' v = exact_if_safe (ln_amount r) \<and>
     amount_of ''outstanding'' v = exact_if_safe (ln_outstanding r) \<and>
     amount_of ''total_repayment'' v = exact_if_safe (ln_total_repayment r))"

lemma summary_loan_amounts:
  "list_all2 loan_amounts_if_safe (sm_loans s) (json_elements (json_get ''loans'' (member_summary_json t u a s)))"
  by (auto simp: json_get_def json_elements_def member_summary_json_def list_all2_conv_all_nth loan_amounts_if_safe_def
      loan_fields_def amount_of_def rounded_json_read exact_if_safe_def split: prod.splits)

lemma summary_defaults_amount:
  "amount_of ''defaulted_loans_value'' (json_get ''position'' (member_summary_json t u a s)) = Some (sm_defaulted_loans_value s)"
  by (simp add: amount_of_def json_get_def member_summary_json_def)

text \<open>The derived fields of the model, which start from the exact amounts, are those of the rounded ones.\<close>

lemma summary_derived_fields:
  "withLoanDerived (rounded_json t) (rounded_json a) (rounded_json u) = withLoanDerived (j_int t) (j_int a) (j_int u)"
proof -
  have "parseIntegerAmount (j_int i) = parseIntegerAmount (rounded_json i)" for i
    by (simp add: rounded_json_read) (simp add: parseIntegerAmount_def)
  then show ?thesis by (simp add: withLoanDerived_def)
qed

text \<open>
  Above \<open>2^53 - 1\<close> the two answers for one loan differ: the loan endpoint has all digits and the derived
  fields, the summary has a rounded number and no derived fields.
\<close>

lemma summary_loses_digits:
  "double_of 9007199254740993 = 9007199254740992"
  "ld_repaid_amount (withLoanDerived (rounded_json 9007199254740993) (rounded_json 1) (rounded_json 0)) = None"
  "ld_repaid_amount (withLoanDerived (amount_json 9007199254740993) (amount_json 1) (amount_json 0)) =
     Some (show_int 9007199254740993)"
proof -
  have e: "excess_bits 9007199254740993 = 1" by (simp add: excess_bits.simps)
  show "double_of 9007199254740993 = 9007199254740992" by (simp add: double_of_def double_nat_def e Let_def)
  show "ld_repaid_amount (withLoanDerived (rounded_json 9007199254740993) (rounded_json 1) (rounded_json 0)) = None"
    by (simp add: withLoanDerived_def rounded_json_read isSafeInteger_def)
  show "ld_repaid_amount (withLoanDerived (amount_json 9007199254740993) (amount_json 1) (amount_json 0)) =
     Some (show_int 9007199254740993)"
    by (simp add: withLoanDerived_def)
qed

section \<open>Rows of the examples\<close>

definition large_loan :: loan_row where
  "large_loan = \<lparr>ln_borrower = ''GALICE'', ln_amount = 10 ^ 39 + 1, ln_outstanding = 5, ln_total_repayment = 10 ^ 39 + 7,
     ln_status = LN_active, ln_approved_ledger = Some 5, ln_due_time = None, ln_repaid_ledger = None, ln_defaulted_ledger = None\<rparr>"

definition blank_member :: member_row where
  "blank_member = \<lparr>m_joined_ledger = Some 5, m_contribution = 10 ^ 39, m_exited = False, m_exit_share = None, m_exited_ledger = None,
     m_pending_claimed = 0, m_stake = 3, m_has_active_loan = False, m_name = None, m_defaults_count = 0\<rparr>"

definition votes_0 :: loan_proposal_row where
  "votes_0 = \<lparr>lp_borrower = ''GALICE'', lp_amount = 100, lp_total_repayment = 110, lp_status = LP_pending, lp_votes_for = 0,
     lp_votes_against = 0, lp_voter_count = 0, lp_created_ledger = Some 5\<rparr>"

definition treasury_0 :: treasury_proposal_row where
  "treasury_0 = \<lparr>tp_amount = 100, tp_destination = ''GBOB'', tp_private = False, tp_status = TP_pending, tp_votes_for = 0,
     tp_votes_against = 0, tp_voter_count = 0, tp_created_ledger = Some 5, tp_executed_ledger = None\<rparr>"

definition large_summary :: member_summary where
  "large_summary = \<lparr>sm_member = blank_member, sm_loans = [(1, large_loan, withLoanDerived (j_int 5) (j_int 3) (j_int 2))],
     sm_loans_total_count = 1, sm_loans_truncated = False, sm_unread_notifications = 0, sm_contribution_share_bps = 10000,
     sm_stake_share_bps = 10000, sm_repaid_loans_count = 0, sm_defaulted_loans_count = 0, sm_defaulted_loans_value = 10 ^ 39\<rparr>"

text \<open>A day with three loans and one default.\<close>

definition day0_tables :: derived where
  "day0_tables = empty_derived\<lparr>daily_loan_stats := [(0, \<lparr>dl_loans_originated = 3, dl_principal_lent = 300,
     dl_principal_repaid = 0, dl_defaults_count = 1, dl_value_defaulted = 40\<rparr>)]\<rparr>"

lemma day0_ordinary: "ordinary_tables day0_tables"
  using wf_empty_derived
  by (simp add: ordinary_tables_def wf_derived_def wf_parts_defs day0_tables_def empty_derived_def daily_ok_def numeric_ok_def
      int4_ok_def int4_max_def numeric_max_def tall_def trows_def tuniq_def tkeys_def)

lemmas body_examples = large_loan_def blank_member_def votes_0_def treasury_0_def

end
