(* ===== verification/Benchmarks.thy ===== *)
theory Benchmarks
  imports Sse_Client System Routes Rpc
begin

text \<open>
  The storage benchmark (\<open>src/scripts/bench-events-storage.ts\<close>) and the check of its results against a
  baseline (\<open>src/scripts/check-bench-regression.ts\<close>). The decimal numbers of a results file are integers
  in a common unit and a quotient is kept as its operands, so nothing is rounded. Of the printed report
  the decisions are kept: which line there is, what is flagged, the exit code.
\<close>

section \<open>Storage benchmark\<close>

definition SYMBOL_MIX :: "(string \<times> nat) list" where
  "SYMBOL_MIX =
     [(''loan_req'', 20), (''loan_vote'', 30), (''loan_appr'', 12), (''loan_rpy'', 18), (''loan_dflt'', 2), (''joined'', 8),
      (''exited'', 3), (''staked'', 6), (''unstaked'', 4), (''claimed'', 5), (''interest'', 3), (''tre_prop'', 2),
      (''tre_vote'', 4), (''tre_exec'', 1), (''name_reg'', 1), (''admin_add'', 1)]"

definition WEIGHTED :: "string list" where
  "WEIGHTED = concat (map (\<lambda>(s, w). replicate w s) SYMBOL_MIX)"

definition CONTRACT_IDS :: "string list" where
  "CONTRACT_IDS = [''CBENCH0000000000000000000000000000000000000000000000000000001'',
     ''CBENCH0000000000000000000000000000000000000000000000000000002'']"

definition fakeAddress :: "nat \<Rightarrow> string" where
  "fakeAddress n = ''G'' @ take 55 (padStart 55 (CHR ''A'') (show_nat n))"

definition sample_value :: "nat \<Rightarrow> string \<Rightarrow> jsval" where
  "sample_value seq name =
     (if js_includes ''id'' name \<or> name = ''proposal_id'' then JNum (NInt (int (seq mod 500) + 1))
      else if name = ''support'' \<or> name = ''active'' \<or> name = ''private'' then JBool (seq mod 2 = 0)
      else if js_includes ''member'' name \<or> js_includes ''borrow'' name \<or> js_includes ''voter'' name \<or> name = ''owner'' \<or>
              name = ''destination'' then JStr (fakeAddress (seq mod 2000))
      else if name = ''name'' then JStr (''dao-name-'' @ show_nat (seq mod 300))
      else JStr (show_nat (1000000 + seq mod 9000000)))"

definition sample_symbol :: "nat \<Rightarrow> string" where
  "sample_symbol seq = WEIGHTED ! (seq mod length WEIGHTED)"

definition sample_names :: "string \<Rightarrow> string list" where
  "sample_names symbol = (case map_of EVENT_FIELDS symbol of Some names \<Rightarrow> names | None \<Rightarrow> [])"

text \<open>\<open>uuid\<close> is the random tail of the id. The hash and the decode error are undefined, so \<open>NULL\<close> in the row.\<close>

definition sample_row :: "string \<Rightarrow> nat \<Rightarrow> string \<times> event_row" where
  "sample_row uuid seq =
     (let symbol = sample_symbol seq; ledger = 1000 + seq div 4 in
      (padStart 10 (CHR ''0'') (show_nat ledger) @ ''-'' @ padStart 6 (CHR ''0'') (show_nat (seq mod 10000)) @ ''-'' @ take 8 uuid,
       \<lparr>er_ledger = ledger, er_closed_at = 1760000000000 + int seq * 5000,
        er_contract_id = CONTRACT_IDS ! (seq mod length CONTRACT_IDS), er_symbol = symbol,
        er_topics = JArr [JStr symbol, JStr (fakeAddress (seq mod 2000))],
        er_data = JArr (map (sample_value seq) (sample_names symbol)),
        er_tx_hash = None, er_decode_error = None, er_folded_at = None\<rparr>))"

text \<open>The loop of \<open>seed\<close>: the rows of each insert, \<open>batch\<close> at a time.\<close>

definition SEED_BATCH :: nat where "SEED_BATCH = 2000"

function seed_from :: "(nat \<Rightarrow> string) \<Rightarrow> nat \<Rightarrow> nat \<Rightarrow> (string \<times> event_row) list list" where
  "seed_from uuid target seeded =
     (if seeded < target then
        (let n = min SEED_BATCH (target - seeded) in
         map (\<lambda>i. sample_row (uuid (seeded + i)) (seeded + i)) [0..<n] # seed_from uuid target (seeded + n))
      else [])"
  by auto
termination
  by (relation "measure (\<lambda>(uuid, target, d). target - d)") (auto simp: SEED_BATCH_def)

declare seed_from.simps [simp del]

definition seed :: "(nat \<Rightarrow> string) \<Rightarrow> nat \<Rightarrow> (string \<times> event_row) list list" where
  "seed uuid target = seed_from uuid target 0"

text \<open>\<open>INSERT ... ON CONFLICT (id) DO NOTHING\<close>.\<close>

definition insert_rows :: "(string \<times> event_row) list \<Rightarrow> (string, event_row) tbl \<Rightarrow> (string, event_row) tbl" where
  "insert_rows rows t = fold (\<lambda>(i, r) t. if tget t i = None then tput i r t else t) rows t"

text \<open>
  The scales of a run, in ascending order, with the number of rows seeded before each is measured.
  The numbers are whole.
\<close>

definition bench_targets :: "int list \<Rightarrow> nat list" where
  "bench_targets argv =
     (let scales = map nat (filter (\<lambda>n. 0 < n) argv) in sort (if scales = [] then [10000, 100000, 1000000] else scales))"

fun seeded_counts :: "nat list \<Rightarrow> nat \<Rightarrow> (nat \<times> nat) list" where
  "seeded_counts [] seeded = []"
| "seeded_counts (target # ts) seeded =
     (target, length (concat (seed (\<lambda>_. []) (target - seeded)))) # seeded_counts ts target"

text \<open>\<open>In_kB n d\<close> prints the quotient \<open>n / d\<close>.\<close>

datatype byte_text = In_bytes nat | In_kB nat nat | In_MB nat nat | In_GB nat nat

definition formatBytes :: "nat \<Rightarrow> byte_text" where
  "formatBytes n =
     (if n < 1024 then In_bytes n
      else if n < 1024 * 1024 then In_kB n 1024
      else if n < 1024 * 1024 * 1024 then In_MB n (1024 * 1024)
      else In_GB n (1024 * 1024 * 1024))"

text \<open>\<open>Math.round\<close> of the quotient.\<close>

definition bytes_per_row :: "nat \<Rightarrow> nat \<Rightarrow> nat" where
  "bytes_per_row totalBytes rows = (if 0 < rows then (2 * totalBytes + rows) div (2 * rows) else 0)"

lemma map_shift_upt: "map (\<lambda>i. f (d + i)) [0..<n] = map f [d..<d + n]"
  by (induction n) auto

lemma seed_from_rows:
  "concat (seed_from uuid target seeded) = map (\<lambda>i. sample_row (uuid i) i) [seeded..<target]"
proof (induction uuid target seeded rule: seed_from.induct)
  case (1 uuid target seeded)
  show ?case
  proof (cases "seeded < target")
    case True
    define n where "n = min SEED_BATCH (target - seeded)"
    have "[seeded..<target] = [seeded..<seeded + n] @ [seeded + n..<target]"
      using upt_add_eq_append [of seeded "seeded + n" "target - (seeded + n)"] True by (simp add: n_def)
    with 1 [OF True n_def] True show ?thesis
      by (simp add: seed_from.simps [of uuid target seeded] n_def [symmetric] Let_def
          map_shift_upt [where f = "\<lambda>i. sample_row (uuid i) i"])
  qed (simp add: seed_from.simps)
qed

text \<open>A run of \<open>seed\<close> makes the rows \<open>0\<close> to \<open>target - 1\<close>, in batches that stay below the 65535 parameters of a statement.\<close>

lemma seed_rows: "concat (seed uuid target) = map (\<lambda>i. sample_row (uuid i) i) [0..<target]"
  by (simp add: seed_def seed_from_rows)

lemma seed_batches_bounded: "b \<in> set (seed_from uuid target d) \<Longrightarrow> b \<noteq> [] \<and> 9 * length b \<le> 18000"
proof (induction uuid target d rule: seed_from.induct)
  case (1 uuid target d)
  then show ?case
    by (subst (asm) (2) seed_from.simps) (auto simp: Let_def SEED_BATCH_def split: if_splits)
qed

lemma seeded_counts_total:
  "sorted (seeded # ts) \<Longrightarrow> seeded + sum_list (map snd (seeded_counts ts seeded)) = last (seeded # ts)"
  by (induction ts arbitrary: seeded) (auto simp: seed_rows)

section \<open>Check against the baseline\<close>

record bench_result =
  br_targetEvents :: int
  br_bytesPerRow :: int
  br_indexBytes :: "(string, int) tbl"
  br_reindexMsPerEvent :: int

text \<open>A relative change: the difference over the old value, or infinite.\<close>

datatype change = Infinite | Change int int

definition pctChange :: "int \<Rightarrow> int \<Rightarrow> change" where
  "pctChange before after =
     (if before = 0 then (if after = 0 then Change 0 1 else Infinite) else Change (after - before) before)"

text \<open>The change is more than \<open>t\<close> hundredths.\<close>

fun exceeds :: "change \<Rightarrow> int \<Rightarrow> bool" where
  "exceeds Infinite t = True"
| "exceeds (Change n d) t = (if 0 < d then t * d < 100 * n else 100 * n < t * d)"

datatype metric = Bytes_per_row | Gin_index_bytes | Reindex_ms_per_event

fun THRESHOLDS :: "metric \<Rightarrow> int" where
  "THRESHOLDS Bytes_per_row = 15"
| "THRESHOLDS Gin_index_bytes = 20"
| "THRESHOLDS Reindex_ms_per_event = 50"

definition metric_of :: "metric \<Rightarrow> bench_result \<Rightarrow> int option" where
  "metric_of m r = (case m of Bytes_per_row \<Rightarrow> Some (br_bytesPerRow r)
     | Gin_index_bytes \<Rightarrow> tget (br_indexBytes r) ''events_data_gin_idx''
     | Reindex_ms_per_event \<Rightarrow> Some (br_reindexMsPerEvent r))"

text \<open>A line of the table: the metric of a scale with both values and whether it is flagged.\<close>

datatype report_line = No_baseline int | Metric_line int metric int int bool

definition metric_line :: "metric \<Rightarrow> bench_result \<Rightarrow> bench_result \<Rightarrow> report_line list" where
  "metric_line m base cur =
     (case (metric_of m base, metric_of m cur) of
        (Some b, Some c) \<Rightarrow> [Metric_line (br_targetEvents cur) m b c (exceeds (pctChange b c) (THRESHOLDS m))]
      | _ \<Rightarrow> [])"

definition result_lines :: "bench_result list \<Rightarrow> bench_result \<Rightarrow> report_line list" where
  "result_lines baseline cur =
     (case filter (\<lambda>r. br_targetEvents r = br_targetEvents cur) baseline of
        [] \<Rightarrow> [No_baseline (br_targetEvents cur)]
      | base # _ \<Rightarrow> concat (map (\<lambda>m. metric_line m base cur) [Bytes_per_row, Gin_index_bytes, Reindex_ms_per_event]))"

definition report_lines :: "bench_result list \<Rightarrow> bench_result list \<Rightarrow> report_line list" where
  "report_lines baseline current = concat (map (result_lines baseline) current)"

fun flagged :: "report_line \<Rightarrow> bool" where
  "flagged (No_baseline n) = False"
| "flagged (Metric_line n m b c f) = f"

text \<open>
  The program: exit code 2 without a path, 1 when a file cannot be read or parsed, otherwise 0,
  with the report.
\<close>

definition check_bench ::
  "(string \<Rightarrow> exn + bench_result list) \<Rightarrow> string list \<Rightarrow> nat \<times> report_line list" where
  "check_bench load argv =
     (case argv of
        [] \<Rightarrow> (2, [])
      | currentPath # rest \<Rightarrow>
          if currentPath = [] then (2, [])
          else (case bindE (load currentPath) (\<lambda>current.
                     bindE (load (case rest of [] \<Rightarrow> ''docs/events-storage-baseline.json'' | b # _ \<Rightarrow> b)) (\<lambda>baseline.
                     Inr (report_lines baseline current))) of
                  Inl e \<Rightarrow> (1, [])
                | Inr ls \<Rightarrow> (0, ls)))"

lemma pctChange_mono:
  assumes "0 \<le> before" "0 \<le> after" "after \<le> after'" "exceeds (pctChange before after) t" "0 \<le> t"
  shows "exceeds (pctChange before after') t"
  using assms by (auto simp: pctChange_def split: if_splits)

text \<open>
  A flag means growth beyond the threshold of the metric, and no result is flagged against itself: the
  check warns about growth, never about a metric that is steady or shrinks.
\<close>

lemma metric_line_flagged:
  assumes "Metric_line n m b c f \<in> set (metric_line m' base cur)" "0 < b"
  shows "f \<longleftrightarrow> b * (100 + THRESHOLDS m) < 100 * c"
proof -
  have f: "f = exceeds (pctChange b c) (THRESHOLDS m)"
    using assms(1) by (auto simp: metric_line_def split: option.splits)
  show ?thesis
    using assms(2) by (simp add: f pctChange_def algebra_simps)
qed

lemma thresholds_positive: "0 < THRESHOLDS m"
  by (cases m) simp_all

lemma exceeds_same: "\<not> exceeds (pctChange b b) (THRESHOLDS m)"
  using thresholds_positive [of m] by (simp add: pctChange_def mult_less_0_iff zero_less_mult_iff)

lemma filter_own_key: "distinct (map f xs) \<Longrightarrow> x \<in> set xs \<Longrightarrow> filter (\<lambda>y. f y = f x) xs = [x]"
proof (induction xs)
  case (Cons a xs)
  then show ?case
  proof (cases "x = a")
    case True
    have "\<forall>y \<in> set xs. f y \<noteq> f a" using Cons.prems(1) by (auto simp: image_def)
    with True show ?thesis by (simp add: filter_empty_conv)
  next
    case False
    with Cons show ?thesis by auto
  qed
qed simp

lemma result_lines_same:
  assumes "filter (\<lambda>r. br_targetEvents r = br_targetEvents c) baseline = [c]" "l \<in> set (result_lines baseline c)"
  shows "\<not> flagged l"
proof -
  obtain m where "l \<in> set (metric_line m c c)" using assms by (auto simp: result_lines_def)
  then show ?thesis by (cases "metric_of m c") (auto simp: metric_line_def exceeds_same)
qed

lemma steady_results_unflagged:
  assumes "distinct (map br_targetEvents current)" "l \<in> set (report_lines current current)"
  shows "\<not> flagged l"
proof -
  obtain c where "c \<in> set current" "l \<in> set (result_lines current c)"
    using assms(2) by (auto simp: report_lines_def)
  then show ?thesis using filter_own_key [OF assms(1)] result_lines_same by blast
qed

text \<open>The exit code does not depend on what is flagged.\<close>

lemma check_bench_exit:
  "fst (check_bench load argv) = 0 \<longleftrightarrow> (\<exists>p rest cur base. argv = p # rest \<and> p \<noteq> [] \<and> load p = Inr cur \<and>
     load (case rest of [] \<Rightarrow> ''docs/events-storage-baseline.json'' | b # _ \<Rightarrow> b) = Inr base)"
  by (auto simp: check_bench_def bindE_def split: list.splits sum.splits)

end
