(* ===== verification/Observability.thy ===== *)
theory Observability
  imports Sse_Client Scripts Stats Auth_Facts
begin

text \<open>
  What the processes tell about themselves and the background work they keep: the structured loggers
  (\<open>src/src/logger.ts\<close>, \<open>src/src/lib/logger.ts\<close>), the tracer provider (\<open>src/src/telemetry.ts\<close>), the
  Prometheus metrics (\<open>src/src/api/metrics.ts\<close>) as the stream client moves them, the Redis connection of
  the history cache (\<open>src/src/api/history-cache.ts\<close>), and the timers that sweep the nonce stores and the
  failure tracker (\<open>src/src/auth.ts\<close>).
\<close>

section \<open>Log lines\<close>

text \<open>\<open>{ ...base, ...extra }\<close>: a field of the same name keeps its place and takes the new value.\<close>

definition spread :: "(string \<times> jsval) list \<Rightarrow> (string \<times> jsval) list \<Rightarrow> (string \<times> jsval) list" where
  "spread base extra = fold (\<lambda>(k, v). tput k v) extra base"

datatype console = Console_warn | Console_error | Console_log

definition emit_line :: "string \<Rightarrow> string \<Rightarrow> string \<Rightarrow> (string \<times> jsval) list \<Rightarrow> console \<times> string" where
  "emit_line level msg time extra =
     (if level = ''error'' then Console_error else Console_warn,
      JSON_stringify (JObj (spread [(''level'', JStr level), (''msg'', JStr msg), (''time'', JStr time)] extra)))"

text \<open>\<open>logger.warn\<close> and \<open>logger.error\<close>.\<close>

definition logger_warn :: "string \<Rightarrow> string \<Rightarrow> (string \<times> jsval) list \<Rightarrow> console \<times> string" where
  "logger_warn time msg extra = emit_line ''warn'' msg time extra"

definition logger_error :: "string \<Rightarrow> string \<Rightarrow> (string \<times> jsval) list \<Rightarrow> console \<times> string" where
  "logger_error time msg extra = emit_line ''error'' msg time extra"

text \<open>\<open>log\<close> of \<open>src/lib/logger.ts\<close>: nothing above the configured level.\<close>

definition log_line :: "string \<Rightarrow> string \<Rightarrow> string \<Rightarrow> string \<Rightarrow> (string \<times> jsval) list \<Rightarrow> string option" where
  "log_line configured time level message extra =
     (if log_emitted configured level
      then Some (JSON_stringify (JObj (spread [(''level'', JStr level), (''message'', JStr message), (''time'', JStr time)] extra)))
      else None)"

lemma tget_spread: "tget (spread base extra) k = (case tget (rev extra) k of Some v \<Rightarrow> Some v | None \<Rightarrow> tget base k)"
proof (induction extra arbitrary: base)
  case (Cons f extra)
  obtain a b where f: "f = (a, b)" by (cases f)
  have "tget (rev (f # extra)) k = (case tget (rev extra) k of Some v \<Rightarrow> Some v | None \<Rightarrow> if k = a then Some b else None)"
    by (simp add: tget_def f map_add_def split: option.split)
  with Cons.IH [of "tput a b base"] show ?case by (simp add: spread_def f split: option.splits)
qed (simp add: spread_def)

lemma tuniq_spread: "tuniq base \<Longrightarrow> tuniq (spread base extra)"
  unfolding spread_def by (induction extra arbitrary: base) auto

lemma spread_values: "(k, v) \<in> set (spread base extra) \<Longrightarrow> (k, v) \<in> set base \<or> (k, v) \<in> set extra"
proof (induction extra arbitrary: base)
  case (Cons f extra)
  obtain a b where f: "f = (a, b)" by (cases f)
  have "(k, v) \<in> set (tput a b base) \<Longrightarrow> (k, v) \<in> set base \<or> (k, v) = (a, b)"
    unfolding tput_def by (induction base) (auto split: if_splits)
  with Cons.IH [of "tput a b base"] Cons.prems show ?case by (auto simp: spread_def f)
qed (simp add: spread_def)

text \<open>Every line is one JSON object: it has no line break and parses back to its fields.\<close>

lemma json_line_read_back:
  assumes "list_all (\<lambda>kv. json_plain (snd kv)) base" "list_all (\<lambda>kv. json_plain (snd kv)) extra" "tuniq base"
  shows "JSON_parse (JSON_stringify (JObj (spread base extra))) = Some (JObj (spread base extra))"
    and "line_feed \<notin> set (JSON_stringify (JObj (spread base extra)))"
proof -
  have "json_plain v" if "(k, v) \<in> set (spread base extra)" for k v
    using spread_values [OF that] assms(1,2) by (auto simp: list_all_iff)
  then have plain: "json_plain (JObj (spread base extra))"
    using tuniq_spread [OF assms(3)] by (auto simp: list_all_iff tuniq_def)
  show "JSON_parse (JSON_stringify (JObj (spread base extra))) = Some (JObj (spread base extra))"
    by (rule JSON_parse_stringify [OF plain])
  show "line_feed \<notin> set (JSON_stringify (JObj (spread base extra)))"
    using json_text_line [OF plain] by (simp add: JSON_stringify_def)
qed

lemma emit_line_read_back:
  assumes "list_all (\<lambda>kv. json_plain (snd kv)) extra"
  shows "\<exists>kvs. JSON_parse (snd (emit_line level msg time extra)) = Some (JObj kvs) \<and>
      line_feed \<notin> set (snd (emit_line level msg time extra)) \<and>
      (\<forall>k v. tget (rev extra) k = Some v \<longrightarrow> tget kvs k = Some v) \<and>
      (''level'' \<notin> set (map fst extra) \<longrightarrow> tget kvs ''level'' = Some (JStr level)) \<and>
      (''msg'' \<notin> set (map fst extra) \<longrightarrow> tget kvs ''msg'' = Some (JStr msg))"
proof -
  let ?base = "[(''level'', JStr level), (''msg'', JStr msg), (''time'', JStr time)]"
  have absent: "tget (rev extra) k = None" if "k \<notin> set (map fst extra)" for k
    using that by (simp add: tget_in_keys tkeys_def)
  have "tuniq ?base" "list_all (\<lambda>kv. json_plain (snd kv)) ?base" by (simp_all add: tuniq_def)
  note line = json_line_read_back [OF this(2) assms this(1)]
  show ?thesis
    by (rule exI [of _ "spread ?base extra"])
      (use line absent in \<open>simp add: emit_line_def tget_spread\<close>, simp add: tget_def)
qed

lemma log_line_level:
  "log_line configured time level message extra = None \<longleftrightarrow>
     currentLevel configured < (case map_of LEVELS level of Some n \<Rightarrow> n | None \<Rightarrow> 0)"
  by (simp add: log_line_def log_emitted_def)

text \<open>A field named \<open>level\<close> or \<open>time\<close> replaces what the logger itself wrote.\<close>

lemma fields_override:
  "tget (spread [(''level'', JStr ''error''), (''msg'', m), (''time'', t)] [(''level'', v)]) ''level'' = Some v"
  by (simp add: tget_spread) (simp add: tget_def)

section \<open>Tracing\<close>

text \<open>The provider of the process, by its endpoint; with it the line that is logged.\<close>

definition initTelemetry :: "bool \<Rightarrow> string \<Rightarrow> string option \<Rightarrow> string option \<times> string option" where
  "initTelemetry enabled endpoint provider =
     (if \<not> enabled \<or> provider \<noteq> None then (provider, None)
      else (Some endpoint, Some (''[telemetry] OpenTelemetry tracing enabled, exporting to '' @ endpoint)))"

text \<open>\<open>flushed\<close> is how \<open>provider.shutdown()\<close> ends; when it rejects the provider stays.\<close>

definition shutdownTelemetry :: "exn + unit \<Rightarrow> string option \<Rightarrow> (exn + unit) \<times> string option" where
  "shutdownTelemetry flushed provider =
     (if provider = None then (Inr (), None)
      else case flushed of Inl e \<Rightarrow> (Inl e, provider) | Inr u \<Rightarrow> (Inr (), None))"

lemma initTelemetry_idempotent:
  "fst (initTelemetry e' p' (fst (initTelemetry True p None))) = Some p"
  "snd (initTelemetry e' p' (fst (initTelemetry True p None))) = None"
  by (simp_all add: initTelemetry_def)

lemma tracing_off: "initTelemetry False p None = (None, None)" "shutdownTelemetry f None = (Inr (), None)"
  by (simp_all add: initTelemetry_def shutdownTelemetry_def)

section \<open>Metrics of the stream\<close>

record metrics =
  mx_connections :: nat \<comment> \<open>gauge \<open>ourdao_sse_connections\<close>\<close>
  mx_messages :: "(string, nat) tbl" \<comment> \<open>counter \<open>ourdao_sse_messages_total\<close> by event type\<close>
  mx_opened :: nat \<comment> \<open>counter \<open>ourdao_sse_connections_total\<close>\<close>

definition inc_messages :: "string \<Rightarrow> metrics \<Rightarrow> metrics" where
  "inc_messages event_type mx = mx\<lparr>mx_messages := tupsert event_type 1 (\<lambda>n. n + 1) (mx_messages mx)\<rparr>"

definition connection_opened :: "nat \<Rightarrow> metrics \<Rightarrow> metrics" where
  "connection_opened n mx = mx\<lparr>mx_connections := n, mx_opened := mx_opened mx + 1\<rparr>"

definition resetConnectedStreamsForTests :: "stream_proc \<times> metrics \<Rightarrow> stream_proc \<times> metrics" where
  "resetConnectedStreamsForTests pm = ((fst pm)\<lparr>sp_clients := [], sp_byIp := [], sp_gauge := 0\<rparr>, (snd pm)\<lparr>mx_connections := 0\<rparr>)"

text \<open>\<open>sendMessage\<close> with its counter.\<close>

definition sendMessage_counted ::
  "socket \<Rightarrow> bool \<Rightarrow> stream_message \<Rightarrow> stream_client \<times> metrics \<Rightarrow> stream_client \<times> metrics" where
  "sendMessage_counted sock force m cm =
     (if sc_closed (fst cm) then cm else (sendMessage sock force m (fst cm), inc_messages (sm_type m) (snd cm)))"

definition messages_of :: "string \<Rightarrow> metrics \<Rightarrow> nat" where
  "messages_of t mx = (case tget (mx_messages mx) t of Some n \<Rightarrow> n | None \<Rightarrow> 0)"

lemma sendMessage_counted_counts:
  "messages_of t (snd (sendMessage_counted sock force m cm)) =
     messages_of t (snd cm) + (if \<not> sc_closed (fst cm) \<and> t = sm_type m then 1 else 0)"
  by (simp add: sendMessage_counted_def messages_of_def inc_messages_def split: option.splits)

text \<open>
  The counter is documented as the messages written to clients. It counts the messages given to
  \<open>sendMessage\<close>: one that does not fit the queue of a paused client is counted and never written.
\<close>

lemma dropped_message_counted:
  assumes "\<not> sc_closed c" "sc_paused c" "MAX_QUEUED_MESSAGES \<le> length (sc_queue c)" "\<not> sc_released c"
  shows "sc_out (fst (sendMessage_counted sock False m (c, mx))) = sc_out c"
    "sc_closed (fst (sendMessage_counted sock False m (c, mx)))"
    "messages_of (sm_type m) (snd (sendMessage_counted sock False m (c, mx))) = messages_of (sm_type m) mx + 1"
proof -
  show "sc_out (fst (sendMessage_counted sock False m (c, mx))) = sc_out c"
    "sc_closed (fst (sendMessage_counted sock False m (c, mx)))"
    using assms by (simp_all add: sendMessage_counted_def sendMessage_def enqueue_def close_client_def Let_def)
  show "messages_of (sm_type m) (snd (sendMessage_counted sock False m (c, mx))) = messages_of (sm_type m) mx + 1"
    using sendMessage_counted_counts [of "sm_type m" sock False m "(c, mx)"] assms(1) by simp
qed

section \<open>The Redis connection of the history cache\<close>

record redis_link =
  rl_client :: bool
  rl_isOpen :: bool

text \<open>
  \<open>redisClient()\<close>: whether there is a client to use, or the error of connecting. \<open>connect\<close> is how the
  pending connection attempt, shared by the callers, ends.
\<close>

definition redisClient :: "string \<Rightarrow> bool \<Rightarrow> exn + unit \<Rightarrow> redis_link \<Rightarrow> (exn + bool) \<times> redis_link" where
  "redisClient url testing connect l =
     (if url = [] \<or> testing then (Inr False, l)
      else let l1 = l\<lparr>rl_client := True\<rparr> in
           if rl_client l \<and> rl_isOpen l then (Inr True, l1)
           else case connect of Inl e \<Rightarrow> (Inl e, l1\<lparr>rl_isOpen := False\<rparr>) | Inr u \<Rightarrow> (Inr True, l1\<lparr>rl_isOpen := True\<rparr>))"

text \<open>\<open>close()\<close>; \<open>quit\<close> is how closing an open connection ends.\<close>

definition history_close :: "exn + unit \<Rightarrow> redis_link \<Rightarrow> (exn + unit) \<times> redis_link" where
  "history_close quit l =
     (if rl_client l \<and> rl_isOpen l
      then (case quit of Inl e \<Rightarrow> (Inl e, l) | Inr u \<Rightarrow> (Inr (), \<lparr>rl_client = False, rl_isOpen = False\<rparr>))
      else (Inr (), \<lparr>rl_client = False, rl_isOpen = False\<rparr>))"

text \<open>Whether an operation of the cache reaches Redis; every failure is swallowed there.\<close>

definition redis_up :: "(exn + bool) \<times> redis_link \<Rightarrow> exn + 'a \<Rightarrow> bool" where
  "redis_up rl operation = (case fst rl of Inr True \<Rightarrow> (case operation of Inr x \<Rightarrow> True | Inl e \<Rightarrow> False) | _ \<Rightarrow> False)"

lemma redisClient_testing: "redisClient url True connect l = (Inr False, l)"
  by (simp add: redisClient_def)

lemma redisClient_open: "fst (redisClient url testing connect l) = Inr True \<Longrightarrow> rl_isOpen (snd (redisClient url testing connect l))"
  by (auto simp: redisClient_def Let_def split: if_splits sum.splits)

text \<open>The cache answers what was last set while it is fresh, whether or not Redis is reachable in between.\<close>

lemma history_get_after_set:
  assumes "v \<noteq> []" "now' < now + HISTORY_CACHE_TTL_SECONDS * 1000" "up \<or> \<not> up'"
  shows "history_get up' now' (history_set up now v c) = Some v"
  using assms by (auto simp: history_get_def history_set_def)

section \<open>Timers of the stores\<close>

text \<open>An interval timer: its period, and whether it keeps the process alive.\<close>

record interval_timer =
  it_period :: nat
  it_holds_process :: bool

definition start_timer :: "nat \<Rightarrow> interval_timer option" where
  "start_timer period = Some \<lparr>it_period = period, it_holds_process = False\<rparr>"

record 's swept =
  sw_state :: 's
  sw_timer :: "interval_timer option"

definition new_memory_store :: "nat \<Rightarrow> memory_store swept" where
  "new_memory_store sweepIntervalMs = \<lparr>sw_state = \<lparr>ms_store = [], ms_counts = []\<rparr>, sw_timer = start_timer sweepIntervalMs\<rparr>"

definition new_postgres_store :: "nat \<Rightarrow> nonce_table \<Rightarrow> nonce_table swept" where
  "new_postgres_store sweepIntervalMs t = \<lparr>sw_state = t, sw_timer = start_timer sweepIntervalMs\<rparr>"

definition new_tracker :: "failures swept" where
  "new_tracker = \<lparr>sw_state = [], sw_timer = start_timer 60000\<rparr>"

text \<open>One firing of the timer. The clean-up of the Postgres store logs an error of its statement and goes on.\<close>

definition fire :: "('s \<Rightarrow> 's) \<Rightarrow> 's swept \<Rightarrow> 's swept" where
  "fire sweep w = (case sw_timer w of None \<Rightarrow> w | Some t \<Rightarrow> w\<lparr>sw_state := sweep (sw_state w)\<rparr>)"

definition cleanup_statement :: "pg_fault \<Rightarrow> int \<Rightarrow> nonce_table \<Rightarrow> nonce_table" where
  "cleanup_statement fault now t = (if fault = None then postgres_cleanup now t else t)"

definition shutdown_timer :: "'s swept \<Rightarrow> 's swept" where
  "shutdown_timer w = w\<lparr>sw_timer := None\<rparr>"

definition getAuthStats :: "auth_stats \<Rightarrow> auth_stats" where
  "getAuthStats st = \<lparr>as_challengesIssued = as_challengesIssued st, as_verificationsSucceeded = as_verificationsSucceeded st,
     as_verificationsFailed = as_verificationsFailed st\<rparr>"

lemma no_sweep_after_shutdown: "fire sweep (shutdown_timer w) = shutdown_timer w"
  by (simp add: fire_def shutdown_timer_def)

lemma shutdown_timer_idempotent: "shutdown_timer (shutdown_timer w) = shutdown_timer w"
  by (simp add: shutdown_timer_def)

text \<open>No store keeps the process alive on its own.\<close>

lemma timers_unref:
  assumes "sw_timer w = Some t" "w = new_memory_store p \<or> (\<exists>w'. w = fire sweep w' \<and> sw_timer w' = start_timer q)"
  shows "\<not> it_holds_process t"
  using assms by (auto simp: new_memory_store_def start_timer_def fire_def)

text \<open>A sweep removes expired nonces only, so it never invalidates a challenge that could still be used.\<close>

lemma cleanup_keeps_live:
  assumes "tget t n = Some en" "now < ne_expiresAt en" "tuniq t"
  shows "tget (cleanup_statement fault now t) n = Some en"
proof -
  have "(n, en) \<in> set (postgres_cleanup now t)"
    using assms by (auto simp: postgres_cleanup_def tget_def dest: map_of_SomeD)
  moreover have "distinct (map fst (postgres_cleanup now t))"
    using assms(3) by (simp add: postgres_cleanup_def tuniq_def distinct_map_filter)
  ultimately show ?thesis using assms(1) by (simp add: cleanup_statement_def tget_def)
qed

end
