(* ===== verification/Server_Build.thy ===== *)
theory Server_Build
  imports Server Lifecycle
begin

text \<open>
  \<open>buildServer\<close> of \<open>src/src/api/server.ts\<close>: the plugins it registers, in order, with their options as data,
  the choice of the nonce store, what it logs, and the hook that runs when the server is closed. The plugins
  themselves are third-party code; what is shown about a content security policy is the meaning the
  policy has for a browser.
\<close>

section \<open>Security headers\<close>

definition self_source :: string where "self_source = [CHR 0x27] @ ''self'' @ [CHR 0x27]"
definition none_source :: string where "none_source = [CHR 0x27] @ ''none'' @ [CHR 0x27]"
definition unsafe_inline :: string where "unsafe_inline = [CHR 0x27] @ ''unsafe-inline'' @ [CHR 0x27]"

definition csp_directives :: "(string \<times> string list) list" where
  "csp_directives =
     [(''default-src'', [self_source]), (''base-uri'', [self_source]), (''script-src'', [self_source]),
      (''script-src-attr'', [none_source]), (''style-src'', [self_source, unsafe_inline]),
      (''img-src'', [self_source, ''data:'']), (''font-src'', [self_source, ''data:'']), (''object-src'', [none_source]),
      (''frame-ancestors'', [none_source]), (''form-action'', [self_source])]"

record hsts_option =
  hs_maxAge :: nat
  hs_includeSubDomains :: bool
  hs_preload :: bool

record helmet_options =
  hm_useDefaults :: bool
  hm_directives :: "(string \<times> string list) list"
  hm_hsts :: hsts_option
  hm_frameguard :: string

definition helmet_options_of :: helmet_options where
  "helmet_options_of =
     \<lparr>hm_useDefaults = False, hm_directives = csp_directives,
      hm_hsts = \<lparr>hs_maxAge = 31536000, hs_includeSubDomains = True, hs_preload = False\<rparr>, hm_frameguard = ''deny''\<rparr>"

text \<open>
  The sources a directive allows: its own list, or that of \<open>default-src\<close> for a fetch directive the policy does
  not name (\<open>connect-src\<close>, \<open>media-src\<close> and so on).
\<close>

definition effective_sources :: "(string \<times> string list) list \<Rightarrow> string \<Rightarrow> string list" where
  "effective_sources ds d =
     (case map_of ds d of Some ss \<Rightarrow> ss | None \<Rightarrow> (case map_of ds ''default-src'' of Some ss \<Rightarrow> ss | None \<Rightarrow> []))"

definition allows :: "(string \<times> string list) list \<Rightarrow> string \<Rightarrow> string \<Rightarrow> bool" where
  "allows ds d source = (source \<in> set (effective_sources ds d))"

text \<open>No directive allows a source beyond the own origin and inline data; inline code is for styles only.\<close>

lemma csp_sources: "allows csp_directives d source \<Longrightarrow> source \<in> {self_source, none_source, unsafe_inline, ''data:''}"
  by (auto simp: allows_def effective_sources_def csp_directives_def split: if_splits)

lemma csp_inline_only_styles: "allows csp_directives d unsafe_inline \<Longrightarrow> d = ''style-src''"
  by (auto simp: allows_def effective_sources_def csp_directives_def self_source_def none_source_def unsafe_inline_def
      split: if_splits)

lemma csp_no_framing: "effective_sources csp_directives ''frame-ancestors'' = [none_source]"
  "effective_sources csp_directives ''object-src'' = [none_source]"
  by (simp_all add: effective_sources_def csp_directives_def)

section \<open>Plugins in order\<close>

datatype openapi_info = Openapi_info string string jsval

record openapi_options =
  oa_info :: openapi_info
  oa_server :: "string \<times> string"
  oa_tags :: "(string \<times> string) list"

definition openapi_options_of :: "jsval \<Rightarrow> openapi_options" where
  "openapi_options_of version =
     \<lparr>oa_info = Openapi_info ''OurDAO Backend API''
        ''Off-chain indexer + read API for the OurDAO lending DAO on Stellar/Soroban'' version,
      oa_server = (''http://localhost:4000'', ''Development server''),
      oa_tags =
        [(''health'', ''Service health and readiness endpoints''), (''stats'', ''Aggregate statistics''),
         (''members'', ''DAO member operations''), (''loans'', ''Loan and loan proposal operations''),
         (''treasury'', ''Treasury proposal operations''), (''notifications'', ''Member notifications''),
         (''events'', ''Raw event feed''), (''admin'', ''Admin and governance operations''),
         (''auth'', ''Authentication operations''), (''documents'', ''Proposal document attachments''),
         (''interest'', ''Interest distribution history'')]\<rparr>"

datatype plugin =
    P_error_handling
  | P_helmet helmet_options
  | P_on_close
  | P_swagger openapi_options
  | P_swagger_ui string
  | P_etag
  | P_cache_policy
  | P_compress nat "string list" \<comment> \<open>threshold and encodings, in order of preference\<close>
  | P_cors cors_option
  | P_rate_limit int int \<comment> \<open>maximum and window\<close>
  | P_routes string \<comment> \<open>prefix\<close>

datatype chosen_store = Postgres_nonce_store | Memory_nonce_store

definition choose_nonce_store :: "nonce_store_kind \<Rightarrow> chosen_store" where
  "choose_nonce_store configured = (if configured = Postgres_store then Postgres_nonce_store else Memory_nonce_store)"

definition version_warning :: string where
  "version_warning = ''Failed to read package.json version; /version will report '' @ dquote @ ''unknown'' @ dquote"

definition cors_warning :: string where
  "cors_warning = ''CORS_ORIGIN is set to '' @ dquote @ ''*'' @ dquote @ '' '' @ em_dash @
     '' all origins are allowed. Set CORS_ORIGIN to a specific origin for production.''"

record built_server =
  bs_plugins :: "plugin list"
  bs_nonceStore :: chosen_store
  bs_logged :: "string list"

text \<open>\<open>pv\<close> is the result of \<open>readPackageVersion\<close>.\<close>

definition buildServer :: "http_config \<Rightarrow> nonce_store_kind \<Rightarrow> jsval \<times> exn option \<Rightarrow> built_server" where
  "buildServer h configured pv =
     \<lparr>bs_plugins =
        [P_error_handling, P_helmet helmet_options_of, P_on_close, P_swagger (openapi_options_of (fst pv)),
         P_swagger_ui ''/docs'', P_etag, P_cache_policy, P_compress 1024 [''br'', ''gzip''],
         P_cors (cors_option_of (ht_corsOrigin h)), P_rate_limit (ht_rateLimitMax h) (ht_rateLimitWindowMs h),
         P_routes ''/api''],
      bs_nonceStore = choose_nonce_store configured,
      bs_logged =
        (if snd pv \<noteq> None then [version_warning] else []) @
        (if ht_corsOrigin h = ''*'' then [cors_warning] else [])\<rparr>"

text \<open>What the position of a plugin in the list is good for.\<close>

definition before :: "plugin list \<Rightarrow> (plugin \<Rightarrow> bool) \<Rightarrow> (plugin \<Rightarrow> bool) \<Rightarrow> bool" where
  "before ps P Q = (\<exists>xs ys. ps = xs @ ys \<and> list_ex P xs \<and> \<not> list_ex Q xs \<and> list_ex Q ys \<and> \<not> list_ex P ys)"

fun is_routes :: "plugin \<Rightarrow> bool" where
  "is_routes (P_routes p) = True"
| "is_routes _ = False"

lemma routes_registered_last:
  "\<exists>ps. bs_plugins (buildServer h ns pv) = ps @ [P_routes ''/api''] \<and> list_all (\<lambda>p. \<not> is_routes p) ps"
  by (rule exI [of _ "butlast (bs_plugins (buildServer h ns pv))"]) (simp add: buildServer_def)

lemma etag_before_cache_policy:
  "before (bs_plugins (buildServer h ns pv)) (\<lambda>p. p = P_etag) (\<lambda>p. p = P_cache_policy)"
  "before (bs_plugins (buildServer h ns pv)) (\<lambda>p. p = P_cache_policy) (\<lambda>p. \<exists>n es. p = P_compress n es)"
proof -
  let ?ps = "bs_plugins (buildServer h ns pv)"
  show "before ?ps (\<lambda>p. p = P_etag) (\<lambda>p. p = P_cache_policy)"
    unfolding before_def by (rule exI [of _ "take 6 ?ps"], rule exI [of _ "drop 6 ?ps"]) (simp add: buildServer_def)
  show "before ?ps (\<lambda>p. p = P_cache_policy) (\<lambda>p. \<exists>n es. p = P_compress n es)"
    unfolding before_def by (rule exI [of _ "take 7 ?ps"], rule exI [of _ "drop 7 ?ps"]) (simp add: buildServer_def)
qed

text \<open>The headers and the error shape cover every route, as their plugins come first.\<close>

lemma helmet_before_routes:
  "before (bs_plugins (buildServer h ns pv)) (\<lambda>p. p = P_helmet helmet_options_of) is_routes"
  unfolding before_def
  by (rule exI [of _ "take 2 (bs_plugins (buildServer h ns pv))"], rule exI [of _ "drop 2 (bs_plugins (buildServer h ns pv))"])
    (simp add: buildServer_def)

section \<open>Closing\<close>

text \<open>
  The hook shuts the store's timers down and calls \<open>closeRedis\<close>, a name \<open>server.ts\<close> does not import: the call
  throws, so closing the server is rejected whatever the store did.
\<close>

definition on_close_hook :: "exn + unit \<Rightarrow> exn + unit" where
  "on_close_hook storeShutdown = bindE storeShutdown (\<lambda>_. Inl (reference_error ''closeRedis''))"

definition shutdownNonceStore :: "(exn + unit) option \<Rightarrow> exn + unit" where
  "shutdownNonceStore active = (case active of None \<Rightarrow> Inr () | Some r \<Rightarrow> r)"

lemma close_always_rejected: "\<exists>e. on_close_hook r = Inl e"
  by (cases r) (simp_all add: on_close_hook_def)

text \<open>So the shutdown of the API process already ends at \<open>app.close()\<close>, before any other clean-up.\<close>

lemma api_shutdown_stops_at_close:
  assumes "\<not> ap_shuttingDown p" "await App_close = on_close_hook storeShutdown"
  shows "ap_exit (api_shutdown await p) = Some 1" "ap_done (api_shutdown await p) = []"
proof -
  obtain e where "await App_close = Inl e" using assms(2) close_always_rejected by metis
  then have "run_awaits (api_await_result await) api_awaits = ([], 1)"
    by (simp add: api_awaits_def api_await_result_def)
  with assms(1) show "ap_exit (api_shutdown await p) = Some 1" "ap_done (api_shutdown await p) = []"
    by (simp_all add: api_shutdown_def)
qed

end
