(* ===== verification/Loop_Examples.thy ===== *)
theory Loop_Examples
  imports Worker_Process Examples
begin

text \<open>
  Two concrete runs: a loop that polls one contract twice, the second time in vain, and a worker
  whose loop a signal ends before the pool is closed.
\<close>

section \<open>Two polls\<close>

definition loop0 :: loop where
  "loop0 = loop_start [''CDAO''] 0 ix0"

definition pe_down :: "native poll_env" where
  "pe_down = pe0\<lparr>pe_tip := Inl (PlainError ''fetch failed'')\<rparr>"

definition sc1 :: schedule where
  "sc1 = \<lparr>sc_consecutiveFailures = [(''CDAO'', 0)], sc_nextPollAt = [(''CDAO'', 5001)]\<rparr>"

definition sc2 :: schedule where
  "sc2 = \<lparr>sc_consecutiveFailures = [(''CDAO'', 1)], sc_nextPollAt = [(''CDAO'', 15002)]\<rparr>"

definition loop2 :: loop where
  "loop2 = \<lparr>lo_indexer = ix1, lo_schedule = sc2, lo_phase = In_tick 5001 [], lo_aborted = False, lo_clock = 5002,
     lo_polls = [\<lparr>pl_contract = ''CDAO'', pl_start = 0, pl_end = 1, pl_failures = 0\<rparr>,
       \<lparr>pl_contract = ''CDAO'', pl_start = 5001, pl_end = 5002, pl_failures = 1\<rparr>]\<rparr>"

lemma cfg0_intervals: "ic_pollIntervalMs cfg0 = 5000" "ic_maxBackoffMs cfg0 = 60000"
  by (simp_all add: cfg0_def)

lemma schedules:
  "tget (sc_nextPollAt (initial_schedule [''CDAO''])) ''CDAO'' = Some 0"
  "tput ''CDAO'' 0 (sc_consecutiveFailures (initial_schedule [''CDAO''])) = [(''CDAO'', 0)]"
  "tput ''CDAO'' 5001 (sc_nextPollAt (initial_schedule [''CDAO''])) = [(''CDAO'', 5001)]"
  "tget (sc_nextPollAt sc1) ''CDAO'' = Some 5001" "failures_of ''CDAO'' sc1 = 0" "failures_of ''CDAO'' sc2 = 1"
  "tput ''CDAO'' 1 (sc_consecutiveFailures sc1) = [(''CDAO'', 1)]"
  "tput ''CDAO'' 15002 (sc_nextPollAt sc1) = [(''CDAO'', 15002)]"
  by code_simp+

lemma poll1: "poll_contract wire cfg0 pe0 None 0 1 ''CDAO'' (initial_schedule [''CDAO'']) ix0 = (Inr sc1, ix1)"
  by (simp add: ix1_def poll_contract_def fetch0 schedules cfg0_intervals) (simp add: sc1_def initial_schedule_def)

lemma poll2: "poll_contract wire cfg0 pe_down None 5001 5002 ''CDAO'' sc1 ix1 = (Inr sc2, ix1)"
proof -
  have "fetchOnce wire cfg0 pe_down ''CDAO'' ix1 = (Inl (PlainError ''fetch failed''), ix1)"
    by (simp add: fetchOnce_def pe_down_def bindE_def Let_def)
  then have "poll_contract wire cfg0 pe_down None 5001 5002 ''CDAO'' sc1 ix1 =
      (Inr (sc1\<lparr>sc_consecutiveFailures := [(''CDAO'', 1)], sc_nextPollAt := [(''CDAO'', 15002)]\<rparr>), ix1)"
    using schedules(7,8)
    by (simp add: poll_contract_def is_reorg_def schedules(4,5) backoff_delay_def cfg0_intervals)
  then show ?thesis by (simp add: sc2_def sc1_def)
qed

lemma reach_loop2: "(loop_step wire cfg0 [''CDAO''])\<^sup>*\<^sup>* loop0 loop2"
proof -
  let ?step = "loop_step wire cfg0 [''CDAO'']"
  note own = loop_step_def [THEN iffD2, OF disjI1] and outside = loop_step_def [THEN iffD2, OF disjI2]
  let ?L1 = "loop0\<lparr>lo_phase := In_tick 0 [''CDAO'']\<rparr>"
  let ?L1b = "?L1\<lparr>lo_phase := Polling 0 ''CDAO'' [] 0\<rparr>"
  let ?L2 = "?L1b\<lparr>lo_indexer := ix1, lo_schedule := sc1, lo_phase := In_tick 0 [], lo_aborted := False, lo_clock := 1,
    lo_polls := [\<lparr>pl_contract = ''CDAO'', pl_start = 0, pl_end = 1, pl_failures = 0\<rparr>]\<rparr>"
  let ?L3 = "?L2\<lparr>lo_phase := Asleep 5001\<rparr>"
  let ?L4 = "?L3\<lparr>lo_clock := 5001\<rparr>"
  let ?L5 = "?L4\<lparr>lo_phase := Loop_top\<rparr>"
  let ?L6 = "?L5\<lparr>lo_phase := In_tick 5001 [''CDAO'']\<rparr>"
  let ?L7 = "?L6\<lparr>lo_phase := Polling 5001 ''CDAO'' [] 5001\<rparr>"
  have "?step loop0 ?L1"
    using loop_own.enter [of loop0 wire cfg0 "[''CDAO'']"] by (simp add: own loop0_def loop_start_def)
  moreover have "?step ?L1 ?L1b"
    using loop_own.begin_poll [of ?L1 0 "''CDAO''" "[]" wire cfg0 "[''CDAO'']"] by (simp add: own loop0_def loop_start_def)
  moreover have "?step ?L1b ?L2"
    using loop_own.polled [of ?L1b 0 "''CDAO''" "[]" 0 wire cfg0 pe0 None 1 sc1 ix1 "[''CDAO'']"] poll1
    by (simp add: own loop0_def loop_start_def pe0_simps schedules)
  moreover have "?step ?L2 ?L3"
    using loop_own.tick_ends [of ?L2 0 wire cfg0 "[''CDAO'']"] by (simp add: own cfg0_def)
  moreover have "?step ?L3 ?L4"
    using loop_outside.clock [of ?L3 5001 wire cfg0] by (simp add: outside)
  moreover have "?step ?L4 ?L5"
    using loop_own.wake [of ?L4 5001 wire cfg0 "[''CDAO'']"] by (simp add: own sleep_resolved_def)
  moreover have "?step ?L5 ?L6"
    using loop_own.enter [of ?L5 wire cfg0 "[''CDAO'']"] by (simp add: own loop0_def loop_start_def)
  moreover have "?step ?L6 ?L7"
    using loop_own.begin_poll [of ?L6 5001 "''CDAO''" "[]" wire cfg0 "[''CDAO'']"]
    by (simp add: own loop0_def loop_start_def schedules next_poll_def)
  moreover have "?step ?L7 loop2"
    using loop_own.polled [of ?L7 5001 "''CDAO''" "[]" 5001 wire cfg0 pe_down None 5002 sc2 ix1 "[''CDAO'']"] poll2
    by (simp add: own loop0_def loop_start_def loop2_def pe_down_def pe0_simps schedules next_poll_def)
  ultimately show ?thesis by (meson converse_rtranclp_into_rtranclp rtranclp.rtrancl_refl)
qed

lemma starts_loop0: "starts_loop [''CDAO''] loop0"
  unfolding starts_loop_def loop0_def by (intro exI [of _ 0] exI [of _ ix0]) simp

section \<open>A shutdown\<close>

definition loop_done :: loop where
  "loop_done = loop0\<lparr>lo_aborted := True, lo_phase := Loop_ended None\<rparr>"

definition process_done :: process where
  "process_done = \<lparr>pr_worker = worker_start\<lparr>wk_indexer := Ix_stopped, wk_maintenance := Mt_stopped,
      wk_shutdown := Sd_telemetry, wk_poolEnds := 1\<rparr>, pr_loop = Some loop_done\<rparr>"

lemma reach_process_done: "(process_step wire cfg0 [''CDAO''])\<^sup>*\<^sup>* process_start process_done"
proof -
  let ?step = "process_step wire cfg0 [''CDAO'']"
  let ?p1 = "\<lparr>pr_worker = worker_start\<lparr>wk_indexer := Ix_running\<rparr>, pr_loop = Some loop0\<rparr>"
  let ?p2 = "\<lparr>pr_worker = on_signal (pr_worker ?p1), pr_loop = Some (stopIndexer loop0)\<rparr>"
  let ?p3 = "?p2\<lparr>pr_loop := Some loop_done\<rparr>"
  let ?p4 = "?p3\<lparr>pr_worker := (pr_worker ?p3)\<lparr>wk_indexer := Ix_stopped\<rparr>\<rparr>"
  let ?p5 = "?p4\<lparr>pr_worker := (pr_worker ?p4)\<lparr>wk_shutdown := Sd_maintenance\<rparr>\<rparr>"
  let ?p6 = "?p5\<lparr>pr_worker := (pr_worker ?p5)\<lparr>wk_maintenance := Mt_stopped\<rparr>\<rparr>"
  let ?p7 = "?p6\<lparr>pr_worker := (pr_worker ?p6)\<lparr>wk_shutdown := Sd_redis\<rparr>\<rparr>"
  let ?p8 = "?p7\<lparr>pr_worker := (pr_worker ?p7)\<lparr>wk_shutdown := Sd_pool\<rparr>\<rparr>"
  note simps = on_signal_def worker_start_def aborted_def own_worker_step_def no_hangs_def client_kept_def
  have "?step process_start ?p1"
    using process_step.loop_starts [of process_start "[''CDAO'']" loop0 wire cfg0] starts_loop0
    by (simp add: process_start_def worker_start_def)
  moreover have "?step ?p1 ?p2"
    using process_step.first_signal [of ?p1 wire cfg0 "[''CDAO'']"] by (simp add: simps)
  moreover have "?step ?p2 ?p3"
    using process_step.loop_goes_on [of ?p2 "stopIndexer loop0" wire cfg0 "[''CDAO'']" loop_done]
      loop_own.leave [of "stopIndexer loop0" wire cfg0 "[''CDAO'']"]
    by (simp add: simps stopIndexer_def loop_running_def loop0_def loop_start_def loop_done_def)
  moreover have "?step ?p3 ?p4"
    using process_step.loop_returned [of ?p3 loop_done wire cfg0 "[''CDAO'']"] by (simp add: simps loop_done_def)
  moreover have "?step ?p4 ?p5"
    by (rule process_step.worker_goes_on, unfold own_worker_step_def)
      (use worker_step.indexer_awaited [of "pr_worker ?p4" no_hangs] in \<open>simp add: simps\<close>)
  moreover have "?step ?p5 ?p6"
    by (rule process_step.worker_goes_on, unfold own_worker_step_def)
      (use worker_step.pass_ends [of "pr_worker ?p5" no_hangs] in \<open>simp add: simps\<close>)
  moreover have "?step ?p6 ?p7"
    by (rule process_step.worker_goes_on, unfold own_worker_step_def)
      (use worker_step.maintenance_awaited [of "pr_worker ?p6" no_hangs] in \<open>simp add: simps\<close>)
  moreover have "?step ?p7 ?p8"
    by (rule process_step.worker_goes_on, unfold own_worker_step_def)
      (use worker_step.redis_closed [of "pr_worker ?p7" no_hangs] in \<open>simp add: simps\<close>)
  moreover have "?step ?p8 process_done"
  proof -
    have d: "process_done = ?p8\<lparr>pr_worker := (pr_worker ?p8)\<lparr>wk_shutdown := Sd_telemetry,
        wk_poolEnds := wk_poolEnds (pr_worker ?p8) + 1\<rparr>\<rparr>"
      by (simp add: process_done_def simps)
    show ?thesis unfolding d
      by (rule process_step.worker_goes_on, unfold own_worker_step_def)
        (use worker_step.pool_ended [of "pr_worker ?p8" no_hangs] in \<open>simp add: simps\<close>)
  qed
  ultimately show ?thesis by (meson converse_rtranclp_into_rtranclp rtranclp.rtrancl_refl)
qed

end
