(* ===== verification/Spec2Isabelle.thy ===== *)
theory Spec2Isabelle
  imports Stamps Discontinuity Further_Observations Rpc Cache_Coherence Maintenance Lifecycle Server Migration_Policy Protection_Example Scripts Sse_Client
    Worker_Process Commands Response_Schemas Bodies Benchmarks Load_Tests Observability Server_Build Loop_Examples
begin

text \<open>
  A verification library for the OurDAO backend: an indexer that folds the events of a Soroban
  contract into Postgres tables, and an API that serves these tables over HTTP and a
  server-sent event stream.

  \<^bold>\<open>The program.\<close> A worker process polls an RPC server for pages of contract events
  (\<open>src/indexer/poller.ts\<close>), decodes them (\<open>src/stellar/events.ts\<close>), appends them to the raw
  log and folds them into the derived tables with one handler per event symbol
  (\<open>src/indexer/handlers.ts\<close>), all in one transaction per page; pages that keep failing go
  through a quarantine that isolates single events. It stops at a discontinuity of the ledger
  sequence until an operator acknowledges it. \<open>reindex.ts\<close>, \<open>replay.ts\<close> and \<open>clear-reorg.ts\<close> are
  the recovery commands. After a commit the worker sends a Postgres notification; the API process
  holds one listening connection and fans the notifications out to its stream clients
  (\<open>src/api/stream.ts\<close>). The API reads the tables (\<open>src/api/routes/index.ts\<close>), authenticates
  requests by signed nonces (\<open>src/auth.ts\<close>) and changes read flags and quarantine records; the
  member list and the member summaries go through a Redis cache (\<open>src/cache/redis.ts\<close>) that the
  worker invalidates after its commits. At start-up both processes (\<open>src/index.ts\<close>, \<open>src/worker.ts\<close>)
  resolve their configuration (\<open>src/config.ts\<close>) and migrate the schema (\<open>src/db/migrate.ts\<close>); the
  worker runs a maintenance loop (\<open>src/db/maintenance.ts\<close>) beside the indexer, and both shut down
  in order on a signal. Policies of the repository are programs of their own: the check of migration
  files (\<open>src/db/migration-policy.ts\<close>) and the scripts under \<open>scripts/\<close>.

  \<^bold>\<open>Theories and what they model.\<close>
  \<^item> \<open>Prelude\<close>: results with errors, keyed tables, decimal text, strings of ECMAScript.
  \<^item> \<open>JsValue\<close>, \<open>Json\<close>: values of ECMAScript, \<open>String\<close>, \<open>Number\<close>, \<open>JSON.stringify\<close>, \<open>JSON.parse\<close> with
    their round trip, property lookup through \<open>Object.prototype\<close>, the errors thrown.
  \<^item> \<open>Events\<close> (\<open>events.ts\<close>), \<open>Schema\<close> (\<open>types.ts\<close>, \<open>derived-tables.ts\<close>, \<open>schema.sql\<close>), \<open>Handlers\<close>
    (\<open>handlers.ts\<close>): decoding, row types, the 24 handlers and \<open>applyEvent\<close>. \<open>Handlers_Inv\<close> shows
    that every handler keeps the tables well formed and the totals in agreement with them,
    \<open>Handlers_Facts\<close> and \<open>Handlers_Idem\<close> what a second delivery and the read flags do.
  \<^item> \<open>Store\<close>, \<open>Ingest\<close>, \<open>Poller\<close> (\<open>poller.ts\<close>): the log, cursors and quarantine records, the page
    transaction, the quarantine, one poll with its drain loop, start-up, the schedule of several
    contracts. \<open>Recovery\<close>: rebuild, replay, acknowledgement. \<open>System\<close> composes polls, replays,
    acknowledgements, reads and restarts into runs and proves the invariants of all reachable states.
    \<open>Stamps\<close>: the times Postgres gives to inserted rows, beside the tables. \<open>Discontinuity\<close>: which errors of a
    poll are discontinuities, and what clears the record of one.
    \<open>Poll_Loop\<close>: the loop of \<open>runIndexer\<close> with its abort signal, its sleep and \<open>stopIndexer\<close>, a simulation of
    such runs. \<open>Commands\<close>: the operator's commands with their arguments, exit codes and interruption.
  \<^item> \<open>Auth\<close>, \<open>Auth_Facts\<close> (\<open>auth.ts\<close>): both nonce stores under the locale \<open>nonce_store\<close>, which carries the
    theorems about single use and ownership, the failure tracker, \<open>authenticateRequest\<close>.
  \<^item> \<open>Stream\<close>, \<open>Stream_Facts\<close>, \<open>Listener\<close> (\<open>stream.ts\<close>): a stream client as a state machine over a
    socket, dispatch and admission, the shared connection as a step relation. \<open>Sse_Client\<close>:
    the frame reader of \<open>scripts/load-test-stream.ts\<close>, which gets the server's frames back however they are
    cut into chunks.
  \<^item> \<open>Http\<close> (\<open>errors.ts\<close>, \<open>cache-policy.ts\<close>, \<open>load-shedding.ts\<close>), \<open>Routes\<close>, \<open>Feeds\<close>, \<open>Actions\<close>
    (\<open>routes/index.ts\<close>), \<open>Stats\<close> (statistics, history and its cache, the readiness probe of
    \<open>server.ts\<close>), \<open>Loan_Derived\<close>: the endpoints as functions from request and database to a cache
    policy and an answer. \<open>Pages\<close> states the contract of a paged feed as the locale
    \<open>keyset_pages\<close>, interpreted for four feeds; \<open>Api_Facts\<close> has the facts about cursors by ledger,
    ownership, readiness and aggregates. \<open>Response_Schemas\<close>: the JSON schemas the routes declare, as data with a
    typing judgement, and the bodies of \<open>types.ts\<close> they are checked against. \<open>Bodies\<close>: the bodies of the other
    rows, which a client reads back with all their digits, and the member summary, where it cannot.
  \<^item> \<open>Cache\<close> (\<open>cache/redis.ts\<close>): keys, commands, the cache-aside read and the invalidations. \<open>Cache_Run\<close>
    lets the lookups, queries, stores and invalidations of many callers interleave as a step relation
    with an invariant on the origin and age of every entry. \<open>Cache_Coherence\<close> joins it with the
    handlers and the routes: which events change the member list and which delete its cached pages.
  \<^item> \<open>Config\<close>, \<open>Migrate\<close>, \<open>Rpc\<close>: configuration, migrations, calls to the RPC server.
  \<^item> \<open>Database\<close> (\<open>db/index.ts\<close>): type parsers, pool options, \<open>withTransaction\<close> with every failure point.
    \<open>Maintenance\<close> (\<open>db/maintenance.ts\<close>): one pass and its report. \<open>Server\<close> (\<open>api/server.ts\<close>): options,
    cross-origin rules, rate limits, the health, version and metrics endpoints. \<open>Server_Build\<close>: the security
    headers, the order in which \<open>buildServer\<close> registers its parts, and closing. \<open>Lifecycle\<close>: the worker
    process as a step relation over its two loops and the shutdown routine, with the awaits that may never end as
    a parameter, the shutdown of the API process;
    \<open>Worker_Process\<close> joins it with the poll loop it runs. \<open>Step_System\<close> has the contracts of step relations
    with an invariant and of simulations as locales, interpreted for the loop and the process.
  \<^item> \<open>Regexp\<close>: regular expressions with ECMAScript's matching order as a list of successes, against a
    declarative relation, used by \<open>Migration_Policy\<close> and \<open>Protection\<close> (\<open>scripts/branch-protection.ts\<close>,
    with \<open>Protection_Example\<close>). \<open>Scripts\<close>: \<open>check-licenses.ts\<close>, \<open>clean-test-schemas.ts\<close>, \<open>lib/logger.ts\<close>.
    \<open>Benchmarks\<close> (\<open>bench-events-storage.ts\<close>, \<open>check-bench-regression.ts\<close>), \<open>Load_Tests\<close> (\<open>bench-api-latency.ts\<close>,
    \<open>load-test-stream.ts\<close>, \<open>generate-openapi-spec.ts\<close>): generated events, summaries, verdicts, exit codes.
  \<^item> \<open>Observability\<close> (\<open>logger.ts\<close>, \<open>telemetry.ts\<close>, \<open>api/metrics.ts\<close>): log lines, which parse back to their fields,
    the start and stop of tracing, the counters of the stream, the timers of the stores.
  \<^item> \<open>Examples\<close>, \<open>Api_Examples\<close>, \<open>Route_Examples\<close>, \<open>Loop_Examples\<close>: concrete states for the witnesses. \<open>Observations\<close>,
    \<open>Further_Observations\<close>: further consequences and behaviours that differ from comments in the source.

  \<^bold>\<open>What the theorems show.\<close> The derived tables are always the fold of the folded events, each once
  and in agreement with the totals; pages are atomic; poison events do not stop a page; cursors
  move forward; a discontinuity stops the worker until it is cleared; a rebuild gives the
  incremental state, up to the times Postgres assigns. A nonce authenticates at most one request of its owner, and an
  authenticated request proves control of the key. Stream clients see frames in order within
  bounded queues. The feeds by id list every row once, read flags change only for their owner,
  the error handler keeps the driver's text to itself, and the probes and aggregates agree with the tables. A
  cached answer was stored at most one lifetime ago and a page of member events deletes the cached lists while
  Redis is in reach; transactions are all or nothing; maintenance deletes nothing in use; the shutdown of the
  worker ends unless an await of it never does, and closes the pool once, after the last poll; polls keep their
  distance and answers their declared schemas; the repository's policy checks compare the rules of the
  policies they are named for. Some theorems
  record defects: they state exactly what the code does where it does not do what it means to.

  \<^bold>\<open>Parameters.\<close> What is not under \<open>src/\<close> is an argument: \<open>scValToNative\<close>, the answers of the RPC
  server, the clock, the advisory lock and the faults of the database (records \<open>env\<close> and
  \<open>poll_env\<close>), the Stellar SDK (record \<open>sdk\<close>), random bytes (\<open>issue_env\<close>), the SQL of migrations,
  the division of \<open>NUMERIC\<close> values, the results of socket writes, the faults of Redis commands
  (\<open>redis_call\<close>) and of the statements of a transaction (\<open>tx_env\<close>), the files and the answers of the
  host of the repository (\<open>gh_env\<close>).

  \<^bold>\<open>Modelling decisions.\<close> Times are integers in milliseconds; \<open>NUMERIC\<close> and \<open>INTEGER\<close> columns are
  integers whose range is checked on assignment; a table with a serial key is the list of its
  rows; text is a list of UTF-8 bytes compared bytewise; numbers are exact where the program
  uses them as integers. The id of a row with a serial key is its position, without the gaps a sequence
  leaves after a roll-back; the times \<open>created_at\<close> and \<open>attached_at\<close> that Postgres assigns to such rows, and the API
  serves, are not columns of the row types but lists beside the tables (\<open>Stamps\<close>), which a rebuild renews.
  \<open>updated_at\<close> stamps of derived rows, which a rebuild renews as well, NUL characters, the key order of
  JSONB objects and most log lines are left out. The transactions of a page, a quarantined event, a replay and
  a rebuild end in a \<open>COMMIT\<close> that succeeds and is answered, and so do those of \<open>migrate\<close>, whose files can be
  read and whose roll-backs succeed; a failing \<open>COMMIT\<close> and one whose answer is lost are modelled for
  \<open>withTransaction\<close> in \<open>Database\<close> only. A poll of the loop begins with one step and ends with another, so
  that a signal, the clock and other processes can come in between; all it does to the database happens in the
  second. The log of polls is a ghost that no step reads. Timers are flags or steps of a relation.

  \<^bold>\<open>Termination and fuel.\<close> The drain loop, the retry loop, the rebuild and the flush of a client's
  queue are total functions with a measure; the JSON parser runs with fuel one above the length
  of its text, which the round trip shows to be enough; the polling of the migration lock is a
  partial function with a proof that it returns when the clock advances; following a cursor
  takes as many pages as there are rows at most. The loop over \<open>SCAN\<close> is a partial function that ends
  with the first cursor \<open>0\<close>; repetition in a regular expression stops on an empty match, which the
  equivalence with the declarative relation justifies; a shutdown has at most ten steps, and a poll loop
  that is asked to stop four.

  \<^bold>\<open>Not modelled.\<close> What Fastify and its plugins do with their options, the reconnection of the Redis client
  and of the pool, spans and the text of most log lines, the default process metrics, and the measuring
  itself in the benchmarks (times, memory, table sizes, the tables printed): third-party code, or numbers
  that only exist when the program runs.
\<close>

section \<open>The indexer: exactly-once folding\<close>

text \<open>
  C1. Whatever sequence of polls (with faults, redelivered pages and quarantined events), replays,
  acknowledgements, readers and restarts runs from an empty database, the derived tables are, up
  to read flags, the fold of the handlers over a sequence of events in which exactly the events
  marked as folded occur, each once.
\<close>

theorem derived_tables_fold_each_event_once:
  assumes "(indexer_step scv cfg)\<^sup>*\<^sup>* ix ix'" and "fresh_indexer ix"
  shows "\<exists>h. fold_events h empty_derived = Inr (unread (db_derived (ix_db ix'))) \<and>
    distinct (map ev_id h) \<and> (\<forall>i. is_folded (ix_db ix') i \<longleftrightarrow> i \<in> ev_id ` set h)"
  using assms by (rule reachable_history)

theorem derived_tables_fold_each_event_once_witness:
  "is_folded (ix_db ix1) ''e2'' \<and>
   (\<exists>h. fold_events h empty_derived = Inr (unread (db_derived (ix_db ix1))) \<and>
     distinct (map ev_id h) \<and> (\<forall>i. is_folded (ix_db ix1) i \<longleftrightarrow> i \<in> ev_id ` set h))"
  using derived_tables_fold_each_event_once [OF reach_ix1 fresh_ix0] ix1_folded by simp

text \<open>
  C2. In every reachable state the derived tables are well formed (keys are unique, notifications
  are unique per event and address, every amount is non-negative and below \<open>10^40\<close>, every
  counter a non-negative 32-bit integer) and the lifetime totals agree with them: principal lent
  is the sum over the loans and over the days, principal repaid and value defaulted are the sums
  over the days, the loans originated per day sum to the number of loans, and the interest
  collected is the sum of the distributions.
\<close>

theorem derived_tables_are_consistent:
  assumes "(indexer_step scv cfg)\<^sup>*\<^sup>* ix ix'" and "fresh_indexer ix"
  shows "wf_derived (db_derived (ix_db ix')) \<and> totals_agree (db_derived (ix_db ix'))"
  using reachable_invariants [OF assms] by blast

theorem derived_tables_are_consistent_witness:
  "wf_derived (db_derived (ix_db ix1)) \<and> totals_agree (db_derived (ix_db ix1))"
  by (rule derived_tables_are_consistent [OF reach_ix1 fresh_ix0])

text \<open>
  C3. A page transaction is atomic and folds each event at most once: on an error the database is
  unchanged; on success the derived tables are the fold of the events of the page that had not
  been folded before, exactly those and the earlier ones are then marked folded, none came from
  below the last folded ledger, and the cache invalidations and notifications sent are those of
  the newly folded events in order.
\<close>

theorem ingestPage_folds_fresh_events:
  "case ingestPage scv en raws l db of
     (Inl e, db') \<Rightarrow> db' = db
   | (Inr es, db') \<Rightarrow> \<exists>evs. decode_page scv raws = Inr evs \<and>
       (\<forall>ev \<in> set evs. l = 0 \<or> l \<le> ev_ledger ev) \<and>
       fold_events (fresh (is_folded db) evs) (db_derived db) = Inr (db_derived db') \<and>
       (\<forall>i. is_folded db' i \<longleftrightarrow> is_folded db i \<or> i \<in> ev_id ` set evs) \<and>
       es = concat (map after_commit (pending_of (fresh (is_folded db) evs)))"
proof (cases "ingestPage scv en raws l db")
  case (Pair r db')
  show ?thesis
  proof (cases r)
    case (Inl e)
    with Pair show ?thesis using ingestPage_atomic by fastforce
  next
    case (Inr es)
    with Pair show ?thesis by (auto elim!: ingestPage_success)
  qed
qed

theorem ingestPage_folds_fresh_events_witness:
  "is_ok (fst (ingestPage wire (healthy 9) good_page 0 empty_db)) \<and>
   (\<exists>evs. decode_page wire good_page = Inr evs \<and>
      fold_events (fresh (is_folded empty_db) evs) (db_derived empty_db) = Inr (db_derived db1))"
  using ingestPage_folds_fresh_events [where scv = wire and en = "healthy 9" and raws = good_page and l = 0
      and db = empty_db] good_page_ingested
  by (auto simp: db1_def split: prod.splits sum.splits)

text \<open>
  C4. A page delivered again after all its events were folded changes nothing and sends nothing,
  whatever its handlers would do.
\<close>

theorem redelivered_page_is_absorbed:
  assumes "decode_page scv raws = Inr evs" and "\<forall>ev \<in> set evs. is_folded db (ev_id ev)"
    and "\<forall>ev \<in> set evs. (l = 0 \<or> l \<le> ev_ledger ev) \<and> en_insert_fault en (ev_id ev) = None"
    and "en_lock_free en"
  shows "ingestPage scv en raws l db = (Inr [], db)"
  using assms by (rule ingestPage_redelivery)

theorem redelivered_page_is_absorbed_witness:
  "ingestPage wire (healthy 11) good_page 0 db1 = (Inr [], db1)"
  by (rule redelivered_page_is_absorbed [OF decode_good_page])
     (use good_page_all_folded in \<open>auto simp: list_all_iff\<close>)

section \<open>Quarantine\<close>

text \<open>
  C5. Liveness: a page whose events decode and can be stored gets through after at most
  \<open>INDEXER_QUARANTINE_AFTER_FAILURES\<close> attempts, whichever handlers keep failing and whatever
  failure count the process or the database held before.
\<close>

theorem poison_events_do_not_wedge_a_page:
  assumes "decode_page scv raws = Inr evs" and "en_lock_free en"
    and "\<forall>ev \<in> set evs. (l = 0 \<or> l \<le> ev_ledger ev) \<and> en_insert_fault en (ev_id ev) = None"
  shows "fst (retry_page scv q en raws l c (q - 1) ix) = Inr ()"
  using assms by (rule retry_page_succeeds)

theorem poison_events_do_not_wedge_a_page_witness:
  "\<not> is_ok (fst (ingestPage wire (healthy 9) bad_page 0 (ix_db ix0))) \<and>
   fst (retry_page wire 3 (healthy 9) bad_page 0 ''CDAO'' 2 ix0) = Inr ()"
  using poison_events_do_not_wedge_a_page [OF decode_bad_page, of "healthy 9" 0 3 "''CDAO''" ix0]
    bad_page_fails
  by (simp add: ix0_def)

text \<open>
  C6. The exception: decoding happens outside the isolated part of the quarantine loop, so an event
  that cannot be decoded (one whose topic symbol names a property of \<open>Object.prototype\<close>) blocks
  its page for every number of attempts and every threshold.
\<close>

theorem undecodable_event_wedges_its_page:
  assumes "decodeEvent scv raw = Inl e" and "raw \<in> set raws"
  shows "\<not> is_ok (fst (retry_page scv q en raws l c n ix))"
  using assms by (rule undecodable_page_stuck)

theorem undecodable_event_wedges_its_page_witness:
  "\<not> is_ok (fst (retry_page wire 3 (healthy 9) [ev_join, ev_proto] 0 ''CDAO'' 100 ix0))"
proof -
  have "decodeEvent wire ev_proto = Inl (JsTypeError ''names.forEach is not a function'')" by code_simp
  then show ?thesis by (rule undecodable_event_wedges_its_page) simp
qed

section \<open>Recovery\<close>

text \<open>
  C7. Keyset pagination over \<open>(ledger, id)\<close> visits every event of the log exactly once, in order,
  whatever the batch size: the batched rebuild loop is the plain loop over the sorted log.
\<close>

theorem reindex_batches_visit_the_log_in_order:
  assumes "tuniq events"
  shows "reindex_loop en batchSize events None rb = foldE (refold en) (sort_key row_key events) rb"
  using reindex_loop_visits [OF assms, of en batchSize None rb] by (simp add: after_key_def)

theorem reindex_batches_visit_the_log_in_order_witness:
  "reindex_loop (healthy 1) 2 (db_events db1) None \<lparr>rb_derived = empty_derived, rb_touched = [], rb_processed = 0\<rparr> =
   foldE (refold (healthy 1)) (sort_key row_key (db_events db1)) \<lparr>rb_derived = empty_derived, rb_touched = [], rb_processed = 0\<rparr>"
proof (rule reindex_batches_visit_the_log_in_order)
  show "tuniq (db_events db1)" by code_simp
qed

text \<open>
  C8. When the events were folded in the order of the log, a rebuild gives back exactly the derived
  state the indexer had built incrementally, the read flags of notifications included, up to the times
  Postgres assigns: every notification, distribution and document gets the time of the rebuild as its
  \<open>created_at\<close> or \<open>attached_at\<close>, whatever it was before (and every keyed row as its \<open>updated_at\<close>, which is
  not modelled).
\<close>

theorem reindex_equals_incremental_fold:
  assumes "en_lock_free en" and "tuniq (db_events db)"
    and "list_all2 stores (sort_key row_key (db_events db)) evs"
    and "\<forall>ev \<in> set evs. en_fold_fault en (ev_id ev) = None"
    and "fold_events evs empty_derived = Inr (unread (db_derived db))"
  shows "\<exists>es db'. reindexFromEventLog en n db = (Inr (length evs, es), db') \<and> db_derived db' = db_derived db \<and>
    reindex_stamped en n (db, st) = (Inr (length evs, es), db',
      \<lparr>st_notifications = replicate (length (notifications (db_derived db))) (en_now en),
       st_distributions = replicate (length (interest_distributions (db_derived db))) (en_now en),
       st_documents = replicate (length (documents (db_derived db))) (en_now en)\<rparr>)"
proof -
  obtain es db' where "reindexFromEventLog en n db = (Inr (length evs, es), db')" "db_derived db' = db_derived db"
    using reindex_equals_incremental [OF assms] by blast
  then show ?thesis by (simp add: reindex_stamped_def rebuilt_stamps)
qed

theorem reindex_equals_incremental_fold_witness:
  "\<exists>es db'. reindexFromEventLog (healthy 12) 2 db1 = (Inr (3, es), db') \<and> db_derived db' = db_derived db1 \<and>
     reindex_stamped (healthy 12) 2 (db1, \<lparr>st_notifications = [9, 9], st_distributions = [], st_documents = []\<rparr>) =
       (Inr (3, es), db', \<lparr>st_notifications = [12, 12], st_distributions = [], st_documents = []\<rparr>)"
proof -
  have n: "length good_events = 3" "length (notifications (db_derived db1)) = 2"
    "interest_distributions (db_derived db1) = []" "documents (db_derived db1) = []" "en_now (healthy 12) = 12"
    by code_simp+
  have "tuniq (db_events db1)" "list_all2 stores (sort_key row_key (db_events db1)) good_events"
    "\<forall>ev \<in> set good_events. en_fold_fault (healthy 12) (ev_id ev) = None"
    "fold_events good_events empty_derived = Inr (unread (db_derived db1))"
    by (code_simp, code_simp, simp, code_simp)
  from reindex_equals_incremental_fold [OF _ this, of 2 "\<lparr>st_notifications = [9, 9], st_distributions = [], st_documents = []\<rparr>"]
  show ?thesis by (simp add: n numeral_2_eq_2)
qed

text \<open>
  C9. A replay that reports success folded the logged event, which had not been folded, exactly once,
  marked it and closed its record; one that reports a failure changed neither the derived tables
  nor the log and added no record.
\<close>

theorem replay_folds_once:
  assumes "replayFailedEvent en res i db = (Inr (oc, es), db')"
  shows "case oc of
      Replayed \<Rightarrow> \<exists>row ev. tget (db_events db) i = Some row \<and> toDecodedEvent i row = Inr ev \<and>
        \<not> is_folded db i \<and> fold_one ev (db_derived db) = Inr (db_derived db') \<and>
        (\<forall>j. is_folded db' j \<longleftrightarrow> is_folded db j \<or> j = i) \<and> (\<forall>j. unresolved db' j \<longleftrightarrow> unresolved db j \<and> j \<noteq> i)
    | Already_resolved \<Rightarrow> db_derived db' = db_derived db \<and> db_events db' = db_events db \<and> \<not> unresolved db' i
    | Still_failing m \<Rightarrow> db_derived db' = db_derived db \<and> db_events db' = db_events db \<and>
        unresolved db' i \<and> tkeys (db_failed db') = tkeys (db_failed db)"
proof (cases oc)
  case Replayed
  with assms show ?thesis by (auto elim!: replay_replayed)
next
  case Already_resolved
  with assms show ?thesis
    by (auto simp: replayFailedEvent_def split: if_splits option.splits sum.splits prod.splits)
next
  case (Still_failing m)
  with assms replay_still_failing [of en res i db m es db'] show ?thesis by auto
qed

theorem replay_folds_once_witness:
  "\<exists>es db'. replayFailedEvent (healthy 14) R_resolved ''e2'' db_quarantined = (Inr (Replayed, es), db') \<and>
     \<not> is_folded db_quarantined ''e2'' \<and> is_folded db' ''e2'' \<and> \<not> unresolved db' ''e2''"
proof -
  let ?r = "replayFailedEvent (healthy 14) R_resolved ''e2'' db_quarantined"
  have "(case fst ?r of Inr (oc, es) \<Rightarrow> oc = Replayed | Inl e \<Rightarrow> False)" by code_simp
  then obtain es where r: "?r = (Inr (Replayed, es), snd ?r)"
    by (cases ?r) (auto split: sum.splits)
  from replay_folds_once [OF r] r show ?thesis by auto
qed

section \<open>Handlers and the event log\<close>

text \<open>
  C10. Apart from the four handlers that add to a tally (\<open>claimed\<close>, \<open>loan_vote\<close>, \<open>tre_vote\<close>,
  \<open>revealed\<close>), applying an event a second time leaves the derived tables as the first
  application left them: a redelivered default, repayment, approval or distribution is not counted twice.
\<close>

theorem handlers_absorb_a_second_delivery:
  assumes "applyEvent ev d = Inr (d', cs)" and "ev_symbol ev \<notin> set tally_symbols"
  shows "applyEvent ev d' = Inr (d', cs)"
  using assms by (rule applyEvent_absorbs)

theorem handlers_absorb_a_second_delivery_witness:
  "\<exists>d' cs. applyEvent (hd good_events) empty_derived = Inr (d', cs) \<and> members d' \<noteq> [] \<and>
     applyEvent (hd good_events) d' = Inr (d', cs)"
proof -
  have "(case applyEvent (hd good_events) empty_derived of Inr (d', cs) \<Rightarrow> members d' \<noteq> [] | Inl _ \<Rightarrow> False)"
    by code_simp
  then obtain d' cs where a: "applyEvent (hd good_events) empty_derived = Inr (d', cs)" "members d' \<noteq> []"
    by (auto split: sum.splits)
  have "ev_symbol (hd good_events) \<notin> set tally_symbols" by code_simp
  from handlers_absorb_a_second_delivery [OF a(1) this] a show ?thesis by blast
qed

text \<open>
  C11. Storing a decoded event in the log and reading it back gives an event the handlers treat
  alike, so folding from the log is folding from the wire.
\<close>

theorem log_round_trip:
  assumes "decodeEvent scv raw = Inr ev" and "stable_data ev"
  shows "\<exists>ev'. toDecodedEvent (ev_id ev) (raw_row ev) = Inr ev' \<and> ev_id ev' = ev_id ev \<and>
    (\<forall>d. applyEvent ev' d = applyEvent ev d)"
  using toDecodedEvent_raw_row [OF decodeEvent_ok_ids(3) [OF assms(1)] assms(2)] applyEvent_refold
  by auto

theorem log_round_trip_witness:
  "\<exists>ev'. toDecodedEvent ''e2'' (raw_row vote_event) = Inr ev' \<and> ev_id ev' = ''e2'' \<and>
    (\<forall>d. applyEvent ev' d = applyEvent vote_event d)"
proof -
  have "decodeEvent wire ev_vote = Inr vote_event" by code_simp
  moreover have "stable_data vote_event" by code_simp
  moreover have "ev_id vote_event = ''e2''" by code_simp
  ultimately show ?thesis using log_round_trip [of wire ev_vote vote_event] by simp
qed

section \<open>The poll loop\<close>

text \<open>
  C12. A poll stops with a discontinuity before it asks for any event, and with nothing written, exactly when
  the RPC's tip is below the last folded ledger beyond the grace window (or without a tip observed before),
  or when the hash the RPC reports for the last folded ledger differs from the recorded one. When neither is
  the case, a poll ends in a discontinuity only because a page has an event below the last
  folded ledger, that of the cursor or that of the last event of an earlier page. (The RPC client has answered
  with its tip, and raises no such error of its own.)
\<close>

theorem discontinuity_halts_the_poll:
  assumes "pe_tip pe = Inr tip" and "cur = loadCursor c (ix_db ix)"
    and "\<forall>e. pe_latestLedger pe = Inl e \<longrightarrow> \<not> is_reorg e" and "\<forall>n rq e. pe_getEvents pe n rq = Inl e \<longrightarrow> \<not> is_reorg e"
    and "detected \<longleftrightarrow>
      tip < prior_ledger cur \<and> (tip + GRACE_WINDOW < prior_ledger cur \<or> observed_tip cur \<in> {None, Some 0}) \<or>
      0 < prior_ledger cur \<and> prior_hash cur \<notin> {None, Some []} \<and>
      pe_priorHash pe (prior_ledger cur) \<notin> {None, prior_hash cur}"
  shows "((\<exists>e. is_reorg e \<and> (\<forall>answers. fetchOnce scv cfg (pe\<lparr>pe_getEvents := answers\<rparr>) c ix = (Inl e, ix))) \<longleftrightarrow> detected) \<and>
    (\<forall>e ix'. fetchOnce scv cfg pe c ix = (Inl e, ix') \<and> is_reorg e \<longrightarrow>
       (if detected then ix' = ix
        else \<exists>n rq page l. pe_getEvents pe n rq = Inr page \<and> l \<in> folded_up_to pe cur n \<and>
               (\<exists>raw \<in> set (pg_events page). re_ledger raw < l)))"
proof (intro conjI allI impI)
  have d: "detected = discontinuous pe cur tip" using assms(5) by (simp add: discontinuous_iff)
  show before: "(\<exists>e. is_reorg e \<and> (\<forall>answers. fetchOnce scv cfg (pe\<lparr>pe_getEvents := answers\<rparr>) c ix = (Inl e, ix))) \<longleftrightarrow> detected"
    using discontinuity_before_fetch [OF assms(1,2)] assms(3) d by blast
  fix e ix' assume e: "fetchOnce scv cfg pe c ix = (Inl e, ix') \<and> is_reorg e"
  have "ix' = ix" if detected
  proof -
    from that before obtain e1 where "fetchOnce scv cfg (pe\<lparr>pe_getEvents := pe_getEvents pe\<rparr>) c ix = (Inl e1, ix)" by blast
    with e show ?thesis by simp
  qed
  moreover have "page_below pe cur" if "\<not> detected"
    using continuous_poll_reorg [OF _ _ assms(1,2)] e that assms(3,4) d by blast
  ultimately show "if detected then ix' = ix
      else \<exists>n rq page l. pe_getEvents pe n rq = Inr page \<and> l \<in> folded_up_to pe cur n \<and> (\<exists>raw \<in> set (pg_events page). re_ledger raw < l)"
    by (simp add: page_below_def below_ledger_def)
qed

theorem discontinuity_halts_the_poll_witness:
  "\<exists>e. is_reorg e \<and> (\<forall>answers. fetchOnce wire cfg0 (pe0\<lparr>pe_getEvents := answers\<rparr>) ''CDAO'' ix2 = (Inl e, ix2))"
proof -
  have c: "Some cur1 = loadCursor ''CDAO'' (ix_db ix2)" by (simp add: ix2_def loadCursor_def tget_def)
  have "True \<longleftrightarrow> 10 < prior_ledger (Some cur1) \<and>
        (10 + GRACE_WINDOW < prior_ledger (Some cur1) \<or> observed_tip (Some cur1) \<in> {None, Some 0}) \<or>
      0 < prior_ledger (Some cur1) \<and> prior_hash (Some cur1) \<notin> {None, Some []} \<and>
      pe_priorHash pe0 (prior_ledger (Some cur1)) \<notin> {None, prior_hash (Some cur1)}"
    by (simp add: prior_ledger_def cur1_def GRACE_WINDOW_def)
  moreover have "\<forall>n rq e. pe_getEvents pe0 n rq = Inl e \<longrightarrow> \<not> is_reorg e" by (simp add: pe0_def)
  ultimately show ?thesis
    using discontinuity_halts_the_poll [of pe0 10 "Some cur1" "''CDAO''" ix2 True wire cfg0] c by (simp add: pe0_simps)
qed

text \<open>
  C13. The last folded ledger of a contract's cursor never decreases over a poll, however the poll
  ends, and a poll of one contract leaves the cursors of the others as they were.
\<close>

theorem cursor_only_moves_forward:
  assumes "fetchOnce scv cfg pe c ix = (r, ix')"
  shows "prior_ledger (loadCursor c (ix_db ix)) \<le> prior_ledger (loadCursor c (ix_db ix')) \<and>
    (\<forall>k. k \<noteq> c \<longrightarrow> loadCursor k (ix_db ix') = loadCursor k (ix_db ix))"
  using fetchOnce_monotone [OF assms] fetchOnce_other_contract [OF assms] by blast

theorem cursor_only_moves_forward_witness:
  "prior_ledger (loadCursor ''CDAO'' (ix_db ix0)) \<le> prior_ledger (loadCursor ''CDAO'' (ix_db ix1)) \<and>
   prior_ledger (loadCursor ''CDAO'' (ix_db ix1)) = 6"
  using cursor_only_moves_forward [OF fetch0] ix1_cursor by (simp flip: ix1_is)

text \<open>
  C14. A poll that meets a discontinuity leaves a record, when the insert of the record succeeds (its
  failure is logged and swallowed, and then nothing keeps the next start from running). From a database with an
  uncleared record the indexer refuses to start. Acknowledging it clears the record, and so does a rebuild that
  completes; one that fails changes nothing.
\<close>

theorem discontinuity_blocks_restart:
  assumes "poll_contract scv cfg pe None now after c sc ix = (Inl e, ix')"
  shows "is_reorg e \<and>
    (\<exists>m. startIndexer isoTime cfg False lockFree configured (ix_db ix') = Inl (ReorgHaltedError m)) \<and>
    loadUnclearedReorgHalt (snd (clearRecordedReorg isoTime af t admin ip (ix_db ix'))) = None \<and>
    (case reindexFromEventLog en n (ix_db ix') of
       (Inr r, db') \<Rightarrow> loadUnclearedReorgHalt db' = None
     | (Inl e', db') \<Rightarrow> db' = ix_db ix')"
proof -
  have "loadUnclearedReorgHalt (snd (clearRecordedReorg isoTime af t admin ip (ix_db ix'))) = None"
    using clearRecordedReorg_result(1) [of isoTime af t admin ip "ix_db ix'"] by (metis prod.collapse)
  moreover have "case reindexFromEventLog en n (ix_db ix') of (Inr r, db') \<Rightarrow> loadUnclearedReorgHalt db' = None
      | (Inl e', db') \<Rightarrow> db' = ix_db ix'"
    using reindex_clears_halts reindex_fails_clean by (fastforce split: prod.splits sum.splits)
  ultimately show ?thesis using poll_contract_reorg [OF assms] startIndexer_halted by blast
qed

theorem discontinuity_blocks_restart_witness:
  "\<exists>m. startIndexer (\<lambda>_. ''t'') cfg0 False True (Inr [''CDAO''])
     (ix_db (snd (poll_contract wire cfg0 pe0 None 0 1 ''CDAO'' (initial_schedule [''CDAO'']) ix2))) =
   Inl (ReorgHaltedError m)"
proof -
  let ?p = "poll_contract wire cfg0 pe0 None 0 1 ''CDAO'' (initial_schedule [''CDAO'']) ix2"
  obtain e where f: "fetchOnce wire cfg0 pe0 ''CDAO'' ix2 = (Inl e, ix2)" "is_reorg e"
    using fetchOnce_discontinuity [of pe0 10 "Some cur1" "''CDAO''" ix2 wire cfg0]
    by (auto simp: pe0_simps ix2_def loadCursor_def tget_def rewind_check_iff prior_ledger_def cur1_def GRACE_WINDOW_def)
  have "(case tget (sc_nextPollAt (initial_schedule [''CDAO''])) ''CDAO'' of Some t \<Rightarrow> t | None \<Rightarrow> 0) = 0"
    by code_simp
  with f have "?p = (Inl e, snd ?p)" by (simp add: poll_contract_def Let_def)
  from discontinuity_blocks_restart [OF this] show ?thesis by blast
qed

text \<open>
  C15. A drain terminates after at most \<open>DRAIN_MAX_PAGES\<close> pages (one page when that is zero).
\<close>

theorem drain_is_bounded:
  assumes "drain_loop scv cfg pe c tok dr ix = (Inr dr', ix')" and "dr_totalPages dr = 0"
  shows "dr_totalPages dr' \<le> max 1 (ic_maxDrainPages cfg)"
  using drain_loop_pages [OF assms(1)] assms(2) by simp

theorem drain_is_bounded_witness:
  "\<exists>dr' ix'. drain_loop wire cfg0 pe0 ''CDAO'' None dr0 ix0 = (Inr dr', ix') \<and> dr_totalPages dr' \<le> 5"
proof -
  obtain dr' ix' where d: "drain_loop wire cfg0 pe0 ''CDAO'' None dr0 ix0 = (Inr dr', ix')"
    using drain0 by blast
  from drain_is_bounded [OF d] d show ?thesis by (auto simp: dr0_def cfg0_def)
qed

text \<open>
  C16. However the loop of \<open>runIndexer\<close> runs among the signal, the clock and other processes, two polls of a
  contract are a full delay apart, the poll interval after a success and the backoff after a failure, and,
  when both intervals of the configuration are positive, a tick that has gone through its contracts has left
  none of them due.
\<close>

theorem polls_keep_their_pace:
  assumes "starts_loop contractIds L0" and "(loop_step scv cfg contractIds)\<^sup>*\<^sup>* L0 L" and "c \<in> set contractIds"
  shows "let ps = polls_of c (lo_polls L); due = (\<lambda>p. pl_end p + int (delay_after cfg (pl_failures p))) in
    (\<forall>i j. i < j \<and> j < length ps \<longrightarrow> due (ps ! i) \<le> pl_start (ps ! j)) \<and>
    (\<forall>now. waits cfg \<and> lo_phase L = In_tick now [] \<longrightarrow> ps \<noteq> [] \<and> now < due (last ps))"
  using polls_keep_their_distance [OF assms(1,2)] tick_polls_what_is_due [OF assms(1,2) _ _ assms(3)]
  by (simp add: Let_def)

theorem polls_keep_their_pace_witness:
  "lo_phase loop2 = In_tick 5001 [] \<and> polls_of ''CDAO'' (lo_polls loop2) = lo_polls loop2 \<and>
   map pl_failures (lo_polls loop2) = [0, 1] \<and> (5001::int) < 5002 + int (delay_after cfg0 1)"
proof -
  have p: "polls_of ''CDAO'' (lo_polls loop2) = lo_polls loop2" "lo_phase loop2 = In_tick 5001 []"
    "map pl_failures (lo_polls loop2) = [0, 1]"
    by (simp_all add: loop2_def polls_of_def)
  have "waits cfg0" by (simp add: waits_def cfg0_intervals)
  with polls_keep_their_pace [OF starts_loop0 reach_loop2, of "''CDAO''"] p
  have "5001 < pl_end (last (lo_polls loop2)) + int (delay_after cfg0 (pl_failures (last (lo_polls loop2))))"
    by (simp add: Let_def)
  then show ?thesis using p by (simp add: loop2_def)
qed



text \<open>
  C18. The indexer starts only on cursors of configured contracts: after a successful start every
  cursor row belongs to a configured contract, the raw log is untouched, and the database is
  either as it was or reset to empty derived tables without cursors.
\<close>

theorem start_never_mixes_deployments:
  assumes "startIndexer isoTime cfg running lockFree configured db = Inr (cs, db')"
  shows "set (tkeys (db_cursors db')) \<subseteq> set cs \<and> db_events db' = db_events db \<and>
    (db' = db \<or> db_derived db' = empty_derived \<and> db_cursors db' = [])"
  using startIndexer_keeps_log [OF assms] by blast

theorem start_never_mixes_deployments_witness:
  "\<exists>db'. startIndexer (\<lambda>_. ''t'') (cfg0\<lparr>ic_resetOnContractChange := True\<rparr>) False True (Inr [''CNEW'']) (ix_db ix2) =
     Inr ([''CNEW''], db') \<and> db_cursors db' = []"
proof -
  have "startIndexer (\<lambda>_. ''t'') (cfg0\<lparr>ic_resetOnContractChange := True\<rparr>) False True (Inr [''CNEW'']) (ix_db ix2) =
     Inr ([''CNEW''], (ix_db ix2)\<lparr>db_derived := empty_derived, db_cursors := []\<rparr>)"
    by (simp add: startIndexer_def ix2_def ix0_def empty_db_def loadUnclearedReorgHalt_def
        ensureCursorContract_def tkeys_def resetForContractChange_def)
  with start_never_mixes_deployments [OF this] show ?thesis by auto
qed

section \<open>Authentication\<close>

text \<open>
  C19. A nonce is used at most as often as it was issued, whichever operations run in whichever order:
  with fresh nonces a signed challenge cannot be replayed, in either nonce store.
\<close>

theorem nonce_is_used_at_most_once:
  assumes "memory_inv s" and "tuniq t"
  shows "count_list (fst (nonce_run (memory_issue cfg) memory_consume memory_sweep ops s)) (Used n) \<le>
      count_list (fst (nonce_run (memory_issue cfg) memory_consume memory_sweep ops s)) (Issued n) +
      (if memory_owner s n = None then 0 else 1) \<and>
    count_list (fst (nonce_run (postgres_issue cfg) postgres_consume postgres_cleanup ops t)) (Used n) \<le>
      count_list (fst (nonce_run (postgres_issue cfg) postgres_consume postgres_cleanup ops t)) (Issued n) +
      (if entry_owner t n = None then 0 else 1)"
  using mem.used_at_most_issued [OF assms(1)] pg.used_at_most_issued [OF assms(2)] by blast

theorem nonce_is_used_at_most_once_witness:
  "fst (nonce_run (memory_issue nonce_cfg) memory_consume memory_sweep replay_ops empty_memory) =
     [Issued nonce1, Used nonce1, Quiet, Quiet] \<and>
   count_list (fst (nonce_run (memory_issue nonce_cfg) memory_consume memory_sweep replay_ops empty_memory)) (Used nonce1) \<le> 1"
proof -
  have r: "fst (nonce_run (memory_issue nonce_cfg) memory_consume memory_sweep replay_ops empty_memory) =
     [Issued nonce1, Used nonce1, Quiet, Quiet]" by code_simp
  have "tuniq []" by simp
  from nonce_is_used_at_most_once [OF memory_inv_empty(1) this, of nonce_cfg replay_ops nonce1]
  show ?thesis by (simp add: r memory_inv_empty(2))
qed

text \<open>
  C20. Nobody but the address a nonce was issued to can use it up: whatever others issue, present or
  sweep before the nonce expires, its owner's request is still accepted, in either store.
\<close>

theorem challenge_cannot_be_used_up_by_others:
  assumes "memory_inv s" and "memory_owner s n = Some (a, x)" and "now \<le> x"
    and "tuniq t" and "entry_owner t n = Some (a, y)" and "now < y"
    and "\<forall>z \<in> set ops. op_time_le now z \<and> (\<forall>u. z \<noteq> Consume u a n)"
    and "Issued n \<notin> set (fst (nonce_run (memory_issue cfg) memory_consume memory_sweep ops s))"
    and "Issued n \<notin> set (fst (nonce_run (postgres_issue cfg) postgres_consume postgres_cleanup ops t))"
  shows "fst (memory_consume now a n (snd (nonce_run (memory_issue cfg) memory_consume memory_sweep ops s))) \<and>
    fst (postgres_consume now a n (snd (nonce_run (postgres_issue cfg) postgres_consume postgres_cleanup ops t)))"
  using mem.owner_keeps_nonce [OF assms(1-3,7,8)] pg.owner_keeps_nonce [OF assms(4-7,9)] by blast

theorem challenge_cannot_be_used_up_by_others_witness:
  "fst (memory_consume 1250 ''GALICE'' nonce1
     (snd (nonce_run (memory_issue nonce_cfg) memory_consume memory_sweep attack_ops store1)))"
proof -
  have i: "Issued nonce1 \<notin> set (fst (nonce_run (memory_issue nonce_cfg) memory_consume memory_sweep attack_ops store1))"
    "Issued nonce1 \<notin> set (fst (nonce_run (postgres_issue nonce_cfg) postgres_consume postgres_cleanup attack_ops table1))"
    by code_simp+
  have o: "\<forall>z \<in> set attack_ops. op_time_le 1250 z \<and> (\<forall>u. z \<noteq> Consume u ''GALICE'' nonce1)"
    by (simp add: attack_ops_def op_time_le_def)
  have "tuniq table1" by code_simp
  from challenge_cannot_be_used_up_by_others [OF memory_inv_store1 store1_owner _ this table1_owner _ o i]
  show ?thesis by simp
qed

text \<open>
  C21. An authenticated request proves control of the address: the header carried a 64-byte signature
  that verifies, under the address's own key (for a muxed address, its base account's), the
  text \<open>nonce:address\<close> for a nonce issued to that address and not expired; the nonce is
  gone afterwards, and the requested target, if any, is that address. A request turned away before
  its nonce is looked up leaves the store as it was.
\<close>

theorem authenticated_request_proves_control:
  "(authenticateRequest sdk (memory_consume now) headers target s = (Authenticated a key, s') \<longrightarrow>
    (\<exists>sg n x. extractAuthHeaders headers = Some (a, sg, n) \<and>
      sdk_verify sdk key (n @ '':'' @ a) (base64_bytes sg) = Inr True \<and> length (base64_bytes sg) = 64 \<and>
      (sdk_isValidEd25519PublicKey sdk a \<and> key = a \<or> sdk_muxedBase sdk a = Inr key) \<and>
      memory_owner (au_store s) n = Some (a, x) \<and> now \<le> x \<and> memory_owner (au_store s') n = None \<and>
      target \<in> {None, Some [], Some a})) \<and>
   (authenticateRequest sdk (postgres_consume now) headers target t = (Authenticated a key, t') \<longrightarrow>
    (\<exists>sg n x. extractAuthHeaders headers = Some (a, sg, n) \<and>
      sdk_verify sdk key (n @ '':'' @ a) (base64_bytes sg) = Inr True \<and> length (base64_bytes sg) = 64 \<and>
      (sdk_isValidEd25519PublicKey sdk a \<and> key = a \<or> sdk_muxedBase sdk a = Inr key) \<and>
      entry_owner (au_store t) n = Some (a, x) \<and> now < x \<and> entry_owner (au_store t') n = None \<and>
      target \<in> {None, Some [], Some a})) \<and>
   ((case extractAuthHeaders headers of None \<Rightarrow> True
      | Some (b, sg, n) \<Rightarrow> \<forall>k st. fst (verifySignature sdk b n sg st) \<noteq> SigOk k) \<longrightarrow>
    au_store (snd (authenticateRequest sdk consume headers target u)) = au_store u)"
  using mem.authenticated_owner [of sdk now headers target s a key s']
    pg.authenticated_owner [of sdk now headers target t a key t']
    unverified_keeps_store [of sdk consume headers target u, OF prod.collapse [symmetric]]
  unfolding ED25519_SIGNATURE_BYTES_def by blast

theorem authenticated_request_proves_control_witness:
  "fst (authenticateRequest sdk0 (postgres_consume 1200) headers0 (Some ''GALICE'') (auth0 table1)) =
     Authenticated ''GALICE'' ''GALICE'' \<and>
   (\<exists>sg n x. extractAuthHeaders headers0 = Some (''GALICE'', sg, n) \<and>
      entry_owner table1 n = Some (''GALICE'', x) \<and> 1200 < x)"
proof -
  let ?r = "authenticateRequest sdk0 (postgres_consume 1200) headers0 (Some ''GALICE'') (auth0 table1)"
  have f: "fst ?r = Authenticated ''GALICE'' ''GALICE''" by code_simp
  then have "?r = (Authenticated ''GALICE'' ''GALICE'', snd ?r)" by (simp add: prod_eq_iff)
  with authenticated_request_proves_control [of sdk0 1200 headers0 "Some ''GALICE''" "auth0 empty_memory" "''GALICE''"
      "''GALICE''" "auth0 empty_memory" "auth0 table1" "snd ?r"]
  have "\<exists>sg n x. extractAuthHeaders headers0 = Some (''GALICE'', sg, n) \<and>
      entry_owner (au_store (auth0 table1)) n = Some (''GALICE'', x) \<and> 1200 < x" by blast
  with f show ?thesis by (simp add: auth0_def)
qed

section \<open>The event stream\<close>

text \<open>
  C22. Frames reach the socket in the order they were sent: as long as the client stays connected, its
  socket takes what is written and no heartbeat retry fires, what was written followed by what
  is queued is what had been written and queued at the start followed by the frames sent since.
\<close>

theorem frames_arrive_in_order:
  assumes "takes_all sock" and "list_all orderly es"
    and "c = start sock' now chs lastEventId known (new_client ip)"
    and "\<not> sc_closed (client_run sock es c)"
  shows "sc_out (client_run sock es c) @ sc_queue (client_run sock es c) = sc_out c @ sc_queue c @ submitted sock es c"
  using client_run_order [OF assms(1) _ _ assms(2,4)] assms(3) client_ok_start lined_up_start by blast

theorem frames_arrive_in_order_witness:
  "length (sc_out (client_run slow_reader slow_events client0)) = 4 \<and>
   sc_out (client_run slow_reader slow_events client0) =
     sc_out client0 @ submitted slow_reader slow_events client0"
proof -
  have "\<not> sc_closed (client_run slow_reader slow_events client0)" by code_simp
  moreover have "sc_queue client0 = []" "sc_queue (client_run slow_reader slow_events client0) = []"
    "length (sc_out (client_run slow_reader slow_events client0)) = 4" by code_simp+
  moreover have "list_all orderly slow_events" by code_simp
  ultimately show ?thesis
    using frames_arrive_in_order [OF takes_all_examples(2), of slow_events client0 all_well 1 "Some [Own ''loans_changed'']" None "Some (NInt 5)" "''10.0.0.1''"]
    by (simp add: client0_def)
qed

text \<open>
  C23. A slow client costs bounded memory and is dropped in the end: its queue never exceeds 200
  frames, while it is paused its disconnect timer is armed, its heartbeat retries stay between
  one and sixteen seconds, and once closed it keeps no frame and no timer.
\<close>

theorem slow_clients_are_bounded:
  assumes "c = client_run sock es (start sock' now chs lastEventId known (new_client ip))"
  shows "length (sc_queue c) \<le> 200 \<and> sc_retryDelay c \<in> {1000..16000} \<and>
    (sc_paused c \<and> \<not> sc_released c \<longrightarrow> sc_stallTimer c) \<and>
    (sc_released c \<longrightarrow> sc_closed c \<and> sc_queue c = [] \<and> \<not> sc_stallTimer c \<and> \<not> sc_retryTimer c \<and> \<not> sc_heartbeatTimer c)"
  using client_ok_run [of "start sock' now chs lastEventId known (new_client ip)" sock es] client_ok_start assms
  by (auto simp: client_ok_def MAX_QUEUED_MESSAGES_def HEARTBEAT_RETRY_INITIAL_MS_def HEARTBEAT_RETRY_MAX_MS_def)

theorem slow_clients_are_bounded_witness:
  "sc_paused (client_run slow_reader (take 2 slow_events) client0) \<and>
   sc_stallTimer (client_run slow_reader (take 2 slow_events) client0)"
proof -
  have "sc_paused (client_run slow_reader (take 2 slow_events) client0)"
    "\<not> sc_released (client_run slow_reader (take 2 slow_events) client0)" by code_simp+
  with slow_clients_are_bounded [of "client_run slow_reader (take 2 slow_events) client0", unfolded client0_def, OF refl]
  show ?thesis by (simp add: client0_def)
qed

text \<open>
  C24. A change the indexer announces with a payload of at most 8000 bytes reaches every connected
  client the way its state demands: unsubscribed or closed clients are left alone, an open
  one is written the frame, a paused one has it queued, and one whose queue is full is dropped.
\<close>

theorem notification_reaches_its_subscribers:
  assumes "json_plain payload" and "payload \<noteq> JNull" and "number_at ''reorg_ledger'' payload = None"
    and "length (JSON_stringify payload) \<le> 8000" and "tuniq (sp_clients p)"
    and "tget (sp_clients p) i = Some c" and "client_ok c" and "\<not> sc_released c" and "takes_all (sock i)"
  shows "\<exists>raw p'. nt_sent (notifyStreamClientsAfterCommit None ch (Some payload) s) = nt_sent s @ [(ch, raw)] \<and>
    dispatchStreamNotification sock now ch raw p = Inr p' \<and>
    (if sc_closed c \<or> Own ch \<notin> set (sc_channels c) then tget (sp_clients p') i = Some c
     else if \<not> sc_paused c then \<exists>c'. tget (sp_clients p') i = Some c' \<and>
       sc_out c' = sc_out c @ [message_frame (notification ch payload (now i)) c]
     else if length (sc_queue c) < 200 then \<exists>c'. tget (sp_clients p') i = Some c' \<and>
       sc_queue c' = sc_queue c @ [message_frame (notification ch payload (now i)) c]
     else tget (sp_clients p') i = None)"
proof -
  let ?raw = "JSON_stringify payload"
  let ?p = "p\<lparr>sp_knownLedger := raise_known (number_at ''ledger'' payload) (sp_knownLedger p)\<rparr>"
  have "nt_sent (notifyStreamClientsAfterCommit None ch (Some payload) s) = nt_sent s @ [(ch, ?raw)]"
    using assms(4) by (simp add: notifyStreamClientsAfterCommit_def payload_json_def PG_NOTIFY_MAX_PAYLOAD_BYTES_def)
  moreover have "dispatchStreamNotification sock now ch ?raw p = Inr (fan_out sock now ch payload ?p)"
    using assms(2,3) by (simp add: dispatch_stringified [OF assms(1)] dispatch_payload_def Let_def)
  moreover have "tget (sp_clients (fan_out sock now ch payload ?p)) i =
      (let c' = receiveNotification (sock i) (now i) ch payload c in if sc_released c' then None else Some c')"
    using fan_out_clients [of ?p sock now ch payload i] assms(5,6) by simp
  ultimately show ?thesis
    using receiveNotification_cases [OF assms(7,8), of ch "sock i" "now i" payload] assms(8,9)
    by (auto simp: MAX_QUEUED_MESSAGES_def Let_def)
qed

theorem notification_reaches_its_subscribers_witness:
  "\<exists>raw p' c'. nt_sent (notifyStreamClientsAfterCommit None ''loans_changed'' (Some (vote_at 6)) \<lparr>nt_failures = 0, nt_sent = []\<rparr>) =
       [(''loans_changed'', raw)] \<and>
     dispatchStreamNotification (\<lambda>_. all_well) (\<lambda>_. 9) ''loans_changed'' raw proc0 = Inr p' \<and>
     tget (sp_clients p') 0 = Some c' \<and>
     sc_out c' = sc_out client0 @ [message_frame (notification ''loans_changed'' (vote_at 6) 9) client0]"
proof -
  have v: "json_plain (vote_at 6)" "vote_at 6 \<noteq> JNull" "number_at ''reorg_ledger'' (vote_at 6) = None"
    "length (JSON_stringify (vote_at 6)) \<le> 8000" by code_simp+
  have c: "tuniq (sp_clients proc0)" "tget (sp_clients proc0) 0 = Some client0"
    by (simp_all add: proc0_def tuniq_def tget_def)
  have o: "\<not> sc_closed client0" "Own ''loans_changed'' \<in> set (sc_channels client0)" "\<not> sc_paused client0" by code_simp+
  from notification_reaches_its_subscribers [OF v c client_ok_client0, of "\<lambda>_. all_well" "''loans_changed''"
      "\<lparr>nt_failures = 0, nt_sent = []\<rparr>" "\<lambda>_. 9"] takes_all_examples(1) o
  show ?thesis by auto
qed

text \<open>
  C25. A lost listener connection is always being replaced: until the process stops, a closed client is
  being ended, a connection attempt is running or a reconnect timer is armed with at most the
  maximal delay (when only the connection in use reports errors and the attempts made for
  requests succeed).
\<close>

theorem lost_connection_is_replaced:
  assumes "(sound_step rc)\<^sup>*\<^sup>* new_listener l" and "0 < ls_opened l" and "ls_client l = None" and "\<not> ls_stopped l"
  shows "(ls_connecting l \<or> ls_ending l \<or> (\<exists>d. ls_reconnectTimer l = Some d)) \<and>
    (\<forall>d. ls_reconnectTimer l = Some d \<longrightarrow> d \<le> rc_maxMs rc)"
  using sound_run_inv [OF assms(1)] assms(2-) by (auto simp: listener_inv_def being_replaced_def delay_ok_def)


theorem lost_connection_is_replaced_witness:
  "ls_ending (connection_error (connect_done (ensureStarted new_listener))) \<or>
   ls_connecting (connection_error (connect_done (ensureStarted new_listener))) \<or>
   ls_reconnectTimer (connection_error (connect_done (ensureStarted new_listener))) \<noteq> None"
proof -
  let ?l = "connect_done (ensureStarted new_listener)"
  let ?rc = "\<lparr>rc_initialMs = 1000, rc_maxMs = 30000\<rparr>"
  have "sound_step ?rc new_listener (ensureStarted new_listener)" by (rule sound_step.s_request)
  moreover have "sound_step ?rc (ensureStarted new_listener) ?l"
    by (rule sound_step.s_connected) (simp add: listener_defs new_listener_def)
  moreover have "sound_step ?rc ?l (connection_error ?l)"
    by (rule sound_step.s_error [of _ 0]) (simp add: listener_defs new_listener_def)
  ultimately have "(sound_step ?rc)\<^sup>*\<^sup>* new_listener (connection_error ?l)"
    by (meson converse_rtranclp_into_rtranclp rtranclp.rtrancl_refl)
  from lost_connection_is_replaced [OF this] show ?thesis by (auto simp: listener_defs new_listener_def)
qed

section \<open>The read API\<close>

text \<open>
  C26. Following the cursor of the loan list or of the notification list, page by page, shows every row
  that matches the filters exactly once, newest first. The filter \<open>unread\<close> of the notifications is the wrong
  way round: the handler compares the column \<open>read\<close> with it, so \<open>unread=true\<close> lists the rows that have been
  read and \<open>unread=false\<close> those that have not.
\<close>

theorem feeds_by_id_list_every_row_once:
  assumes "map_of q ''before'' = None" and "tuniq (loans d)" and "\<forall>i \<in> set (tkeys (loans d)). 0 < i \<and> i < int4_max"
    and "int (length (notifications d)) < 2 ^ 53" and "length (loans d) \<le> n" and "length (notifications d) \<le> n"
  shows "(sent (get_loans sdk q d) \<noteq> None \<longrightarrow>
      follow (loan_client sdk q d) fst n None = rev (sort_key fst (filter (loan_filter q) (loans d)))) \<and>
    (sent (get_notifications sdk q d) \<noteq> None \<longrightarrow>
      follow (notification_client sdk q d) fst n None =
        rev (sort_key fst (filter (notification_filter q) (with_ids (notifications d)))) \<and>
      (param q ''unread'' = JStr ''true'' \<longrightarrow>
        follow (notification_client sdk q d) fst n None =
          rev (sort_key fst (filter (\<lambda>(_, r). JStr (nt_address r) = param q ''address'' \<and> nt_read r) (with_ids (notifications d))))) \<and>
      (param q ''unread'' = JStr ''false'' \<longrightarrow>
        follow (notification_client sdk q d) fst n None =
          rev (sort_key fst (filter (\<lambda>(_, r). JStr (nt_address r) = param q ''address'' \<and> \<not> nt_read r) (with_ids (notifications d))))))"
proof -
  have len: "length (filter (loan_filter q) (loans d)) \<le> n" using assms(5) length_filter_le le_trans by blast
  have "notification_filter q = (\<lambda>(_, r). JStr (nt_address r) = param q ''address'' \<and> nt_read r)" if "param q ''unread'' = JStr ''true''"
    using that by (auto simp: notification_filter_def is_absent_def fun_eq_iff)
  moreover have "notification_filter q = (\<lambda>(_, r). JStr (nt_address r) = param q ''address'' \<and> \<not> nt_read r)" if "param q ''unread'' = JStr ''false''"
    using that by (auto simp: notification_filter_def is_absent_def fun_eq_iff)
  ultimately show ?thesis
    using len assms loans_listed_once [of sdk q d n] notifications_listed_once [of sdk q d n] by simp
qed

theorem feeds_by_id_list_every_row_once_witness:
  "map fst (follow (loan_client sdk0 one_per_page tables0) fst 3 None) = [3, 2, 1] \<and>
   map fst (follow (notification_client sdk0 one_per_page tables0) fst 3 None) = [3, 1] \<and>
   map (nt_read \<circ> snd) (follow (notification_client sdk0 ((''unread'', JStr ''true'') # one_per_page) tables0) fst 3 None) = [True]"
proof -
  let ?u = "(''unread'', JStr ''true'') # one_per_page"
  have h: "map_of one_per_page ''before'' = None" "map_of ?u ''before'' = None" "tuniq (loans tables0)"
    "\<forall>i \<in> set (tkeys (loans tables0)). 0 < i \<and> i < int4_max"
    "int (length (notifications tables0)) < 2 ^ 53" "length (loans tables0) \<le> 3" "length (notifications tables0) \<le> 3"
    by (simp_all add: one_per_page_def tables0_def tuniq_def tkeys_def int4_max_def)
  have r: "map fst (rev (sort_key fst (filter (loan_filter one_per_page) (loans tables0)))) = [3, 2, 1]"
    "map fst (rev (sort_key fst (filter (notification_filter one_per_page) (with_ids (notifications tables0))))) = [3, 1]"
    "map (nt_read \<circ> snd) (rev (sort_key fst (filter (notification_filter ?u) (with_ids (notifications tables0))))) = [True]"
    "sent (get_notifications sdk0 ?u tables0) \<noteq> None"
    by code_simp+
  from feeds_by_id_list_every_row_once [OF h(1,3-7), of sdk0] feeds_by_id_list_every_row_once [OF h(2-7), of sdk0] sent_tables0 r
  show ?thesis by (simp del: map_map)
qed

text \<open>
  C27. Marking notifications as read takes the signature of their owner: whatever the two endpoints
  change is the read flag of rows of the address under whose key the request's signature
  verifies, with a nonce that was live and is used up.
\<close>

theorem read_flags_change_only_for_their_owner:
  assumes "db' \<noteq> db"
    and "(\<exists>ans. patch_notification_read sdk (postgres_consume now) hs raw s db = (ans, s', db')) \<or>
         (\<exists>ans. patch_read_all sdk (postgres_consume now) hs q s db = (ans, s', db'))"
  shows "\<exists>owner P. proves sdk now hs owner (au_store s) (au_store s') \<and> db' = set_read P db \<and>
    (\<forall>k < length (notifications (db_derived db)).
       notifications (db_derived db') ! k \<noteq> notifications (db_derived db) ! k \<longrightarrow>
       nt_address (notifications (db_derived db) ! k) = owner)"
  using assms(2)
proof (elim disjE exE)
  fix ans assume "patch_notification_read sdk (postgres_consume now) hs raw s db = (ans, s', db')"
  from with_auth_proves [OF this [unfolded patch_notification_read_def] assms(1)] obtain key where
    p: "proves sdk now hs key (au_store s) (au_store s')" and r: "read_one raw key db = (ans, db')" by blast
  from read_one_changes [OF r assms(1)] obtain i n where
    i: "map_of (with_ids (notifications (db_derived db))) i = Some n" "nt_address n = key" "db' = set_read (\<lambda>(j, _). j = i) db"
    by blast
  have "nt_address (notifications (db_derived db) ! k) = key"
    if "k < length (notifications (db_derived db))" "notifications (db_derived db') ! k \<noteq> notifications (db_derived db) ! k" for k
    using that i set_read_nth [of k db] by (auto simp: map_of_with_ids Let_def split: if_splits)
  with p i(3) show ?thesis by blast
next
  fix ans assume r: "patch_read_all sdk (postgres_consume now) hs q s db = (ans, s', db')"
  then obtain a where a: "validAddress sdk a" "with_auth sdk (postgres_consume now) True hs (Some a) s db (\<lambda>_ _. read_all a) = (ans, s', db')"
    "a \<noteq> []"
    using assms(1) by (auto simp: patch_read_all_def split: jsval.splits if_splits)
  from with_auth_proves [OF a(2) assms(1)] a(1,3) have p: "proves sdk now hs a (au_store s) (au_store s')"
    and d: "db' = set_read (\<lambda>(_, n). nt_address n = a \<and> \<not> nt_read n) db"
    by (auto simp: validAddress_def read_all_def)
  have "nt_address (notifications (db_derived db) ! k) = a"
    if "k < length (notifications (db_derived db))" "notifications (db_derived db') ! k \<noteq> notifications (db_derived db) ! k" for k
    using that set_read_nth [of k db] unfolding d by (auto simp: Let_def split: if_splits)
  with p d show ?thesis by blast
qed

theorem read_flags_change_only_for_their_owner_witness:
  "\<exists>t' db'. db' \<noteq> db0 \<and> proves sdk0 1200 headers0 ''GALICE'' table1 t' \<and>
     nt_read (notifications (db_derived db') ! 0)"
proof -
  let ?r = "patch_notification_read sdk0 (postgres_consume 1200) headers0 ''1'' (auth0 table1) db0"
  have n: "map nt_read (notifications (db_derived (snd (snd ?r)))) = [True, False, True]" by code_simp
  have z: "\<not> nt_read (notifications (db_derived db0) ! 0)" "nt_address (notifications (db_derived db0) ! 0) = ''GALICE''"
    "0 < length (notifications (db_derived db0))" by code_simp+
  have f: "nt_read (notifications (db_derived (snd (snd ?r))) ! 0)"
    using n by (cases "notifications (db_derived (snd (snd ?r)))") simp_all
  then have ne: "notifications (db_derived (snd (snd ?r))) ! 0 \<noteq> notifications (db_derived db0) ! 0" using z(1) by metis
  then have d: "snd (snd ?r) \<noteq> db0" by metis
  have "?r = (fst ?r, fst (snd ?r), snd (snd ?r))" by simp
  with read_flags_change_only_for_their_owner [OF d, of sdk0 1200 headers0 "''1''" "auth0 table1" "fst (snd ?r)" "[]"] obtain owner P where
    o: "proves sdk0 1200 headers0 owner (au_store (auth0 table1)) (au_store (fst (snd ?r)))"
      "\<forall>k < length (notifications (db_derived db0)).
       notifications (db_derived (snd (snd ?r))) ! k \<noteq> notifications (db_derived db0) ! k \<longrightarrow>
       nt_address (notifications (db_derived db0) ! k) = owner" by metis
  then have "owner = ''GALICE''" using ne z by metis
  moreover have "au_store (auth0 table1) = table1" by (simp add: auth0_def)
  ultimately have "proves sdk0 1200 headers0 ''GALICE'' table1 (au_store (fst (snd ?r)))" using o(1) by simp
  with d f show ?thesis by blast
qed

text \<open>
  C28. The error handler keeps the driver's text to itself: a response of it to an error with a code of
  Postgres or of the connection, or with a status from 500 on, does not depend on the message of the error, and has
  an error status; an error of schema validation is the exception, its message is the response's. This is
  about errors that reach the error handler. \<open>GET /health/dependencies\<close> catches the error of its query itself and sends
  the message as it is.
\<close>

theorem error_text_does_not_leak:
  assumes "error_handler e reqId = Some (status, body)"
  shows "(\<not> th_validation e \<and>
      (500 \<le> status \<or> (\<exists>code. th_code e = Some code \<and> (is_sqlstate code \<or> code \<in> set PG_CONNECTION_CODES))) \<longrightarrow>
      error_handler (e\<lparr>th_message := m\<rparr>) reqId = Some (status, body) \<and> 400 \<le> status \<and> status < 600) \<and>
    (th_validation e \<longrightarrow> body = envelope (th_message e) VALIDATION_FAILED reqId) \<and>
    (t < ms \<longrightarrow> dp_error (fst (get_health_dependencies ms (Some (t, Inl err)))) = Some (error_message err))"
proof (intro conjI impI)
  obtain c where c: "classifyError e = Some c" "status = cl_status c" "body = envelope (cl_error c) (cl_code c) reqId"
    using assms by (auto simp: error_handler_def)
  assume a: "\<not> th_validation e \<and>
      (500 \<le> status \<or> (\<exists>code. th_code e = Some code \<and> (is_sqlstate code \<or> code \<in> set PG_CONNECTION_CODES)))"
  have "classifyError (e\<lparr>th_message := m\<rparr>) = Some c"
  proof (cases "\<exists>code. th_code e = Some code \<and> code \<in> set PG_CONNECTION_CODES")
    case True
    then show ?thesis using c(1) a by (auto simp: classifyError_def PG_CONNECTION_CODES_def)
  next
    case False
    then show ?thesis using classifyError_message [OF c(1), of m] a c(2) by auto
  qed
  then show "error_handler (e\<lparr>th_message := m\<rparr>) reqId = Some (status, body)" using c by (simp add: error_handler_def)
  show "400 \<le> status" "status < 600" using classifyError_code [OF c(1)] a c(2) by auto
next
  assume "th_validation e"
  then show "body = envelope (th_message e) VALIDATION_FAILED reqId"
    using assms by (auto simp: error_handler_def classifyError_def)
next
  assume "t < ms"
  then show "dp_error (fst (get_health_dependencies ms (Some (t, Inl err)))) = Some (error_message err)"
    by (simp add: get_health_dependencies_def race_def report_dependency_def)
qed

theorem error_text_does_not_leak_witness:
  "error_handler (thrown_of (PgError ''22003'' ''value out of range'')\<lparr>th_message := ''other''\<rparr>) ''r'' =
     Some (500, envelope ''internal server error'' INTERNAL_ERROR ''r'') \<and>
   dp_error (fst (get_health_dependencies 3000 (Some (1, Inl (PgError ''28P01'' ''password authentication failed''))))) =
     Some ''password authentication failed''"
proof -
  have "error_handler (thrown_of (PgError ''22003'' ''value out of range'')) ''r'' =
      Some (500, envelope ''internal server error'' INTERNAL_ERROR ''r'')" by code_simp
  from error_text_does_not_leak [OF this, of "''other''" 1 3000 "PgError ''28P01'' ''password authentication failed''"]
  show ?thesis by (simp add: thrown_of_def)
qed

text \<open>
  C29. Whatever a handler set, outside the documentation pages a response leaves with one of the four known
  cache policies, and with none that allows shared caching when the request carried credentials;
  what may not be stored carries no entity tag.
\<close>

theorem responses_to_credentials_are_not_shared:
  assumes "\<not> js_startsWith url ''/docs''"
  shows "\<exists>p. fst (cache_on_send url au v et) = JStr (CACHE_POLICIES p) \<and>
    ((\<exists>a. au = JStr a) \<longrightarrow> p \<in> {Private_policy, No_store}) \<and>
    (p = No_store \<longrightarrow> snd (cache_on_send url au v et) = None)"
proof -
  obtain p where p: "fst (cache_on_send url au v et) = JStr (CACHE_POLICIES p)"
    "\<And>a. au = JStr a \<Longrightarrow> p \<in> {Private_policy, No_store}"
    using cache_on_send_policy [OF assms] by metis
  moreover have "snd (cache_on_send url au v et) = None" if "fst (cache_on_send url au v et) = JStr (CACHE_POLICIES No_store)"
    using that assms by (simp add: cache_on_send_def Let_def)
  ultimately show ?thesis by metis
qed

theorem responses_to_credentials_are_not_shared_witness:
  "\<exists>p. fst (cache_on_send ''/api/stats'' (JStr ''StellarSignature x'') (JStr (CACHE_POLICIES Public_live)) None) =
     JStr (CACHE_POLICIES p) \<and> p \<in> {Private_policy, No_store}"
proof -
  have "\<not> js_startsWith ''/api/stats'' ''/docs''" by code_simp
  from responses_to_credentials_are_not_shared [OF this, of "JStr ''StellarSignature x''" "JStr (CACHE_POLICIES Public_live)" None]
  show ?thesis by blast
qed

text \<open>
  C30. The readiness probe answers 200 exactly when the database answers its ping in time, neither of its two
  queries fails (a missing table apart, which counts as empty), no discontinuity is recorded and uncleared,
  and the cursors pass: there is none, or the least recently updated one has not indexed a ledger yet, or
  every one was updated within the allowed time. It is not enough for 503 that some contract has fallen
  behind: while the least recently updated cursor is a cold one the answer is 200, as a cold start.
\<close>

theorem ready_means_fresh_and_unhalted:
  "(ready_status (ready_db staleAfterMs now1 now2 ping cursorFault haltFault db) = 200 \<longleftrightarrow>
     ping = Answered \<and>
     (case cursorFault of None \<Rightarrow> True | Some e \<Rightarrow> isUndefinedTable e) \<and> (case haltFault of None \<Rightarrow> True | Some e \<Rightarrow> isUndefinedTable e) \<and>
     (haltFault = None \<longrightarrow> (\<forall>h \<in> set (db_halts db). rh_cleared_at h \<noteq> None)) \<and>
     (cursorFault = None \<longrightarrow>
       (case worst_cursor db of
          None \<Rightarrow> True
        | Some r \<Rightarrow> cu_last_ledger r = None \<or> (\<forall>c \<in> set (trows (db_cursors db)). now2 - cu_updated_at c \<le> staleAfterMs)))) \<and>
   (\<forall>r. worst_cursor db = Some r \<and> cu_last_ledger r = None \<and> (\<forall>h \<in> set (db_halts db). rh_cleared_at h \<noteq> None) \<longrightarrow>
     ready_db staleAfterMs now1 now2 Answered None None db = Cold_start (cu_observed_tip_ledger r))"
  using ready_iff [of staleAfterMs now1 now2 ping cursorFault haltFault db] cold_contract_hides_stale_ones [of db]
  by (simp add: tolerated_def cursors_ready_def)

theorem ready_means_fresh_and_unhalted_witness:
  "ready_status (ready_db 120000 5000 5000 Answered None None tailing) = 200 \<and>
   ready_status (ready_db 500 5000 5000 Answered None None tailing) = 503 \<and>
   ready_db 500 5000 5000 Answered None None one_cold = Cold_start (Some 9)"
proof -
  have "worst_cursor one_cold = Some cold_cursor \<and> cu_last_ledger cold_cursor = None \<and>
      (\<forall>h \<in> set (db_halts one_cold). rh_cleared_at h \<noteq> None) \<and> cu_observed_tip_ledger cold_cursor = Some 9"
    by code_simp
  with ready_means_fresh_and_unhalted [of 500 5000 5000 Answered None None one_cold]
  have "ready_db 500 5000 5000 Answered None None one_cold = Cold_start (Some 9)" by force
  moreover have "ready_status (ready_db 120000 5000 5000 Answered None None tailing) = 200" by code_simp
  moreover have "ready_status (ready_db 500 5000 5000 Answered None None tailing) = 503" by code_simp
  ultimately show ?thesis by simp
qed



text \<open>
  C32. The rows of loans, members, proposals and interest arrive at a client exactly as they were sent, and every
  amount in them is read back with all its digits. In the member summary, whose rows Postgres
  prints, an amount of the member or of a loan is a number that can be read as an integer only while it is a safe
  integer, and then exactly; the value of its defaults is text and always exact.
\<close>

theorem amounts_survive_json:
  assumes "loan_columns (i, l)" and "member_columns m" and "proposal_columns (j, p)" and "treasury_columns (k, q)"
    and "interest_columns (n, x)"
  shows "(let body = loan_json isoTime u (loan_with_derived (i, l)) in received body = Some body \<and>
      amount_of ''amount'' body = Some (ln_amount l) \<and> amount_of ''outstanding'' body = Some (ln_outstanding l) \<and>
      amount_of ''total_repayment'' body = Some (ln_total_repayment l) \<and>
      amount_of ''interest_charge'' body = Some (ln_total_repayment l - ln_amount l) \<and>
      amount_of ''repaid_amount'' body = Some (ln_total_repayment l - ln_outstanding l)) \<and>
    (let body = member_json isoTime u (a, m) in received body = Some body \<and>
      amount_of ''contribution'' body = Some (m_contribution m) \<and> amount_of ''stake'' body = Some (m_stake m) \<and>
      amount_of ''pending_claimed'' body = Some (m_pending_claimed m) \<and> amount_of ''exit_share'' body = m_exit_share m) \<and>
    (let body = loan_proposal_json isoTime u (j, p) in received body = Some body \<and>
      amount_of ''amount'' body = Some (lp_amount p) \<and> amount_of ''total_repayment'' body = Some (lp_total_repayment p) \<and>
      amount_of ''votes_for'' body = Some (lp_votes_for p) \<and> amount_of ''votes_against'' body = Some (lp_votes_against p)) \<and>
    (let body = treasury_proposal_json isoTime u (k, q) in received body = Some body \<and>
      amount_of ''amount'' body = Some (tp_amount q) \<and>
      amount_of ''votes_for'' body = Some (tp_votes_for q) \<and> amount_of ''votes_against'' body = Some (tp_votes_against q)) \<and>
    (let body = interest_json isoTime created (n, x) in received body = Some body \<and>
      amount_of ''amount'' body = Some (idr_amount x)) \<and>
    (let summary = member_summary_json pgTime u a s; member = json_get ''member'' summary in
      amount_of ''contribution'' member = exact_if_safe (m_contribution (sm_member s)) \<and>
      amount_of ''pending_claimed'' member = exact_if_safe (m_pending_claimed (sm_member s)) \<and>
      amount_of ''stake'' member = exact_if_safe (m_stake (sm_member s)) \<and>
      amount_of ''exit_share'' member = Option.bind (m_exit_share (sm_member s)) exact_if_safe \<and>
      list_all2 (\<lambda>(_, r, _) v. amount_of ''amount'' v = exact_if_safe (ln_amount r) \<and>
          amount_of ''outstanding'' v = exact_if_safe (ln_outstanding r) \<and>
          amount_of ''total_repayment'' v = exact_if_safe (ln_total_repayment r))
        (sm_loans s) (json_elements (json_get ''loans'' summary)) \<and>
      amount_of ''defaulted_loans_value'' (json_get ''position'' summary) = Some (sm_defaulted_loans_value s))"
proof -
  obtain ld where ld: "loan_with_derived (i, l) = (i, l, ld)" by (simp add: loan_with_derived_def Let_def)
  show ?thesis
    using loan_received [OF assms(1)] loan_amounts [of isoTime u i l ld] loan_derived_amounts [of isoTime u i l]
      summary_loan_amounts [of s pgTime u a]
    by (simp add: Let_def ld member_received [OF assms(2)] loan_proposal_received [OF assms(3)]
        treasury_proposal_received [OF assms(4)] interest_received [OF assms(5)] member_amounts proposal_amounts
        treasury_amounts interest_amount summary_member_amounts summary_defaults_amount loan_amounts_if_safe_def)
qed

theorem amounts_survive_json_witness:
  "received (loan_json (\<lambda>_. ''t'') 0 (loan_with_derived (1, large_loan))) = Some (loan_json (\<lambda>_. ''t'') 0 (loan_with_derived (1, large_loan))) \<and>
   amount_of ''amount'' (loan_json (\<lambda>_. ''t'') 0 (loan_with_derived (1, large_loan))) = Some (10 ^ 39 + 1) \<and>
   amount_of ''contribution'' (json_get ''member'' (member_summary_json (\<lambda>_. ''t'') 0 ''G'' large_summary)) = None"
proof -
  have c: "loan_columns (1, large_loan)" "member_columns blank_member" "proposal_columns (1, votes_0)"
    "treasury_columns (1, treasury_0)" "interest_columns (1, interest_at 9)"
    by (simp_all add: body_examples loan_columns_def member_columns_def proposal_columns_def treasury_columns_def
        interest_columns_def interest_at_def column_int_def ledger_column_def)
  have "ln_amount large_loan = 10 ^ 39 + 1" "exact_if_safe (m_contribution (sm_member large_summary)) = None"
    by (simp_all add: body_examples large_summary_def exact_if_safe_def isSafeInteger_def)
  with amounts_survive_json [OF c, of "\<lambda>_. ''t''" 0 "''G''" _ "\<lambda>_. ''t''" large_summary] show ?thesis
    by (simp add: Let_def)
qed

section \<open>The cache\<close>

text \<open>
  C33. Readers, writers, invalidations and the clock may interleave in any way: a cached read answers
  what its query returns now, or what the query returned on a database that was current at some
  earlier moment \<open>t0\<close>, stored at a time \<open>ts\<close> less than the lifetime ago and not before the last
  invalidation of the key.
\<close>

theorem cached_answer_is_recent:
  assumes "cache_reach fetch ttl s" and "rc_get_at rc = cs_now s" and "\<forall>d. json_plain (fetch k d)"
    and "fst (getOrSetCache rc k ttl (Inr (fetch k (cs_db s))) (c, cs_redis s)) = Inr v"
  shows "v = fetch k (cs_db s) \<or>
    (\<exists>t0 ts d. v = fetch k d \<and> (t0, d) \<in> set (cs_was s) \<and> t0 \<le> ts \<and> ts \<le> cs_now s \<and>
       cs_now s < ts + 1000 * int ttl \<and> (\<forall>ti. (k, ti) \<in> set (cs_deleted s) \<longrightarrow> ti \<le> ts))"
proof (cases "v = fetch k (cs_db s)")
  case False
  with assms(4) getOrSetCache_cases [of rc k ttl "Inr (fetch k (cs_db s))" "(c, cs_redis s)"]
  have "cache_lookup rc k (cs_redis s) = Hit v" by auto
  then obtain body where t: "redis_get (cs_now s) k (cs_redis s) = Some body" "JSON_parse body = Some v"
    using assms(2) by (auto simp: cache_lookup_def split: if_splits option.splits)
  from assms(1) t(1) obtain t0 ts d where "body = JSON_stringify (fetch k d)" "(t0, d) \<in> set (cs_was s)"
    "t0 \<le> ts" "ts \<le> cs_now s" "cs_now s < ts + 1000 * int ttl" "\<And>ti. (k, ti) \<in> set (cs_deleted s) \<Longrightarrow> ti \<le> ts"
    by (rule cached_answer_origin) blast
  moreover from this(1) t(2) assms(3) have "v = fetch k d" by (simp add: JSON_parse_stringify)
  ultimately show ?thesis by blast
qed simp

theorem cached_answer_is_recent_witness:
  "\<exists>s rc. cache_reach any_members 30 s \<and> any_members (membersListCacheKey 50) (cs_db s) = JBool True \<and>
     fst (getOrSetCache rc (membersListCacheKey 50) 30 (Inr (any_members (membersListCacheKey 50) (cs_db s)))
       (\<lparr>cc_redisUrl = True, cc_client = True, cc_loggedConnectionFailure = False, cc_lines = 0\<rparr>, cs_redis s)) = Inr (JBool False) \<and>
     (\<exists>t0 ts d. JBool False = any_members (membersListCacheKey 50) d \<and> (t0, d) \<in> set (cs_was s) \<and> t0 \<le> ts \<and>
       ts \<le> cs_now s \<and> cs_now s < ts + 1000 * int 30 \<and>
       (\<forall>ti. (membersListCacheKey 50, ti) \<in> set (cs_deleted s) \<longrightarrow> ti \<le> ts))"
proof -
  let ?k = "membersListCacheKey 50" and ?c = "\<lparr>cc_redisUrl = True, cc_client = True, cc_loggedConnectionFailure = False, cc_lines = 0\<rparr>"
  obtain s where s: "cache_reach any_members 30 s" "cs_db s = db_derived db1"
    "redis_get (cs_now s) ?k (cs_redis s) = Some (JSON_stringify (any_members ?k empty_derived))"
    using stale_after_invalidation [of 30 any_members "db_derived db1" ?k empty_derived] by auto
  have l: "any_members ?k (db_derived db1) = JBool True" "any_members ?k empty_derived = JBool False" by code_simp+
  define rc where "rc = \<lparr>rc_get_at = cs_now s, rc_get_fault = None, rc_set_at = cs_now s, rc_set_fault = None\<rparr>"
  have "JSON_parse (JSON_stringify (JBool False)) = Some (JBool False)" by (rule JSON_parse_stringify) simp
  then have g: "fst (getOrSetCache rc ?k 30 (Inr (any_members ?k (cs_db s))) (?c, cs_redis s)) = Inr (JBool False)"
    using s(3) by (simp add: getOrSetCache_def getClient_def cache_lookup_def rc_def l(2))
  have "rc_get_at rc = cs_now s" "\<forall>d. json_plain (any_members ?k d)" by (simp_all add: rc_def any_members_def)
  note origin = cached_answer_is_recent [OF s(1) this g]
  have now: "any_members ?k (cs_db s) = JBool True" using l(1) s(2) by simp
  then have "JBool False \<noteq> any_members ?k (cs_db s)" by simp
  with origin now s(1) g show ?thesis by (intro exI [of _ s] exI [of _ rc]) blast
qed

text \<open>
  C34. When a page changes the member list and none of its events is a loan event, the invalidations that
  follow its commit reach every cached page of the list. If the iterations of \<open>SCAN\<close> are complete and no
  \<open>DEL\<close> fails, no page of the list is left when they have run (unless another caller stored one since
  its deletion: such races are those of C33), and no key but the member keys is touched. Failures are
  swallowed: while Redis is out of reach the run ends as well and the cache is as before, so a cached page is
  served until it expires.
\<close>

theorem member_events_invalidate_the_list:
  assumes "ingestPage scv en raws l db = (Inr es, db')" and "decode_page scv raws = Inr evs"
    and "get_members q (db_derived db') \<noteq> get_members q (db_derived db)"
    and "\<forall>ev \<in> set evs. ev_symbol ev \<notin> set loan_state_symbols"
    and "cc_redisUrl c" and "length ms = length es"
  shows "((\<forall>m \<in> set ms. scan_covers m \<and> rm_del_fault m = None) \<longrightarrow>
      (\<exists>c' rd'. run_effects (zip ms es) (c, rd) = Some (c', rd') \<and>
         (\<forall>rc n. rc_get_fault rc = None \<longrightarrow> cache_lookup rc (membersListCacheKey n) rd' = Miss) \<and>
         (\<forall>k. \<not> matches_members_list k \<and> (\<forall>a. k \<noteq> memberSummaryCacheKey a) \<longrightarrow> tget rd' k = tget rd k))) \<and>
    ((\<forall>m \<in> set ms. redis_down m) \<longrightarrow> (\<exists>c'. run_effects (zip ms es) (c, rd) = Some (c', rd)))"
proof (intro conjI impI)
  have "members (db_derived db') \<noteq> members (db_derived db)"
  proof
    assume "members (db_derived db') = members (db_derived db)"
    then have "get_members q (db_derived db') = get_members q (db_derived db)" by (simp add: get_members_def)
    with assms(3) show False ..
  qed
  from page_invalidates_the_list [OF assms(1,2) this assms(4)]
  have inv: "InvalidateMembersList \<in> snd ` set (zip ms es)" using assms(6) by (metis in_set_impl_in_set_zip2 image_eqI snd_conv)
  have zip: "fst me \<in> set ms" if "me \<in> set (zip ms es)" for me
    using set_zip_leftD [of "fst me" "snd me"] that by simp
  {
    assume "\<forall>m \<in> set ms. scan_covers m \<and> rm_del_fault m = None"
    with zip have "\<forall>me \<in> set (zip ms es). scan_covers (fst me) \<and> rm_del_fault (fst me) = None" by blast
    from run_effects_delete [OF assms(5) this, of rd] inv obtain c' rd' where
      "run_effects (zip ms es) (c, rd) = Some (c', rd')" "\<forall>k. \<not> member_key k \<longrightarrow> tget rd' k = tget rd k"
      "\<forall>k. matches_members_list k \<longrightarrow> tget rd' k = None" by blast
    then show "\<exists>c' rd'. run_effects (zip ms es) (c, rd) = Some (c', rd') \<and>
        (\<forall>rc n. rc_get_fault rc = None \<longrightarrow> cache_lookup rc (membersListCacheKey n) rd' = Miss) \<and>
        (\<forall>k. \<not> matches_members_list k \<and> (\<forall>a. k \<noteq> memberSummaryCacheKey a) \<longrightarrow> tget rd' k = tget rd k)"
      by (auto simp: cache_lookup_def redis_get_def member_key_def)
  next
    assume "\<forall>m \<in> set ms. redis_down m"
    then show "\<exists>c'. run_effects (zip ms es) (c, rd) = Some (c', rd)"
      by (intro run_effects_fault) (use zip in blast)
  }
qed

theorem member_events_invalidate_the_list_witness:
  "\<exists>es c' rd'. ingestPage wire (healthy 9) good_page 0 empty_db = (Inr es, db1) \<and>
     cache_lookup \<lparr>rc_get_at = 0, rc_get_fault = None, rc_set_at = 0, rc_set_fault = None\<rparr> (membersListCacheKey 50)
       (redis_set 0 (membersListCacheKey 50) ''[]'' 30 []) = Hit (JArr []) \<and>
     run_effects (zip (replicate (length es) (one_batch None)) es) (demo_client, redis_set 0 (membersListCacheKey 50) ''[]'' 30 []) = Some (c', rd') \<and>
     cache_lookup \<lparr>rc_get_at = 0, rc_get_fault = None, rc_set_at = 0, rc_set_fault = None\<rparr> (membersListCacheKey 50) rd' = Miss"
proof -
  let ?rc = "\<lparr>rc_get_at = 0, rc_get_fault = None, rc_set_at = 0, rc_set_fault = None\<rparr>"
  obtain es where p: "ingestPage wire (healthy 9) good_page 0 empty_db = (Inr es, db1)"
    using good_page_ingested by (cases "ingestPage wire (healthy 9) good_page 0 empty_db") (auto simp: db1_def is_ok_def split: sum.splits)
  have c: "get_members [] (db_derived db1) \<noteq> get_members [] (db_derived empty_db)" by code_simp
  have l: "\<forall>ev \<in> set good_events. ev_symbol ev \<notin> set loan_state_symbols"
  proof -
    have "list_all (\<lambda>ev. ev_symbol ev \<notin> set loan_state_symbols) good_events" by code_simp
    then show ?thesis by (simp add: list_all_iff)
  qed
  have "cc_redisUrl demo_client" by code_simp
  from member_events_invalidate_the_list [OF p decode_good_page c l this, of "replicate (length es) (one_batch None)"]
  obtain c' rd' where "run_effects (zip (replicate (length es) (one_batch None)) es)
      (demo_client, redis_set 0 (membersListCacheKey 50) ''[]'' 30 []) = Some (c', rd')"
    "cache_lookup ?rc (membersListCacheKey 50) rd' = Miss"
    by (fastforce simp: one_batch_covers)
  moreover have "cache_lookup ?rc (membersListCacheKey 50) (redis_set 0 (membersListCacheKey 50) ''[]'' 30 []) = Hit (JArr [])"
    by code_simp
  ultimately show ?thesis using p by blast
qed

section \<open>Start-up: migrations and configuration\<close>

text \<open>
  C35. Under the lock, migrations run in increasing order of their distinct versions and each exactly
  once: after success all are recorded, the schema is the result of running the pending ones
  (none on a database that has no record, where only the baseline runs), and migrating again
  runs the baseline only. A failing migration leaves the ones before it applied and recorded,
  and its own effects rolled back.
\<close>

theorem migrations_run_exactly_once:
  assumes "migrate run baseline True entries d = (r, d')" and "loadMigrationFiles entries = Inr ms"
    and "baseline (dt_schema d) = Inr s"
  shows "sorted (map mf_version ms) \<and> distinct (map mf_version ms) \<and>
    (case r of
       Inr _ \<Rightarrow>
         set (tkeys (dt_applied d')) = set (tkeys (dt_applied d)) \<union> mf_version ` set ms \<and>
         (if dt_applied d = [] then dt_schema d' = s
          else foldE run (pending (tkeys (dt_applied d)) ms) s = Inr (dt_schema d')) \<and>
         (\<forall>s'. baseline (dt_schema d') = Inr s' \<longrightarrow>
            migrate run baseline True entries d' = (Inr (), d'\<lparr>dt_schema := s'\<rparr>))
     | Inl e \<Rightarrow> dt_applied d \<noteq> [] \<and>
         (\<exists>before m after s' e'. pending (tkeys (dt_applied d)) ms = before @ m # after \<and> foldE run before s = Inr s' \<and>
            run m s' = Inl e' \<and> e = migration_error m e' \<and> dt_schema d' = s' \<and>
            set (tkeys (dt_applied d')) = set (tkeys (dt_applied d)) \<union> mf_version ` set before))"
proof -
  let ?d = "d\<lparr>dt_schema := s\<rparr>" and ?vs = "tkeys (dt_applied d)"
  note ok = loadMigrationFiles_ok [OF assms(2)]
  have run: "apply_migrations run (?vs = []) ?vs ms ?d = (r, d')"
    using assms by (cases "ms = []") (auto simp: migrate_def Let_def)
  have vs: "?vs = [] \<longleftrightarrow> dt_applied d = []" by (simp add: tkeys_def)
  show ?thesis
  proof (cases r)
    case (Inl e)
    with run apply_fresh [of run ?vs ms ?d] have ne: "?vs \<noteq> []" by auto
    with run Inl have "apply_migrations run False ?vs ms ?d = (Inl e, d')" by simp
    from apply_migrations_failed [OF this ok(2)] ne vs ok Inl show ?thesis by simp
  next
    case (Inr u)
    with run have r: "apply_migrations run (?vs = []) ?vs ms ?d = (Inr (), d')" by simp
    note fin = apply_migrations_done [OF r ok(2)]
    from fin have keys: "set (tkeys (dt_applied d')) = set ?vs \<union> mf_version ` set ms" by simp
    have "migrate run baseline True entries d' = (Inr (), d'\<lparr>dt_schema := s'\<rparr>)" if "baseline (dt_schema d') = Inr s'" for s'
      using that assms(2) keys by (auto simp: migrate_def Let_def intro!: apply_migrations_none)
    with fin vs ok Inr show ?thesis by (simp split: if_splits)
  qed
qed

theorem migrations_run_exactly_once_witness:
  "\<exists>d' :: nat list database. migrate (\<lambda>m s. Inr (s @ [mf_version m])) Inr True (Inr (Some [''0002_b.sql'', ''readme'', ''0001_a.sql'']))
      \<lparr>dt_schema = [], dt_applied = [(1, ''0001_a.sql'')]\<rparr> = (Inr (), d') \<and> dt_schema d' = [2] \<and> set (tkeys (dt_applied d')) = {1, 2}"
proof -
  let ?run = "\<lambda>m s. Inr (s @ [mf_version m]) :: exn + nat list" and ?e = "Inr (Some [''0002_b.sql'', ''readme'', ''0001_a.sql''])"
  let ?d = "\<lparr>dt_schema = [], dt_applied = [(1, ''0001_a.sql'')]\<rparr>"
  let ?ms = "[\<lparr>mf_version = 1, mf_name = ''0001_a.sql''\<rparr>, \<lparr>mf_version = 2, mf_name = ''0002_b.sql''\<rparr>]"
  have l: "loadMigrationFiles ?e = Inr ?ms" by code_simp
  have r: "fst (migrate ?run Inr True ?e ?d) = Inr ()" by code_simp
  then have m: "migrate ?run Inr True ?e ?d = (Inr (), snd (migrate ?run Inr True ?e ?d))" by (metis prod.collapse)
  from migrations_run_exactly_once [OF m l, of "[]"] show ?thesis
    using m by (auto simp: pending_def tkeys_def)
qed

section \<open>Transactions and maintenance\<close>

text \<open>
  C36. A transaction gives its connection back and is all or nothing. When it returns, the value is
  that of the body and the body's changes are committed, unless a statement inside it had failed and
  the body hid that. When it throws, nothing is committed, except that the answer to \<open>COMMIT\<close> was
  lost; an error of the body is the error thrown, whatever the roll-back does.
\<close>

theorem transaction_is_all_or_nothing:
  assumes "withTransaction env fn p = (r, p')"
  shows "pl_out p' = pl_out p \<and>
    (case r of
       Inr x \<Rightarrow> tb_result (fn (pl_db p)) = Inr x \<and>
         pl_db p' = (if tb_aborted (fn (pl_db p)) then pl_db p else tb_state (fn (pl_db p)))
     | Inl (e, cause) \<Rightarrow>
         (pl_db p' = pl_db p \<or> tx_commit env = Commit_answer_lost e \<and> pl_db p' = tb_state (fn (pl_db p))) \<and>
         (\<forall>e0 c0. tx_connect env = None \<longrightarrow> tx_begin env = None \<longrightarrow> tb_result (fn (pl_db p)) = Inl (e0, c0) \<longrightarrow> e = e0))"
  using withTransaction_releases [of env fn p] assms
  by (auto simp: withTransaction_def fail_with_def attach_cause_def release_client_def Let_def
      split: option.splits sum.splits commit_outcome.splits)

theorem transaction_is_all_or_nothing_witness:
  "\<exists>p' cause. withTransaction \<lparr>tx_connect = None, tx_begin = None, tx_commit = Committed, tx_rollback = Some (PlainError ''gone'')\<rparr>
       (\<lambda>n. \<lparr>tb_result = (Inl (PlainError ''no'', None) :: (exn \<times> exn option) + unit), tb_state = n + 1, tb_aborted = True\<rparr>)
       \<lparr>pl_db = (4 :: nat), pl_out = 2\<rparr> = (Inl (PlainError ''no'', cause), p') \<and> pl_out p' = 2 \<and> pl_db p' = 4"
proof -
  let ?env = "\<lparr>tx_connect = None, tx_begin = None, tx_commit = Committed, tx_rollback = Some (PlainError ''gone'')\<rparr>"
  let ?fn = "\<lambda>n :: nat. \<lparr>tb_result = (Inl (PlainError ''no'', None) :: (exn \<times> exn option) + unit), tb_state = n + 1, tb_aborted = True\<rparr>"
  obtain c p' where w: "withTransaction ?env ?fn \<lparr>pl_db = 4, pl_out = 2\<rparr> = (Inl (PlainError ''no'', c), p')"
    by (simp add: withTransaction_def fail_with_def attach_cause_def)
  from transaction_is_all_or_nothing [OF this] w show ?thesis by auto
qed

text \<open>
  C37. A maintenance pass, with or without faults, keeps every nonce that can still be used, every
  unresolved quarantine record and every resolved one within the retention time, and changes
  nothing else of the indexer's tables.
\<close>

theorem maintenance_keeps_what_is_in_use:
  assumes "runMaintenance me (nonces, db) = (r, nonces', db')" and "tuniq nonces"
  shows "(\<forall>n en. tget nonces n = Some en \<and> me_dbNow me < ne_expiresAt en \<longrightarrow> tget nonces' n = Some en) \<and>
    (\<forall>i f. (i, f) \<in> set (db_failed db) \<and>
       (fe_resolved_at f = None \<or> me_dbNow me - day_ms * (case me_retention me of None \<Rightarrow> 30 | Some days \<Rightarrow> days) \<le> fe_created_at f) \<longrightarrow>
       (i, f) \<in> set (db_failed db')) \<and>
    db'\<lparr>db_failed := db_failed db\<rparr> = db"
proof (intro conjI allI impI)
  fix n en assume "tget nonces n = Some en \<and> me_dbNow me < ne_expiresAt en"
  then show "tget nonces' n = Some en"
    using runMaintenance_keeps_live_nonces [of nonces n en me db] assms by simp
next
  fix i f
  have "db' = (if me_cleanup_fault me \<noteq> None then db else delete_expired_failed_events (me_dbNow me) (me_retention me) db)"
    using runMaintenance_db [of me nonces db] assms(1) by simp
  then show "db'\<lparr>db_failed := db_failed db\<rparr> = db"
    and "(i, f) \<in> set (db_failed db) \<and>
       (fe_resolved_at f = None \<or> me_dbNow me - day_ms * (case me_retention me of None \<Rightarrow> 30 | Some days \<Rightarrow> days) \<le> fe_created_at f) \<Longrightarrow>
       (i, f) \<in> set (db_failed db')"
    by (auto simp: delete_expired_failed_events_def expired_failed_def)
qed

theorem maintenance_keeps_what_is_in_use_witness:
  "\<exists>r db'. runMaintenance (maintenance_at 50) ([(''a'', \<lparr>ne_address = ''GA'', ne_expiresAt = 40\<rparr>), (''b'', \<lparr>ne_address = ''GA'', ne_expiresAt = 60\<rparr>)], db_quarantined) =
     (r, [(''b'', \<lparr>ne_address = ''GA'', ne_expiresAt = 60\<rparr>)], db') \<and> db_failed db_quarantined \<noteq> [] \<and>
     (\<forall>i f. (i, f) \<in> set (db_failed db_quarantined) \<and> fe_resolved_at f = None \<longrightarrow> (i, f) \<in> set (db_failed db'))"
proof -
  let ?nd = "([(''a'', \<lparr>ne_address = ''GA'', ne_expiresAt = 40\<rparr>), (''b'', \<lparr>ne_address = ''GA'', ne_expiresAt = 60\<rparr>)], db_quarantined)"
  obtain r n' db' where m: "runMaintenance (maintenance_at 50) ?nd = (r, n', db')" by (metis surj_pair)
  moreover have "fst (snd (runMaintenance (maintenance_at 50) ?nd)) = [(''b'', \<lparr>ne_address = ''GA'', ne_expiresAt = 60\<rparr>)]"
    by (simp add: runMaintenance_def maintenance_at_def postgres_cleanup_def Let_def)
  moreover have "db_failed db_quarantined \<noteq> []" by code_simp
  moreover have "\<forall>i f. (i, f) \<in> set (db_failed db_quarantined) \<and> fe_resolved_at f = None \<longrightarrow> (i, f) \<in> set (db_failed db')"
    using maintenance_keeps_what_is_in_use [OF m] by (simp add: tuniq_def)
  ultimately show ?thesis by auto
qed

section \<open>Processes\<close>

text \<open>
  C38. From the first signal on, every run of the worker's shutdown has at most ten steps. Unless something
  blocks it, a run to an exit exists and a run that cannot go on has exited, in particular when the indexer hangs
  in its poll: the time limit passes. What blocks it is a pass of the maintenance loop, the closing of Redis or
  the flush of spans that never ends, or a client of the pool that a hanging indexer keeps, for
  which \<open>pool.end()\<close> waits: then no run exits with code 0.
\<close>

theorem worker_shutdown_ends:
  assumes "worker_reach w" and "aborted w"
  shows "(\<not> blocked hg w \<longrightarrow> (\<exists>n w'. shutdown_run hg w n w' \<and> wk_exit w' \<noteq> None)) \<and>
    (\<forall>n w'. shutdown_run hg w n w' \<longrightarrow>
       n \<le> 10 \<and> (\<not> blocked hg w \<and> (\<nexists>w''. shutdown_step hg w' w'') \<longrightarrow> wk_exit w' \<noteq> None)) \<and>
    (blocked hg w \<and> wk_exit w = None \<longrightarrow> (\<forall>n w'. shutdown_run hg w n w' \<longrightarrow> wk_exit w' \<noteq> Some 0))"
proof (intro conjI allI impI)
  have inv: "worker_inv w" by (rule worker_reach_inv [OF assms(1)])
  show "\<not> blocked hg w \<Longrightarrow> \<exists>n w'. shutdown_run hg w n w' \<and> wk_exit w' \<noteq> None"
    by (rule shutdown_run_exists [OF inv assms(2)])
  fix n w' assume r: "shutdown_run hg w n w'"
  show "n \<le> 10" using shutdown_run_bounded [OF r] work_left_bound [OF assms(2)] by linarith
  show "wk_exit w' \<noteq> None" if "\<not> blocked hg w \<and> (\<nexists>w''. shutdown_step hg w' w'')"
    using that shutdown_run_inv [OF r inv assms(2)] shutdown_progress [of w' hg] by auto
  show "wk_exit w' \<noteq> Some 0" if "blocked hg w \<and> wk_exit w = None"
    using that blocked_never_done [OF r inv assms(2)] by blast
qed

theorem worker_shutdown_ends_witness:
  "\<exists>n w'. shutdown_run (no_hangs\<lparr>ha_indexer := True\<rparr>) (on_signal (worker_start\<lparr>wk_indexer := Ix_running\<rparr>)) n w' \<and>
     wk_exit w' \<noteq> None"
proof -
  let ?w = "worker_start\<lparr>wk_indexer := Ix_running\<rparr>"
  have "worker_reach ?w"
    by (rule worker_reach.step [where hg = no_hangs, OF worker_reach.start])
      (rule indexer_up; simp add: worker_start_def no_hangs_def)
  then have "worker_reach (on_signal ?w)"
    by (rule worker_reach.step [where hg = no_hangs]) (rule signal, simp add: worker_start_def)
  moreover have "aborted (on_signal ?w)" "\<not> blocked (no_hangs\<lparr>ha_indexer := True\<rparr>) (on_signal ?w)" by code_simp+
  ultimately show ?thesis
    using worker_shutdown_ends [of "on_signal ?w" "no_hangs\<lparr>ha_indexer := True\<rparr>"] by blast
qed

text \<open>
  C39. Every run of the process is one of the worker, and its loop, once started, is in a run that begins
  where \<open>runIndexer\<close> enters its loop. The pool is closed at most once, and after the maintenance loop has
  stopped. When it has been closed, the time limit did not pass and the signal found the loop running, that
  loop has ended, and nothing the process still does polls again.
\<close>

theorem last_poll_precedes_the_end_of_the_pool:
  assumes "(process_step scv cfg contractIds)\<^sup>*\<^sup>* process_start p"
  shows "(worker_step no_hangs)\<^sup>*\<^sup>* worker_start (pr_worker p) \<and>
    (\<forall>L. pr_loop p = Some L \<longrightarrow> (\<exists>L0. starts_loop contractIds L0 \<and> (loop_step scv cfg contractIds)\<^sup>*\<^sup>* L0 L)) \<and>
    wk_poolEnds (pr_worker p) \<le> 1 \<and> (0 < wk_poolEnds (pr_worker p) \<longrightarrow> wk_maintenance (pr_worker p) = Mt_stopped) \<and>
    (\<forall>L. pr_loop p = Some L \<and> 0 < wk_poolEnds (pr_worker p) \<and> \<not> wk_timedOut (pr_worker p) \<and> \<not> wk_stopAtOnce (pr_worker p) \<longrightarrow>
       \<not> loop_running L \<and>
       (\<forall>p'. (process_step scv cfg contractIds)\<^sup>*\<^sup>* p p' \<longrightarrow> (\<exists>L'. pr_loop p' = Some L' \<and> lo_polls L' = lo_polls L)))"
proof (intro conjI allI impI)
  have inv: "process_inv cfg contractIds p" by (rule process_sys.inv_run [OF assms process_inv_start])
  then have winv: "worker_inv (pr_worker p)" by (simp add: process_inv_def)
  show "(worker_step no_hangs)\<^sup>*\<^sup>* worker_start (pr_worker p)"
    using process_run_worker [OF assms process_inv_start] by (simp add: process_start_def)
  show "wk_poolEnds (pr_worker p) \<le> 1" using winv by (simp add: worker_inv_def)
  show "wk_maintenance (pr_worker p) = Mt_stopped" if "0 < wk_poolEnds (pr_worker p)"
    using winv that by (auto simp: worker_inv_def past_maintenance_def split: if_splits)
  fix L
  show "\<exists>L0. starts_loop contractIds L0 \<and> (loop_step scv cfg contractIds)\<^sup>*\<^sup>* L0 L" if "pr_loop p = Some L"
    by (rule process_run_loop [OF assms that])
  assume a: "pr_loop p = Some L \<and> 0 < wk_poolEnds (pr_worker p) \<and> \<not> wk_timedOut (pr_worker p) \<and> \<not> wk_stopAtOnce (pr_worker p)"
  then show e: "\<not> loop_running L" using pool_closed_after_loop [OF inv] by blast
  fix p' assume "(process_step scv cfg contractIds)\<^sup>*\<^sup>* p p'"
  then show "\<exists>L'. pr_loop p' = Some L' \<and> lo_polls L' = lo_polls L"
    using ended_loop_quiet [OF _ inv _ e] a by blast
qed

theorem last_poll_precedes_the_end_of_the_pool_witness:
  "wk_poolEnds (pr_worker process_done) = 1 \<and> pr_loop process_done = Some loop_done \<and> \<not> loop_running loop_done \<and>
   (worker_step no_hangs)\<^sup>*\<^sup>* worker_start (pr_worker process_done)"
proof -
  have "pr_loop process_done = Some loop_done" "wk_poolEnds (pr_worker process_done) = 1"
    "\<not> wk_timedOut (pr_worker process_done)" "\<not> wk_stopAtOnce (pr_worker process_done)"
    by (simp_all add: process_done_def worker_start_def)
  with last_poll_precedes_the_end_of_the_pool [OF reach_process_done] show ?thesis by simp
qed

section \<open>Repository policies\<close>

text \<open>
  C40. When \<open>branch-protection verify\<close> exits with 0 and the committed definition is valid, the rules it has read from the
  host, those of the live ruleset or else of the classic protection, ask for what the policy does: pull
  requests, at least one approval, code-owner review, all required checks, no deletion, no force push,
  nobody exempt. That they are in force is not compared: the verdict would be the same for every
  enforcement of them, a disabled ruleset included, and which branches the live ruleset targets is not looked at.
\<close>

theorem verified_repository_meets_the_policy:
  assumes "runVerify ge op h = (Inr (0, ps), h')" and "readDefinition ge (co_definitionPath op) = Inr def"
    and "validateDefinition def = []"
  shows "\<exists>repo token live classic h1 f. requireRepo op = Inr repo \<and> requireToken op = Inr token \<and>
    live_facts ge op repo token h = (Inr live, h1) \<and> classic_facts ge repo token h1 = (Inr classic, h') \<and>
    (live = Some f \<or> live = None \<and> classic = Some f) \<and> meets_floor f \<and>
    (\<forall>enforcement. describeDrift (factsFromRuleset def) (f\<lparr>pf_enforcement := enforcement\<rparr>) = [])"
proof -
  from assms(1,2) obtain repo token live classic h1 f where v: "requireRepo op = Inr repo" "requireToken op = Inr token"
    "live_facts ge op repo token h = (Inr live, h1)" "classic_facts ge repo token h1 = (Inr classic, h')"
    "live = Some f \<or> live = None \<and> classic = Some f" "describeDrift (factsFromRuleset def) f = []"
    by (rule runVerify_ok)
  then have "isFinite (pf_requiredApprovals f)" using live_facts_finite classic_facts_finite by blast
  with drift_free_keeps_floor [OF _ v(6)] validateDefinition_floor [OF assms(3)] have "meets_floor f" by simp
  with v describeDrift_enforcement show ?thesis by metis
qed

theorem verified_repository_meets_the_policy_witness:
  "\<exists>h1 h' f. live_facts (demo_env (JObj (tput ''enforcement'' (JStr ''disabled'') committed_definition))) (demo_options Verify) ''o/r'' ''t'' [] =
       (Inr (Some f), h1) \<and>
     runVerify (demo_env (JObj (tput ''enforcement'' (JStr ''disabled'') committed_definition))) (demo_options Verify) [] = (Inr (0, []), h') \<and>
     meets_floor f \<and> pf_enforcement f = ''disabled''"
proof -
  let ?live = "tput ''enforcement'' (JStr ''disabled'') committed_definition"
  let ?env = "demo_env (JObj ?live)"
  obtain h' where v: "runVerify ?env (demo_options Verify) [] = (Inr (0, []), h')" using disabled_ruleset_verifies by blast
  have "json_plain (JObj ?live)" by code_simp
  from demo_live [OF this] obtain h2 where l: "live_facts ?env (demo_options Verify) ''o/r'' ''t'' [] =
      (Inr (Some (factsFromRuleset ?live)), h2)" by blast
  have "readDefinition ?env (co_definitionPath (demo_options Verify)) = Inr committed_definition"
    using demo_definition by (simp add: demo_options_def)
  from verified_repository_meets_the_policy [OF v this committed_definition_valid] v l show ?thesis
    by (auto simp: demo_required facts_with_enforcement)
qed

end
